(* ===== verification/Prelude.thy ===== *)
theory Prelude
  imports Main "HOL-Library.Word" "HOL-Library.Multiset"
begin

text \<open>
  Shared vocabulary of the development: the byte strings and machine integers of the
  program, little-endian fields, the in-place copies of \<^verbatim>\<open>std::memcpy\<close> and the reading
  of C strings, with the lemmas every component uses.  A \<^verbatim>\<open>char\<close> of the source is the
  8-bit \<^typ>\<open>char\<close> of HOL, so \<^verbatim>\<open>std::string\<close>, \<^verbatim>\<open>std::string_view\<close> and
  \<^verbatim>\<open>std::vector<char>\<close> are all \<^typ>\<open>char list\<close>.
\<close>

section \<open>Types\<close>

type_synonym buffer_t = "char list"
type_synonym u8 = "8 word"
type_synonym u16 = "16 word"
type_synonym u32 = "32 word"
type_synonym u64 = "64 word"

named_theorems wire_simps "sizes and contents of the fields of a packet"
named_theorems handler_defs "definitions unfolded to run a handler"

abbreviation NUL :: char where
  "NUL \<equiv> CHR 0x00"

abbreviation byte :: "char \<Rightarrow> nat" where
  "byte c \<equiv> of_char c"

section \<open>Little-endian integers\<close>

primrec le_bytes :: "nat \<Rightarrow> nat \<Rightarrow> char list" where
  "le_bytes 0 v = []"
| "le_bytes (Suc n) v = char_of v # le_bytes n (v div 256)"

primrec le_nat :: "char list \<Rightarrow> nat" where
  "le_nat [] = 0"
| "le_nat (c # cs) = of_char c + 256 * le_nat cs"

lemma length_le_bytes [simp, wire_simps]: "length (le_bytes n v) = n"
  by (induction n arbitrary: v) simp_all

lemma le_nat_le_bytes [wire_simps]: "le_nat (le_bytes n v) = v mod 256 ^ n"
proof (induction n arbitrary: v)
  case (Suc n)
  have "v mod (256 * 256 ^ n) = 256 * (v div 256 mod 256 ^ n) + v mod 256"
    by (rule mod_mult2_eq)
  with Suc show ?case by simp
qed simp

lemma of_char_less: "(of_char c :: nat) < 256"
  by (metis of_char_mod_256 mod_less_divisor zero_less_numeral)

lemma char_of_cons: "char_of (of_char c + 256 * n :: nat) = c"
proof -
  have "(of_char c + 256 * n :: nat) mod 256 = of_char c"
    by (simp add: of_char_less)
  then show ?thesis by (metis char_of_mod_256 char_of_char)
qed

lemma le_bytes_le_nat: "length bs = n \<Longrightarrow> le_bytes n (le_nat bs) = bs"
  by (induction bs arbitrary: n) (auto simp: char_of_cons of_char_less)

lemma le_nat_less: "le_nat bs < 256 ^ length bs"
proof (induction bs)
  case (Cons c cs)
  have "(of_char c :: nat) + 256 * le_nat cs < 256 * (1 + le_nat cs)"
    using of_char_less [of c] by simp
  also have "\<dots> \<le> 256 * 256 ^ length cs"
    using Cons by simp
  finally show ?case by simp
qed simp

section \<open>Copies into a buffer\<close>

text \<open>
  \<open>blit old off new\<close> is \<^verbatim>\<open>memcpy(old.data() + off, new.data(), new.size())\<close>; the
  bytes around the window stay.
\<close>

definition blit :: "char list \<Rightarrow> nat \<Rightarrow> char list \<Rightarrow> char list" where
  "blit old off new = take off old @ new @ drop (off + length new) old"

lemma length_blit [simp, wire_simps]:
  "off + length new \<le> length old \<Longrightarrow> length (blit old off new) = length old"
  by (simp add: blit_def)

lemma take_blit [wire_simps]:
  "n \<le> off \<Longrightarrow> off \<le> length old \<Longrightarrow> take n (blit old off new) = take n old"
  by (simp add: blit_def)

lemma drop_blit_at [wire_simps]:
  "off \<le> length old \<Longrightarrow> drop off (blit old off new) = new @ drop (off + length new) old"
  by (simp add: blit_def)

lemma drop_blit_beyond:
  "off + length new \<le> k \<Longrightarrow> off \<le> length old \<Longrightarrow> drop k (blit old off new) = drop k old"
  by (simp add: blit_def)

section \<open>C strings\<close>

text \<open>
  A \<^verbatim>\<open>char[n]\<close> read as a C string: the bytes before the first NUL.  With no NUL in the
  array the read leaves it, which is undefined; the model says so with \<^term>\<open>None\<close>.
\<close>

definition c_string :: "char list \<Rightarrow> string option" where
  "c_string bs = (if NUL \<in> set bs then Some (takeWhile (\<lambda>c. c \<noteq> NUL) bs) else None)"

lemma c_string_None_iff: "c_string bs = None \<longleftrightarrow> NUL \<notin> set bs"
  by (simp add: c_string_def)

lemma c_string_append_NUL [wire_simps]:
  "NUL \<notin> set s \<Longrightarrow> c_string (s @ NUL # rest) = Some s"
proof -
  assume "NUL \<notin> set s"
  then have "takeWhile (\<lambda>c. c \<noteq> NUL) (s @ NUL # rest) = s"
    by (subst takeWhile_append2) auto
  then show ?thesis by (simp add: c_string_def)
qed

lemma c_string_replicate [wire_simps]:
  "NUL \<notin> set s \<Longrightarrow> 0 < n \<Longrightarrow> c_string (s @ replicate n NUL) = Some s"
  by (cases n) (simp_all add: c_string_append_NUL)

lemma c_string_no_NUL: "c_string bs = Some s \<Longrightarrow> NUL \<notin> set s"
  by (auto simp: c_string_def split: if_splits dest: set_takeWhileD)

section \<open>Ordered maps\<close>

text \<open>
  A \<^verbatim>\<open>std::map\<close> is the list of its entries in key order; \<^verbatim>\<open>emplace\<close> leaves an existing
  entry alone.
\<close>

primrec smap_emplace :: "'k::linorder \<Rightarrow> 'v \<Rightarrow> ('k \<times> 'v) list \<Rightarrow> ('k \<times> 'v) list" where
  "smap_emplace k v [] = [(k, v)]"
| "smap_emplace k v (e # es) =
     (if k < fst e then (k, v) # e # es
      else if k = fst e then e # es
      else e # smap_emplace k v es)"

definition smap_erase :: "'k \<Rightarrow> ('k \<times> 'v) list \<Rightarrow> ('k \<times> 'v) list" where
  "smap_erase k m = filter (\<lambda>e. fst e \<noteq> k) m"

definition smap_ok :: "('k::linorder \<times> 'v) list \<Rightarrow> bool" where
  "smap_ok m \<longleftrightarrow> sorted_wrt (<) (map fst m)"

lemma smap_ok_Nil [simp]: "smap_ok []"
  by (simp add: smap_ok_def)

lemma map_of_less_None: "\<forall>e \<in> set m. k < fst e \<Longrightarrow> map_of m (k :: 'k::linorder) = None"
  by (auto simp: map_of_eq_None_iff)

lemma map_of_smap_emplace:
  "smap_ok m \<Longrightarrow>
    map_of (smap_emplace k v m) = (if map_of m k = None then (map_of m)(k \<mapsto> v) else map_of m)"
proof (induction m)
  case (Cons e es)
  obtain k' v' where e: "e = (k', v')" by fastforce
  show ?case
  proof (cases "k < k'")
    case True
    then have "map_of es k = None"
      using Cons.prems by (intro map_of_less_None) (auto simp: smap_ok_def e)
    with True show ?thesis by (auto simp: e fun_eq_iff)
  next
    case False
    then show ?thesis
      using Cons by (auto simp: e smap_ok_def fun_eq_iff)
  qed
qed auto

lemma set_smap_emplace: "set (smap_emplace k v m) \<subseteq> insert (k, v) (set m)"
  by (induction m) auto

lemma smap_ok_emplace: "smap_ok m \<Longrightarrow> smap_ok (smap_emplace k v m)"
proof (induction m)
  case (Cons e es)
  have "fst x \<in> insert k (fst ` set es)" if "x \<in> set (smap_emplace k v es)" for x
    using that set_smap_emplace [of k v es] by auto
  with Cons show ?case by (fastforce simp: smap_ok_def)
qed (simp add: smap_ok_def)

lemma map_of_filter_keys: "map_of (filter (\<lambda>e. fst e \<noteq> k) xs) = (map_of xs)(k := None)"
  by (induction xs) (auto simp: fun_eq_iff)

lemma map_of_smap_erase [simp]: "map_of (smap_erase k m) = (map_of m)(k := None)"
  by (induction m) (auto simp: smap_erase_def fun_eq_iff)

lemma smap_ok_erase: "smap_ok m \<Longrightarrow> smap_ok (smap_erase k m)"
  unfolding smap_ok_def smap_erase_def
  by (induction m) (auto simp: sorted_wrt_append)

lemma smap_ok_distinct: "smap_ok m \<Longrightarrow> distinct (map fst m)"
  by (simp add: smap_ok_def strict_sorted_iff)

lemma set_smap_emplace_old: "set m \<subseteq> set (smap_emplace k v m)"
  by (induction m) auto

lemma set_smap_erase: "set (smap_erase k m) \<subseteq> set m"
  by (auto simp: smap_erase_def)

end
