(* ===== verification/Packet.thy ===== *)
theory Packet
  imports Prelude
begin

text \<open>
  The wire format of \<^verbatim>\<open>src/core/types.hpp\<close> and \<^verbatim>\<open>src/tcp/core/core.{hpp,cpp}\<close>: the
  packed header in front of every message body and the function that lays a packet out.
\<close>

section \<open>The header\<close>

text \<open>
  \<^verbatim>\<open>packet_header_t\<close> has the members \<^verbatim>\<open>sign\<close> (8 bytes), \<^verbatim>\<open>size\<close> (4 bytes) and
  \<^verbatim>\<open>type\<close> (16 bytes).  Its alignment is 8, so \<^verbatim>\<open>sizeof\<close> is 32: four bytes of padding
  follow \<^verbatim>\<open>type\<close>.  The code moves the struct as raw bytes, little endian on the platforms
  it is built for.
\<close>

record packet_header =
  ph_sign :: u64
  ph_size :: u32
  ph_type :: "char list"

definition sizeof_type :: nat where
  "sizeof_type = 16"

definition sizeof_header :: nat where
  "sizeof_header = 32"

text \<open>\<^verbatim>\<open>header_packet\<close>: the first bytes of a buffer reinterpreted as a header.\<close>

definition header_packet :: "buffer_t \<Rightarrow> packet_header" where
  "header_packet bs =
     \<lparr>ph_sign = of_nat (le_nat (take 8 bs)),
      ph_size = of_nat (le_nat (take 4 (drop 8 bs))),
      ph_type = take sizeof_type (drop 12 bs)\<rparr>"

section \<open>Building a packet\<close>

definition create_packet :: "string \<Rightarrow> buffer_t \<Rightarrow> buffer_t" where
  "create_packet cmd buff =
     (if buff \<noteq> [] then
        if length cmd < sizeof_type then
          let packet = replicate (length buff + sizeof_header) NUL;
              packet = blit packet 8 (le_bytes 4 (unat (of_nat (length buff) :: u32)));
              packet = blit packet 12 cmd;
              packet = blit packet sizeof_header buff
          in packet
        else []
      else [])"

section \<open>Layout of a packet\<close>

lemmas packet_sizes = sizeof_type_def sizeof_header_def

lemma create_packet_reject:
  "buff = [] \<or> sizeof_type \<le> length cmd \<Longrightarrow> create_packet cmd buff = []"
  by (auto simp: create_packet_def)

lemma create_packet_layout:
  assumes "buff \<noteq> []" "length cmd < sizeof_type"
  shows "create_packet cmd buff =
    replicate 8 NUL @ le_bytes 4 (unat (of_nat (length buff) :: u32)) @ cmd
      @ replicate (20 - length cmd) NUL @ buff"
proof -
  have "create_packet cmd buff = blit (blit (blit (replicate (length buff + 32) NUL) 8
      (le_bytes 4 (unat (of_nat (length buff) :: u32)))) 12 cmd) 32 buff"
    using assms by (simp add: create_packet_def packet_sizes)
  then show ?thesis
    using assms by (simp add: blit_def packet_sizes)
qed

lemma length_create_packet [wire_simps]:
  "buff \<noteq> [] \<Longrightarrow> length cmd < sizeof_type \<Longrightarrow>
    length (create_packet cmd buff) = sizeof_header + length buff"
  by (simp add: create_packet_layout packet_sizes)

lemma drop_create_packet [wire_simps]:
  "buff \<noteq> [] \<Longrightarrow> length cmd < sizeof_type \<Longrightarrow>
    drop sizeof_header (create_packet cmd buff) = buff"
  by (simp add: create_packet_layout packet_sizes)

lemma take_create_packet:
  "buff \<noteq> [] \<Longrightarrow> length cmd < sizeof_type \<Longrightarrow>
    take sizeof_header (create_packet cmd buff) =
      replicate 8 NUL @ le_bytes 4 (unat (of_nat (length buff) :: u32)) @ cmd
        @ replicate (20 - length cmd) NUL"
  by (simp add: create_packet_layout packet_sizes)

lemma le_nat_zeros: "le_nat (replicate n NUL) = 0"
  by (induction n) simp_all

lemma header_packet_take: "header_packet (take sizeof_header bs) = header_packet bs"
  by (simp add: header_packet_def drop_take min_def packet_sizes)

lemma header_create_packet [wire_simps]:
  assumes "buff \<noteq> []" "length cmd < sizeof_type"
  shows "header_packet (create_packet cmd buff) =
    \<lparr>ph_sign = 0, ph_size = of_nat (length buff),
     ph_type = cmd @ replicate (sizeof_type - length cmd) NUL\<rparr>"
proof -
  have "(of_nat (le_nat (le_bytes 4 (unat (of_nat (length buff) :: u32)))) :: u32)
      = of_nat (length buff)"
  proof -
    have "unat (of_nat (length buff) :: u32) mod 2 ^ 32 = unat (of_nat (length buff) :: u32)"
      by (simp add: unat_of_nat)
    then show ?thesis by (simp add: le_nat_le_bytes)
  qed
  moreover have "take 16 (cmd @ replicate (20 - length cmd) NUL @ buff)
      = cmd @ replicate (16 - length cmd) NUL"
    using assms by (simp add: min_def packet_sizes)
  ultimately show ?thesis
    using assms by (simp add: create_packet_layout header_packet_def le_nat_zeros packet_sizes)
qed

lemma header_size_small:
  "length buff < 2 ^ 32 \<Longrightarrow> unat (of_nat (length buff) :: u32) = length buff"
  by (simp add: unat_of_nat)

lemma header_command [wire_simps]:
  "buff \<noteq> [] \<Longrightarrow> length cmd < sizeof_type \<Longrightarrow> NUL \<notin> set cmd \<Longrightarrow>
    c_string (ph_type (header_packet (take sizeof_header (create_packet cmd buff)))) = Some cmd"
  unfolding header_packet_take by (simp add: header_create_packet c_string_replicate)

section \<open>Properties\<close>

text \<open>No packet is built when the body is empty or the command, with its terminating
  NUL, does not fit the 16 bytes of the header's type; otherwise the packet is exactly one
  header longer than the body.\<close>

theorem create_packet_length:
  "length (create_packet cmd buff) =
    (if buff = [] \<or> sizeof_type \<le> length cmd then 0 else sizeof_header + length buff)"
  by (auto simp: create_packet_reject length_create_packet)

text \<open>C14: the receiver's view of a packet gives back what the sender put in: the type field
  read as a C string is the command, the size field is the length of the body, the sign is
  zero, and the bytes behind the header are the body.\<close>

theorem packet_roundtrip:
  assumes "buff \<noteq> []" "length cmd < sizeof_type" "NUL \<notin> set cmd" "length buff < 2 ^ 32"
  shows "c_string (ph_type (header_packet (create_packet cmd buff))) = Some cmd \<and>
    unat (ph_size (header_packet (create_packet cmd buff))) = length buff \<and>
    ph_sign (header_packet (create_packet cmd buff)) = 0 \<and>
    drop sizeof_header (create_packet cmd buff) = buff"
  using assms
  by (simp_all add: header_create_packet drop_create_packet
      c_string_replicate header_size_small)

theorem packet_roundtrip_witness:
  "unat (ph_size (header_packet (create_packet ''ping'' ''{}''))) = 2 \<and>
   c_string (ph_type (header_packet (create_packet ''ping'' ''{}''))) = Some ''ping''"
  using packet_roundtrip [of "''{}''" "''ping''"] by (simp add: packet_sizes)

text \<open>The size field keeps the body's length modulo \<open>2 ^ 32\<close> only
  (\<^verbatim>\<open>static_cast<uint32_t>\<close>), so a body of that length or more is announced shorter
  than it is sent.\<close>

theorem packet_size_truncated:
  assumes "2 ^ 32 \<le> length buff" "length cmd < sizeof_type"
  shows "unat (ph_size (header_packet (create_packet cmd buff))) = length buff mod 2 ^ 32 \<and>
    unat (ph_size (header_packet (create_packet cmd buff))) + sizeof_header
      < length (create_packet cmd buff)"
proof -
  have ne: "buff \<noteq> []" using assms(1) by auto
  have len: "length (create_packet cmd buff) = sizeof_header + length buff"
    using ne assms(2) by (rule length_create_packet)
  have eq: "unat (ph_size (header_packet (create_packet cmd buff))) = length buff mod 2 ^ 32"
    using ne assms(2) by (simp add: header_create_packet unat_of_nat)
  have "length buff mod 2 ^ 32 < length buff"
    using assms(1) by (meson mod_less_divisor order_less_le_trans zero_less_numeral zero_less_power)
  then show ?thesis
    unfolding eq len by simp
qed

theorem packet_size_truncated_witness:
  "unat (ph_size (header_packet (create_packet ''login'' (replicate (2 ^ 32 + 5) NUL)))) = 5"
  using packet_size_truncated [of "replicate (2 ^ 32 + 5) NUL" "''login''"] by (simp add: packet_sizes)

end
