(* ===== verification/Tcp_Core.thy ===== *)
theory Tcp_Core
  imports Packet
begin

text \<open>
  \<^verbatim>\<open>src/tcp/core/core.{hpp,cpp}\<close> besides the packet layout: the status enumerations, the
  mapping of Winsock errors to \<^verbatim>\<open>errno\<close>, the state every connection end keeps
  (\<^verbatim>\<open>client_base\<close>) and its sending operation.  The development models the Windows build
  (the first argument of \<^verbatim>\<open>_CROSS_PLATFORM_\<close>): it is the one the repository ships, and the
  other branch of \<^verbatim>\<open>server_client::recv\<close> names a variable that does not exist.

  Operations on the operating system are recorded as values of \<open>syscall\<close>, in the order the
  code makes them; what the system answers is an argument of the operation.
\<close>

section \<open>Status enumerations\<close>

datatype server_status =
  Srv_up | Srv_init_error | Srv_bind_error | Srv_keep_alive_error | Srv_listening_error | Srv_close

datatype client_status =
  Cl_connected | Cl_init_error | Cl_bind_error | Cl_connect_error | Cl_disconnected

datatype socket_type = Sock_client | Sock_server

section \<open>System calls\<close>

type_synonym socket_t = u64

definition INVALID_SOCKET :: socket_t where
  "INVALID_SOCKET = - 1"

datatype syscall =
    Sys_send socket_t buffer_t
  | Sys_shutdown socket_t
  | Sys_closesocket socket_t
  | Sys_socket
  | Sys_reuseaddr socket_t
  | Sys_bind socket_t u16
  | Sys_listen socket_t
  | Sys_keepalive socket_t bool
  | Sys_keepalive_vals socket_t u32 u32 u32
  | Sys_getaddrinfo string string
  | Sys_connect socket_t

section \<open>Errors\<close>

datatype wsa_error =
    WSA_OK | WSAEINTR | WSAEINVAL | WSA_INVALID_HANDLE | WSA_NOT_ENOUGH_MEMORY
  | WSA_INVALID_PARAMETER | WSAENAMETOOLONG | WSAENOTEMPTY | WSAEWOULDBLOCK | WSAEINPROGRESS
  | WSAEALREADY | WSAENOTSOCK | WSAEDESTADDRREQ | WSAEMSGSIZE | WSAEPROTOTYPE | WSAENOPROTOOPT
  | WSAEPROTONOSUPPORT | WSAEOPNOTSUPP | WSAEAFNOSUPPORT | WSAEADDRINUSE | WSAEADDRNOTAVAIL
  | WSAENETDOWN | WSAENETUNREACH | WSAENETRESET | WSAECONNABORTED | WSAECONNRESET | WSAENOBUFS
  | WSAEISCONN | WSAENOTCONN | WSAETIMEDOUT | WSAECONNREFUSED | WSAELOOP | WSAEHOSTUNREACH
  | WSA_other int

datatype errno =
    E_OK | EINTR | EINVAL | EBADF | ENOMEM | ENAMETOOLONG | ENOTEMPTY | EAGAIN | EINPROGRESS
  | EALREADY | ENOTSOCK | EDESTADDRREQ | EMSGSIZE | EPROTOTYPE | ENOPROTOOPT | EPROTONOSUPPORT
  | EOPNOTSUPP | EAFNOSUPPORT | EADDRINUSE | EADDRNOTAVAIL | ENETDOWN | ENETUNREACH | ENETRESET
  | ECONNABORTED | ECONNRESET | ENOBUFS | EISCONN | ENOTCONN | ETIMEDOUT | ECONNREFUSED | ELOOP
  | EHOSTUNREACH | EIO | EPIPE | E_other int

fun get_last_error :: "wsa_error \<Rightarrow> errno" where
  "get_last_error WSA_OK = E_OK"
| "get_last_error WSAEINTR = EINTR"
| "get_last_error WSAEINVAL = EINVAL"
| "get_last_error WSA_INVALID_HANDLE = EBADF"
| "get_last_error WSA_NOT_ENOUGH_MEMORY = ENOMEM"
| "get_last_error WSA_INVALID_PARAMETER = EINVAL"
| "get_last_error WSAENAMETOOLONG = ENAMETOOLONG"
| "get_last_error WSAENOTEMPTY = ENOTEMPTY"
| "get_last_error WSAEWOULDBLOCK = EAGAIN"
| "get_last_error WSAEINPROGRESS = EINPROGRESS"
| "get_last_error WSAEALREADY = EALREADY"
| "get_last_error WSAENOTSOCK = ENOTSOCK"
| "get_last_error WSAEDESTADDRREQ = EDESTADDRREQ"
| "get_last_error WSAEMSGSIZE = EMSGSIZE"
| "get_last_error WSAEPROTOTYPE = EPROTOTYPE"
| "get_last_error WSAENOPROTOOPT = ENOPROTOOPT"
| "get_last_error WSAEPROTONOSUPPORT = EPROTONOSUPPORT"
| "get_last_error WSAEOPNOTSUPP = EOPNOTSUPP"
| "get_last_error WSAEAFNOSUPPORT = EAFNOSUPPORT"
| "get_last_error WSAEADDRINUSE = EADDRINUSE"
| "get_last_error WSAEADDRNOTAVAIL = EADDRNOTAVAIL"
| "get_last_error WSAENETDOWN = ENETDOWN"
| "get_last_error WSAENETUNREACH = ENETUNREACH"
| "get_last_error WSAENETRESET = ENETRESET"
| "get_last_error WSAECONNABORTED = ECONNABORTED"
| "get_last_error WSAECONNRESET = ECONNRESET"
| "get_last_error WSAENOBUFS = ENOBUFS"
| "get_last_error WSAEISCONN = EISCONN"
| "get_last_error WSAENOTCONN = ENOTCONN"
| "get_last_error WSAETIMEDOUT = ETIMEDOUT"
| "get_last_error WSAECONNREFUSED = ECONNREFUSED"
| "get_last_error WSAELOOP = ELOOP"
| "get_last_error WSAEHOSTUNREACH = EHOSTUNREACH"
| "get_last_error (WSA_other n) = EIO"

lemma get_last_error_OK_iff: "get_last_error w = E_OK \<longleftrightarrow> w = WSA_OK"
  by (cases w) simp_all

lemma get_last_error_EAGAIN_iff: "get_last_error w = EAGAIN \<longleftrightarrow> w = WSAEWOULDBLOCK"
  by (cases w) simp_all

lemma get_last_error_not_EPIPE: "get_last_error w \<noteq> EPIPE"
  by (cases w) simp_all

section \<open>The state of a connection end\<close>

record sockaddr_in =
  sin_addr :: u32
  sin_port :: u16

record client_base =
  cb_socket :: socket_t
  cb_address :: sockaddr_in
  cb_id :: string
  cb_type :: socket_type
  cb_status :: client_status

definition cb_host :: "client_base \<Rightarrow> u32" where
  "cb_host c = sin_addr (cb_address c)"

definition cb_port :: "client_base \<Rightarrow> u16" where
  "cb_port c = sin_port (cb_address c)"

text \<open>
  \<^verbatim>\<open>client_base::send\<close>.  \<open>os\<close> is the value \<^verbatim>\<open>::send\<close> returns for a socket and the bytes
  handed to it; only its sign is looked at, so a short write counts as a success.
\<close>

definition client_send ::
  "(socket_t \<Rightarrow> buffer_t \<Rightarrow> int) \<Rightarrow> client_base \<Rightarrow> string \<Rightarrow> buffer_t \<Rightarrow> bool \<times> syscall list" where
  "client_send os c cmd buff =
     (if buff \<noteq> [] then
        let packet = create_packet cmd buff in
        if packet \<noteq> [] then (os (cb_socket c) packet \<ge> 0, [Sys_send (cb_socket c) packet])
        else (False, [])
      else (False, []))"

lemma create_packet_nonempty:
  "buff \<noteq> [] \<Longrightarrow> length cmd < sizeof_type \<Longrightarrow> create_packet cmd buff \<noteq> []"
  by (simp add: create_packet_layout)

lemma client_send_rejected:
  "buff = [] \<or> sizeof_type \<le> length cmd \<Longrightarrow> client_send os c cmd buff = (False, [])"
  by (auto simp: client_send_def create_packet_reject Let_def)

lemma client_send_sent:
  "buff \<noteq> [] \<Longrightarrow> length cmd < sizeof_type \<Longrightarrow>
    client_send os c cmd buff =
      (os (cb_socket c) (create_packet cmd buff) \<ge> 0, [Sys_send (cb_socket c) (create_packet cmd buff)])"
  using create_packet_nonempty by (simp add: client_send_def Let_def)

text \<open>Sending makes one \<^verbatim>\<open>::send\<close> call, with the packet of exactly this command and
  body, when the body is not empty and the command fits; otherwise it touches no socket and
  reports failure.\<close>

theorem client_send_effect:
  "client_send os c cmd buff =
    (if buff = [] \<or> sizeof_type \<le> length cmd then (False, [])
     else (0 \<le> os (cb_socket c) (create_packet cmd buff),
           [Sys_send (cb_socket c) (create_packet cmd buff)]))"
  by (simp add: client_send_rejected client_send_sent)

end
