(* ===== verification/Receive.thy ===== *)
theory Receive
  imports Tcp_Core
begin

text \<open>
  The receiving half of a connection: \<^verbatim>\<open>server_client\<close> of \<^verbatim>\<open>src/tcp/server/server.cpp\<close>
  (constructor, destructor, \<^verbatim>\<open>disconnect\<close>, \<^verbatim>\<open>recv\<close>) and \<^verbatim>\<open>client::recv\<close> of
  \<^verbatim>\<open>src/tcp/client/client.cpp\<close>.

  \<^verbatim>\<open>::recv\<close> belongs to the operating system and is a parameter: a function from the number
  of bytes asked for and the state of the connection to a result and the next state.  The
  locale \<open>stream_socket\<close> states what a stream socket promises; \<open>seg_recv\<close> is the instance
  that delivers a list of segments, used to run the code on concrete traffic.
\<close>

section \<open>The socket interface\<close>

text \<open>
  A call returns some bytes (none at the end of the stream) or fails.  A failure carries what
  the code asks for afterwards: \<^verbatim>\<open>WSAGetLastError\<close>, the \<^verbatim>\<open>SO_ERROR\<close> option, and whether
  switching the socket back to blocking mode fails.
\<close>

datatype recv_result =
    Received "char list"
  | Recv_error (re_last: wsa_error) (re_so: errno) (re_ioctl_fails: bool)

type_synonym 'c os_recv = "nat \<Rightarrow> 'c \<Rightarrow> recv_result \<times> 'c"

datatype segment = Data "char list" | Fault wsa_error errno bool

fun seg_recv :: "segment list os_recv" where
  "seg_recv n [] = (Received [], [])"
| "seg_recv n (Data bs # es) =
     (Received (take n bs), if length bs \<le> n then es else Data (drop n bs) # es)"
| "seg_recv n (Fault w so io # es) = (Recv_error w so io, es)"

fun seg_pending :: "segment list \<Rightarrow> char list" where
  "seg_pending [] = []"
| "seg_pending (Data bs # es) = bs @ seg_pending es"
| "seg_pending (Fault w so io # es) = seg_pending es"

section \<open>Reading one message\<close>

text \<open>\<^verbatim>\<open>std::vector<char>::resize\<close>: new elements are value-initialised.\<close>

definition resize :: "nat \<Rightarrow> buffer_t \<Rightarrow> buffer_t" where
  "resize n b = take n b @ replicate (n - length b) NUL"

text \<open>
  What both \<^verbatim>\<open>recv\<close> functions do after the header: nothing more for a size of zero,
  otherwise one \<^verbatim>\<open>::recv\<close> of that many bytes into the resized buffer.  Any result but
  \<^verbatim>\<open>-1\<close> is taken for a complete body.
\<close>

definition recv_body ::
  "'c os_recv \<Rightarrow> buffer_t \<Rightarrow> buffer_t \<Rightarrow> 'c \<Rightarrow> bool \<times> buffer_t \<times> 'c" where
  "recv_body rcv hdr buff conn =
     (let size = unat (ph_size (header_packet hdr)) in
      if size = 0 then (False, buff, conn)
      else
        let buff = resize size buff in
        (case rcv size conn of
           (Received bs, conn) \<Rightarrow> (True, blit buff 0 bs, conn)
         | (Recv_error w so io, conn) \<Rightarrow> (False, buff, conn)))"

section \<open>The client's receive\<close>

text \<open>
  \<open>hdr\<close> is the content of the uninitialised local \<^verbatim>\<open>_header\<close>.  The test \<^verbatim>\<open>if (_res)\<close> lets
  an error (\<^verbatim>\<open>-1\<close>) through to the body.
\<close>

definition client_recv ::
  "'c os_recv \<Rightarrow> buffer_t \<Rightarrow> buffer_t \<Rightarrow> 'c \<Rightarrow> bool \<times> buffer_t \<times> buffer_t \<times> 'c" where
  "client_recv rcv hdr buff conn =
     (case rcv sizeof_header conn of
        (Received bs, conn) \<Rightarrow>
          if bs \<noteq> [] then
            let hdr = blit hdr 0 bs; (ok, buff, conn) = recv_body rcv hdr buff conn
            in (ok, hdr, buff, conn)
          else (False, hdr, buff, conn)
      | (Recv_error w so io, conn) \<Rightarrow>
          let (ok, buff, conn) = recv_body rcv hdr buff conn in (ok, hdr, buff, conn))"

section \<open>The server's end of a connection\<close>

definition server_client :: "socket_t \<Rightarrow> sockaddr_in \<Rightarrow> client_base" where
  "server_client socket address =
     \<lparr>cb_socket = socket, cb_address = address, cb_id = [], cb_type = Sock_client,
      cb_status = Cl_connected\<rparr>"

definition server_client_destroy :: "client_base \<Rightarrow> syscall list" where
  "server_client_destroy c =
     (if cb_socket c = INVALID_SOCKET then []
      else [Sys_shutdown (cb_socket c), Sys_closesocket (cb_socket c)])"

definition sc_disconnect :: "client_base \<Rightarrow> client_base \<times> syscall list" where
  "sc_disconnect c =
     (let c = c\<lparr>cb_status := Cl_disconnected\<rparr> in
      if cb_socket c = INVALID_SOCKET then (c, [])
      else (c\<lparr>cb_socket := INVALID_SOCKET\<rparr>,
            [Sys_shutdown (cb_socket c), Sys_closesocket (cb_socket c)]))"

record 'c recv_state =
  rs_client :: client_base
  rs_header :: buffer_t
  rs_buff :: buffer_t
  rs_conn :: 'c
  rs_calls :: "syscall list"

definition rs_disconnect :: "'c recv_state \<Rightarrow> 'c recv_state" where
  "rs_disconnect s =
     (let (c, calls) = sc_disconnect (rs_client s)
      in s\<lparr>rs_client := c, rs_calls := rs_calls s @ calls\<rparr>)"

definition rs_body :: "'c os_recv \<Rightarrow> 'c recv_state \<Rightarrow> bool \<times> 'c recv_state" where
  "rs_body rcv s =
     (let (ok, buff, conn) = recv_body rcv (rs_header s) (rs_buff s) (rs_conn s)
      in (ok, s\<lparr>rs_buff := buff, rs_conn := conn\<rparr>))"

text \<open>
  The \<^verbatim>\<open>switch\<close> over the error code: \<^verbatim>\<open>case 0\<close> leaves it and goes on to the body with
  the header as it is; \<^verbatim>\<open>ETIMEDOUT\<close>, \<^verbatim>\<open>ECONNRESET\<close> and \<^verbatim>\<open>EPIPE\<close> have no \<^verbatim>\<open>break\<close> and fall
  through to the second \<^verbatim>\<open>disconnect\<close>.
\<close>

definition sc_recv :: "'c os_recv \<Rightarrow> 'c recv_state \<Rightarrow> bool \<times> 'c recv_state" where
  "sc_recv rcv s =
     (case rcv sizeof_header (rs_conn s) of
        (Received bs, conn) \<Rightarrow>
          let s = s\<lparr>rs_conn := conn\<rparr> in
          if bs = [] then (False, rs_disconnect s)
          else rs_body rcv (s\<lparr>rs_header := blit (rs_header s) 0 bs\<rparr>)
      | (Recv_error w so ioctl_fails, conn) \<Rightarrow>
          let s = s\<lparr>rs_conn := conn\<rparr>;
              err = get_last_error w;
              err = (if err = E_OK then so else err) in
          if ioctl_fails then (False, s)
          else (case err of
                  E_OK \<Rightarrow> rs_body rcv s
                | EAGAIN \<Rightarrow> (False, s)
                | ETIMEDOUT \<Rightarrow> (False, rs_disconnect (rs_disconnect s))
                | ECONNRESET \<Rightarrow> (False, rs_disconnect (rs_disconnect s))
                | EPIPE \<Rightarrow> (False, rs_disconnect (rs_disconnect s))
                | _ \<Rightarrow> (False, rs_disconnect s)))"

section \<open>What a stream socket promises\<close>

locale stream_socket =
  fixes rcv :: "'c os_recv"
    and pending :: "'c \<Rightarrow> char list"
  assumes recv_length: "rcv n c = (Received bs, c') \<Longrightarrow> length bs \<le> n"
    and recv_stream: "rcv n c = (Received bs, c') \<Longrightarrow> pending c = bs @ pending c'"
    and recv_keeps: "rcv n c = (Recv_error w so io, c') \<Longrightarrow> pending c' = pending c"

lemma seg_recv_cases:
  "seg_recv n c = (r, c') \<Longrightarrow>
    (c = [] \<and> r = Received [] \<and> c' = []) \<or>
    (\<exists>bs es. c = Data bs # es \<and> r = Received (take n bs) \<and>
       c' = (if length bs \<le> n then es else Data (drop n bs) # es)) \<or>
    (\<exists>w so io. c = Fault w so io # c' \<and> r = Recv_error w so io)"
  by (cases "(n, c)" rule: seg_recv.cases) auto

interpretation seg: stream_socket seg_recv seg_pending
proof
  fix n c bs c'
  assume r: "seg_recv n c = (Received bs, c')"
  from seg_recv_cases [OF r] show "length bs \<le> n" by auto
  from seg_recv_cases [OF r] show "seg_pending c = bs @ seg_pending c'" by auto
next
  fix n c w so io c'
  assume "seg_recv n c = (Recv_error w so io, c')"
  from seg_recv_cases [OF this] show "seg_pending c' = seg_pending c" by auto
qed

lemma length_resize [simp]: "length (resize n b) = n"
  by (simp add: resize_def)

lemma resize_Nil [simp]: "resize n [] = replicate n NUL"
  by (simp add: resize_def)

lemma blit_whole: "length bs = length old \<Longrightarrow> blit old 0 bs = bs"
  by (simp add: blit_def)

lemma blit_padding:
  "length bs \<le> n \<Longrightarrow> blit (replicate n NUL) 0 bs = bs @ replicate (n - length bs) NUL"
  by (simp add: blit_def)

context stream_socket
begin

text \<open>A successful body read consumes a prefix of the stream and pads it to the announced size.\<close>

lemma body_ok:
  assumes "recv_body rcv hdr [] c = (True, buff, c')"
  shows "\<exists>bs. pending c = bs @ pending c' \<and>
    length bs \<le> unat (ph_size (header_packet hdr)) \<and>
    buff = bs @ replicate (unat (ph_size (header_packet hdr)) - length bs) NUL"
  using assms
  by (auto simp: recv_body_def Let_def blit_padding recv_length
      dest: recv_length recv_stream split: if_splits prod.splits recv_result.splits)

lemma body_full:
  assumes "unat (ph_size (header_packet hdr)) = length b" "b \<noteq> []"
    and "rcv (length b) c = (Received b, c')"
  shows "recv_body rcv hdr buff c = (True, b, c')"
  using assms by (simp add: recv_body_def Let_def blit_whole)

lemma message:
  assumes stream: "pending c = create_packet cmd body @ rest"
    and pkt: "body \<noteq> []" "length cmd < sizeof_type" "length body < 2 ^ 32"
    and hdr: "length hdr = sizeof_header"
    and r1: "rcv sizeof_header c = (Received h, c1)" "length h = sizeof_header"
    and r2: "rcv (length body) c1 = (Received b, c2)" "length b = length body"
  shows "h = take sizeof_header (create_packet cmd body)"
    and "recv_body rcv (blit hdr 0 h) buff c1 = (True, body, c2)"
    and "pending c2 = rest"
proof -
  have len: "length (create_packet cmd body) = sizeof_header + length body"
    using pkt by (simp add: length_create_packet)
  have "create_packet cmd body @ rest = h @ b @ pending c2"
    using recv_stream [OF r1(1)] recv_stream [OF r2(1)] stream by simp
  then have split: "create_packet cmd body = h @ b" "rest = pending c2"
    using len r1(2) r2(2) by (simp_all add: append_eq_append_conv append_assoc [symmetric]
        del: append_assoc)
  from split r1(2) show h: "h = take sizeof_header (create_packet cmd body)" by simp
  have "drop sizeof_header (create_packet cmd body) = b"
    using split r1(2) by simp
  then have b: "b = body"
    using pkt by (simp add: drop_create_packet)
  have size: "unat (ph_size (header_packet h)) = length body"
    using pkt by (simp add: h header_packet_take header_create_packet header_size_small)
  show "recv_body rcv (blit hdr 0 h) buff c1 = (True, body, c2)"
    using size pkt r1(2) r2(1) hdr b by (simp add: blit_whole body_full)
  show "pending c2 = rest" using split by simp
qed

end

section \<open>Whole messages\<close>

lemma sc_recv_received:
  "rcv sizeof_header (rs_conn s) = (Received bs, c) \<Longrightarrow> bs \<noteq> [] \<Longrightarrow>
    sc_recv rcv s = rs_body rcv (s\<lparr>rs_conn := c, rs_header := blit (rs_header s) 0 bs\<rparr>)"
  by (simp add: sc_recv_def Let_def)

lemma sc_recv_closed:
  "rcv sizeof_header (rs_conn s) = (Received [], c) \<Longrightarrow>
    sc_recv rcv s = (False, rs_disconnect (s\<lparr>rs_conn := c\<rparr>))"
  by (simp add: sc_recv_def Let_def)

lemma rs_body_frame:
  "rs_body rcv s = (ok, s') \<Longrightarrow> rs_client s' = rs_client s \<and> rs_calls s' = rs_calls s"
  by (auto simp: rs_body_def split: prod.splits)

lemma header_nonempty: "length h = sizeof_header \<Longrightarrow> h \<noteq> []"
  by (auto simp: packet_sizes)

text \<open>C16: when the stream holds a packet and both system calls deliver all the bytes they
  are asked for, the client's \<^verbatim>\<open>recv\<close> returns exactly the body and the header of that packet
  and leaves the stream at the next one.\<close>

theorem client_recv_whole_packet:
  assumes "stream_socket rcv pending" "pending c = create_packet cmd body @ rest"
    and "body \<noteq> []" "length cmd < sizeof_type" "length body < 2 ^ 32"
    and "length hdr = sizeof_header"
    and "rcv sizeof_header c = (Received h, c1)" "length h = sizeof_header"
    and "rcv (length body) c1 = (Received b, c2)" "length b = length body"
  shows "client_recv rcv hdr buff c = (True, take sizeof_header (create_packet cmd body), body, c2)
    \<and> pending c2 = rest"
  using stream_socket.message [OF assms] assms(6,7,8) header_nonempty [OF assms(8)]
  by (simp add: client_recv_def blit_whole)

theorem client_recv_whole_packet_witness:
  "client_recv seg_recv (replicate 32 (CHR ''x'')) []
     [Data (take 32 (create_packet ''ping'' ''{}'')), Data ''{}'', Data ''rest'']
   = (True, take sizeof_header (create_packet ''ping'' ''{}''), ''{}'', [Data ''rest''])"
proof -
  have len: "length (create_packet ''ping'' ''{}'') = 34"
    by (simp add: length_create_packet packet_sizes)
  have "create_packet ''ping'' ''{}'' = take 32 (create_packet ''ping'' ''{}'') @ ''{}''"
    using drop_create_packet [of "''{}''" "''ping''"]
      append_take_drop_id [of 32 "create_packet ''ping'' ''{}''"]
    by (simp add: packet_sizes)
  then show ?thesis
    using client_recv_whole_packet [OF seg.stream_socket_axioms,
        of "[Data (take 32 (create_packet ''ping'' ''{}'')), Data ''{}'', Data ''rest'']"
        "''ping''" "''{}''" "''rest''" "replicate 32 (CHR ''x'')"
        "take 32 (create_packet ''ping'' ''{}'')" "[Data ''{}'', Data ''rest'']"
        "''{}''" "[Data ''rest'']" "[]"] len
    by (simp add: packet_sizes)
qed

text \<open>The server's \<^verbatim>\<open>recv\<close> does the same, and neither touches the socket nor changes the
  connection's state while it succeeds.\<close>

theorem server_recv_whole_packet:
  assumes "stream_socket rcv pending" "pending (rs_conn s) = create_packet cmd body @ rest"
    and "body \<noteq> []" "length cmd < sizeof_type" "length body < 2 ^ 32"
    and "length (rs_header s) = sizeof_header"
    and "rcv sizeof_header (rs_conn s) = (Received h, c1)" "length h = sizeof_header"
    and "rcv (length body) c1 = (Received b, c2)" "length b = length body"
  shows "sc_recv rcv s =
      (True, s\<lparr>rs_header := take sizeof_header (create_packet cmd body),
               rs_buff := body, rs_conn := c2\<rparr>)
    \<and> pending c2 = rest"
  using stream_socket.message [OF assms] assms(6,7,8) header_nonempty [OF assms(8)]
  by (simp add: sc_recv_received rs_body_def blit_whole)

definition rs_start :: "socket_t \<Rightarrow> 'c \<Rightarrow> 'c recv_state" where
  "rs_start sock conn =
     \<lparr>rs_client = server_client sock \<lparr>sin_addr = 0, sin_port = 0\<rparr>,
      rs_header = replicate sizeof_header NUL, rs_buff = [], rs_conn = conn, rs_calls = []\<rparr>"

theorem server_recv_whole_packet_witness:
  "fst (sc_recv seg_recv (rs_start 7
     [Data (take 32 (create_packet ''ping'' ''{}'')), Data ''{}'']))"
proof -
  have len: "length (create_packet ''ping'' ''{}'') = 34"
    by (simp add: length_create_packet packet_sizes)
  have "create_packet ''ping'' ''{}'' = take 32 (create_packet ''ping'' ''{}'') @ ''{}''"
    using drop_create_packet [of "''{}''" "''ping''"]
      append_take_drop_id [of 32 "create_packet ''ping'' ''{}''"]
    by (simp add: packet_sizes)
  then show ?thesis
    using server_recv_whole_packet [OF seg.stream_socket_axioms,
        of "rs_start 7 [Data (take 32 (create_packet ''ping'' ''{}'')), Data ''{}'']"
        "''ping''" "''{}''" "[]" "take 32 (create_packet ''ping'' ''{}'')" "[Data ''{}'']"
        "''{}''" "[]"] len
    by (simp add: packet_sizes rs_start_def)
qed

section \<open>Short reads\<close>

text \<open>A body that arrives in pieces is not waited for.  Whenever the server's \<^verbatim>\<open>recv\<close>
  reports success on an empty buffer, what it hands on is the bytes of one \<^verbatim>\<open>::recv\<close> padded
  with NULs to the announced size; the missing bytes stay in the stream, where the next call
  reads them as a header.\<close>

theorem server_recv_short_body:
  assumes "stream_socket rcv pending" "rs_buff s = []"
    and "rcv sizeof_header (rs_conn s) = (Received h, c1)"
    and "sc_recv rcv s = (True, s')"
  shows "\<exists>bs. pending c1 = bs @ pending (rs_conn s') \<and>
    length (rs_buff s') = unat (ph_size (header_packet (rs_header s'))) \<and>
    rs_buff s' = bs @ replicate (length (rs_buff s') - length bs) NUL"
proof -
  have "h \<noteq> []" using assms(3,4) by (auto simp: sc_recv_closed)
  then have eq: "sc_recv rcv s = rs_body rcv (s\<lparr>rs_conn := c1, rs_header := blit (rs_header s) 0 h\<rparr>)"
    using assms(3) by (rule sc_recv_received [rotated])
  then obtain buff c2 where "recv_body rcv (blit (rs_header s) 0 h) [] c1 = (True, buff, c2)"
    and "s' = s\<lparr>rs_header := blit (rs_header s) 0 h, rs_buff := buff, rs_conn := c2\<rparr>"
    using assms(2,4) by (auto simp: rs_body_def split: prod.splits)
  with stream_socket.body_ok [OF assms(1) this(1)] show ?thesis by auto
qed

text \<open>The same bytes as before, cut one byte short of the end of the body.\<close>

theorem server_recv_short_body_witness:
  "\<exists>bs. ''{}'' = bs @ seg_pending [Data ''}''] \<and> (''{'' @ [NUL]) = bs @ [NUL] \<and>
    sc_recv seg_recv (rs_start 7 [Data (take 32 (create_packet ''ping'' ''{}'')), Data ''{'', Data ''}''])
    = (True, (rs_start 7 [Data ''}''])
        \<lparr>rs_header := take 32 (create_packet ''ping'' ''{}''), rs_buff := ''{'' @ [NUL]\<rparr>)"
proof -
  let ?p = "create_packet ''ping'' ''{}''"
  let ?s = "rs_start 7 [Data (take 32 ?p), Data ''{'', Data ''}'']"
  have len: "length (take 32 ?p) = 32"
    by (simp add: length_create_packet packet_sizes)
  have size: "unat (ph_size (header_packet (take 32 ?p))) = 2"
    using header_packet_take [of ?p] by (simp add: packet_sizes header_create_packet)
  have ne: "take 32 ?p \<noteq> []" using len by auto
  have run: "sc_recv seg_recv ?s = (True, (rs_start 7 [Data ''}''])
        \<lparr>rs_header := take 32 ?p, rs_buff := ''{'' @ [NUL]\<rparr>)"
    using len ne size
    by (simp add: sc_recv_def rs_body_def recv_body_def rs_start_def packet_sizes blit_whole
        blit_def numeral_2_eq_2)
  show ?thesis
    using server_recv_short_body [OF seg.stream_socket_axioms, of ?s, OF _ _ run] run len
    by (simp add: rs_start_def packet_sizes)
qed

section \<open>Failed reads\<close>

lemma rs_disconnect_twice [simp]: "rs_disconnect (rs_disconnect s) = rs_disconnect s"
  by (simp add: rs_disconnect_def sc_disconnect_def Let_def)

lemma sc_recv_error:
  "rcv sizeof_header (rs_conn s) = (Recv_error w so io, c) \<Longrightarrow>
    sc_recv rcv s =
     (let s = s\<lparr>rs_conn := c\<rparr>; err = (if get_last_error w = E_OK then so else get_last_error w)
      in if io then (False, s) else if err = E_OK then rs_body rcv s
         else if err = EAGAIN then (False, s) else (False, rs_disconnect s))"
  by (simp add: sc_recv_def Let_def split: errno.splits)

text \<open>What a failed header read does.  The connection survives when the socket cannot
  be switched back to blocking mode and when the error is \<^verbatim>\<open>WSAEWOULDBLOCK\<close>; with no error
  code from either source the body is read as if the header had arrived; every other error
  disconnects.\<close>

theorem server_recv_failure:
  assumes "rcv sizeof_header (rs_conn s) = (Recv_error w so ioctl_fails, c)"
  shows "sc_recv rcv s =
    (if ioctl_fails \<or> w = WSAEWOULDBLOCK \<or> (w = WSA_OK \<and> so = EAGAIN)
       then (False, s\<lparr>rs_conn := c\<rparr>)
     else if w = WSA_OK \<and> so = E_OK then rs_body rcv (s\<lparr>rs_conn := c\<rparr>)
     else (False, rs_disconnect (s\<lparr>rs_conn := c\<rparr>)))"
  using assms
  by (auto simp: sc_recv_error Let_def get_last_error_OK_iff get_last_error_EAGAIN_iff)

theorem server_recv_failure_witness:
  "sc_recv seg_recv (rs_start 7 [Fault WSAECONNRESET E_OK False])
    = (False, rs_disconnect (rs_start 7 []))"
  using server_recv_failure [of seg_recv "rs_start 7 [Fault WSAECONNRESET E_OK False]"
      WSAECONNRESET E_OK False "[]"]
  by (simp add: rs_start_def)

text \<open>The client's \<^verbatim>\<open>recv\<close> takes an error for data: its test \<^verbatim>\<open>if (_res)\<close> is also true
  for \<^verbatim>\<open>-1\<close>, so the outcome is decided by whatever the uninitialised header holds.\<close>

theorem client_recv_error_reads_stale_header:
  assumes "rcv sizeof_header c = (Recv_error w so io, c1)"
    and "unat (ph_size (header_packet hdr)) = n" "0 < n"
    and "rcv n c1 = (Received bs, c2)"
  shows "client_recv rcv hdr buff c = (True, hdr, blit (resize n buff) 0 bs, c2)"
  using assms by (simp add: client_recv_def recv_body_def Let_def)

text \<open>The header of an earlier message is still there, so its two bytes of body are read.\<close>

theorem client_recv_error_reads_stale_header_witness:
  "client_recv seg_recv (take sizeof_header (create_packet ''ping'' ''{}'')) []
     [Fault WSAECONNRESET E_OK False, Data ''abc''] =
   (True, take sizeof_header (create_packet ''ping'' ''{}''), ''ab'', [Data ''c''])"
proof -
  have "unat (ph_size (header_packet (take sizeof_header (create_packet ''ping'' ''{}'')))) = 2"
    unfolding header_packet_take by (simp add: header_create_packet packet_sizes)
  then show ?thesis
    using client_recv_error_reads_stale_header [of seg_recv
        "[Fault WSAECONNRESET E_OK False, Data ''abc'']" WSAECONNRESET E_OK False "[Data ''abc'']"
        "take sizeof_header (create_packet ''ping'' ''{}'')" 2 "''ab''" "[Data ''c'']" "[]"]
    by (simp add: blit_def numeral_2_eq_2)
qed

section \<open>A socket is closed once\<close>

text \<open>
  Either the socket is still the one the connection was made for and nothing was called on
  it, or it was shut down and closed and its number forgotten.
\<close>

definition sc_inv :: "socket_t \<Rightarrow> 'c recv_state \<Rightarrow> bool" where
  "sc_inv sock s \<longleftrightarrow>
     (cb_socket (rs_client s) = sock \<and> rs_calls s = []) \<or>
     (cb_socket (rs_client s) = INVALID_SOCKET \<and> cb_status (rs_client s) = Cl_disconnected \<and>
      rs_calls s = [Sys_shutdown sock, Sys_closesocket sock])"

lemma sc_inv_start: "sc_inv sock (rs_start sock conn)"
  by (simp add: sc_inv_def rs_start_def server_client_def)

lemma sc_inv_frame:
  "rs_client s' = rs_client s \<Longrightarrow> rs_calls s' = rs_calls s \<Longrightarrow> sc_inv sock s' = sc_inv sock s"
  by (simp add: sc_inv_def)

lemma sc_inv_disconnect:
  "sock \<noteq> INVALID_SOCKET \<Longrightarrow> sc_inv sock s \<Longrightarrow> sc_inv sock (rs_disconnect s)"
  by (auto simp: sc_inv_def rs_disconnect_def sc_disconnect_def Let_def)

lemma rs_disconnect_fields [simp]:
  "rs_client (rs_disconnect s) = fst (sc_disconnect (rs_client s))"
  "rs_calls (rs_disconnect s) = rs_calls s @ snd (sc_disconnect (rs_client s))"
  by (simp_all add: rs_disconnect_def split: prod.split)

lemma sc_recv_shape:
  "sc_recv rcv s = (ok, s') \<Longrightarrow>
    (rs_client s' = rs_client s \<and> rs_calls s' = rs_calls s) \<or>
    (rs_client s' = rs_client (rs_disconnect s) \<and> rs_calls s' = rs_calls (rs_disconnect s))"
  by (cases "rcv sizeof_header (rs_conn s)"; cases "fst (rcv sizeof_header (rs_conn s))")
    (auto simp: sc_recv_def Let_def dest!: rs_body_frame split: if_splits errno.splits)

lemma sc_inv_recv:
  assumes "sock \<noteq> INVALID_SOCKET" "sc_inv sock s"
  shows "sc_inv sock (snd (sc_recv rcv s))"
proof -
  obtain ok s' where eq: "sc_recv rcv s = (ok, s')" by fastforce
  from sc_recv_shape [OF eq] show ?thesis
    using sc_inv_disconnect [OF assms] assms(2) sc_inv_frame eq by (metis snd_conv)
qed

lemma sc_inv_runs:
  "sock \<noteq> INVALID_SOCKET \<Longrightarrow> sc_inv sock s \<Longrightarrow> sc_inv sock (((snd \<circ> sc_recv rcv) ^^ n) s)"
  by (induction n) (simp_all add: sc_inv_recv)

text \<open>Over the whole life of a server-side connection, however many messages it reads
  and however the reads fail, the socket is shut down once and closed once: by
  \<^verbatim>\<open>disconnect\<close> or by the destructor, never by both.\<close>

theorem server_client_closes_once:
  assumes "sock \<noteq> INVALID_SOCKET"
  shows "rs_calls (((snd \<circ> sc_recv rcv) ^^ n) (rs_start sock conn)) @
      server_client_destroy (rs_client (((snd \<circ> sc_recv rcv) ^^ n) (rs_start sock conn)))
    = [Sys_shutdown sock, Sys_closesocket sock]"
proof -
  have "sc_inv sock (((snd \<circ> sc_recv rcv) ^^ n) (rs_start sock conn))"
    using assms sc_inv_start by (rule sc_inv_runs)
  then show ?thesis
    using assms by (auto simp: sc_inv_def server_client_destroy_def)
qed

theorem server_client_closes_once_witness:
  "rs_calls (((snd \<circ> sc_recv seg_recv) ^^ 2) (rs_start 7 [])) @
      server_client_destroy (rs_client (((snd \<circ> sc_recv seg_recv) ^^ 2) (rs_start 7 [])))
    = [Sys_shutdown 7, Sys_closesocket 7]"
  by (rule server_client_closes_once) (simp add: INVALID_SOCKET_def)

end
