(* ===== verification/Tagged_Tuple.thy ===== *)
theory Tagged_Tuple
  imports Prelude
begin

text \<open>
  The schemaless message values of \<^verbatim>\<open>contrib/google/tagged_tuple.hpp\<close>: a
  \<^verbatim>\<open>tagged_tuple<member<"tag", T>...>\<close> is a list of members, each a compile-time tag with
  a value.  The messages use two member types, \<^verbatim>\<open>std::uint64_t\<close> and \<^verbatim>\<open>std::string\<close>.  The
  template machinery (tags as types, overload selection, reference tuples) has no run-time
  counterpart; what is kept is what it computes: the default value of every member, the
  access by tag and the visit of the members in order.
\<close>

datatype member_type = T_u64 | T_string

datatype field = F_u64 u64 | F_string string

type_synonym members = "(string \<times> member_type) list"
type_synonym tagged_tuple = "(string \<times> field) list"

fun field_type :: "field \<Rightarrow> member_type" where
  "field_type (F_u64 n) = T_u64"
| "field_type (F_string s) = T_string"

text \<open>\<^verbatim>\<open>default_init<T>\<close> is \<^verbatim>\<open>T{}\<close>.\<close>

fun default_init :: "member_type \<Rightarrow> field" where
  "default_init T_u64 = F_u64 0"
| "default_init T_string = F_string []"

text \<open>\<^verbatim>\<open>tagged_tuple()\<close>: every member takes its default.\<close>

definition tuple_default :: "members \<Rightarrow> tagged_tuple" where
  "tuple_default ms = map (\<lambda>(k, t). (k, default_init t)) ms"

text \<open>
  \<^verbatim>\<open>operator[]\<close>, read and assigned through.  Access to a tag that is not a member, or with
  a value of the wrong type, does not compile; the model gives it the default value and
  leaves the tuple unchanged.
\<close>

definition get_u64 :: "tagged_tuple \<Rightarrow> string \<Rightarrow> u64" where
  "get_u64 t k = (case map_of t k of Some (F_u64 n) \<Rightarrow> n | _ \<Rightarrow> 0)"

definition get_string :: "tagged_tuple \<Rightarrow> string \<Rightarrow> string" where
  "get_string t k = (case map_of t k of Some (F_string s) \<Rightarrow> s | _ \<Rightarrow> [])"

definition tuple_set :: "string \<Rightarrow> field \<Rightarrow> tagged_tuple \<Rightarrow> tagged_tuple" where
  "tuple_set k v t =
     map (\<lambda>(k', v'). if k' = k \<and> field_type v' = field_type v then (k', v) else (k', v')) t"

definition set_u64 :: "string \<Rightarrow> u64 \<Rightarrow> tagged_tuple \<Rightarrow> tagged_tuple" where
  "set_u64 k n = tuple_set k (F_u64 n)"

definition set_string :: "string \<Rightarrow> string \<Rightarrow> tagged_tuple \<Rightarrow> tagged_tuple" where
  "set_string k s = tuple_set k (F_string s)"

text \<open>
  A \<^verbatim>\<open>std::string\<close> member assigned from a \<^verbatim>\<open>std::uint64_t\<close>: the only viable
  \<^verbatim>\<open>operator=\<close> takes a \<^verbatim>\<open>char\<close>, so the string becomes the one character with the number's
  low byte.
\<close>

definition set_string_from_u64 :: "string \<Rightarrow> u64 \<Rightarrow> tagged_tuple \<Rightarrow> tagged_tuple" where
  "set_string_from_u64 k n = set_string k [char_of (unat n)]"

text \<open>\<^verbatim>\<open>for_each\<close>: the function is applied to the members in declaration order.\<close>

definition for_each :: "(string \<Rightarrow> field \<Rightarrow> 'a \<Rightarrow> 'a) \<Rightarrow> tagged_tuple \<Rightarrow> 'a \<Rightarrow> 'a" where
  "for_each f t a = foldl (\<lambda>a (k, v). f k v a) a t"

section \<open>Types of tuples\<close>

definition tuple_type :: "tagged_tuple \<Rightarrow> members" where
  "tuple_type t = map (\<lambda>(k, v). (k, field_type v)) t"

lemma default_init_type [simp]: "field_type (default_init t) = t"
  by (cases t) simp_all

lemma tuple_type_default [simp]: "tuple_type (tuple_default ms) = ms"
  by (induction ms) (auto simp: tuple_type_def tuple_default_def)

lemma tuple_type_set [simp]: "tuple_type (tuple_set k v t) = tuple_type t"
  by (induction t) (auto simp: tuple_type_def tuple_set_def)

lemma tuple_type_setters [simp]:
  "tuple_type (set_u64 k n t) = tuple_type t"
  "tuple_type (set_string k s t) = tuple_type t"
  "tuple_type (set_string_from_u64 k n t) = tuple_type t"
  by (simp_all add: set_u64_def set_string_def set_string_from_u64_def)

lemma keys_tuple_type: "map fst (tuple_type t) = map fst t"
  by (induction t) (auto simp: tuple_type_def)

lemma map_of_tuple_type: "map_of (tuple_type t) k = map_option field_type (map_of t k)"
  by (induction t) (auto simp: tuple_type_def)

lemma map_of_tuple_set_same:
  "map_of (tuple_type t) k = Some (field_type v) \<Longrightarrow> map_of (tuple_set k v t) k = Some v"
proof (induction t)
  case (Cons p t)
  then show ?case by (cases p) (auto simp: tuple_set_def tuple_type_def split: if_splits)
qed (simp add: tuple_type_def)

lemma map_of_tuple_set_other: "k' \<noteq> k \<Longrightarrow> map_of (tuple_set k v t) k' = map_of t k'"
  by (induction t) (auto simp: tuple_set_def)

lemma get_set [simp]:
  "map_of (tuple_type t) k = Some T_u64 \<Longrightarrow> get_u64 (set_u64 k n t) k = n"
  "map_of (tuple_type t) k = Some T_string \<Longrightarrow> get_string (set_string k s t) k = s"
  by (simp_all add: get_u64_def get_string_def set_u64_def set_string_def map_of_tuple_set_same)

lemma get_set_other [simp]:
  "k' \<noteq> k \<Longrightarrow> get_u64 (set_u64 k n t) k' = get_u64 t k'"
  "k' \<noteq> k \<Longrightarrow> get_u64 (set_string k s t) k' = get_u64 t k'"
  "k' \<noteq> k \<Longrightarrow> get_string (set_u64 k n t) k' = get_string t k'"
  "k' \<noteq> k \<Longrightarrow> get_string (set_string k s t) k' = get_string t k'"
  by (simp_all add: get_u64_def get_string_def set_u64_def set_string_def map_of_tuple_set_other)

section \<open>Strings of a tuple\<close>

text \<open>
  Well-formed UTF-8, as RFC 3629 defines it: what the JSON library demands of every string
  it prints and guarantees of every string it parses.
\<close>

definition utf8_cont :: "char \<Rightarrow> bool" where
  "utf8_cont c \<longleftrightarrow> 0x80 \<le> byte c \<and> byte c \<le> 0xBF"

definition utf8_lead2 :: "char \<Rightarrow> char \<Rightarrow> bool" where
  "utf8_lead2 a b \<longleftrightarrow> 0xC2 \<le> byte a \<and> byte a \<le> 0xDF \<and> utf8_cont b"

definition utf8_lead3 :: "char \<Rightarrow> char \<Rightarrow> char \<Rightarrow> bool" where
  "utf8_lead3 a b c \<longleftrightarrow> utf8_cont c \<and>
     ((byte a = 0xE0 \<and> 0xA0 \<le> byte b \<and> byte b \<le> 0xBF) \<or>
      (0xE1 \<le> byte a \<and> byte a \<le> 0xEF \<and> byte a \<noteq> 0xED \<and> utf8_cont b) \<or>
      (byte a = 0xED \<and> 0x80 \<le> byte b \<and> byte b \<le> 0x9F))"

definition utf8_lead4 :: "char \<Rightarrow> char \<Rightarrow> char \<Rightarrow> char \<Rightarrow> bool" where
  "utf8_lead4 a b c d \<longleftrightarrow> utf8_cont c \<and> utf8_cont d \<and>
     ((byte a = 0xF0 \<and> 0x90 \<le> byte b \<and> byte b \<le> 0xBF) \<or>
      (0xF1 \<le> byte a \<and> byte a \<le> 0xF3 \<and> utf8_cont b) \<or>
      (byte a = 0xF4 \<and> 0x80 \<le> byte b \<and> byte b \<le> 0x8F))"

fun utf8_valid :: "string \<Rightarrow> bool" where
  "utf8_valid [] = True"
| "utf8_valid (a # cs) =
     (if byte a < 0x80 then utf8_valid cs
      else (case cs of
              [] \<Rightarrow> False
            | b # cs2 \<Rightarrow>
                if utf8_lead2 a b then utf8_valid cs2
                else (case cs2 of
                        [] \<Rightarrow> False
                      | c # cs3 \<Rightarrow>
                          if utf8_lead3 a b c then utf8_valid cs3
                          else (case cs3 of
                                  [] \<Rightarrow> False
                                | d # cs4 \<Rightarrow> utf8_lead4 a b c d \<and> utf8_valid cs4))))"

lemma utf8_ascii: "(\<And>c. c \<in> set s \<Longrightarrow> byte c < 0x80) \<Longrightarrow> utf8_valid s"
  by (induction s) auto

lemma utf8_single: "utf8_valid [c] \<longleftrightarrow> byte c < 0x80"
  by simp

fun field_utf8 :: "field \<Rightarrow> bool" where
  "field_utf8 (F_u64 n) = True"
| "field_utf8 (F_string s) = utf8_valid s"

definition tuple_utf8 :: "tagged_tuple \<Rightarrow> bool" where
  "tuple_utf8 t \<longleftrightarrow> (\<forall>f \<in> set (map snd t). field_utf8 f)"

lemma tuple_utf8_default [simp]: "tuple_utf8 (tuple_default ms)"
proof -
  have "field_utf8 (default_init t)" for t by (cases t) simp_all
  then show ?thesis by (auto simp: tuple_utf8_def tuple_default_def)
qed

lemma tuple_utf8_set: "tuple_utf8 t \<Longrightarrow> field_utf8 v \<Longrightarrow> tuple_utf8 (tuple_set k v t)"
  by (induction t) (auto simp: tuple_utf8_def tuple_set_def)

lemma tuple_utf8_setters [simp]:
  "tuple_utf8 t \<Longrightarrow> tuple_utf8 (set_u64 k n t)"
  "tuple_utf8 t \<Longrightarrow> utf8_valid s \<Longrightarrow> tuple_utf8 (set_string k s t)"
  by (simp_all add: tuple_utf8_set set_u64_def set_string_def)

lemma tuple_utf8_get: "tuple_utf8 t \<Longrightarrow> utf8_valid (get_string t k)"
  by (auto simp: tuple_utf8_def get_string_def dest!: map_of_SomeD split: option.splits field.splits)

end
