(* ===== verification/Json.thy ===== *)
theory Json
  imports Tagged_Tuple
begin

text \<open>
  Messages as JSON: \<^verbatim>\<open>contrib/google/tagged_json.hpp\<close> and
  \<^verbatim>\<open>src/messages/json/packer.hpp\<close>.  The JSON values themselves are \<^verbatim>\<open>nlohmann::json\<close>,
  a package the repository does not contain: its operations are the record \<open>json_ops\<close>,
  an argument of every definition, and the locale \<open>nlohmann\<close> states the documented
  behaviour the code relies on.  \<open>Json_Text\<close> gives an instance.
\<close>

section \<open>The JSON library\<close>

datatype json_error =
    Json_parse_error | Json_type_error | Json_out_of_range | Json_invalid_utf8

text \<open>
  \<^verbatim>\<open>j_null\<close> is the default-constructed value; \<open>j_put\<close> is \<^verbatim>\<open>j[key] = value\<close>, which makes
  an object of null; \<open>j_of_u64\<close> and \<open>j_of_string\<close> are the conversions to JSON and \<open>j_get_u64\<close>,
  \<open>j_get_string\<close> the \<^verbatim>\<open>get<T>()\<close> of the two member types.
\<close>

record 'j json_ops =
  j_null :: 'j
  j_of_u64 :: "u64 \<Rightarrow> 'j"
  j_of_string :: "string \<Rightarrow> 'j"
  j_put :: "string \<Rightarrow> 'j \<Rightarrow> 'j \<Rightarrow> 'j"
  j_contains :: "'j \<Rightarrow> string \<Rightarrow> bool"
  j_at :: "'j \<Rightarrow> string \<Rightarrow> json_error + 'j"
  j_get_u64 :: "'j \<Rightarrow> json_error + u64"
  j_get_string :: "'j \<Rightarrow> json_error + string"
  j_parse :: "buffer_t \<Rightarrow> json_error + 'j"
  j_dump :: "'j \<Rightarrow> json_error + buffer_t"

fun json_of_field :: "'j json_ops \<Rightarrow> field \<Rightarrow> 'j" where
  "json_of_field J (F_u64 n) = j_of_u64 J n"
| "json_of_field J (F_string s) = j_of_string J s"

fun json_get_as :: "'j json_ops \<Rightarrow> member_type \<Rightarrow> 'j \<Rightarrow> json_error + field" where
  "json_get_as J T_u64 j = map_sum id F_u64 (j_get_u64 J j)"
| "json_get_as J T_string j = map_sum id F_string (j_get_string J j)"

section \<open>Packing and unpacking\<close>

text \<open>
  \<^verbatim>\<open>adl_serializer::get_from_json\<close>.  Both member types are default constructible, so
  \<^verbatim>\<open>has_default_init()\<close> is true for every member of every message: a key that is absent
  gives the default value, only a present one of the wrong type throws.
\<close>

definition get_from_json :: "'j json_ops \<Rightarrow> 'j \<Rightarrow> string \<times> member_type \<Rightarrow> json_error + string \<times> field" where
  "get_from_json J j m =
     (case m of (k, t) \<Rightarrow>
        if j_contains J j k then
          (case j_at J j k of
             Inl e \<Rightarrow> Inl e
           | Inr v \<Rightarrow> (case json_get_as J t v of Inl e \<Rightarrow> Inl e | Inr f \<Rightarrow> Inr (k, f)))
        else Inr (k, default_init t))"

primrec from_json :: "'j json_ops \<Rightarrow> 'j \<Rightarrow> members \<Rightarrow> json_error + tagged_tuple" where
  "from_json J j [] = Inr []"
| "from_json J j (m # ms) =
     (case get_from_json J j m of
        Inl e \<Rightarrow> Inl e
      | Inr f \<Rightarrow> (case from_json J j ms of Inl e \<Rightarrow> Inl e | Inr fs \<Rightarrow> Inr (f # fs)))"

definition packer_from :: "'j json_ops \<Rightarrow> members \<Rightarrow> buffer_t \<Rightarrow> json_error + tagged_tuple" where
  "packer_from J ms buff =
     (case j_parse J buff of Inl e \<Rightarrow> Inl e | Inr j \<Rightarrow> from_json J j ms)"

definition to_json :: "'j json_ops \<Rightarrow> tagged_tuple \<Rightarrow> 'j" where
  "to_json J t = for_each (\<lambda>k f j. j_put J k (json_of_field J f) j) t (j_null J)"

definition packer_to :: "'j json_ops \<Rightarrow> tagged_tuple \<Rightarrow> json_error + buffer_t" where
  "packer_to J t = j_dump J (to_json J t)"

section \<open>Documented behaviour of the library\<close>

definition ascii :: "string \<Rightarrow> bool" where
  "ascii s \<longleftrightarrow> (\<forall>c \<in> set s. byte c < 0x80)"

locale nlohmann =
  fixes J :: "'j json_ops"
  assumes get_of_u64: "j_get_u64 J (j_of_u64 J n) = Inr n"
    and get_of_string: "j_get_string J (j_of_string J s) = Inr s"
    and contains_object:
      "distinct (map fst t) \<Longrightarrow> j_contains J (to_json J t) k \<longleftrightarrow> k \<in> fst ` set t"
    and at_object:
      "distinct (map fst t) \<Longrightarrow> map_of t k = Some f \<Longrightarrow>
        j_at J (to_json J t) k = Inr (json_of_field J f)"
    and dump_parses:
      "distinct (map fst t) \<Longrightarrow> list_all ascii (map fst t) \<Longrightarrow> tuple_utf8 t \<Longrightarrow>
        \<exists>b. j_dump J (to_json J t) = Inr b \<and> b \<noteq> [] \<and> j_parse J b = Inr (to_json J t)"
    and dump_throws:
      "distinct (map fst t) \<Longrightarrow> \<not> tuple_utf8 t \<Longrightarrow>
        j_dump J (to_json J t) = Inl Json_invalid_utf8"
    and parsed_utf8:
      "j_parse J b = Inr j \<Longrightarrow> j_contains J j k \<Longrightarrow> j_at J j k = Inr v \<Longrightarrow>
        j_get_string J v = Inr s \<Longrightarrow> utf8_valid s"

section \<open>What the rest of the program relies on\<close>

text \<open>
  A codec of messages: every message whose strings are well-formed has a non-empty encoding
  that decodes to it, every other one fails to encode, and what is decoded has the members
  asked for, with well-formed strings.
\<close>

definition message_keys_ok :: "members \<Rightarrow> bool" where
  "message_keys_ok ms \<longleftrightarrow> distinct (map fst ms) \<and> list_all ascii (map fst ms)"

locale message_codec =
  fixes enc :: "tagged_tuple \<Rightarrow> json_error + buffer_t"
    and dec :: "members \<Rightarrow> buffer_t \<Rightarrow> json_error + tagged_tuple"
  assumes encodes:
      "message_keys_ok (tuple_type t) \<Longrightarrow> tuple_utf8 t \<Longrightarrow>
        \<exists>b. enc t = Inr b \<and> b \<noteq> [] \<and> dec (tuple_type t) b = Inr t"
    and rejects:
      "message_keys_ok (tuple_type t) \<Longrightarrow> \<not> tuple_utf8 t \<Longrightarrow> enc t = Inl Json_invalid_utf8"
    and typed: "dec ms b = Inr t \<Longrightarrow> tuple_type t = ms"
    and decoded_utf8: "dec ms b = Inr t \<Longrightarrow> tuple_utf8 t"
begin

lemma encode_cases:
  assumes "message_keys_ok (tuple_type t)"
  obtains (bytes) b where "tuple_utf8 t" "enc t = Inr b" "b \<noteq> []" "dec (tuple_type t) b = Inr t"
    | (error) "\<not> tuple_utf8 t" "enc t = Inl Json_invalid_utf8"
  using encodes [OF assms] rejects [OF assms] by blast

lemma encode_injective:
  assumes "message_keys_ok (tuple_type t)" "message_keys_ok (tuple_type t')"
    and "tuple_type t = tuple_type t'" "enc t = Inr b" "enc t' = Inr b"
  shows "t = t'"
  using assms encode_cases [of t] encode_cases [of t'] by (metis Inl_Inr_False Inr_inject)

end

lemma json_get_as_type: "json_get_as J t v = Inr f \<Longrightarrow> field_type f = t"
  by (cases t) (auto simp: map_sum_def split: sum.splits)

lemma json_get_as_string:
  "json_get_as J T_string v = Inr f \<longleftrightarrow> (\<exists>s. j_get_string J v = Inr s \<and> f = F_string s)"
  by (cases "j_get_string J v") auto

lemma get_from_json_Inr:
  "get_from_json J j (k, t) = Inr kf \<Longrightarrow>
    fst kf = k \<and> field_type (snd kf) = t \<and>
    (snd kf = default_init t \<or>
      (\<exists>v. j_contains J j k \<and> j_at J j k = Inr v \<and> json_get_as J t v = Inr (snd kf)))"
  by (auto simp: get_from_json_def dest: json_get_as_type split: if_splits sum.splits)

lemma from_json_type: "from_json J j ms = Inr t \<Longrightarrow> tuple_type t = ms"
  by (induction ms arbitrary: t)
    (auto simp: tuple_type_def dest!: get_from_json_Inr split: sum.splits)

context nlohmann
begin

lemma json_get_as_of_field: "json_get_as J (field_type f) (json_of_field J f) = Inr f"
  by (cases f) (simp_all add: get_of_u64 get_of_string)

lemma get_from_json_member:
  assumes "distinct (map fst t)" "(k, f) \<in> set t"
  shows "get_from_json J (to_json J t) (k, field_type f) = Inr (k, f)"
proof -
  have "k \<in> fst ` set t" "map_of t k = Some f"
    using assms by (force, simp)
  then show ?thesis
    using assms(1) by (simp add: get_from_json_def contains_object at_object json_get_as_of_field)
qed

text \<open>What was written is read back, and so is any part of it under its own type.\<close>

lemma from_json_part:
  assumes "distinct (map fst t)"
  shows "set u \<subseteq> set t \<Longrightarrow> from_json J (to_json J t) (tuple_type u) = Inr u"
  by (induction u) (auto simp: tuple_type_def get_from_json_member [OF assms])

lemma from_json_to_json: "distinct (map fst t) \<Longrightarrow> from_json J (to_json J t) (tuple_type t) = Inr t"
  by (simp add: from_json_part)

lemma from_json_utf8:
  "j_parse J b = Inr j \<Longrightarrow> from_json J j ms = Inr t \<Longrightarrow> tuple_utf8 t"
proof (induction ms arbitrary: t)
  case (Cons m ms)
  obtain k ty where m: "m = (k, ty)" by fastforce
  from Cons.prems(2) obtain f fs where
    f: "get_from_json J j (k, ty) = Inr f" and fs: "from_json J j ms = Inr fs" and t: "t = f # fs"
    by (auto simp: m split: sum.splits)
  have "field_utf8 (snd f)"
    using get_from_json_Inr [OF f] parsed_utf8 [OF Cons.prems(1)]
    by (cases ty) (auto simp: json_get_as_string simp del: json_get_as.simps(2)
        dest: json_get_as_type, cases "snd f", auto dest!: json_get_as_type)
  with Cons.IH [OF Cons.prems(1) fs] t show ?case by (simp add: tuple_utf8_def)
qed (simp add: tuple_utf8_def)

end

sublocale nlohmann \<subseteq> message_codec "packer_to J" "packer_from J"
proof
  fix t assume ok: "message_keys_ok (tuple_type t)"
  have d: "distinct (map fst t)" "list_all ascii (map fst t)"
    using ok by (simp_all add: message_keys_ok_def keys_tuple_type)
  show "\<exists>b. packer_to J t = Inr b \<and> b \<noteq> [] \<and> packer_from J (tuple_type t) b = Inr t"
    if "tuple_utf8 t"
    using dump_parses [OF d that] from_json_to_json [OF d(1)]
    by (auto simp: packer_to_def packer_from_def)
  show "packer_to J t = Inl Json_invalid_utf8" if "\<not> tuple_utf8 t"
    using dump_throws [OF d(1) that] by (simp add: packer_to_def)
next
  fix ms b t assume r: "packer_from J ms b = Inr t"
  show "tuple_type t = ms"
    using r from_json_type by (auto simp: packer_from_def split: sum.splits)
  show "tuple_utf8 t"
    using r from_json_utf8 by (auto simp: packer_from_def split: sum.splits)
qed

context nlohmann
begin

lemma codec: "message_codec (packer_to J) (packer_from J)"
  by unfold_locales

lemma packed_part:
  assumes "packer_to J t = Inr out" "message_keys_ok (tuple_type t)" "set u \<subseteq> set t"
  shows "out \<noteq> [] \<and> packer_from J (tuple_type u) out = Inr u"
proof -
  have d: "distinct (map fst t)" "list_all ascii (map fst t)"
    using assms(2) by (simp_all add: message_keys_ok_def keys_tuple_type)
  have "tuple_utf8 t" using assms(1) dump_throws [OF d(1)] by (auto simp: packer_to_def)
  from dump_parses [OF d this] assms(1) from_json_part [OF d(1) assms(3)] show ?thesis
    by (auto simp: packer_to_def packer_from_def)
qed

end

lemmas packer_encodes = message_codec.encodes [OF nlohmann.codec]
  and packer_rejects = message_codec.rejects [OF nlohmann.codec]
  and packer_typed = message_codec.typed [OF nlohmann.codec]
  and packer_part = nlohmann.packed_part
  and packer_decoded_utf8 = message_codec.decoded_utf8 [OF nlohmann.codec]

end
