(* ===== verification/Decimal.thy ===== *)
theory Decimal
  imports Prelude
begin

text \<open>
  Decimal numbers as text: the digits both the JSON instance and the log formatter print
  (\<^verbatim>\<open>std::to_string\<close>, \<^verbatim>\<open>fmt::format_int\<close>) and the reader that gives the number back.
\<close>

section \<open>Printing and reading\<close>

definition digit :: "nat \<Rightarrow> char" where
  "digit d = char_of (48 + d)"

definition is_digit :: "char \<Rightarrow> bool" where
  "is_digit c \<longleftrightarrow> 48 \<le> byte c \<and> byte c \<le> 57"

fun show_nat :: "nat \<Rightarrow> string" where
  "show_nat n = (if n < 10 then [digit n] else show_nat (n div 10) @ [digit (n mod 10)])"

declare show_nat.simps [simp del]

fun read_nat :: "nat \<Rightarrow> string \<Rightarrow> nat \<times> string" where
  "read_nat a [] = (a, [])"
| "read_nat a (c # cs) = (if is_digit c then read_nat (10 * a + (byte c - 48)) cs else (a, c # cs))"

lemma byte_digit [simp]: "d < 10 \<Longrightarrow> byte (digit d) = 48 + d"
  by (simp add: digit_def)

lemma is_digit_digit [simp]: "d < 10 \<Longrightarrow> is_digit (digit d)"
  by (simp add: is_digit_def)

lemma read_nat_append_digits:
  "d < 10 \<Longrightarrow> read_nat a (show_nat n @ digit d # r) = read_nat (10 * fst (read_nat a (show_nat n)) + d) r"
  (is "_ \<Longrightarrow> ?P a n d r")
proof (induction n arbitrary: a d r rule: show_nat.induct)
  case (1 n)
  show ?case
  proof (cases "n < 10")
    case True
    with 1(2) show ?thesis by (simp add: show_nat.simps [of n])
  next
    case False
    with 1 show ?thesis
      by (simp add: show_nat.simps [of n])
  qed
qed

lemma fst_read_show: "fst (read_nat 0 (show_nat n)) = n"
proof (induction n rule: show_nat.induct)
  case (1 n)
  show ?case
  proof (cases "n < 10")
    case True
    then show ?thesis by (simp add: show_nat.simps [of n])
  next
    case False
    with 1 show ?thesis
      using read_nat_append_digits [of "n mod 10" 0 "n div 10" "[]"]
      by (simp add: show_nat.simps [of n])
  qed
qed

lemma read_show_rest:
  assumes "\<not> is_digit c"
  shows "read_nat 0 (show_nat n @ c # r) = (n, c # r)"
proof -
  have "read_nat a (show_nat n @ c # r) = (fst (read_nat a (show_nat n)), c # r)" for a
  proof (induction n arbitrary: a rule: show_nat.induct)
    case (1 n)
    show ?case
    proof (cases "n < 10")
      case True
      then show ?thesis using assms by (simp add: show_nat.simps [of n])
    next
      case False
      have "n mod 10 < 10" by simp
      with False show ?thesis
        using assms read_nat_append_digits [of "n mod 10" a "n div 10" "[]"]
        by (simp add: show_nat.simps [of n] read_nat_append_digits)
    qed
  qed
  then show ?thesis by (simp add: fst_read_show)
qed

lemma show_nat_head: "\<exists>d ds. show_nat n = digit d # ds \<and> d < 10"
proof (induction n rule: show_nat.induct)
  case (1 n)
  then show ?case by (cases "n < 10") (auto simp: show_nat.simps [of n])
qed

lemma show_nat_digits: "c \<in> set (show_nat n) \<Longrightarrow> is_digit c"
proof (induction n rule: show_nat.induct)
  case (1 n)
  then show ?case by (cases "n < 10") (auto simp: show_nat.simps [of n])
qed

end
