(* ===== verification/Json_Text.thy ===== *)
theory Json_Text
  imports Json Decimal
begin

text \<open>
  An instance of the JSON interface: flat objects of unsigned numbers and strings, printed
  and parsed as JSON text.  It shows that the assumptions of \<open>nlohmann\<close> can hold together
  and lets the handlers of the program be run on concrete packets.  It is not a model of
  the library: it covers the values the messages use, and escapes only the quote and the
  backslash.
\<close>

section \<open>Strings and numbers\<close>

abbreviation QUOTE :: char where "QUOTE \<equiv> CHR 0x22"
abbreviation BACKSLASH :: char where "BACKSLASH \<equiv> CHR 0x5C"

primrec escape :: "string \<Rightarrow> string" where
  "escape [] = []"
| "escape (c # cs) = (if c = QUOTE \<or> c = BACKSLASH then [BACKSLASH, c] else [c]) @ escape cs"

definition quote :: "string \<Rightarrow> string" where
  "quote s = QUOTE # escape s @ [QUOTE]"

fun unescape :: "string \<Rightarrow> (string \<times> string) option" where
  "unescape [] = None"
| "unescape (c # cs) =
     (if c = QUOTE then Some ([], cs)
      else if c = BACKSLASH then
        (case cs of
           [] \<Rightarrow> None
         | d # ds \<Rightarrow> map_option (\<lambda>(s, r). (d # s, r)) (unescape ds))
      else map_option (\<lambda>(s, r). (c # s, r)) (unescape cs))"

lemma unescape_escape: "unescape (escape s @ QUOTE # r) = Some (s, r)"
  by (induction s) auto

lemma digit_not_QUOTE: "d < 10 \<Longrightarrow> digit d \<noteq> QUOTE"
  by (drule byte_digit) auto

section \<open>Objects\<close>

datatype json_text = J_null | J_u64 u64 | J_string string | J_object "(string \<times> field) list"

fun show_field :: "field \<Rightarrow> string" where
  "show_field (F_u64 n) = show_nat (unat n)"
| "show_field (F_string s) = quote s"

fun show_members :: "(string \<times> field) list \<Rightarrow> string" where
  "show_members [] = ''}''"
| "show_members ((k, f) # kfs) =
     quote k @ '':'' @ show_field f @ (if kfs = [] then ''}'' else CHR '','' # show_members kfs)"

definition read_field :: "string \<Rightarrow> (field \<times> string) option" where
  "read_field cs =
     (case cs of
        [] \<Rightarrow> None
      | c # r \<Rightarrow>
          if c = QUOTE then map_option (\<lambda>(s, r). (F_string s, r)) (unescape r)
          else if is_digit c then
            (let (n, r) = read_nat 0 cs in if n < 2 ^ 64 then Some (F_u64 (of_nat n), r) else None)
          else None)"

lemma read_show_field:
  assumes "\<not> is_digit c"
  shows "read_field (show_field f @ c # r) = Some (f, c # r)"
proof (cases f)
  case (F_u64 n)
  obtain d ds where h: "show_nat (unat n) = digit d # ds" "d < 10"
    using show_nat_head by blast
  have "is_digit (digit d)" "digit d \<noteq> QUOTE"
    using h(2) digit_not_QUOTE by simp_all
  moreover have "unat n < 2 ^ 64"
    using unsigned_less [of n] by simp
  ultimately show ?thesis
    using F_u64 h read_show_rest [OF assms, of "unat n" r] by (simp add: read_field_def)
next
  case (F_string s)
  then show ?thesis by (simp add: read_field_def quote_def unescape_escape)
qed

fun read_members :: "nat \<Rightarrow> string \<Rightarrow> (string \<times> field) list option" where
  "read_members 0 cs = None"
| "read_members (Suc n) cs =
     (case cs of
        c # r \<Rightarrow>
          if c = QUOTE then
            (case unescape r of
               Some (k, d # r) \<Rightarrow>
                 if d = CHR '':'' then
                   (case read_field r of
                      Some (f, e # r) \<Rightarrow>
                        if e = CHR ''}'' then (if r = [] then Some [(k, f)] else None)
                        else if e = CHR '','' then map_option (\<lambda>kfs. (k, f) # kfs) (read_members n r)
                        else None
                    | _ \<Rightarrow> None)
                 else None
             | _ \<Rightarrow> None)
          else None
      | [] \<Rightarrow> None)"

lemma read_show_members:
  "kfs \<noteq> [] \<Longrightarrow> length kfs \<le> n \<Longrightarrow> read_members n (show_members kfs) = Some kfs"
proof (induction kfs arbitrary: n)
  case (Cons kf kfs)
  obtain k f where kf: "kf = (k, f)" by fastforce
  obtain m where n: "n = Suc m" using Cons.prems(2) by (cases n) auto
  have nd: "\<not> is_digit (CHR ''}'')" "\<not> is_digit (CHR '','')"
    by (simp_all add: is_digit_def)
  show ?case
    using Cons nd
    by (cases "kfs = []") (auto simp: kf n quote_def unescape_escape read_show_field)
qed simp

definition text_ok :: "(string \<times> field) list \<Rightarrow> bool" where
  "text_ok kfs \<longleftrightarrow> list_all ascii (map fst kfs) \<and> tuple_utf8 kfs"

definition text_parse :: "buffer_t \<Rightarrow> json_error + json_text" where
  "text_parse b =
     (if b = ''null'' then Inr J_null
      else if b = ''{}'' then Inr (J_object [])
      else (case b of
              [] \<Rightarrow> Inl Json_parse_error
            | c # r \<Rightarrow>
                if c = CHR ''{'' then
                  (case read_members (length r) r of
                     None \<Rightarrow> Inl Json_parse_error
                   | Some kfs \<Rightarrow> if text_ok kfs then Inr (J_object kfs) else Inl Json_parse_error)
                else Inl Json_parse_error))"

fun text_dump :: "json_text \<Rightarrow> json_error + buffer_t" where
  "text_dump J_null = Inr ''null''"
| "text_dump (J_u64 n) = Inr (show_nat (unat n))"
| "text_dump (J_string s) = (if utf8_valid s then Inr (quote s) else Inl Json_invalid_utf8)"
| "text_dump (J_object kfs) =
     (if tuple_utf8 kfs then Inr (CHR ''{'' # show_members kfs) else Inl Json_invalid_utf8)"

fun text_scalar :: "json_text \<Rightarrow> field" where
  "text_scalar (J_u64 n) = F_u64 n"
| "text_scalar (J_string s) = F_string s"
| "text_scalar _ = F_u64 0"

fun text_members :: "json_text \<Rightarrow> (string \<times> field) list" where
  "text_members (J_object kfs) = kfs"
| "text_members _ = []"

fun text_of_field :: "field \<Rightarrow> json_text" where
  "text_of_field (F_u64 n) = J_u64 n"
| "text_of_field (F_string s) = J_string s"

definition text_put :: "string \<Rightarrow> json_text \<Rightarrow> json_text \<Rightarrow> json_text" where
  "text_put k v j =
     (let kfs = text_members j; f = text_scalar v in
      J_object (if k \<in> fst ` set kfs then map (\<lambda>(k', f'). if k' = k then (k', f) else (k', f')) kfs
                else kfs @ [(k, f)]))"

definition json_text_ops :: "json_text json_ops" where
  "json_text_ops =
     \<lparr>j_null = J_null, j_of_u64 = J_u64, j_of_string = J_string, j_put = text_put,
      j_contains = (\<lambda>j k. k \<in> fst ` set (text_members j)),
      j_at = (\<lambda>j k. case map_of (text_members j) k of
                      None \<Rightarrow> Inl Json_out_of_range | Some f \<Rightarrow> Inr (text_of_field f)),
      j_get_u64 = (\<lambda>j. case j of J_u64 n \<Rightarrow> Inr n | _ \<Rightarrow> Inl Json_type_error),
      j_get_string = (\<lambda>j. case j of J_string s \<Rightarrow> Inr s | _ \<Rightarrow> Inl Json_type_error),
      j_parse = text_parse, j_dump = text_dump\<rparr>"

lemma json_text_ops_simps [simp]:
  "j_null json_text_ops = J_null"
  "j_of_u64 json_text_ops = J_u64"
  "j_of_string json_text_ops = J_string"
  "j_put json_text_ops = text_put"
  "j_contains json_text_ops j k \<longleftrightarrow> k \<in> fst ` set (text_members j)"
  "j_at json_text_ops j k = (case map_of (text_members j) k of
      None \<Rightarrow> Inl Json_out_of_range | Some f \<Rightarrow> Inr (text_of_field f))"
  "j_get_u64 json_text_ops (J_u64 n) = Inr n"
  "j_get_string json_text_ops (J_string s) = Inr s"
  "j_parse json_text_ops = text_parse"
  "j_dump json_text_ops = text_dump"
  by (simp_all add: json_text_ops_def)

lemma json_of_field_text [simp]: "json_of_field json_text_ops f = text_of_field f"
  by (cases f) simp_all

lemma text_scalar_of_field [simp]: "text_scalar (text_of_field f) = f"
  by (cases f) simp_all

lemma to_json_text:
  assumes "distinct (map fst t)"
  shows "to_json json_text_ops t = (if t = [] then J_null else J_object t)"
proof -
  let ?put = "\<lambda>a (k, v). text_put k (text_of_field v) a"
  have "distinct (map fst (kfs @ u)) \<Longrightarrow>
      foldl ?put (J_object kfs) u = J_object (kfs @ u)" for kfs u
  proof (induction u arbitrary: kfs)
    case (Cons p u)
    then show ?case by (cases p) (auto simp: text_put_def)
  qed simp
  from this [of "[hd t]" "tl t"] show ?thesis
    using assms by (cases t) (auto simp: to_json_def for_each_def text_put_def)
qed

lemma length_show_members: "length kfs \<le> length (show_members kfs)"
  by (induction kfs rule: show_members.induct) auto

lemma text_dump_parse:
  assumes "kfs \<noteq> []" "text_ok kfs"
  shows "text_parse (CHR ''{'' # show_members kfs) = Inr (J_object kfs)"
proof -
  have "hd (show_members kfs) = QUOTE"
    using assms(1) by (cases kfs rule: show_members.cases) (auto simp: quote_def)
  then have "show_members kfs \<noteq> ''}''" by auto
  then show ?thesis
    using assms by (simp add: text_parse_def read_show_members length_show_members)
qed

interpretation json_text: nlohmann json_text_ops
proof
  fix t :: tagged_tuple and k f
  assume d: "distinct (map fst t)"
  show "j_contains json_text_ops (to_json json_text_ops t) k \<longleftrightarrow> k \<in> fst ` set t"
    using d by (auto simp: to_json_text)
  show "map_of t k = Some f \<Longrightarrow>
      j_at json_text_ops (to_json json_text_ops t) k = Inr (json_of_field json_text_ops f)"
    using d by (auto simp: to_json_text)
  show "\<exists>b. j_dump json_text_ops (to_json json_text_ops t) = Inr b \<and> b \<noteq> [] \<and>
      j_parse json_text_ops b = Inr (to_json json_text_ops t)"
    if "list_all ascii (map fst t)" "tuple_utf8 t"
    using d that text_dump_parse [of t]
    by (auto simp: to_json_text text_ok_def text_parse_def)
  show "j_dump json_text_ops (to_json json_text_ops t) = Inl Json_invalid_utf8"
    if "\<not> tuple_utf8 t"
    using d that by (auto simp: to_json_text tuple_utf8_def)
next
  fix b j k v s
  assume p: "j_parse json_text_ops b = Inr j" and a: "j_at json_text_ops j k = Inr v"
    and g: "j_get_string json_text_ops v = Inr s"
  obtain f where f: "map_of (text_members j) k = Some f" "v = text_of_field f"
    using a by (auto split: option.splits)
  then have "f = F_string s"
    using g by (cases f) (auto simp: json_text_ops_def)
  moreover have "tuple_utf8 (text_members j)"
    using p by (auto simp: text_parse_def text_ok_def tuple_utf8_def
        split: if_splits list.splits option.splits)
  ultimately show "utf8_valid s"
    using f map_of_SomeD [OF f(1)] by (force simp: tuple_utf8_def)
qed simp_all

end
