(* ===== verification/Messages.thy ===== *)
theory Messages
  imports Json_Text Packet
begin

text \<open>
  \<^verbatim>\<open>src/messages/messages.hpp\<close>: the names of the commands and the members of every
  message, in declaration order.
\<close>

section \<open>Commands\<close>

definition cmd_hello :: string where "cmd_hello = ''hello''"
definition cmd_hello_reply :: string where "cmd_hello_reply = ''hello''"
definition cmd_auth :: string where "cmd_auth = ''login''"
definition cmd_auth_reply :: string where "cmd_auth_reply = ''login''"
definition cmd_msg :: string where "cmd_msg = ''message''"
definition cmd_msg_reply :: string where "cmd_msg_reply = ''message_reply''"
definition cmd_ping :: string where "cmd_ping = ''ping''"
definition cmd_ping_reply :: string where "cmd_ping_reply = ''ping_reply''"
definition cmd_bye :: string where "cmd_bye = ''logout''"
definition cmd_bye_reply :: string where "cmd_bye_reply = ''logout''"

lemmas cmd_defs =
  cmd_hello_def cmd_hello_reply_def cmd_auth_def cmd_auth_reply_def cmd_msg_def
  cmd_msg_reply_def cmd_ping_def cmd_ping_reply_def cmd_bye_def cmd_bye_reply_def

section \<open>Messages\<close>

definition client_hello_request :: members where
  "client_hello_request = [(''id'', T_u64), (''command'', T_string)]"

definition client_bye_request :: members where
  "client_bye_request = [(''id'', T_u64), (''command'', T_string), (''session'', T_string)]"

definition client_ping_request :: members where
  "client_ping_request = [(''id'', T_u64), (''command'', T_string), (''session'', T_string)]"

definition client_auth_request :: members where
  "client_auth_request =
     [(''id'', T_u64), (''command'', T_string), (''login'', T_string), (''password'', T_string)]"

definition client_msg_request :: members where
  "client_msg_request =
     [(''id'', T_u64), (''command'', T_string), (''body'', T_string), (''session'', T_string)]"

definition client_msg_response :: members where
  "client_msg_response =
     [(''id'', T_u64), (''command'', T_string), (''status'', T_string), (''client_id'', T_string),
      (''message'', T_string)]"

definition server_hello_response :: members where
  "server_hello_response = [(''id'', T_u64), (''command'', T_string), (''auth_method'', T_string)]"

definition server_bye_response :: members where
  "server_bye_response = [(''id'', T_u64), (''command'', T_string), (''status'', T_string)]"

definition server_ping_response :: members where
  "server_ping_response =
     [(''id'', T_u64), (''command'', T_string), (''status'', T_string), (''message'', T_string)]"

definition server_auth_response :: members where
  "server_auth_response =
     [(''id'', T_u64), (''command'', T_string), (''status'', T_string), (''session'', T_string),
      (''message'', T_string)]"

definition server_msg_request :: members where
  "server_msg_request =
     [(''id'', T_u64), (''command'', T_string), (''body'', T_string), (''sender_login'', T_string),
      (''session'', T_string)]"

definition server_msg_response :: members where
  "server_msg_response =
     [(''id'', T_u64), (''command'', T_string), (''status'', T_string), (''client_id'', T_string),
      (''message'', T_string)]"

lemmas message_defs =
  client_hello_request_def client_bye_request_def client_ping_request_def client_auth_request_def
  client_msg_request_def client_msg_response_def server_hello_response_def server_bye_response_def
  server_ping_response_def server_auth_response_def server_msg_request_def server_msg_response_def

definition all_messages :: "members list" where
  "all_messages =
     [client_hello_request, client_bye_request, client_ping_request, client_auth_request,
      client_msg_request, client_msg_response, server_hello_response, server_bye_response,
      server_ping_response, server_auth_response, server_msg_request, server_msg_response]"

lemma message_keys_ok_all [simp]:
  "message_keys_ok client_hello_request" "message_keys_ok client_bye_request"
  "message_keys_ok client_ping_request" "message_keys_ok client_auth_request"
  "message_keys_ok client_msg_request" "message_keys_ok client_msg_response"
  "message_keys_ok server_hello_response" "message_keys_ok server_bye_response"
  "message_keys_ok server_ping_response" "message_keys_ok server_auth_response"
  "message_keys_ok server_msg_request" "message_keys_ok server_msg_response"
  by (simp_all add: message_defs message_keys_ok_def ascii_def)

lemma message_keys_ok_member: "ms \<in> set all_messages \<Longrightarrow> message_keys_ok ms"
  by (auto simp: all_messages_def)

text \<open>Every command fits the packet header with its NUL and holds no NUL itself.\<close>

definition commands :: "string list" where
  "commands = [cmd_hello, cmd_auth, cmd_msg, cmd_msg_reply, cmd_ping, cmd_ping_reply, cmd_bye]"

lemma command_sizes [simp]:
  "length cmd_hello < sizeof_type" "length cmd_auth < sizeof_type" "length cmd_msg < sizeof_type"
  "length cmd_msg_reply < sizeof_type" "length cmd_ping < sizeof_type"
  "length cmd_ping_reply < sizeof_type" "length cmd_bye < sizeof_type"
  "length cmd_bye_reply < sizeof_type"
  by (simp_all add: cmd_defs packet_sizes)

lemma command_size: "cmd \<in> set commands \<Longrightarrow> length cmd < sizeof_type"
  by (auto simp: commands_def)

lemma command_no_NUL: "cmd \<in> set commands \<Longrightarrow> NUL \<notin> set cmd"
  by (auto simp: commands_def cmd_defs)

lemma command_utf8: "cmd \<in> set commands \<Longrightarrow> utf8_valid cmd"
  by (auto simp: commands_def cmd_defs)

lemma distinct_commands: "distinct commands"
  by (simp add: commands_def cmd_defs)

section \<open>Messages as text\<close>

text \<open>The bytes of a message in the JSON text of \<open>Json_Text\<close>, for the instances.\<close>

definition sample_body :: "tagged_tuple \<Rightarrow> buffer_t" where
  "sample_body t = (case packer_to json_text_ops t of Inr b \<Rightarrow> b | Inl e \<Rightarrow> [])"

lemma sample_body_parses:
  "tuple_utf8 t \<Longrightarrow> message_keys_ok (tuple_type t) \<Longrightarrow>
    packer_from json_text_ops (tuple_type t) (sample_body t) = Inr t"
  using packer_encodes [OF json_text.nlohmann_axioms, of t]
  by (auto simp: sample_body_def)

section \<open>Properties\<close>



text \<open>A message with a string that is not UTF-8 is never put on the wire: packing it
  throws.\<close>

theorem message_not_utf8_throws:
  assumes "nlohmann J" "tuple_type t \<in> set all_messages" "\<not> tuple_utf8 t"
  shows "packer_to J t = Inl Json_invalid_utf8"
  using packer_rejects [OF assms(1) message_keys_ok_member] assms(2,3) by blast

theorem message_not_utf8_throws_witness:
  "packer_to json_text_ops
     [(''id'', F_u64 7), (''command'', F_string ''logout''), (''status'', F_string [CHR 0xFF])]
   = Inl Json_invalid_utf8"
  using message_not_utf8_throws [OF json_text.nlohmann_axioms,
      of "[(''id'', F_u64 7), (''command'', F_string ''logout''), (''status'', F_string [CHR 0xFF])]"]
  by (simp add: tuple_type_def all_messages_def server_bye_response_def tuple_utf8_def)

text \<open>A JSON value that is not an object, or lacks members, is still accepted as a
  message: every member it does not contain takes its default, so no field is required.\<close>

theorem missing_members_default:
  assumes "j_parse J b = Inr j" "\<forall>k \<in> fst ` set ms. \<not> j_contains J j k"
  shows "packer_from J ms b = Inr (tuple_default ms)"
proof -
  have "from_json J j ms = Inr (tuple_default ms)"
    using assms(2) by (induction ms) (auto simp: get_from_json_def tuple_default_def)
  then show ?thesis using assms(1) by (simp add: packer_from_def)
qed

theorem missing_members_default_witness:
  "packer_from json_text_ops client_auth_request ''null'' = Inr
     [(''id'', F_u64 0), (''command'', F_string []), (''login'', F_string []),
      (''password'', F_string [])]"
  using missing_members_default [of json_text_ops "''null''" J_null client_auth_request]
  by (simp add: text_parse_def tuple_default_def client_auth_request_def)

end
