(* ===== verification/Dispatcher.thy ===== *)
theory Dispatcher
  imports Messages Tcp_Core
begin

unbundle bit_operations_syntax

text \<open>
  \<^verbatim>\<open>src/tcp/core/dispatcher.hpp\<close>: handlers registered under the hash of a command name
  and the dispatch of a received body to them, and the abstract \<^verbatim>\<open>core::dispatcher\<close> the
  TCP server and client are written against.

  Handlers change the state of the application, so a handler is a function of a state
  \<^typ>\<open>'s\<close>.  \<^verbatim>\<open>std::hash\<close> is implementation-defined and a parameter.  A handler that
  throws keeps the state changes it made before; the exception ends in \<^verbatim>\<open>dispatch\<close>, which
  writes it to the log.
\<close>

section \<open>The interface\<close>

text \<open>
  \<^verbatim>\<open>bool dispatch(std::string& _cmd, const client_cookies_t&, const buffer_t& in,
  buffer_t& out)\<close>: the command and the output buffer are references, so they come back.
\<close>

type_synonym 's dispatch_fun =
  "'s \<Rightarrow> string \<Rightarrow> u64 \<Rightarrow> buffer_t \<Rightarrow> buffer_t \<Rightarrow> bool \<times> 's \<times> string \<times> buffer_t"

locale packet_dispatcher =
  fixes disp :: "'s dispatch_fun"
    and known :: "string \<Rightarrow> bool"
  assumes unknown_ignored: "\<not> known cmd \<Longrightarrow> disp s cmd ck inp out = (False, s, cmd, out)"
    and failure_no_output: "disp s cmd ck inp out = (False, s', cmd', out') \<Longrightarrow> out' = out"

section \<open>Handlers\<close>

datatype outcome = Returned | Threw

type_synonym 's wrapper =
  "'s \<Rightarrow> string \<Rightarrow> u64 \<Rightarrow> buffer_t \<Rightarrow> buffer_t \<Rightarrow> outcome \<times> 's \<times> string \<times> buffer_t"

type_synonym 's handlers = "u64 \<rightharpoonup> 's wrapper"

text \<open>A handler of three parameters (cookies, request, response) and of two.\<close>

type_synonym 's handler3 = "'s \<Rightarrow> u64 \<Rightarrow> tagged_tuple \<Rightarrow> tagged_tuple \<Rightarrow> outcome \<times> 's \<times> tagged_tuple"
type_synonym 's handler2 = "'s \<Rightarrow> u64 \<Rightarrow> tagged_tuple \<Rightarrow> outcome \<times> 's"

text \<open>
  The lambda \<^verbatim>\<open>wrapper\<close> of \<^verbatim>\<open>handle_\<close>.  With three parameters: unpack the request, call
  the handler on a default response, take the command from the response, pack the response.
  \<^verbatim>\<open>_cmd\<close> is assigned before the packing, which can throw.
\<close>

definition wrapper3 :: "'j json_ops \<Rightarrow> members \<Rightarrow> members \<Rightarrow> 's handler3 \<Rightarrow> 's wrapper" where
  "wrapper3 J req_t resp_t f s cmd ck inp out =
     (case packer_from J req_t inp of
        Inl e \<Rightarrow> (Threw, s, cmd, out)
      | Inr req \<Rightarrow>
          (case f s ck req (tuple_default resp_t) of
             (Threw, s, resp) \<Rightarrow> (Threw, s, cmd, out)
           | (Returned, s, resp) \<Rightarrow>
               let cmd = get_string resp ''command'' in
               (case packer_to J resp of
                  Inl e \<Rightarrow> (Threw, s, cmd, out)
                | Inr buff \<Rightarrow> (Returned, s, cmd, buff))))"

definition wrapper2 :: "'j json_ops \<Rightarrow> members \<Rightarrow> 's handler2 \<Rightarrow> 's wrapper" where
  "wrapper2 J req_t f s cmd ck inp out =
     (case packer_from J req_t inp of
        Inl e \<Rightarrow> (Threw, s, cmd, out)
      | Inr req \<Rightarrow> (case f s ck req of (oc, s) \<Rightarrow> (oc, s, cmd, out)))"

datatype dispatcher_error = Handler_exists u64

text \<open>\<^verbatim>\<open>handle\<close> and \<^verbatim>\<open>handle_\<close>: a second handler under the same hash throws.\<close>

definition handle ::
  "(string \<Rightarrow> u64) \<Rightarrow> string \<Rightarrow> 's wrapper \<Rightarrow> 's handlers \<Rightarrow> dispatcher_error + 's handlers" where
  "handle hash cmd w hs =
     (let id = hash cmd in
      if hs id \<noteq> None then Inl (Handler_exists id) else Inr (hs(id \<mapsto> w)))"

definition dispatch :: "(string \<Rightarrow> u64) \<Rightarrow> 's handlers \<Rightarrow> 's dispatch_fun" where
  "dispatch hash hs s cmd ck inp out =
     (case hs (hash cmd) of
        None \<Rightarrow> (False, s, cmd, out)
      | Some w \<Rightarrow>
          (case w s cmd ck inp out of
             (Returned, s, cmd, out) \<Rightarrow> (True, s, cmd, out)
           | (Threw, s, cmd, out) \<Rightarrow> (False, s, cmd, out)))"

text \<open>A series of \<^verbatim>\<open>handle\<close> calls, stopped by the first exception.\<close>

primrec handle_all ::
  "(string \<Rightarrow> u64) \<Rightarrow> (string \<times> 's wrapper) list \<Rightarrow> 's handlers \<Rightarrow> dispatcher_error + 's handlers" where
  "handle_all hash [] hs = Inr hs"
| "handle_all hash (cw # cws) hs =
     (case handle hash (fst cw) (snd cw) hs of
        Inl e \<Rightarrow> Inl e
      | Inr hs \<Rightarrow> handle_all hash cws hs)"

section \<open>Registration\<close>

lemma handle_Inr: "handle hash cmd w hs = Inr hs' \<longleftrightarrow> hs (hash cmd) = None \<and> hs' = hs(hash cmd \<mapsto> w)"
  by (auto simp: handle_def Let_def)

text \<open>The table a list of registrations makes.\<close>

definition handler_table :: "(string \<Rightarrow> u64) \<Rightarrow> (string \<times> 's wrapper) list \<Rightarrow> 's handlers" where
  "handler_table hash cws = map_of (map (\<lambda>cw. (hash (fst cw), snd cw)) cws)"

lemma dom_handler_table: "dom (handler_table hash cws) = hash ` fst ` set cws"
  by (simp add: handler_table_def dom_map_of_conv_image_fst image_image)

lemma handler_table_Cons:
  "handler_table hash (cw # cws) = (handler_table hash cws)(hash (fst cw) \<mapsto> snd cw)"
  by (simp add: handler_table_def)

lemma handle_all_Inr:
  "handle_all hash cws hs = Inr hs' \<longleftrightarrow>
    distinct (map (hash \<circ> fst) cws) \<and> (\<forall>cw \<in> set cws. hs (hash (fst cw)) = None) \<and>
    hs' = hs ++ handler_table hash cws"
proof (induction cws arbitrary: hs)
  case Nil
  then show ?case by (auto simp: handler_table_def)
next
  case (Cons cw cws)
  show ?case
  proof (cases "hs (hash (fst cw)) = None \<and> hash (fst cw) \<notin> hash ` fst ` set cws")
    case True
    let ?hs = "hs(hash (fst cw) \<mapsto> snd cw)"
    have ne: "\<forall>c \<in> set cws. hash (fst c) \<noteq> hash (fst cw)"
      using True by (metis image_eqI)
    have step: "handle_all hash (cw # cws) hs = handle_all hash cws ?hs"
      using True by (simp add: handle_def Let_def)
    have table: "?hs ++ handler_table hash cws = hs ++ handler_table hash (cw # cws)"
      using True by (simp add: handler_table_Cons map_add_upd_left dom_handler_table)
    have "(\<forall>c \<in> set cws. ?hs (hash (fst c)) = None) \<longleftrightarrow> (\<forall>c \<in> set (cw # cws). hs (hash (fst c)) = None)"
      using True ne by simp
    moreover have "distinct (map (hash \<circ> fst) (cw # cws)) = distinct (map (hash \<circ> fst) cws)"
      using True by (auto simp: image_image)
    ultimately show ?thesis by (simp only: step Cons.IH table)
  next
    case False
    then show ?thesis
      by (auto simp: Cons.IH handle_def Let_def image_image)
  qed
qed

lemma handle_all_ok:
  assumes "inj_on hash (fst ` set cws)" "distinct (map fst cws)"
  shows "handle_all hash cws Map.empty = Inr (handler_table hash cws)"
proof -
  have "distinct (map hash (map fst cws))"
    using assms by (subst distinct_map) simp
  then show ?thesis by (simp add: handle_all_Inr)
qed

lemma handle_all_clash:
  assumes "\<not> inj_on hash (fst ` set cws)"
  shows "\<exists>id. handle_all hash cws hs = Inl (Handler_exists id)"
proof (cases "handle_all hash cws hs")
  case (Inl e)
  then show ?thesis by (cases e) simp
next
  case (Inr hs')
  then have "distinct (map hash (map fst cws))" by (simp add: handle_all_Inr)
  then have "inj_on hash (fst ` set cws)" by (metis distinct_map list.set_map)
  with assms show ?thesis by simp
qed

lemma handler_table_lookup:
  "inj_on hash (insert c (fst ` set cws)) \<Longrightarrow> handler_table hash cws (hash c) = map_of cws c"
  by (induction cws) (auto simp: handler_table_def inj_on_def)

text \<open>
  A concrete hash for the instances of the environments: FNV-1a over the bytes of the string,
  in 64 bits.
\<close>

definition fnv1a :: "string \<Rightarrow> u64" where
  "fnv1a s = foldl (\<lambda>h c. (h XOR of_char c) * 1099511628211) 14695981039346656037 s"

section \<open>Dispatch\<close>

text \<open>A wrapper that throws leaves the output buffer alone.\<close>

definition clean_wrapper :: "'s wrapper \<Rightarrow> bool" where
  "clean_wrapper w \<longleftrightarrow>
     (\<forall>s cmd ck inp out s' cmd' out'. w s cmd ck inp out = (Threw, s', cmd', out') \<longrightarrow> out' = out)"

lemma clean_wrapper3: "clean_wrapper (wrapper3 J req_t resp_t f)"
  by (auto simp: clean_wrapper_def wrapper3_def Let_def split: sum.splits prod.splits outcome.splits)

lemma clean_wrapper2: "clean_wrapper (wrapper2 J req_t f)"
  by (auto simp: clean_wrapper_def wrapper2_def split: sum.splits prod.splits)

lemma dispatch_unknown: "hs (hash cmd) = None \<Longrightarrow> dispatch hash hs s cmd ck inp out = (False, s, cmd, out)"
  by (simp add: dispatch_def)

lemma dispatch_known:
  "hs (hash cmd) = Some w \<Longrightarrow> w s cmd ck inp out = (oc, s', cmd', out') \<Longrightarrow>
    dispatch hash hs s cmd ck inp out = (oc = Returned, s', cmd', out')"
  by (cases oc) (simp_all add: dispatch_def)

lemma dispatcher_contract:
  assumes "\<And>w. w \<in> ran hs \<Longrightarrow> clean_wrapper w"
  shows "packet_dispatcher (dispatch hash hs) (\<lambda>cmd. hs (hash cmd) \<noteq> None)"
proof
  fix s cmd ck inp out s' cmd' out'
  assume d: "dispatch hash hs s cmd ck inp out = (False, s', cmd', out')"
  show "out' = out"
  proof (cases "hs (hash cmd)")
    case (Some w)
    then have "clean_wrapper w" using assms by (auto simp: ran_def)
    with Some d show ?thesis
      by (auto simp: dispatch_def clean_wrapper_def split: prod.splits outcome.splits)
  qed (use d in \<open>simp add: dispatch_def\<close>)
qed (simp add: dispatch_unknown)

section \<open>A relation every dispatch respects\<close>

definition wrapper_rel :: "('s \<Rightarrow> 's \<Rightarrow> bool) \<Rightarrow> 's wrapper \<Rightarrow> bool" where
  "wrapper_rel R w \<longleftrightarrow> (\<forall>s cmd ck inp out. R s (fst (snd (w s cmd ck inp out))))"

lemma wrapper3_rel:
  assumes "\<And>s. R s s"
    and "\<And>s ck inp req resp. packer_from J req_t inp = Inr req \<Longrightarrow> R s (fst (snd (f s ck req resp)))"
  shows "wrapper_rel R (wrapper3 J req_t resp_t f)"
  unfolding wrapper_rel_def
proof (intro allI)
  fix s cmd ck inp out
  show "R s (fst (snd (wrapper3 J req_t resp_t f s cmd ck inp out)))"
  proof (cases "packer_from J req_t inp")
    case (Inr req)
    from assms(2) [OF this, of s ck "tuple_default resp_t"] show ?thesis
      using Inr by (auto simp: wrapper3_def Let_def split: prod.split outcome.split sum.split)
  qed (simp add: wrapper3_def assms(1))
qed

lemma wrapper2_rel:
  assumes "\<And>s. R s s"
    and "\<And>s ck inp req. packer_from J req_t inp = Inr req \<Longrightarrow> R s (snd (f s ck req))"
  shows "wrapper_rel R (wrapper2 J req_t f)"
  unfolding wrapper_rel_def
proof (intro allI)
  fix s cmd ck inp out
  show "R s (fst (snd (wrapper2 J req_t f s cmd ck inp out)))"
  proof (cases "packer_from J req_t inp")
    case (Inr req)
    from assms(2) [OF this, of s ck] show ?thesis
      using Inr by (auto simp: wrapper2_def split: prod.split)
  qed (simp add: wrapper2_def assms(1))
qed

lemma dispatch_rel:
  assumes "\<And>s. R s s" "\<And>w. w \<in> ran hs \<Longrightarrow> wrapper_rel R w"
  shows "R s (fst (snd (dispatch hash hs s cmd ck inp out)))"
proof (cases "hs (hash cmd)")
  case (Some w)
  then have "wrapper_rel R w" using assms(2) by (auto simp: ran_def)
  then have "R s (fst (snd (w s cmd ck inp out)))" by (simp add: wrapper_rel_def)
  then show ?thesis
    using Some by (auto simp: dispatch_def split: prod.split outcome.split)
qed (simp add: dispatch_def assms(1))

section \<open>The state after a dispatch\<close>

lemma wrapper3_state:
  "fst (snd (wrapper3 J req_t resp_t f w cmd ck inp out)) =
    (case packer_from J req_t inp of
       Inl e \<Rightarrow> w
     | Inr req \<Rightarrow> fst (snd (f w ck req (tuple_default resp_t))))"
  by (auto simp: wrapper3_def Let_def split: sum.split prod.split outcome.split)

lemma wrapper2_state:
  "fst (snd (wrapper2 J req_t f w cmd ck inp out)) =
    (case packer_from J req_t inp of Inl e \<Rightarrow> w | Inr req \<Rightarrow> snd (f w ck req))"
  by (auto simp: wrapper2_def split: sum.split prod.split)

lemma dispatch_state:
  "fst (snd (dispatch hash hs w cmd ck inp out)) =
    (case hs (hash cmd) of None \<Rightarrow> w | Some h \<Rightarrow> fst (snd (h w cmd ck inp out)))"
  by (auto simp: dispatch_def split: option.split prod.split outcome.split)

end
