(* ===== verification/Tcp_Client.thy ===== *)
theory Tcp_Client
  imports Receive Dispatcher
begin

text \<open>
  \<^verbatim>\<open>src/tcp/client/client.{hpp,cpp}\<close>: the client end of a connection.  \<^verbatim>\<open>connect\<close> opens the
  socket and starts the thread that receives, \<^verbatim>\<open>disconnect\<close> closes the socket and joins the
  thread, the destructor does the same.

  Both functions are \<^verbatim>\<open>noexcept\<close> and use a \<^verbatim>\<open>std::thread\<close>: starting a thread in an object
  that still holds one, and joining an object that holds none, end the process.  That is the
  value \<^term>\<open>None\<close>.  Joining waits for the thread, whose loop ends because the status is no
  longer \<open>connected\<close>; the thread itself is \<open>tc_loop\<close>.
\<close>

section \<open>State\<close>

record tcp_client = client_base +
  tc_joinable :: bool

text \<open>The socket and the address are not initialised; \<open>s\<close> and \<open>a\<close> are what they hold.\<close>

definition tcp_client_new :: "socket_t \<Rightarrow> sockaddr_in \<Rightarrow> tcp_client" where
  "tcp_client_new s a =
     \<lparr>cb_socket = s, cb_address = a, cb_id = [], cb_type = Sock_client,
      cb_status = Cl_disconnected, tc_joinable = False\<rparr>"

section \<open>Operations\<close>

text \<open>What the system answers: the new socket, \<^verbatim>\<open>getaddrinfo\<close> and \<^verbatim>\<open>::connect\<close>.\<close>

record connect_results =
  cr_socket :: socket_t
  cr_getaddrinfo :: int
  cr_connect :: int

definition c_str :: "string \<Rightarrow> string" where
  "c_str s = takeWhile (\<lambda>c. c \<noteq> NUL) s"

definition tc_start_thread :: "tcp_client \<Rightarrow> tcp_client option" where
  "tc_start_thread c = (if tc_joinable c then None else Some (c\<lparr>tc_joinable := True\<rparr>))"

definition tc_join :: "tcp_client \<Rightarrow> tcp_client option" where
  "tc_join c = (if tc_joinable c then Some (c\<lparr>tc_joinable := False\<rparr>) else None)"

text \<open>
  \<^verbatim>\<open>connect\<close>.  A failed \<^verbatim>\<open>getaddrinfo\<close> skips the connection and goes on to \<open>connected\<close>; the
  port is stored as it is, not in network order.
\<close>

definition tc_connect ::
  "connect_results \<Rightarrow> string \<Rightarrow> u16 \<Rightarrow> tcp_client \<Rightarrow> (tcp_client \<times> syscall list) option" where
  "tc_connect r host port c =
     (if cb_status c = Cl_connected then Some (c, [])
      else
        let c = c\<lparr>cb_socket := cr_socket r\<rparr>; calls = [Sys_socket] in
        if cr_socket r = INVALID_SOCKET then Some (c\<lparr>cb_status := Cl_init_error\<rparr>, calls)
        else
          let calls = calls @ [Sys_getaddrinfo (c_str host) (show_nat (unat port))];
              found = (cr_getaddrinfo r = 0);
              c = (if found then c\<lparr>cb_address := (cb_address c)\<lparr>sin_port := port\<rparr>\<rparr> else c);
              calls = (if found then calls @ [Sys_connect (cb_socket c)] else calls) in
          if found \<and> cr_connect r = -1 then
            Some (c\<lparr>cb_status := Cl_connect_error\<rparr>, calls @ [Sys_closesocket (cb_socket c)])
          else
            map_option (\<lambda>c. (c, calls)) (tc_start_thread (c\<lparr>cb_status := Cl_connected\<rparr>)))"

definition tc_disconnect :: "tcp_client \<Rightarrow> (tcp_client \<times> syscall list) option" where
  "tc_disconnect c =
     (if cb_status c \<noteq> Cl_connected then Some (c, [])
      else
        map_option (\<lambda>c'. (c', [Sys_shutdown (cb_socket c), Sys_closesocket (cb_socket c)]))
          (tc_join (c\<lparr>cb_status := Cl_disconnected\<rparr>)))"

definition tc_destroy :: "tcp_client \<Rightarrow> syscall list option" where
  "tc_destroy c =
     (case tc_disconnect c of
        None \<Rightarrow> None
      | Some (c, calls) \<Rightarrow>
          if tc_joinable c then map_option (\<lambda>c. calls) (tc_join c) else Some calls)"

section \<open>The receiving thread\<close>

text \<open>
  One iteration of the loop: a message that was read is dispatched, and the answer in \<open>out\<close>
  and the result are dropped.  \<^term>\<open>None\<close> is the read past a type field without a NUL.
\<close>

definition tc_iteration ::
  "buffer_t \<Rightarrow> 'c os_recv \<Rightarrow> 's dispatch_fun \<Rightarrow> u64 \<Rightarrow> 'c \<Rightarrow> 's \<Rightarrow> ('c \<times> 's) option" where
  "tc_iteration junk rcv disp cid conn s =
     (case client_recv rcv junk [] conn of
        (False, hdr, buff, conn) \<Rightarrow> Some (conn, s)
      | (True, hdr, buff, conn) \<Rightarrow>
          (case c_string (ph_type (header_packet hdr)) of
             None \<Rightarrow> None
           | Some cmd \<Rightarrow>
               let (ok, s, cmd, out) = disp s cmd cid buff [] in Some (conn, s)))"

datatype 's tc_result = Tc_done 's | Tc_undefined | Tc_running 's

text \<open>
  \<open>fuel\<close> iterations of the thread: \<open>up n\<close> says whether the status is \<open>connected\<close> and
  \<open>junk n\<close> what the uninitialised header holds when \<open>n\<close> iterations are left.
\<close>

primrec tc_loop ::
  "nat \<Rightarrow> (nat \<Rightarrow> bool) \<Rightarrow> (nat \<Rightarrow> buffer_t) \<Rightarrow> 'c os_recv \<Rightarrow> 's dispatch_fun \<Rightarrow> u64 \<Rightarrow> 'c \<Rightarrow> 's \<Rightarrow>
   's tc_result" where
  "tc_loop 0 up junk rcv disp cid conn s = Tc_running s"
| "tc_loop (Suc n) up junk rcv disp cid conn s =
     (if \<not> up n then Tc_done s
      else
        (case tc_iteration (junk n) rcv disp cid conn s of
           None \<Rightarrow> Tc_undefined
         | Some (conn, s) \<Rightarrow> tc_loop n up junk rcv disp cid conn s))"

section \<open>The thread object follows the status\<close>

definition tc_inv :: "tcp_client \<Rightarrow> bool" where
  "tc_inv c \<longleftrightarrow> (tc_joinable c \<longleftrightarrow> cb_status c = Cl_connected)"

lemma tc_inv_new: "tc_inv (tcp_client_new s a)"
  by (simp add: tc_inv_def tcp_client_new_def)

lemma tc_connect_ok:
  "tc_inv c \<Longrightarrow> \<exists>c' calls. tc_connect r host port c = Some (c', calls) \<and> tc_inv c'"
  by (auto simp: tc_connect_def tc_inv_def tc_start_thread_def Let_def)

lemma tc_disconnect_ok:
  "tc_inv c \<Longrightarrow> \<exists>c' calls. tc_disconnect c = Some (c', calls) \<and> tc_inv c' \<and> cb_status c' \<noteq> Cl_connected"
  by (auto simp: tc_disconnect_def tc_inv_def tc_join_def)

text \<open>Any use of a client: calls of \<^verbatim>\<open>connect\<close> and \<^verbatim>\<open>disconnect\<close> in any order.\<close>

datatype client_op = Co_connect connect_results string u16 | Co_disconnect

fun client_step :: "client_op \<Rightarrow> tcp_client \<Rightarrow> (tcp_client \<times> syscall list) option" where
  "client_step (Co_connect r host port) c = tc_connect r host port c"
| "client_step Co_disconnect c = tc_disconnect c"

primrec client_run :: "client_op list \<Rightarrow> tcp_client \<Rightarrow> (tcp_client \<times> syscall list) option" where
  "client_run [] c = Some (c, [])"
| "client_run (p # ps) c =
     (case client_step p c of
        None \<Rightarrow> None
      | Some (c, calls) \<Rightarrow> map_option (\<lambda>(c, calls'). (c, calls @ calls')) (client_run ps c))"

lemma client_step_ok: "tc_inv c \<Longrightarrow> \<exists>c' calls. client_step p c = Some (c', calls) \<and> tc_inv c'"
  using tc_connect_ok tc_disconnect_ok by (cases p) (simp_all, blast+)

lemma client_run_ok: "tc_inv c \<Longrightarrow> \<exists>c' calls. client_run ps c = Some (c', calls) \<and> tc_inv c'"
proof (induction ps arbitrary: c)
  case (Cons p ps)
  obtain c1 calls where "client_step p c = Some (c1, calls)" "tc_inv c1"
    using client_step_ok [OF Cons.prems] by blast
  then show ?case using Cons.IH by fastforce
qed simp

lemma tc_destroy_calls:
  "tc_inv c \<Longrightarrow> tc_destroy c =
    Some (if cb_status c = Cl_connected then [Sys_shutdown (cb_socket c), Sys_closesocket (cb_socket c)] else [])"
  by (simp add: tc_destroy_def tc_disconnect_def tc_inv_def tc_join_def)

section \<open>Every socket is closed once\<close>

text \<open>
  The sockets a list of calls leaves open: \<open>opened\<close> lists the sockets the calls of
  \<^verbatim>\<open>connect\<close> got, in order; a client that is not connected has closed each of them.
\<close>

fun is_close :: "syscall \<Rightarrow> bool" where
  "is_close (Sys_closesocket s) = True"
| "is_close _ = False"

fun op_opens :: "client_op \<Rightarrow> tcp_client \<Rightarrow> socket_t list" where
  "op_opens (Co_connect r host port) c =
     (if cb_status c = Cl_connected \<or> cr_socket r = INVALID_SOCKET then [] else [cr_socket r])"
| "op_opens Co_disconnect c = []"

primrec run_opens :: "client_op list \<Rightarrow> tcp_client \<Rightarrow> socket_t list" where
  "run_opens [] c = []"
| "run_opens (p # ps) c =
     op_opens p c @ (case client_step p c of None \<Rightarrow> [] | Some (c, calls) \<Rightarrow> run_opens ps c)"

definition still_open :: "tcp_client \<Rightarrow> socket_t list" where
  "still_open c = (if cb_status c = Cl_connected then [cb_socket c] else [])"

lemma client_step_closes:
  "client_step p c = Some (c', calls) \<Longrightarrow>
    map Sys_closesocket (still_open c @ op_opens p c) =
    filter is_close calls @ map Sys_closesocket (still_open c')"
  by (cases p)
    (auto simp: tc_connect_def tc_disconnect_def tc_start_thread_def tc_join_def Let_def
      still_open_def split: if_splits)

lemma client_run_closes:
  "client_run ps c = Some (c', calls) \<Longrightarrow>
    map Sys_closesocket (still_open c @ run_opens ps c) =
    filter is_close calls @ map Sys_closesocket (still_open c')"
proof (induction ps arbitrary: c calls)
  case (Cons p ps)
  obtain c1 calls1 calls2 where s: "client_step p c = Some (c1, calls1)"
    and r: "client_run ps c1 = Some (c', calls2)" and calls: "calls = calls1 @ calls2"
    using Cons.prems by (auto split: option.splits)
  have "map Sys_closesocket (still_open c @ run_opens (p # ps) c) =
      filter is_close calls1 @ map Sys_closesocket (still_open c1 @ run_opens ps c1)"
    using client_step_closes [OF s] s by simp
  also have "\<dots> = filter is_close calls @ map Sys_closesocket (still_open c')"
    unfolding Cons.IH [OF r] calls by simp
  finally show ?case .
qed simp

section \<open>Properties\<close>

text \<open>No use of the client ends the process: from the constructor on, in every order of
  \<^verbatim>\<open>connect\<close> and \<^verbatim>\<open>disconnect\<close> calls with any answers of the system, a thread is only started
  when none is held and only joined when one is, also in the destructor; and every socket
  that was opened is closed exactly once, in the order of opening.\<close>

theorem tcp_client_lifecycle:
  "\<exists>c calls last. client_run ps (tcp_client_new s a) = Some (c, calls) \<and>
    tc_destroy c = Some last \<and>
    filter is_close (calls @ last) = map Sys_closesocket (run_opens ps (tcp_client_new s a))"
proof -
  obtain c calls where run: "client_run ps (tcp_client_new s a) = Some (c, calls)" and inv: "tc_inv c"
    using client_run_ok [OF tc_inv_new] by blast
  have "still_open (tcp_client_new s a) = []"
    by (simp add: still_open_def tcp_client_new_def)
  then show ?thesis
    using client_run_closes [OF run] run tc_destroy_calls [OF inv]
    by (auto simp: still_open_def)
qed

text \<open>The outcome of \<^verbatim>\<open>connect\<close> on a client that is not connected: it fails when no socket
  can be had or the peer refuses, and in the second case gives the socket back; when the host
  cannot be resolved it reports \<open>connected\<close> without having called \<^verbatim>\<open>::connect\<close>.\<close>

theorem tc_connect_outcome:
  assumes "tc_inv c" "cb_status c \<noteq> Cl_connected"
    and "tc_connect r host port c = Some (c', calls)"
  shows "cb_status c' =
      (if cr_socket r = INVALID_SOCKET then Cl_init_error
       else if cr_getaddrinfo r = 0 \<and> cr_connect r = -1 then Cl_connect_error
       else Cl_connected) \<and>
    cb_socket c' = cr_socket r \<and>
    (Sys_connect (cr_socket r) \<in> set calls \<longleftrightarrow> cr_socket r \<noteq> INVALID_SOCKET \<and> cr_getaddrinfo r = 0) \<and>
    (Sys_closesocket (cr_socket r) \<in> set calls \<longleftrightarrow> cb_status c' = Cl_connect_error)"
  using assms
  by (auto simp: tc_connect_def tc_start_thread_def tc_inv_def Let_def split: if_splits)

theorem tc_connect_outcome_witness:
  "\<exists>c' calls. tc_connect \<lparr>cr_socket = 8, cr_getaddrinfo = 11001, cr_connect = 0\<rparr> ''nowhere'' 10500
      (tcp_client_new 0 \<lparr>sin_addr = 0, sin_port = 0\<rparr>) = Some (c', calls) \<and>
    cb_status c' = Cl_connected \<and> Sys_connect 8 \<notin> set calls"
proof -
  let ?c = "tcp_client_new 0 \<lparr>sin_addr = 0, sin_port = 0\<rparr>"
  obtain c' calls where "tc_connect \<lparr>cr_socket = 8, cr_getaddrinfo = 11001, cr_connect = 0\<rparr> ''nowhere''
      10500 ?c = Some (c', calls)"
    using tc_connect_ok [OF tc_inv_new] by blast
  with tc_connect_outcome [OF tc_inv_new _ this] show ?thesis
    by (auto simp: tcp_client_new_def INVALID_SOCKET_def)
qed

text \<open>A client that \<open>connect\<close> left without a connection because the host was not resolved
  stays so: every further \<^verbatim>\<open>connect\<close> returns \<open>connected\<close> at once and calls nothing, until
  \<^verbatim>\<open>disconnect\<close>.\<close>

theorem unresolved_host_sticks:
  assumes "tc_inv c" "cb_status c \<noteq> Cl_connected" "cr_socket r \<noteq> INVALID_SOCKET" "cr_getaddrinfo r \<noteq> 0"
  shows "\<exists>c' calls. tc_connect r host port c = Some (c', calls) \<and>
    (\<forall>s. Sys_connect s \<notin> set calls) \<and>
    (\<forall>r' host' port'. tc_connect r' host' port' c' = Some (c', []))"
  using assms
  by (auto simp: tc_connect_def tc_start_thread_def tc_inv_def Let_def)

theorem unresolved_host_sticks_witness:
  "\<exists>c' calls. tc_connect \<lparr>cr_socket = 8, cr_getaddrinfo = 11001, cr_connect = 0\<rparr> ''nowhere'' 10500
      (tcp_client_new 0 \<lparr>sin_addr = 0, sin_port = 0\<rparr>) = Some (c', calls) \<and>
    tc_connect \<lparr>cr_socket = 9, cr_getaddrinfo = 0, cr_connect = 0\<rparr> ''localhost'' 10500 c' = Some (c', [])"
  using unresolved_host_sticks [OF tc_inv_new, of 0 "\<lparr>sin_addr = 0, sin_port = 0\<rparr>"
      "\<lparr>cr_socket = 8, cr_getaddrinfo = 11001, cr_connect = 0\<rparr>" "''nowhere''" 10500]
  by (auto simp: tcp_client_new_def INVALID_SOCKET_def)

text \<open>The thread does not notice that the server closed the connection: with the stream at
  its end it goes round for as long as the status is \<open>connected\<close>, without a pause and without
  a change.\<close>

theorem client_thread_spins:
  assumes "\<forall>n. up n" "rcv sizeof_header conn = (Received [], conn)"
  shows "tc_loop fuel up junk rcv disp cid conn s = Tc_running s"
proof (induction fuel)
  case (Suc n)
  have "tc_iteration (junk n) rcv disp cid conn s = Some (conn, s)"
    using assms(2) by (simp add: tc_iteration_def client_recv_def)
  with Suc assms(1) show ?case by simp
qed simp

theorem client_thread_spins_witness:
  "tc_loop 1000 (\<lambda>n. True) (\<lambda>n. []) seg_recv (\<lambda>s cmd ck inp out. (True, Suc s, cmd, out)) 8 [] 0
    = Tc_running 0"
  by (rule client_thread_spins) simp_all

end
