(* ===== verification/Frame.thy ===== *)
theory Frame
  imports Prelude
begin

text \<open>
  \<^verbatim>\<open>src/client/frame.{hpp,cpp}\<close>: the client's window, its five buttons and four text fields,
  what a click hands to the application and what the application's reports do to the widgets.

  wxWidgets is not part of the repository.  Its functions are the record \<open>wx_ops\<close> over the
  toolkit's own state, and the locale \<open>wx_toolkit\<close> states their documented effect on what the
  window shows: which widgets are visible, which are enabled, the texts of the fields and of
  the status bar.  The sizers, the styles and the icon are not modelled.
\<close>

section \<open>The toolkit\<close>

datatype widget =
    Connect_button | Disconnect_button | Login_button | Logout_button | Send_button
  | Input_field | Address_field | Login_field | Output_field

record view =
  v_shown :: "widget \<Rightarrow> bool"
  v_enabled :: "widget \<Rightarrow> bool"
  v_value :: "widget \<Rightarrow> string"
  v_status :: string

record 'g wx_ops =
  wx_new_text :: "widget \<Rightarrow> string \<Rightarrow> 'g \<Rightarrow> 'g"
  wx_new_button :: "widget \<Rightarrow> string \<Rightarrow> 'g \<Rightarrow> 'g"
  wx_show :: "widget \<Rightarrow> bool \<Rightarrow> 'g \<Rightarrow> 'g"
  wx_enable :: "widget \<Rightarrow> bool \<Rightarrow> 'g \<Rightarrow> 'g"
  wx_is_enabled :: "widget \<Rightarrow> 'g \<Rightarrow> bool"
  wx_get_value :: "widget \<Rightarrow> 'g \<Rightarrow> string"
  wx_clear :: "widget \<Rightarrow> 'g \<Rightarrow> 'g"
  wx_append :: "widget \<Rightarrow> string \<Rightarrow> 'g \<Rightarrow> 'g"
  wx_caret_end :: "widget \<Rightarrow> 'g \<Rightarrow> 'g"
  wx_set_status :: "string \<Rightarrow> 'g \<Rightarrow> 'g"
  wx_layout :: "'g \<Rightarrow> 'g"

named_theorems wx_laws

locale wx_toolkit =
  fixes W :: "'g wx_ops" and view :: "'g \<Rightarrow> view"
  assumes new_text [wx_laws]: "view (wx_new_text W w s g) = (view g)
      \<lparr>v_shown := (v_shown (view g))(w := True), v_enabled := (v_enabled (view g))(w := True),
       v_value := (v_value (view g))(w := s)\<rparr>"
    and new_button [wx_laws]: "view (wx_new_button W w s g) = (view g)
      \<lparr>v_shown := (v_shown (view g))(w := True), v_enabled := (v_enabled (view g))(w := True)\<rparr>"
    and show_hide [wx_laws]: "view (wx_show W w b g) = (view g)\<lparr>v_shown := (v_shown (view g))(w := b)\<rparr>"
    and enable [wx_laws]: "view (wx_enable W w b g) = (view g)\<lparr>v_enabled := (v_enabled (view g))(w := b)\<rparr>"
    and is_enabled [wx_laws]: "wx_is_enabled W w g = v_enabled (view g) w"
    and get_value [wx_laws]: "wx_get_value W w g = v_value (view g) w"
    and clear [wx_laws]: "view (wx_clear W w g) = (view g)\<lparr>v_value := (v_value (view g))(w := [])\<rparr>"
    and append [wx_laws]: "view (wx_append W w s g) =
      (view g)\<lparr>v_value := (v_value (view g))(w := v_value (view g) w @ s)\<rparr>"
    and caret_end [wx_laws]: "view (wx_caret_end W w g) = view g"
    and set_status [wx_laws]: "view (wx_set_status W s g) = (view g)\<lparr>v_status := s\<rparr>"
    and layout [wx_laws]: "view (wx_layout W g) = view g"

section \<open>The window\<close>

datatype ui_status = Ui_success | Ui_failed | Ui_pending

datatype ui_action = On_login | On_logout | On_connect | On_disconnect | On_send | On_recv

type_synonym 'g output_handler = "ui_status \<Rightarrow> string \<Rightarrow> string \<Rightarrow> 'g \<Rightarrow> 'g"

text \<open>\<^verbatim>\<open>load_ui\<close>: the status bar, the widgets in the order they are made, and what is hidden or
  disabled at first.\<close>

definition load_ui :: "'g wx_ops \<Rightarrow> 'g \<Rightarrow> 'g" where
  "load_ui W g =
     (let g = wx_set_status W ''Not connected.'' g;
          g = wx_new_text W Address_field ''localhost:10500'' g;
          g = wx_new_text W Login_field ''login:password'' g;
          g = wx_new_text W Input_field [] g;
          g = wx_new_text W Output_field [] g;
          g = wx_new_button W Connect_button ''Connect'' g;
          g = wx_new_button W Disconnect_button ''Disconnect'' g;
          g = wx_new_button W Login_button ''Login'' g;
          g = wx_new_button W Logout_button ''Logout'' g;
          g = wx_new_button W Send_button ''Send'' g;
          g = wx_show W Logout_button False g;
          g = wx_show W Disconnect_button False g;
          g = wx_enable W Send_button False g;
          g = wx_enable W Login_button False g;
          g = wx_enable W Login_field False g;
          g = wx_enable W Input_field False g
      in wx_layout W g)"

text \<open>
  The event handlers of the buttons.  Besides the window they return the call of
  \<^verbatim>\<open>input_handler\<close> they make: the action and its text.
\<close>

definition connect_clicked :: "'g wx_ops \<Rightarrow> 'g \<Rightarrow> 'g \<times> (ui_action \<times> string) option" where
  "connect_clicked W g =
     (let address = wx_get_value W Address_field g in
      if address = [] then (wx_set_status W ''Invalid server address.'' g, None)
      else (g, Some (On_connect, address)))"

definition disconnect_clicked :: "'g wx_ops \<Rightarrow> 'g \<Rightarrow> 'g \<times> (ui_action \<times> string) option" where
  "disconnect_clicked W g = (g, Some (On_disconnect, []))"

definition login_clicked :: "'g wx_ops \<Rightarrow> 'g \<Rightarrow> 'g \<times> (ui_action \<times> string) option" where
  "login_clicked W g =
     (let userpass = wx_get_value W Login_field g in
      if userpass = [] then (wx_set_status W ''Invalid login or password.'' g, None)
      else (g, Some (On_login, userpass)))"

definition logout_clicked :: "'g wx_ops \<Rightarrow> 'g \<Rightarrow> 'g \<times> (ui_action \<times> string) option" where
  "logout_clicked W g = (g, Some (On_logout, []))"

definition send_clicked :: "'g wx_ops \<Rightarrow> 'g \<Rightarrow> 'g \<times> (ui_action \<times> string) option" where
  "send_clicked W g =
     (let msg = wx_get_value W Input_field g in
      if msg = [] then (wx_set_status W ''Invalid message.'' g, None)
      else (g, Some (On_send, msg)))"

text \<open>The \<^verbatim>\<open>Connect\<close> calls at the end of \<^verbatim>\<open>load_ui\<close>.\<close>

fun clicked :: "'g wx_ops \<Rightarrow> widget \<Rightarrow> 'g \<Rightarrow> 'g \<times> (ui_action \<times> string) option" where
  "clicked W Connect_button g = connect_clicked W g"
| "clicked W Disconnect_button g = disconnect_clicked W g"
| "clicked W Login_button g = login_clicked W g"
| "clicked W Logout_button g = logout_clicked W g"
| "clicked W Send_button g = send_clicked W g"
| "clicked W _ g = (g, None)"

section \<open>Reports of the application\<close>

definition frame_on_connect :: "'g wx_ops \<Rightarrow> 'g output_handler" where
  "frame_on_connect W st msg data g =
     (let g =
            (if st = Ui_success then
               let g = wx_show W Disconnect_button True g;
                   g = wx_enable W Address_field False g;
                   g = (if \<not> wx_is_enabled W Login_button g then
                          wx_enable W Login_field True (wx_enable W Login_button True g)
                        else g);
                   g = (if \<not> wx_is_enabled W Logout_button g then
                          wx_enable W Login_field True (wx_enable W Logout_button True g)
                        else g)
               in wx_show W Connect_button False g
             else if st = Ui_pending then
               wx_enable W Connect_button False (wx_enable W Address_field False g)
             else g)
      in wx_layout W (wx_set_status W msg g))"

definition frame_on_disconnect :: "'g wx_ops \<Rightarrow> 'g output_handler" where
  "frame_on_disconnect W st msg data g =
     (let g =
            (if st = Ui_success then
               let g = wx_show W Connect_button True g;
                   g = wx_enable W Connect_button True g;
                   g = wx_enable W Address_field True g;
                   g = wx_show W Disconnect_button False g;
                   g = (if wx_is_enabled W Send_button g then
                          wx_enable W Input_field False (wx_enable W Send_button False g)
                        else g);
                   g = (if wx_is_enabled W Login_button g then
                          wx_enable W Login_field False (wx_enable W Login_button False g)
                        else g);
                   g = wx_show W Logout_button False g;
                   g = wx_show W Login_button True g
               in wx_enable W Login_field False g
             else if st = Ui_pending then wx_layout W (wx_enable W Disconnect_button False g)
             else g)
      in wx_layout W (wx_set_status W msg g))"

definition frame_on_login :: "'g wx_ops \<Rightarrow> 'g output_handler" where
  "frame_on_login W st msg data g =
     (let g =
            (if st = Ui_success then
               let g = wx_show W Logout_button True g;
                   g = wx_enable W Logout_button True g;
                   g = wx_enable W Login_field False g;
                   g = wx_show W Login_button False g;
                   g = wx_enable W Send_button True g
               in wx_enable W Input_field True g
             else if st = Ui_pending then wx_layout W (wx_enable W Login_button False g)
             else g)
      in wx_layout W (wx_set_status W msg g))"

definition frame_on_logout :: "'g wx_ops \<Rightarrow> 'g output_handler" where
  "frame_on_logout W st msg data g =
     (let g =
            (if st = Ui_success then
               let g = wx_show W Login_button True g;
                   g = wx_enable W Login_field True g;
                   g = wx_show W Logout_button False g;
                   g = wx_enable W Send_button False g
               in wx_enable W Input_field False g
             else if st = Ui_pending then wx_enable W Logout_button False g
             else g)
      in wx_layout W (wx_set_status W msg g))"

definition frame_on_send :: "'g wx_ops \<Rightarrow> 'g output_handler" where
  "frame_on_send W st msg data g =
     (if st = Ui_pending then wx_layout W (wx_set_status W msg (wx_clear W Input_field g)) else g)"

definition frame_on_recv :: "'g wx_ops \<Rightarrow> 'g output_handler" where
  "frame_on_recv W st msg data g =
     (if st = Ui_success then
        let g = wx_append W Output_field msg g;
            g = wx_append W Output_field '': '' g;
            g = wx_append W Output_field data g;
            g = wx_caret_end W Output_field g;
            g = wx_append W Output_field [CHR 0x0A] g
        in wx_layout W g
      else g)"

text \<open>\<^verbatim>\<open>output_hadnlers\<close>: the constructor enters the window's handlers into the
  application's table.\<close>

definition output_hadnlers ::
  "'g wx_ops \<Rightarrow> (ui_action \<rightharpoonup> 'g output_handler) \<Rightarrow> (ui_action \<rightharpoonup> 'g output_handler)" where
  "output_hadnlers W handlers = handlers
     (On_login \<mapsto> frame_on_login W, On_logout \<mapsto> frame_on_logout W, On_connect \<mapsto> frame_on_connect W,
      On_disconnect \<mapsto> frame_on_disconnect W, On_recv \<mapsto> frame_on_recv W, On_send \<mapsto> frame_on_send W)"

definition frame_new ::
  "'g wx_ops \<Rightarrow> 'g \<Rightarrow> (ui_action \<rightharpoonup> 'g output_handler) \<Rightarrow> 'g \<times> (ui_action \<rightharpoonup> 'g output_handler)" where
  "frame_new W g handlers = (load_ui W g, output_hadnlers W handlers)"

section \<open>A toolkit that is its own view\<close>

definition plain_wx :: "view wx_ops" where
  "plain_wx =
     \<lparr>wx_new_text = (\<lambda>w s v. v\<lparr>v_shown := (v_shown v)(w := True),
        v_enabled := (v_enabled v)(w := True), v_value := (v_value v)(w := s)\<rparr>),
      wx_new_button = (\<lambda>w s v. v\<lparr>v_shown := (v_shown v)(w := True),
        v_enabled := (v_enabled v)(w := True)\<rparr>),
      wx_show = (\<lambda>w b v. v\<lparr>v_shown := (v_shown v)(w := b)\<rparr>),
      wx_enable = (\<lambda>w b v. v\<lparr>v_enabled := (v_enabled v)(w := b)\<rparr>),
      wx_is_enabled = (\<lambda>w v. v_enabled v w),
      wx_get_value = (\<lambda>w v. v_value v w),
      wx_clear = (\<lambda>w v. v\<lparr>v_value := (v_value v)(w := [])\<rparr>),
      wx_append = (\<lambda>w s v. v\<lparr>v_value := (v_value v)(w := v_value v w @ s)\<rparr>),
      wx_caret_end = (\<lambda>w v. v),
      wx_set_status = (\<lambda>s v. v\<lparr>v_status := s\<rparr>),
      wx_layout = (\<lambda>v. v)\<rparr>"

interpretation plain: wx_toolkit plain_wx "\<lambda>v. v"
  by unfold_locales (simp_all add: plain_wx_def)

lemmas plain_laws =
  plain.new_text plain.new_button plain.show_hide plain.enable plain.is_enabled plain.get_value
  plain.clear plain.append plain.caret_end plain.set_status plain.layout

named_theorems frame_defs

lemmas [frame_defs] =
  load_ui_def connect_clicked_def disconnect_clicked_def login_clicked_def logout_clicked_def
  send_clicked_def frame_on_connect_def frame_on_disconnect_def frame_on_login_def
  frame_on_logout_def frame_on_send_def frame_on_recv_def

text \<open>On every toolkit the window shows what it shows on the plain one.\<close>

context wx_toolkit
begin

lemma if_view: "view (if b then g else g') = (if b then view g else view g')"
  by simp

lemma op_view:
  "view (wx_new_text W w s g) = wx_new_text plain_wx w s (view g)"
  "view (wx_new_button W w s g) = wx_new_button plain_wx w s (view g)"
  "view (wx_show W w b g) = wx_show plain_wx w b (view g)"
  "view (wx_enable W w b g) = wx_enable plain_wx w b (view g)"
  "wx_is_enabled W w g = wx_is_enabled plain_wx w (view g)"
  "wx_get_value W w g = wx_get_value plain_wx w (view g)"
  "view (wx_clear W w g) = wx_clear plain_wx w (view g)"
  "view (wx_append W w s g) = wx_append plain_wx w s (view g)"
  "view (wx_caret_end W w g) = wx_caret_end plain_wx w (view g)"
  "view (wx_set_status W s g) = wx_set_status plain_wx s (view g)"
  "view (wx_layout W g) = wx_layout plain_wx (view g)"
  by (simp_all add: wx_laws plain_laws)

lemma load_ui_view: "view (load_ui W g) = load_ui plain_wx (view g)"
  by (simp add: load_ui_def Let_def op_view)

lemma report_view:
  "view (frame_on_connect W st msg data g) = frame_on_connect plain_wx st msg data (view g)"
  "view (frame_on_disconnect W st msg data g) = frame_on_disconnect plain_wx st msg data (view g)"
  "view (frame_on_login W st msg data g) = frame_on_login plain_wx st msg data (view g)"
  "view (frame_on_logout W st msg data g) = frame_on_logout plain_wx st msg data (view g)"
  "view (frame_on_send W st msg data g) = frame_on_send plain_wx st msg data (view g)"
  "view (frame_on_recv W st msg data g) = frame_on_recv plain_wx st msg data (view g)"
  by (simp_all only: frame_defs Let_def op_view if_view)

end

section \<open>The screens\<close>

text \<open>
  What the user sees, abstractly: the state of the link as the address row shows it, and
  whether the login row looks logged in.
\<close>

datatype link = Offline | Connecting | Online

type_synonym screen = "link \<times> bool"

definition screen_of :: "view \<Rightarrow> screen" where
  "screen_of v =
     (if v_shown v Disconnect_button then Online
      else if v_enabled v Connect_button then Offline else Connecting,
      v_shown v Logout_button)"

fun screen_step :: "ui_action \<times> ui_status \<Rightarrow> screen \<Rightarrow> screen" where
  "screen_step (On_connect, Ui_success) (l, m) = (Online, m)"
| "screen_step (On_connect, Ui_pending) (l, m) = (if l = Online then Online else Connecting, m)"
| "screen_step (On_disconnect, Ui_success) (l, m) = (Offline, False)"
| "screen_step (On_login, Ui_success) (l, m) = (l, True)"
| "screen_step (On_logout, Ui_success) (l, m) = (l, False)"
| "screen_step _ (l, m) = (l, m)"

text \<open>The invariant that ties the widgets to the screen.\<close>

definition frame_inv :: "view \<Rightarrow> bool" where
  "frame_inv v \<longleftrightarrow>
     v_shown v Send_button \<and> v_enabled v Disconnect_button \<and>
     v_shown v Connect_button = (\<not> v_shown v Disconnect_button) \<and>
     v_shown v Login_button = (\<not> v_shown v Logout_button) \<and>
     v_enabled v Send_button = v_shown v Logout_button \<and>
     v_enabled v Input_field = v_shown v Logout_button \<and>
     v_enabled v Login_button = v_shown v Disconnect_button \<and>
     v_enabled v Address_field = (v_shown v Connect_button \<and> v_enabled v Connect_button)"

text \<open>A report, by way of the table the constructor fills.  The application never reports a
  pending login or disconnect.\<close>

datatype report = Report (rp_action: ui_action) (rp_status: ui_status) (rp_msg: string) (rp_data: string)

definition report_ok :: "report \<Rightarrow> bool" where
  "report_ok r \<longleftrightarrow> \<not> (rp_action r \<in> {On_login, On_disconnect} \<and> rp_status r = Ui_pending)"

fun show_report :: "'g wx_ops \<Rightarrow> report \<Rightarrow> 'g \<Rightarrow> 'g" where
  "show_report W (Report act st msg data) g =
     (case output_hadnlers W Map.empty act of
        Some h \<Rightarrow> h st msg data g
      | None \<Rightarrow> g)"

lemma output_hadnlers_lookup:
  "output_hadnlers W hs On_login = Some (frame_on_login W)"
  "output_hadnlers W hs On_logout = Some (frame_on_logout W)"
  "output_hadnlers W hs On_connect = Some (frame_on_connect W)"
  "output_hadnlers W hs On_disconnect = Some (frame_on_disconnect W)"
  "output_hadnlers W hs On_send = Some (frame_on_send W)"
  "output_hadnlers W hs On_recv = Some (frame_on_recv W)"
  by (simp_all add: output_hadnlers_def)

lemma plain_load_ui: "frame_inv (load_ui plain_wx v)" "screen_of (load_ui plain_wx v) = (Offline, False)"
  by (simp_all add: load_ui_def Let_def plain_laws frame_inv_def screen_of_def)

lemma plain_report:
  assumes "frame_inv v" "report_ok r"
  shows "frame_inv (show_report plain_wx r v)"
    and "screen_of (show_report plain_wx r v) = screen_step (rp_action r, rp_status r) (screen_of v)"
  using assms
  by (cases r; cases "rp_action r"; cases "rp_status r";
      simp add: output_hadnlers_lookup frame_defs Let_def plain_laws frame_inv_def screen_of_def
        report_ok_def)+

context wx_toolkit
begin

lemma show_report_view: "view (show_report W r g) = show_report plain_wx r (view g)"
  by (cases r; cases "rp_action r") (simp_all add: output_hadnlers_lookup report_view)

lemma reports_view: "view (fold (show_report W) rs g) = fold (show_report plain_wx) rs (view g)"
  by (induction rs arbitrary: g) (simp_all add: show_report_view)

end

lemma plain_reports:
  "frame_inv v \<Longrightarrow> list_all report_ok rs \<Longrightarrow>
    frame_inv (fold (show_report plain_wx) rs v) \<and>
    screen_of (fold (show_report plain_wx) rs v) =
      fold screen_step (map (\<lambda>r. (rp_action r, rp_status r)) rs) (screen_of v)"
  by (induction rs arbitrary: v) (simp_all add: plain_report)

text \<open>The buttons a user can press.\<close>

definition clickable :: "view \<Rightarrow> widget \<Rightarrow> bool" where
  "clickable v w \<longleftrightarrow> w \<in> {Connect_button, Disconnect_button, Login_button, Logout_button, Send_button} \<and>
     v_shown v w \<and> v_enabled v w"

lemma clickable_screen:
  "frame_inv v \<Longrightarrow>
    clickable v Connect_button = (fst (screen_of v) = Offline) \<and>
    clickable v Disconnect_button = (fst (screen_of v) = Online) \<and>
    clickable v Login_button = (fst (screen_of v) = Online \<and> \<not> snd (screen_of v)) \<and>
    (clickable v Logout_button \<longrightarrow> snd (screen_of v)) \<and>
    clickable v Send_button = snd (screen_of v)"
  by (auto simp: frame_inv_def clickable_def screen_of_def)

section \<open>Properties\<close>

text \<open>C37: the window implements the screens: after any reports the application makes, on any
  toolkit that does what it documents, the widgets show the screen the abstract machine is
  in, and satisfy the invariant (one button of each pair is visible, sending is enabled
  exactly while logged in, the address can be edited exactly while one can connect).\<close>

theorem frame_refines_screens:
  assumes "wx_toolkit W view" "list_all report_ok rs"
  shows "frame_inv (view (fold (show_report W) rs (load_ui W g))) \<and>
    screen_of (view (fold (show_report W) rs (load_ui W g))) =
      fold screen_step (map (\<lambda>r. (rp_action r, rp_status r)) rs) (Offline, False)"
  using plain_reports [OF plain_load_ui(1) assms(2)] plain_load_ui(2)
  by (simp add: wx_toolkit.reports_view [OF assms(1)] wx_toolkit.load_ui_view [OF assms(1)])

definition blank_view :: view where
  "blank_view = \<lparr>v_shown = (\<lambda>w. False), v_enabled = (\<lambda>w. False), v_value = (\<lambda>w. []), v_status = []\<rparr>"

theorem frame_refines_screens_witness:
  "screen_of (fold (show_report plain_wx)
     [Report On_connect Ui_pending ''Connect...'' [], Report On_connect Ui_success ''ok'' [],
      Report On_login Ui_success ''Login...'' []] (load_ui plain_wx blank_view)) = (Online, True)"
  using frame_refines_screens [OF plain.wx_toolkit_axioms,
      of "[Report On_connect Ui_pending ''Connect...'' [], Report On_connect Ui_success ''ok'' [],
        Report On_login Ui_success ''Login...'' []]" blank_view]
  by (simp add: report_ok_def)

text \<open>While a connection is pending nothing can be pressed: unless the login row already
  looks logged in, all five buttons are hidden or disabled, so a hello that is never answered
  leaves the user with no way to cancel or to retry.\<close>

theorem connecting_screen_stuck:
  assumes "wx_toolkit W view" "list_all report_ok rs"
    and "fold screen_step (map (\<lambda>r. (rp_action r, rp_status r)) rs) (Offline, False) = (Connecting, False)"
  shows "\<not> clickable (view (fold (show_report W) rs (load_ui W g))) w"
proof -
  let ?v = "view (fold (show_report W) rs (load_ui W g))"
  have "frame_inv ?v" "screen_of ?v = (Connecting, False)"
    using plain_reports [OF plain_load_ui(1) assms(2)] plain_load_ui(2) assms(3)
    by (simp_all add: wx_toolkit.reports_view [OF assms(1)] wx_toolkit.load_ui_view [OF assms(1)])
  from clickable_screen [OF this(1)] this(2) show ?thesis
    by (cases w) (auto simp: clickable_def)
qed

theorem connecting_screen_stuck_witness:
  "\<not> clickable (fold (show_report plain_wx) [Report On_connect Ui_pending ''Connect...'' []]
     (load_ui plain_wx blank_view)) Connect_button"
  using connecting_screen_stuck [OF plain.wx_toolkit_axioms,
      of "[Report On_connect Ui_pending ''Connect...'' []]" blank_view Connect_button]
  by (simp add: report_ok_def)

end
