(* ===== verification/Spd_Common.thy ===== *)
theory Spd_Common
  imports Decimal "HOL-Library.Signed_Division"
begin

text \<open>
  What every part of the logging library (\<^verbatim>\<open>contrib/spdlog\<close>) shares: the levels and their
  names (\<^verbatim>\<open>common.h\<close>, \<^verbatim>\<open>common-inl.h\<close>), a log message (\<^verbatim>\<open>details/log_msg.h\<close>), calendar time,
  and the printing of numbers (\<^verbatim>\<open>details/fmt_helper.h\<close>).  A point of time is the number of
  nanoseconds since the epoch, and \<^verbatim>\<open>duration_cast\<close> truncates towards zero.
\<close>

section \<open>Levels\<close>

datatype level_enum =
  Level_trace | Level_debug | Level_info | Level_warn | Level_err | Level_critical | Level_off

fun level_value :: "level_enum \<Rightarrow> nat" where
  "level_value Level_trace = 0"
| "level_value Level_debug = 1"
| "level_value Level_info = 2"
| "level_value Level_warn = 3"
| "level_value Level_err = 4"
| "level_value Level_critical = 5"
| "level_value Level_off = 6"

lemma level_value_inject [simp]: "level_value a = level_value b \<longleftrightarrow> a = b"
  by (cases a; cases b) simp_all

text \<open>Levels are compared as the numbers they are in C++.\<close>

instantiation level_enum :: linorder
begin

definition less_eq_level_enum :: "level_enum \<Rightarrow> level_enum \<Rightarrow> bool" where
  "less_eq_level_enum a b \<longleftrightarrow> level_value a \<le> level_value b"

definition less_level_enum :: "level_enum \<Rightarrow> level_enum \<Rightarrow> bool" where
  "less_level_enum a b \<longleftrightarrow> level_value a < level_value b"

instance
  by standard (auto simp: less_eq_level_enum_def less_level_enum_def)

end

lemmas level_order = less_eq_level_enum_def less_level_enum_def

definition level_string_views :: "string list" where
  "level_string_views =
     [''trace'', ''debug'', ''info'', ''warning'', ''error'', ''critical'', ''off'']"

definition short_level_names :: "string list" where
  "short_level_names = [''T'', ''D'', ''I'', ''W'', ''E'', ''C'', ''O'']"

definition level_enums :: "level_enum list" where
  "level_enums =
     [Level_trace, Level_debug, Level_info, Level_warn, Level_err, Level_critical, Level_off]"

definition to_string_view :: "level_enum \<Rightarrow> string" where
  "to_string_view l = level_string_views ! level_value l"

definition to_short_c_str :: "level_enum \<Rightarrow> string" where
  "to_short_c_str l = short_level_names ! level_value l"

definition from_str :: "string \<Rightarrow> level_enum" where
  "from_str name =
     (case map_of (zip level_string_views level_enums) name of
        Some l \<Rightarrow> l
      | None \<Rightarrow>
          if name = ''warn'' then Level_warn
          else if name = ''err'' then Level_err
          else Level_off)"

lemmas level_defs = level_string_views_def short_level_names_def level_enums_def
  to_string_view_def to_short_c_str_def from_str_def

text \<open>The name of a level is read back as that level, and no two levels share a letter.\<close>

lemma from_str_to_string_view [simp]: "from_str (to_string_view l) = l"
  by (cases l) (simp_all add: level_defs)

lemma to_short_c_str_inject: "to_short_c_str a = to_short_c_str b \<longleftrightarrow> a = b"
  by (cases a; cases b) (simp_all add: level_defs)

lemma length_to_short_c_str [simp]: "length (to_short_c_str l) = 1"
  by (cases l) (simp_all add: level_defs)

section \<open>Time\<close>

record tm =
  tm_sec :: int
  tm_min :: int
  tm_hour :: int
  tm_mday :: int
  tm_mon :: int
  tm_year :: int
  tm_wday :: int
  tm_isdst :: int
  tm_gmtoff :: int

definition seconds :: int where "seconds = 1000000000"
definition milliseconds :: int where "milliseconds = 1000000"
definition microseconds :: int where "microseconds = 1000"
definition nanoseconds :: int where "nanoseconds = 1"

lemmas time_units = seconds_def milliseconds_def microseconds_def nanoseconds_def

definition duration_cast :: "int \<Rightarrow> int \<Rightarrow> int" where
  "duration_cast u t = t sdiv u"

definition time_fraction :: "int \<Rightarrow> int \<Rightarrow> int" where
  "time_fraction u t = duration_cast u t - duration_cast u (duration_cast seconds t * seconds)"

text \<open>
  The platform: the conversions of the C library to calendar time, the source of the offset
  from UTC (the time zone of Windows, which may fail, or the \<^verbatim>\<open>tm_gmtoff\<close> of a Unix), the
  process id, the separators of folders and the end of a line.
\<close>

datatype tz_source = Tz_windows "(int \<times> int \<times> int) option" | Tz_gmtoff

record platform =
  os_localtime :: "int \<Rightarrow> tm"
  os_gmtime :: "int \<Rightarrow> tm"
  os_mktime :: "tm \<Rightarrow> int"
  os_tz :: tz_source
  os_pid :: u32
  os_folder_seps :: string
  os_default_eol :: string

text \<open>\<^term>\<open>None\<close> is the exception \<^verbatim>\<open>spdlog_ex\<close>.\<close>

fun utc_minutes_offset :: "platform \<Rightarrow> tm \<Rightarrow> int option" where
  "utc_minutes_offset os t =
     (case os_tz os of
        Tz_windows None \<Rightarrow> None
      | Tz_windows (Some (bias, daylight, standard)) \<Rightarrow>
          Some (- bias - (if tm_isdst t \<noteq> 0 then daylight else standard))
      | Tz_gmtoff \<Rightarrow> Some (tm_gmtoff t sdiv 60))"

section \<open>Messages\<close>

record source_loc =
  sl_filename :: string
  sl_line :: "32 word"
  sl_funcname :: string

definition no_source :: source_loc where
  "no_source = \<lparr>sl_filename = [], sl_line = 0, sl_funcname = []\<rparr>"

definition source_empty :: "source_loc \<Rightarrow> bool" where
  "source_empty s \<longleftrightarrow> sl_line s = 0"

record log_msg =
  lm_logger_name :: string
  lm_level :: level_enum
  lm_time :: int
  lm_thread_id :: u64
  lm_color_start :: nat
  lm_color_end :: nat
  lm_source :: source_loc
  lm_payload :: string

text \<open>The constructor takes the time and the id of the calling thread from the platform.\<close>

definition log_msg :: "int \<Rightarrow> u64 \<Rightarrow> source_loc \<Rightarrow> string \<Rightarrow> level_enum \<Rightarrow> string \<Rightarrow> log_msg" where
  "log_msg now tid loc name lvl payload =
     \<lparr>lm_logger_name = name, lm_level = lvl, lm_time = now, lm_thread_id = tid,
      lm_color_start = 0, lm_color_end = 0, lm_source = loc, lm_payload = payload\<rparr>"

section \<open>Printing numbers\<close>

definition append_int :: "int \<Rightarrow> string" where
  "append_int n = (if n < 0 then CHR ''-'' # show_nat (nat (- n)) else show_nat (nat n))"

definition fmt_count_digits :: "nat \<Rightarrow> nat" where
  "fmt_count_digits n = length (show_nat n)"

text \<open>Outside \<open>0..99\<close> the formatting library prints with \<^verbatim>\<open>{:02}\<close>; such a number has two
  characters anyway.\<close>

definition pad2 :: "int \<Rightarrow> string" where
  "pad2 n =
     (if 0 \<le> n \<and> n < 100 then [digit (nat n div 10), digit (nat n mod 10)] else append_int n)"

definition pad_uint :: "nat \<Rightarrow> nat \<Rightarrow> string" where
  "pad_uint n width = replicate (width - fmt_count_digits n) (CHR ''0'') @ append_int (int n)"

definition pad3 :: "nat \<Rightarrow> string" where
  "pad3 n =
     (if n < 1000 then [digit (n div 100), digit (n mod 100 div 10), digit (n mod 100 mod 10)]
      else append_int (int n))"

definition pad6 :: "nat \<Rightarrow> string" where "pad6 n = pad_uint n 6"
definition pad9 :: "nat \<Rightarrow> string" where "pad9 n = pad_uint n 9"

lemma length_pad2 [simp]: "0 \<le> n \<Longrightarrow> n < 100 \<Longrightarrow> length (pad2 n) = 2"
  by (simp add: pad2_def)

lemma length_pad3 [simp]: "n < 1000 \<Longrightarrow> length (pad3 n) = 3"
  by (simp add: pad3_def)

lemma length_show_nat: "n < 10 ^ Suc k \<Longrightarrow> length (show_nat n) \<le> Suc k"
proof (induction k arbitrary: n)
  case 0
  then show ?case by (simp add: show_nat.simps [of n])
next
  case (Suc k)
  then have "n div 10 < 10 ^ Suc k" by simp
  with Suc.IH show ?case by (simp add: show_nat.simps [of n])
qed

lemma length_pad_uint: "n < 10 ^ w \<Longrightarrow> 0 < w \<Longrightarrow> length (pad_uint n w) = w"
  using length_show_nat [of n "w - 1"]
  by (cases w) (simp_all add: pad_uint_def fmt_count_digits_def append_int_def)

end
