(* ===== verification/Core_Base.thy ===== *)
theory Core_Base
  imports Prelude Spd_Common
begin

text \<open>
  \<^verbatim>\<open>src/core\<close>: the error codes and the exception of \<^verbatim>\<open>error.{hpp,cpp}\<close> and the choice of
  a logger in \<^verbatim>\<open>logger.hpp\<close>.
\<close>

section \<open>Error codes\<close>

datatype errc =
  Errc_fail | Errc_success | Errc_not_found | Errc_invalid_argument
| Errc_insufficient_resources | Errc_not_implement

fun errc_value :: "errc \<Rightarrow> int" where
  "errc_value Errc_fail = 0"
| "errc_value Errc_success = 1"
| "errc_value Errc_not_found = 2"
| "errc_value Errc_invalid_argument = 3"
| "errc_value Errc_insufficient_resources = 4"
| "errc_value Errc_not_implement = 5"

definition core_category_name :: string where
  "core_category_name = ''core''"

definition core_category_message :: "int \<Rightarrow> string" where
  "core_category_message ev =
     (if ev = errc_value Errc_fail then ''common core error''
      else if ev = errc_value Errc_success then ''common core success''
      else ''(unrecognized error)'')"

text \<open>A \<^verbatim>\<open>std::error_code\<close> is a value and the category it belongs to.\<close>

definition make_error_code :: "errc \<Rightarrow> int \<times> string" where
  "make_error_code e = (errc_value e, core_category_name)"

record core_exception =
  ce_what :: string
  ce_errc :: errc

definition core_exception :: "string \<Rightarrow> errc \<Rightarrow> core_exception" where
  "core_exception what ec =
     (let m_what = ''gologin::core::exception => '';
          m_what = m_what @ ''['';
          m_what = m_what @ what;
          m_what = m_what @ '']'';
          m_what = m_what @ '' ('';
          m_what = m_what @ '')''
      in \<lparr>ce_what = m_what, ce_errc = ec\<rparr>)"

lemma errc_value_inject: "errc_value a = errc_value b \<longleftrightarrow> a = b"
  by (cases a; cases b) simp_all

lemma make_error_code_inject: "make_error_code a = make_error_code b \<longleftrightarrow> a = b"
  by (simp add: make_error_code_def errc_value_inject)

lemma core_exception_fields:
  "ce_errc (core_exception what ec) = ec"
  "ce_what (core_exception what ec) = ''gologin::core::exception => ['' @ what @ ''] ()''"
  by (simp_all add: core_exception_def)

text \<open>The text of an error code tells only failure and success apart: the four other
  codes, which differ as codes, share one message.\<close>

theorem error_message_ambiguous:
  "core_category_message (errc_value e) = ''(unrecognized error)'' \<longleftrightarrow>
    e \<noteq> Errc_fail \<and> e \<noteq> Errc_success"
  by (cases e) (simp_all add: core_category_message_def)

section \<open>Choosing a logger\<close>

definition get_logger_level :: "string \<Rightarrow> level_enum" where
  "get_logger_level level =
     (case map_of [(''info'', Level_info), (''debug'', Level_debug), (''error'', Level_err)] level of
        Some l \<Rightarrow> l
      | None \<Rightarrow> Level_info)"

text \<open>
  \<^verbatim>\<open>spdlog::default_logger()\<close> is one logger of the process; \<^verbatim>\<open>daily_logger_mt\<close> makes a new
  one that starts a file at 23:59.
\<close>

datatype log_sink = Sink_default | Sink_daily_file (sink_path: string) nat nat

record logger =
  lg_name :: string
  lg_sink :: log_sink
  lg_level :: level_enum
  lg_flush_on :: "level_enum option"
  lg_pattern :: string

definition logger_pattern :: string where
  "logger_pattern = ''[%H:%M:%S %z] [%n] [%^---%L---%$] [thread %t] %v''"

text \<open>\<^verbatim>\<open>create_logger\<close> returns a null pointer for a sink it does not know: \<^term>\<open>None\<close>.\<close>

definition create_logger :: "logger \<Rightarrow> string \<Rightarrow> string \<Rightarrow> string \<Rightarrow> string \<Rightarrow> logger option" where
  "create_logger default_logger level sink name path =
     (if sink = ''console'' then
        Some (default_logger\<lparr>lg_level := get_logger_level level, lg_pattern := logger_pattern\<rparr>)
      else if sink = ''file'' then
        Some \<lparr>lg_name = name, lg_sink = Sink_daily_file path 23 59,
              lg_level = get_logger_level level, lg_flush_on = Some (get_logger_level level),
              lg_pattern = logger_pattern\<rparr>
      else None)"

lemma get_logger_level_known:
  "get_logger_level ''info'' = Level_info"
  "get_logger_level ''debug'' = Level_debug"
  "get_logger_level ''error'' = Level_err"
  by (simp_all add: get_logger_level_def)

lemma get_logger_level_other:
  "level \<notin> {''info'', ''debug'', ''error''} \<Longrightarrow> get_logger_level level = Level_info"
  by (simp add: get_logger_level_def)

text \<open>A logger is created exactly for the two sinks of the documentation, with the level
  named in the configuration (\<^verbatim>\<open>info\<close> for an unknown name); any other sink gives a null
  pointer, which both applications dereference at their first message.\<close>

theorem create_logger_sinks:
  "(create_logger dl level sink name path \<noteq> None \<longleftrightarrow> sink \<in> {''console'', ''file''}) \<and>
   (\<forall>lg. create_logger dl level sink name path = Some lg \<longrightarrow>
      lg_level lg = get_logger_level level \<and> lg_pattern lg = logger_pattern \<and>
      (sink = ''file'' \<longrightarrow> lg_name lg = name \<and> sink_path (lg_sink lg) = path))"
  by (auto simp: create_logger_def)

theorem create_logger_sinks_witness:
  "lg_level (the (create_logger \<lparr>lg_name = [], lg_sink = Sink_default, lg_level = Level_info,
      lg_flush_on = None, lg_pattern = []\<rparr> ''error'' ''file'' ''gologin_client'' ''a.log'')) = Level_err"
proof -
  let ?dl = "\<lparr>lg_name = [], lg_sink = Sink_default, lg_level = Level_info,
      lg_flush_on = None, lg_pattern = []\<rparr>"
  obtain lg where "create_logger ?dl ''error'' ''file'' ''gologin_client'' ''a.log'' = Some lg"
    using create_logger_sinks [of ?dl "''error''" "''file''" "''gologin_client''" "''a.log''"] by auto
  then show ?thesis
    using create_logger_sinks [of ?dl "''error''" "''file''" "''gologin_client''" "''a.log''"]
    by (simp add: get_logger_level_known)
qed

end
