(* ===== verification/Client_App.thy ===== *)
theory Client_App
  imports Tcp_Client Frame Core_Base
begin

text \<open>
  The client application, \<^verbatim>\<open>src/client/app.{hpp,cpp}\<close>: what it does for each button, and its
  six handlers for the packets of the server.

  \<open>client_env\<close> collects what is not in the repository: the JSON library, \<^verbatim>\<open>std::hash\<close>, the
  toolkit, \<^verbatim>\<open>::send\<close>, and the conversions between \<^verbatim>\<open>wxString\<close> and the encoding of the
  current locale.  The handlers run on the receiving thread and the callbacks on the thread
  of the window; each is one atomic step of the model.
\<close>

section \<open>State and environment\<close>

record 'g client_app =
  ca_id :: u64
  ca_session :: string
  ca_login :: string
  ca_gui :: 'g
  ca_outputs :: "ui_action \<rightharpoonup> 'g output_handler"
  ca_tcp :: tcp_client
  ca_calls :: "syscall list"

record ('j, 'g) client_env =
  ce_json :: "'j json_ops"
  ce_hash :: "string \<Rightarrow> u64"
  ce_wx :: "'g wx_ops"
  ce_send :: "socket_t \<Rightarrow> buffer_t \<Rightarrow> int"
  ce_as_char :: "string \<Rightarrow> string"
  ce_wx_string :: "string \<Rightarrow> string"

text \<open>How a callback can fail: an exception of the JSON library, the end of the process, or
  undefined behaviour.\<close>

datatype client_error = Ce_json json_error | Ce_terminate | Ce_undefined

type_synonym 'g callback = "string \<Rightarrow> 'g client_app \<Rightarrow> client_error + 'g client_app"

definition output_handler ::
  "ui_action \<Rightarrow> ui_status \<Rightarrow> string \<Rightarrow> string \<Rightarrow> 'g client_app \<Rightarrow> 'g client_app" where
  "output_handler act st msg data a =
     (case ca_outputs a act of
        Some h \<Rightarrow> a\<lparr>ca_gui := h st msg data (ca_gui a)\<rparr>
      | None \<Rightarrow> a)"

definition app_send ::
  "('j, 'g) client_env \<Rightarrow> string \<Rightarrow> buffer_t \<Rightarrow> 'g client_app \<Rightarrow> bool \<times> 'g client_app" where
  "app_send E cmd buff a =
     (let (ok, calls) = client_send (ce_send E) (client_base.truncate (ca_tcp a)) cmd buff
      in (ok, a\<lparr>ca_calls := ca_calls a @ calls\<rparr>))"

section \<open>Callbacks of the window\<close>

text \<open>\<^verbatim>\<open>find(':')\<close> and the two \<^verbatim>\<open>substr\<close>; without a colon both parts stay empty.\<close>

definition split_colon :: "string \<Rightarrow> string \<times> string" where
  "split_colon s =
     (if CHR '':'' \<in> set s
      then (takeWhile (\<lambda>c. c \<noteq> CHR '':'') s, tl (dropWhile (\<lambda>c. c \<noteq> CHR '':'') s))
      else ([], []))"

text \<open>\<^verbatim>\<open>std::atoi\<close>; a number that is no \<^verbatim>\<open>int\<close> is undefined behaviour.\<close>

definition is_space :: "char \<Rightarrow> bool" where
  "is_space c \<longleftrightarrow> byte c = 32 \<or> (9 \<le> byte c \<and> byte c \<le> 13)"

definition atoi :: "string \<Rightarrow> int option" where
  "atoi s =
     (let s = dropWhile is_space s;
          n = (case s of
                 [] \<Rightarrow> 0
               | c # cs \<Rightarrow>
                   if c = CHR ''-'' then - int (fst (read_nat 0 cs))
                   else if c = CHR ''+'' then int (fst (read_nat 0 cs))
                   else int (fst (read_nat 0 s)))
      in if - (2 ^ 31) \<le> n \<and> n < 2 ^ 31 then Some n else None)"

definition on_login_frame_callback :: "('j, 'g) client_env \<Rightarrow> 'g callback" where
  "on_login_frame_callback E data a =
     (let (login, pass) = split_colon (c_str (ce_as_char E data)) in
      if login = [] \<or> pass = [] then
        Inr (output_handler On_login Ui_failed ''Invalid user or pass.'' [] a)
      else
        let request = tuple_default client_auth_request;
            request = set_string ''command'' cmd_auth request;
            request = set_u64 ''id'' (ca_id a) request;
            request = set_string ''login'' login request;
            request = set_string ''password'' pass request
        in (case packer_to (ce_json E) request of
              Inl e \<Rightarrow> Inl (Ce_json e)
            | Inr buff \<Rightarrow>
                let (ret, a) = app_send E cmd_auth buff a in
                Inr (if ret then output_handler On_login Ui_success ''Login...'' [] a
                     else output_handler On_login Ui_failed ''Login failed.'' [] a)))"

definition on_logout_frame_callback :: "('j, 'g) client_env \<Rightarrow> 'g callback" where
  "on_logout_frame_callback E data a =
     (let request = tuple_default client_bye_request;
          request = set_string ''command'' cmd_bye request;
          request = set_u64 ''id'' (ca_id a) request;
          request = set_string ''session'' (ca_session a) request
      in (case packer_to (ce_json E) request of
            Inl e \<Rightarrow> Inl (Ce_json e)
          | Inr buff \<Rightarrow>
              let (ret, a) = app_send E cmd_bye buff a in
              Inr (if ret then output_handler On_logout Ui_success ''Logout...'' [] a
                   else output_handler On_logout Ui_failed ''Logout failed.'' [] a)))"

text \<open>\<^verbatim>\<open>connect\<close>: \<open>r\<close> are the answers of the system and \<open>n\<close> is the number drawn for the client
  id, which is drawn for every click, also when the connection is already there.\<close>

definition on_connect_frame_callback ::
  "('j, 'g) client_env \<Rightarrow> connect_results \<Rightarrow> u64 \<Rightarrow> 'g callback" where
  "on_connect_frame_callback E r n data a =
     (let (host, port) = split_colon (c_str (ce_as_char E data)) in
      (case atoi (c_str port) of
         None \<Rightarrow> Inl Ce_undefined
       | Some p \<Rightarrow>
           (case tc_connect r host (word_of_int p) (ca_tcp a) of
              None \<Rightarrow> Inl Ce_terminate
            | Some (c, calls) \<Rightarrow>
                let a = a\<lparr>ca_tcp := c, ca_calls := ca_calls a @ calls\<rparr> in
                if cb_status c \<noteq> Cl_connected then
                  Inr (output_handler On_connect Ui_failed ''Connect to server failed.'' [] a)
                else
                  let a = a\<lparr>ca_id := n\<rparr>;
                      request = tuple_default client_hello_request;
                      request = set_string ''command'' cmd_hello request;
                      request = set_u64 ''id'' (ca_id a) request
                  in (case packer_to (ce_json E) request of
                        Inl e \<Rightarrow> Inl (Ce_json e)
                      | Inr buff \<Rightarrow>
                          let (ret, a) = app_send E cmd_hello buff a in
                          Inr (if ret then output_handler On_connect Ui_pending ''Connect...'' [] a
                               else output_handler On_connect Ui_failed ''Connect failed.'' [] a)))))"

definition on_disconnect_frame_callback :: "('j, 'g) client_env \<Rightarrow> 'g callback" where
  "on_disconnect_frame_callback E data a =
     (case tc_disconnect (ca_tcp a) of
        None \<Rightarrow> Inl Ce_terminate
      | Some (c, calls) \<Rightarrow>
          let a = a\<lparr>ca_tcp := c, ca_calls := ca_calls a @ calls\<rparr> in
          Inr (if cb_status c = Cl_disconnected
               then output_handler On_disconnect Ui_success ''Disconnected.'' [] a
               else output_handler On_disconnect Ui_failed ''Disconnection from server failed.'' [] a))"

definition on_send_frame_callback :: "('j, 'g) client_env \<Rightarrow> 'g callback" where
  "on_send_frame_callback E data a =
     (let request = tuple_default client_msg_request;
          request = set_string ''command'' cmd_msg request;
          request = set_u64 ''id'' (ca_id a) request;
          request = set_string ''session'' (ca_session a) request;
          request = set_string ''body'' (c_str (ce_as_char E data)) request
      in (case packer_to (ce_json E) request of
            Inl e \<Rightarrow> Inl (Ce_json e)
          | Inr buff \<Rightarrow>
              let (ret, a) = app_send E cmd_msg buff a in
              Inr (if ret then output_handler On_send Ui_pending ''Mesaging...'' [] a
                   else output_handler On_send Ui_failed ''Mesaging failed.'' [] a)))"

text \<open>\<^verbatim>\<open>create_frame\<close>: the callbacks handed to the window.\<close>

definition input_callbacks ::
  "('j, 'g) client_env \<Rightarrow> connect_results \<Rightarrow> u64 \<Rightarrow> (ui_action \<rightharpoonup> 'g callback)" where
  "input_callbacks E r n =
     [On_login \<mapsto> on_login_frame_callback E, On_logout \<mapsto> on_logout_frame_callback E,
      On_connect \<mapsto> on_connect_frame_callback E r n,
      On_disconnect \<mapsto> on_disconnect_frame_callback E, On_send \<mapsto> on_send_frame_callback E]"

text \<open>A click: the window's handler and \<^verbatim>\<open>frame::input_handler\<close>.\<close>

definition app_click ::
  "('j, 'g) client_env \<Rightarrow> connect_results \<Rightarrow> u64 \<Rightarrow> widget \<Rightarrow> 'g client_app \<Rightarrow>
   client_error + 'g client_app" where
  "app_click E r n w a =
     (case clicked (ce_wx E) w (ca_gui a) of
        (g, None) \<Rightarrow> Inr (a\<lparr>ca_gui := g\<rparr>)
      | (g, Some (act, data)) \<Rightarrow>
          let a = a\<lparr>ca_gui := g\<rparr> in
          (case input_callbacks E r n act of
             None \<Rightarrow> Inr a
           | Some cb \<Rightarrow> cb data a))"

section \<open>Handlers of the server's packets\<close>

definition server_message_packet_handler ::
  "('j, 'g) client_env \<Rightarrow> 'g client_app handler3" where
  "server_message_packet_handler E a cookies request responce =
     (let responce = set_u64 ''id'' (ca_id a) responce;
          responce = set_string ''command'' cmd_msg responce;
          sender_login = get_string request ''sender_login'';
          sender_session = get_string request ''session'';
          message = get_string request ''body'';
          responce =
            (if sender_login \<noteq> ca_login a \<or> sender_session \<noteq> ca_session a then
               set_string ''message'' ''wrong login or session'' (set_string ''status'' ''failed'' responce)
             else
               set_string ''message'' ''all good'' (set_string ''status'' ''ok'' responce))
      in (Returned,
          output_handler On_recv Ui_success (ce_wx_string E sender_login) (ce_wx_string E message) a,
          responce))"

definition server_message_reply_packet_handler ::
  "('j, 'g) client_env \<Rightarrow> 'g client_app handler2" where
  "server_message_reply_packet_handler E a cookies responce =
     (let status = get_string responce ''status'';
          message = get_string responce ''message''
      in (Returned,
          if status = ''ok'' then output_handler On_send Ui_success ''Message was sended.'' [] a
          else output_handler On_send Ui_failed (ce_wx_string E message) [] a))"

definition server_hello_reply_packet_handler :: "'g client_app handler2" where
  "server_hello_reply_packet_handler a cookies responce =
     (Returned, output_handler On_connect Ui_success ''Connection has been established.'' [] a)"

definition server_auth_reply_packet_handler ::
  "('j, 'g) client_env \<Rightarrow> 'g client_app handler2" where
  "server_auth_reply_packet_handler E a cookies responce =
     (let status = get_string responce ''status'';
          session_id = get_string responce ''session'';
          message = get_string responce ''message'';
          a = a\<lparr>ca_session := session_id\<rparr>
      in (Returned,
          if status = ''ok'' then output_handler On_login Ui_success ''Login success.'' [] a
          else output_handler On_login Ui_failed (ce_wx_string E message) [] a))"

definition server_bye_reply_packet_handler :: "'g client_app handler2" where
  "server_bye_reply_packet_handler a cookies responce =
     (let status = get_string responce ''status'' in
      (Returned,
       if status = ''ok'' then output_handler On_logout Ui_pending ''Logout success.'' [] a
       else output_handler On_logout Ui_failed ''Logout failed.'' [] a))"

definition server_ping_reply_packet_handler ::
  "('j, 'g) client_env \<Rightarrow> 'g client_app handler2" where
  "server_ping_reply_packet_handler E a cookies responce =
     (let status = get_string responce ''status'';
          message = get_string responce ''message''
      in (Returned,
          if status = ''ok'' then output_handler On_login Ui_success ''Ping success.'' [] a
          else output_handler On_login Ui_failed (ce_wx_string E message) [] a))"

section \<open>Start\<close>

definition client_handlers :: "('j, 'g) client_env \<Rightarrow> (string \<times> 'g client_app wrapper) list" where
  "client_handlers E =
     (let J = ce_json E in
      [(cmd_msg, wrapper3 J server_msg_request client_msg_response (server_message_packet_handler E)),
       (cmd_msg_reply, wrapper2 J server_msg_response (server_message_reply_packet_handler E)),
       (cmd_hello_reply, wrapper2 J server_hello_response server_hello_reply_packet_handler),
       (cmd_auth_reply, wrapper2 J server_auth_response (server_auth_reply_packet_handler E)),
       (cmd_bye_reply, wrapper2 J server_bye_response server_bye_reply_packet_handler),
       (cmd_ping_reply, wrapper2 J server_ping_response (server_ping_reply_packet_handler E))])"

definition client_dispatch :: "('j, 'g) client_env \<Rightarrow> 'g client_app dispatch_fun" where
  "client_dispatch E = dispatch (ce_hash E) (handler_table (ce_hash E) (client_handlers E))"

text \<open>\<^verbatim>\<open>init\<close>: the data folder is the home directory, and the log goes into a folder below it.\<close>

definition client_init :: "logger \<Rightarrow> string \<Rightarrow> string \<times> logger option" where
  "client_init default_logger home =
     (let path = c_str home @ [CHR 0x5C] @ ''gologin'' @ [CHR 0x5C] @ ''gologin_client.log''
      in (home, create_logger default_logger ''debug'' ''file'' ''gologin_client'' path))"

text \<open>
  \<^verbatim>\<open>main\<close>: the dispatcher with its handlers, the TCP client and the window.  The members that
  are not initialised hold what \<open>s\<close>, \<open>addr\<close> (the socket and address) and \<open>n\<close> (the client id)
  say.
\<close>

definition client_main ::
  "('j, 'g) client_env \<Rightarrow> 'g \<Rightarrow> socket_t \<Rightarrow> sockaddr_in \<Rightarrow> u64 \<Rightarrow>
   dispatcher_error + 'g client_app handlers \<times> 'g client_app" where
  "client_main E g s addr n =
     (case handle_all (ce_hash E) (client_handlers E) Map.empty of
        Inl e \<Rightarrow> Inl e
      | Inr hs \<Rightarrow>
          let (g, outputs) = frame_new (ce_wx E) g Map.empty
          in Inr (hs, \<lparr>ca_id = n, ca_session = [], ca_login = [], ca_gui = g, ca_outputs = outputs,
                      ca_tcp = tcp_client_new s addr, ca_calls = []\<rparr>))"

section \<open>The dispatcher's contract\<close>

lemma client_handlers_clean: "w \<in> ran (handler_table hash (client_handlers E)) \<Longrightarrow> clean_wrapper w"
  by (auto simp: handler_table_def client_handlers_def Let_def clean_wrapper3 clean_wrapper2 ran_def
      split: if_splits)

interpretation client_disp: packet_dispatcher "client_dispatch E"
  "\<lambda>cmd. handler_table (ce_hash E) (client_handlers E) (ce_hash E cmd) \<noteq> None" for E
  unfolding client_dispatch_def by (rule dispatcher_contract) (rule client_handlers_clean)

definition client_commands :: "string list" where
  "client_commands = [cmd_msg, cmd_msg_reply, cmd_hello_reply, cmd_auth_reply, cmd_bye_reply, cmd_ping_reply]"

lemma client_handlers_keys: "map fst (client_handlers E) = client_commands"
  by (simp add: client_handlers_def client_commands_def Let_def)

lemma distinct_client_commands: "distinct client_commands"
  by (simp add: client_commands_def cmd_defs)

lemma client_handlers_map:
  "map_of (client_handlers E) cmd_msg =
    Some (wrapper3 (ce_json E) server_msg_request client_msg_response (server_message_packet_handler E))"
  "map_of (client_handlers E) cmd_msg_reply =
    Some (wrapper2 (ce_json E) server_msg_response (server_message_reply_packet_handler E))"
  "map_of (client_handlers E) cmd_hello_reply =
    Some (wrapper2 (ce_json E) server_hello_response server_hello_reply_packet_handler)"
  "map_of (client_handlers E) cmd_auth_reply =
    Some (wrapper2 (ce_json E) server_auth_response (server_auth_reply_packet_handler E))"
  "map_of (client_handlers E) cmd_bye_reply =
    Some (wrapper2 (ce_json E) server_bye_response server_bye_reply_packet_handler)"
  "map_of (client_handlers E) cmd_ping_reply =
    Some (wrapper2 (ce_json E) server_ping_response (server_ping_reply_packet_handler E))"
  by (simp_all add: client_handlers_def Let_def cmd_defs)

end
