(* ===== verification/Client_Props.thy ===== *)
theory Client_Props
  imports Client_App
begin

text \<open>
  The client as a whole: its invariant under any clicks and any packets, what each button
  sends, and what each packet of the server does to the window.
\<close>

section \<open>The environment\<close>

locale client_env_ok =
  fixes E :: "('j, 'g) client_env" and view :: "'g \<Rightarrow> view"
  assumes json: "nlohmann (ce_json E)"
    and toolkit: "wx_toolkit (ce_wx E) view"
    and hash_inj: "inj_on (ce_hash E) (set client_commands)"
begin

lemma table_known:
  "cmd \<in> set client_commands \<Longrightarrow>
    handler_table (ce_hash E) (client_handlers E) (ce_hash E cmd) = map_of (client_handlers E) cmd"
proof -
  assume "cmd \<in> set client_commands"
  moreover have "fst ` set (client_handlers E) = set client_commands"
    by (metis client_handlers_keys list.set_map)
  ultimately show ?thesis
    using hash_inj by (intro handler_table_lookup) (simp add: insert_absorb)
qed

lemma registration: "handle_all (ce_hash E) (client_handlers E) Map.empty =
    Inr (handler_table (ce_hash E) (client_handlers E))"
proof (rule handle_all_ok)
  show "inj_on (ce_hash E) (fst ` set (client_handlers E))"
    using hash_inj by (metis client_handlers_keys list.set_map)
qed (simp add: client_handlers_keys distinct_client_commands)

lemma dispatch_reply:
  assumes "cmd \<in> set client_commands" "map_of (client_handlers E) cmd = Some (wrapper2 (ce_json E) t h)"
    and "packer_from (ce_json E) t body = Inr req" "h a cid req = (Returned, a')"
  shows "client_dispatch E a cmd cid body out = (True, a', cmd, out)"
  using assms by (simp add: client_dispatch_def dispatch_def table_known wrapper2_def)

lemma decoded_utf8: "packer_from (ce_json E) t body = Inr req \<Longrightarrow> utf8_valid (get_string req k)"
  by (rule tuple_utf8_get) (rule packer_decoded_utf8 [OF json])

lemma frame_report:
  assumes "frame_inv (view g)" "report_ok r"
  shows "frame_inv (view (show_report (ce_wx E) r g))"
    and "screen_of (view (show_report (ce_wx E) r g)) =
      screen_step (rp_action r, rp_status r) (screen_of (view g))"
  using plain_report [OF assms] by (simp_all add: wx_toolkit.show_report_view [OF toolkit])

end

section \<open>The invariant\<close>

text \<open>
  The window's handlers are the ones registered, the widgets show a screen, the thread object
  follows the status, the session is UTF-8, and the login stays empty: nothing sets it.
\<close>

definition client_inv :: "('j, 'g) client_env \<Rightarrow> ('g \<Rightarrow> view) \<Rightarrow> 'g client_app \<Rightarrow> bool" where
  "client_inv E view a \<longleftrightarrow>
     ca_outputs a = output_hadnlers (ce_wx E) Map.empty \<and> frame_inv (view (ca_gui a)) \<and>
     tc_inv (ca_tcp a) \<and> utf8_valid (ca_session a) \<and> ca_login a = []"

lemma output_handler_report:
  "ca_outputs a = output_hadnlers (ce_wx E) Map.empty \<Longrightarrow>
    output_handler act st msg data a =
      a\<lparr>ca_gui := show_report (ce_wx E) (Report act st msg data) (ca_gui a)\<rparr>"
  by (cases act) (simp_all add: output_handler_def output_hadnlers_lookup)

lemma client_inv_outputs: "client_inv E view a \<Longrightarrow> ca_outputs a = output_hadnlers (ce_wx E) Map.empty"
  by (simp add: client_inv_def)

lemma client_inv_update [simp]:
  "client_inv E view (a\<lparr>ca_calls := cs\<rparr>) = client_inv E view a"
  "client_inv E view (a\<lparr>ca_id := n\<rparr>) = client_inv E view a"
  by (simp_all add: client_inv_def)

context client_env_ok
begin

lemma report_inv:
  assumes "client_inv E view a" "report_ok (Report act st msg data)"
  shows "client_inv E view (output_handler act st msg data a)"
  using assms frame_report(1) [of "ca_gui a" "Report act st msg data"]
  by (simp add: output_handler_report [OF client_inv_outputs [OF assms(1)]])
    (simp add: client_inv_def)

lemma report_screen:
  assumes "client_inv E view a" "report_ok (Report act st msg data)"
  shows "screen_of (view (ca_gui (output_handler act st msg data a))) =
    screen_step (act, st) (screen_of (view (ca_gui a)))"
  using assms frame_report(2) [of "ca_gui a" "Report act st msg data"]
  by (simp add: output_handler_report [OF client_inv_outputs [OF assms(1)]] client_inv_def)

lemma app_send_inv: "app_send E cmd buff a = (ret, a') \<Longrightarrow> client_inv E view a \<Longrightarrow> client_inv E view a'"
  by (auto simp: app_send_def split: prod.splits)

lemma ok_reports [simp]:
  "report_ok (Report On_login Ui_success m d)" "report_ok (Report On_login Ui_failed m d)"
  "report_ok (Report On_logout st m d)" "report_ok (Report On_connect st m d)"
  "report_ok (Report On_disconnect Ui_success m d)" "report_ok (Report On_disconnect Ui_failed m d)"
  "report_ok (Report On_send st m d)" "report_ok (Report On_recv st m d)"
  by (simp_all add: report_ok_def)

text \<open>A callback that returns keeps the invariant and never ends the process.\<close>

definition good :: "client_error + 'g client_app \<Rightarrow> bool" where
  "good r \<longleftrightarrow> (case r of Inl e \<Rightarrow> e \<noteq> Ce_terminate | Inr a \<Rightarrow> client_inv E view a)"

lemma good_simps [simp]:
  "good (Inl (Ce_json e))" "good (Inl Ce_undefined)" "good (Inr a) = client_inv E view a"
  by (simp_all add: good_def)

lemma send_good:
  assumes "client_inv E view a"
    and "\<And>a' ret. client_inv E view a' \<Longrightarrow> client_inv E view (f ret a')"
  shows "good (case packer_to (ce_json E) req of
     Inl e \<Rightarrow> Inl (Ce_json e)
   | Inr buff \<Rightarrow> let (ret, a) = app_send E cmd buff a in Inr (f ret a))"
  using assms app_send_inv by (auto split: sum.split prod.split)

lemma login_good: "client_inv E view a \<Longrightarrow> good (on_login_frame_callback E data a)"
  unfolding on_login_frame_callback_def Let_def
  by (auto simp: report_inv split: prod.split intro!: send_good [unfolded Let_def])

lemma logout_good: "client_inv E view a \<Longrightarrow> good (on_logout_frame_callback E data a)"
  unfolding on_logout_frame_callback_def Let_def
  by (auto simp: report_inv intro!: send_good [unfolded Let_def])

lemma send_callback_good: "client_inv E view a \<Longrightarrow> good (on_send_frame_callback E data a)"
  unfolding on_send_frame_callback_def Let_def
  by (auto simp: report_inv intro!: send_good [unfolded Let_def])

lemma disconnect_good:
  assumes "client_inv E view a"
  shows "good (on_disconnect_frame_callback E data a)"
proof -
  obtain c calls where d: "tc_disconnect (ca_tcp a) = Some (c, calls)" "tc_inv c"
    using tc_disconnect_ok [of "ca_tcp a"] assms by (auto simp: client_inv_def)
  have "client_inv E view (a\<lparr>ca_tcp := c, ca_calls := ca_calls a @ calls\<rparr>)"
    using assms d by (simp add: client_inv_def)
  then show ?thesis
    using d by (simp add: on_disconnect_frame_callback_def Let_def report_inv)
qed

lemma connect_good:
  assumes "client_inv E view a"
  shows "good (on_connect_frame_callback E r n data a)"
proof -
  obtain host port where hp: "split_colon (c_str (ce_as_char E data)) = (host, port)" by fastforce
  show ?thesis
  proof (cases "atoi (c_str port)")
    case None
    then show ?thesis by (simp add: on_connect_frame_callback_def hp)
  next
    case (Some p)
    obtain c calls where c: "tc_connect r host (word_of_int p) (ca_tcp a) = Some (c, calls)" "tc_inv c"
      using tc_connect_ok [of "ca_tcp a" r host "word_of_int p"] assms by (auto simp: client_inv_def)
    have inv: "client_inv E view (a\<lparr>ca_tcp := c, ca_calls := ca_calls a @ calls\<rparr>)"
      using assms c by (simp add: client_inv_def)
    then have "client_inv E view (a\<lparr>ca_tcp := c, ca_calls := ca_calls a @ calls, ca_id := n\<rparr>)"
      by (simp add: client_inv_def)
    with inv show ?thesis
      using Some c unfolding on_connect_frame_callback_def hp
      by (auto simp: Let_def report_inv intro!: send_good)
  qed
qed

lemma view_status:
  "frame_inv (v\<lparr>v_status := s\<rparr>) = frame_inv v" "screen_of (v\<lparr>v_status := s\<rparr>) = screen_of v"
  by (simp_all add: frame_inv_def screen_of_def)

lemma clicked_view:
  assumes "clicked (ce_wx E) w g = (g', cb)" "frame_inv (view g)"
  shows "frame_inv (view g') \<and> screen_of (view g') = screen_of (view g)"
proof -
  have "view (wx_set_status (ce_wx E) s g) = (view g)\<lparr>v_status := s\<rparr>" for s
    by (rule wx_toolkit.set_status [OF toolkit])
  moreover have "g' = g \<or> (\<exists>s. g' = wx_set_status (ce_wx E) s g)"
    using assms(1)
    by (cases w) (auto simp: connect_clicked_def disconnect_clicked_def login_clicked_def
        logout_clicked_def send_clicked_def Let_def split: if_splits)
  ultimately show ?thesis using assms(2) view_status by metis
qed

lemma click_good:
  assumes "client_inv E view a"
  shows "good (app_click E r n w a)"
proof -
  obtain g cb where c: "clicked (ce_wx E) w (ca_gui a) = (g, cb)" by fastforce
  have inv: "client_inv E view (a\<lparr>ca_gui := g\<rparr>)"
    using assms clicked_view [OF c] by (simp add: client_inv_def)
  then show ?thesis
    using c login_good logout_good connect_good disconnect_good send_callback_good
    by (auto simp: app_click_def input_callbacks_def Let_def split: option.split)
qed

end

section \<open>Packets\<close>

context client_env_ok
begin

lemma client_dispatch_inv:
  assumes "client_inv E view a"
  shows "client_inv E view (fst (snd (client_dispatch E a cmd ck body out)))"
proof -
  let ?R = "\<lambda>a a'. client_inv E view a \<longrightarrow> client_inv E view a'"
  have session: "client_inv E view (a\<lparr>ca_session := get_string req k\<rparr>)"
    if "packer_from (ce_json E) t body = Inr req" "client_inv E view a" for t body req k a
    using that decoded_utf8 [OF that(1)] by (simp add: client_inv_def)
  have "?R a (fst (snd (client_dispatch E a cmd ck body out)))"
    unfolding client_dispatch_def
  proof (rule dispatch_rel [where R = ?R])
    fix w assume "w \<in> ran (handler_table (ce_hash E) (client_handlers E))"
    then have "w \<in> snd ` set (client_handlers E)"
      by (auto simp: handler_table_def ran_def dest!: map_of_SomeD)
    then show "wrapper_rel ?R w"
      using session
      by (auto simp: client_handlers_def Let_def server_message_packet_handler_def
          server_message_reply_packet_handler_def server_hello_reply_packet_handler_def
          server_auth_reply_packet_handler_def server_bye_reply_packet_handler_def
          server_ping_reply_packet_handler_def report_inv
          intro!: wrapper3_rel [where R = ?R] wrapper2_rel [where R = ?R])
  qed simp
  with assms show ?thesis by blast
qed

end

text \<open>What can happen to a client: a click, with the answers of the system and the number
  drawn, or a packet of the server.\<close>

datatype client_event = Ev_click connect_results u64 widget | Ev_packet string buffer_t

fun client_event_step ::
  "('j, 'g) client_env \<Rightarrow> client_event \<Rightarrow> 'g client_app \<Rightarrow> client_error + 'g client_app" where
  "client_event_step E (Ev_click r n w) a = app_click E r n w a"
| "client_event_step E (Ev_packet cmd body) a =
     Inr (fst (snd (client_dispatch E a cmd (cb_socket (ca_tcp a)) body [])))"

primrec client_events ::
  "('j, 'g) client_env \<Rightarrow> client_event list \<Rightarrow> 'g client_app \<Rightarrow> client_error + 'g client_app" where
  "client_events E [] a = Inr a"
| "client_events E (ev # evs) a =
     (case client_event_step E ev a of Inl e \<Rightarrow> Inl e | Inr a \<Rightarrow> client_events E evs a)"

context client_env_ok
begin

lemma event_good: "client_inv E view a \<Longrightarrow> good (client_event_step E ev a)"
  by (cases ev) (simp_all add: click_good client_dispatch_inv)

lemma events_good: "client_inv E view a \<Longrightarrow> good (client_events E evs a)"
proof (induction evs arbitrary: a)
  case (Cons ev evs)
  show ?case
  proof (cases "client_event_step E ev a")
    case (Inl e)
    then show ?thesis using event_good [OF Cons.prems, of ev] by simp
  next
    case (Inr a')
    then have "client_inv E view a'" using event_good [OF Cons.prems, of ev] by simp
    from Cons.IH [OF this] Inr show ?thesis by simp
  qed
qed simp

lemma client_main_inv: "client_main E g s addr n = Inr (hs, a) \<Longrightarrow> client_inv E view a"
  using plain_load_ui(1)
  by (auto simp: client_main_def frame_new_def client_inv_def tc_inv_new
      wx_toolkit.load_ui_view [OF toolkit] split: sum.splits)

end

section \<open>A concrete environment\<close>

definition sample_cenv :: "(json_text, view) client_env" where
  "sample_cenv = \<lparr>ce_json = json_text_ops, ce_hash = fnv1a,
     ce_wx = plain_wx, ce_send = (\<lambda>s b. int (length b)), ce_as_char = (\<lambda>s. s), ce_wx_string = (\<lambda>s. s)\<rparr>"

interpretation csample: client_env_ok sample_cenv "\<lambda>v. v"
proof (rule client_env_ok.intro)
  show "nlohmann (ce_json sample_cenv)"
    by (simp add: sample_cenv_def json_text.nlohmann_axioms)
  show "wx_toolkit (ce_wx sample_cenv) (\<lambda>v. v)"
    by (simp add: sample_cenv_def plain.wx_toolkit_axioms)
  show "inj_on (ce_hash sample_cenv) (set client_commands)"
    by (simp add: sample_cenv_def client_commands_def cmd_defs fnv1a_def)
qed

definition sample_capp :: "view client_app" where
  "sample_capp =
     \<lparr>ca_id = 9, ca_session = [], ca_login = [], ca_gui = load_ui plain_wx blank_view,
      ca_outputs = output_hadnlers plain_wx Map.empty,
      ca_tcp = tcp_client_new 5 \<lparr>sin_addr = 0, sin_port = 0\<rparr>, ca_calls = []\<rparr>"

lemma sample_main:
  "client_main sample_cenv blank_view 5 \<lparr>sin_addr = 0, sin_port = 0\<rparr> 9 =
    Inr (handler_table fnv1a (client_handlers sample_cenv), sample_capp)"
  using csample.registration
  by (simp add: client_main_def frame_new_def sample_capp_def sample_cenv_def)

lemma sample_capp_inv: "client_inv sample_cenv (\<lambda>v. v) sample_capp"
  by (rule csample.client_main_inv [OF sample_main])

section \<open>What the buttons send\<close>

context client_env_ok
begin

lemma request_packed:
  assumes "tuple_type req = t" "message_keys_ok t" "tuple_utf8 req"
  shows "\<exists>buff. packer_to (ce_json E) req = Inr buff \<and> buff \<noteq> [] \<and>
    packer_from (ce_json E) t buff = Inr req"
  using packer_encodes [OF json, of req] assms by simp

end

lemma split_colon_at:
  assumes "CHR '':'' \<notin> set login"
  shows "split_colon (login @ CHR '':'' # pass) = (login, pass)"
proof -
  have "takeWhile (\<lambda>c. c \<noteq> CHR '':'') (login @ CHR '':'' # pass) = login"
    "dropWhile (\<lambda>c. c \<noteq> CHR '':'') (login @ CHR '':'' # pass) = CHR '':'' # pass"
    using assms by (induction login) auto
  then show ?thesis by (simp add: split_colon_def)
qed

text \<open>The packet a client sends, and whether \<^verbatim>\<open>::send\<close> accepts it.\<close>

definition sends :: "('j, 'g) client_env \<Rightarrow> string \<Rightarrow> buffer_t \<Rightarrow> 'g client_app \<Rightarrow> bool" where
  "sends E cmd buff a \<longleftrightarrow> 0 \<le> ce_send E (cb_socket (ca_tcp a)) (create_packet cmd buff)"

definition sent :: "string \<Rightarrow> buffer_t \<Rightarrow> 'g client_app \<Rightarrow> 'g client_app" where
  "sent cmd buff a = a\<lparr>ca_calls := ca_calls a @ [Sys_send (cb_socket (ca_tcp a)) (create_packet cmd buff)]\<rparr>"

lemma app_send_sent:
  "buff \<noteq> [] \<Longrightarrow> length cmd < sizeof_type \<Longrightarrow> app_send E cmd buff a = (sends E cmd buff a, sent cmd buff a)"
  by (simp add: app_send_def client_send_sent sends_def sent_def client_base.defs)

definition login_request :: "u64 \<Rightarrow> string \<Rightarrow> string \<Rightarrow> tagged_tuple" where
  "login_request n login pass = [(''id'', F_u64 n), (''command'', F_string cmd_auth),
     (''login'', F_string login), (''password'', F_string pass)]"

lemma login_request:
  "tuple_type (login_request n login pass) = client_auth_request"
  "utf8_valid login \<Longrightarrow> utf8_valid pass \<Longrightarrow> tuple_utf8 (login_request n login pass)"
  by (simp_all add: login_request_def tuple_type_def tuple_utf8_def client_auth_request_def)
    (simp add: cmd_defs)

lemma login_callback:
  assumes "c_str (ce_as_char E data) = login @ CHR '':'' # pass"
    and "CHR '':'' \<notin> set login" "login \<noteq> []" "pass \<noteq> []"
    and "packer_to (ce_json E) (login_request (ca_id a) login pass) = Inr buff" "buff \<noteq> []"
  shows "on_login_frame_callback E data a =
      Inr (if sends E cmd_auth buff a
           then output_handler On_login Ui_success ''Login...'' [] (sent cmd_auth buff a)
           else output_handler On_login Ui_failed ''Login failed.'' [] (sent cmd_auth buff a))"
proof -
  have "set_string ''password'' pass (set_string ''login'' login (set_u64 ''id'' (ca_id a)
      (set_string ''command'' cmd_auth (tuple_default client_auth_request)))) =
    login_request (ca_id a) login pass"
    by (simp add: client_auth_request_def set_u64_def set_string_def tuple_set_def
        tuple_default_def login_request_def)
  then show ?thesis
    using assms split_colon_at [OF assms(2), of pass]
    by (simp add: on_login_frame_callback_def app_send_sent)
qed

text \<open>The login button sends exactly one login request when the text reads
  \<^verbatim>\<open>login:password\<close> with both parts present and in UTF-8: the packet carries the client's id
  and the two parts, split at the first colon.  The window shows the login as done as soon as
  \<^verbatim>\<open>::send\<close> took the packet.\<close>

theorem login_button_sends:
  assumes "client_env_ok E view" "c_str (ce_as_char E data) = login @ CHR '':'' # pass"
    and "CHR '':'' \<notin> set login" "login \<noteq> []" "pass \<noteq> []" "utf8_valid login" "utf8_valid pass"
  shows "\<exists>buff. packer_from (ce_json E) client_auth_request buff =
      Inr (login_request (ca_id a) login pass) \<and>
    on_login_frame_callback E data a =
      Inr (if sends E cmd_auth buff a
           then output_handler On_login Ui_success ''Login...'' [] (sent cmd_auth buff a)
           else output_handler On_login Ui_failed ''Login failed.'' [] (sent cmd_auth buff a))"
  using client_env_ok.request_packed [OF assms(1) login_request(1) _ login_request(2) [OF assms(6,7)],
      of "ca_id a"] login_callback [OF assms(2-5)] by auto

theorem login_button_sends_witness:
  "\<exists>buff. packer_from (ce_json sample_cenv) client_auth_request buff =
      Inr (login_request 9 ''bob'' ''a:b'') \<and>
    on_login_frame_callback sample_cenv ''bob:a:b'' sample_capp =
      Inr (output_handler On_login Ui_success ''Login...'' [] (sent cmd_auth buff sample_capp))"
  using login_button_sends [OF csample.client_env_ok_axioms, of "''bob:a:b''" "''bob''" "''a:b''" sample_capp]
  by (simp add: sample_cenv_def c_str_def sends_def sample_capp_def)

text \<open>A message whose text is not UTF-8 in the encoding of the locale is not sent: packing
  it throws out of the event handler, nothing catches the exception, and nothing is
  reported in the window.\<close>

theorem send_button_not_utf8:
  assumes "client_env_ok E view" "\<not> utf8_valid (c_str (ce_as_char E data))"
  shows "on_send_frame_callback E data a = Inl (Ce_json Json_invalid_utf8)"
proof -
  let ?req = "set_string ''body'' (c_str (ce_as_char E data)) (set_string ''session'' (ca_session a)
      (set_u64 ''id'' (ca_id a) (set_string ''command'' cmd_msg (tuple_default client_msg_request))))"
  have "tuple_type ?req = client_msg_request" "\<not> tuple_utf8 ?req"
    using assms(2)
    by (simp_all add: client_msg_request_def set_u64_def set_string_def tuple_set_def
        tuple_default_def tuple_type_def tuple_utf8_def)
  then have "packer_to (ce_json E) ?req = Inl Json_invalid_utf8"
    using packer_rejects [OF client_env_ok.json [OF assms(1)], of ?req] by simp
  then show ?thesis by (simp add: on_send_frame_callback_def)
qed

theorem send_button_not_utf8_witness:
  "on_send_frame_callback sample_cenv (''caf'' @ [CHR 0xE9]) sample_capp = Inl (Ce_json Json_invalid_utf8)"
  by (rule send_button_not_utf8 [OF csample.client_env_ok_axioms])
    (simp add: sample_cenv_def c_str_def)

lemma atoi_show_nat: "n < 2 ^ 31 \<Longrightarrow> atoi (show_nat n) = Some (int n)"
proof -
  assume n: "n < 2 ^ 31"
  obtain d ds where d: "show_nat n = digit d # ds" "d < 10" using show_nat_head by blast
  have b: "byte (digit d) = 48 + d" using d(2) by simp
  have "digit d \<noteq> c" if "byte c < 48" for c using b that by auto
  from this [of "CHR ''-''"] this [of "CHR ''+''"]
  have "\<not> is_space (digit d)" "digit d \<noteq> CHR ''-''" "digit d \<noteq> CHR ''+''"
    using b by (simp_all add: is_space_def)
  then show ?thesis
    using n d fst_read_show [of n] by (simp add: atoi_def Let_def)
qed

lemma c_str_no_NUL: "NUL \<notin> set (c_str s)"
  by (auto simp: c_str_def dest: set_takeWhileD)

lemma c_str_idem: "NUL \<notin> set s \<Longrightarrow> c_str s = s"
  by (auto simp: c_str_def)

lemma port_u16: "p < 2 ^ 31 \<Longrightarrow> unat (word_of_int (int p) :: u16) = p mod 65536"
  by (simp add: unat_of_nat)

lemma connect_button_connects_aux:
  assumes "client_env_ok E view" "c_str (ce_as_char E data) = host @ CHR '':'' # show_nat p"
    and "CHR '':'' \<notin> set host" "p < 2 ^ 31"
    and "tc_inv (ca_tcp a)" "cb_status (ca_tcp a) \<noteq> Cl_connected"
    and "cr_socket r \<noteq> INVALID_SOCKET" "cr_getaddrinfo r = 0" "cr_connect r \<noteq> -1"
  shows "\<exists>buff c a'. packer_from (ce_json E) client_hello_request buff =
      Inr [(''id'', F_u64 n), (''command'', F_string cmd_hello)] \<and>
    cb_status c = Cl_connected \<and> cb_socket c = cr_socket r \<and> tc_joinable c \<and>
    a' = a\<lparr>ca_tcp := c, ca_calls := ca_calls a @
           [Sys_socket, Sys_getaddrinfo host (show_nat (p mod 65536)), Sys_connect (cr_socket r)],
           ca_id := n\<rparr> \<and>
    on_connect_frame_callback E r n data a =
      Inr (if sends E cmd_hello buff a'
           then output_handler On_connect Ui_pending ''Connect...'' [] (sent cmd_hello buff a')
           else output_handler On_connect Ui_failed ''Connect failed.'' [] (sent cmd_hello buff a'))"
proof -
  let ?req = "[(''id'', F_u64 n), (''command'', F_string cmd_hello)]"
  let ?c = "ca_tcp a\<lparr>cb_socket := cr_socket r,
      cb_address := cb_address (ca_tcp a)\<lparr>sin_port := word_of_int (int p)\<rparr>,
      cb_status := Cl_connected, tc_joinable := True\<rparr>"
  let ?a = "a\<lparr>ca_tcp := ?c, ca_calls := ca_calls a @
      [Sys_socket, Sys_getaddrinfo host (show_nat (p mod 65536)), Sys_connect (cr_socket r)],
      ca_id := n\<rparr>"
  have nul: "NUL \<notin> set host" "NUL \<notin> set (show_nat p)"
    using c_str_no_NUL [of "ce_as_char E data"] assms(2) by auto
  have req: "set_u64 ''id'' n (set_string ''command'' cmd_hello (tuple_default client_hello_request)) = ?req"
    by (simp add: client_hello_request_def set_u64_def set_string_def tuple_set_def tuple_default_def)
  have ty: "tuple_type ?req = client_hello_request" "tuple_utf8 ?req"
    by (simp_all add: tuple_type_def tuple_utf8_def client_hello_request_def) (simp add: cmd_defs)
  obtain buff where buff: "packer_to (ce_json E) ?req = Inr buff" "buff \<noteq> []"
    "packer_from (ce_json E) client_hello_request buff = Inr ?req"
    using client_env_ok.request_packed [OF assms(1) ty(1) _ ty(2)] by auto
  have conn: "tc_connect r host (word_of_int (int p)) (ca_tcp a) = Some (?c,
      [Sys_socket, Sys_getaddrinfo host (show_nat (p mod 65536)), Sys_connect (cr_socket r)])"
    using assms(5-9) port_u16 [OF assms(4)] c_str_idem [OF nul(1)]
    by (simp add: tc_connect_def tc_start_thread_def tc_inv_def Let_def)
  have "on_connect_frame_callback E r n data a =
      Inr (if sends E cmd_hello buff ?a
           then output_handler On_connect Ui_pending ''Connect...'' [] (sent cmd_hello buff ?a)
           else output_handler On_connect Ui_failed ''Connect failed.'' [] (sent cmd_hello buff ?a))"
    using buff conn atoi_show_nat [OF assms(4)] c_str_idem [OF nul(2)] split_colon_at [OF assms(3)]
    by (simp add: on_connect_frame_callback_def assms(2) req app_send_sent Let_def)
  then show ?thesis
    using buff(3) by (intro exI [of _ buff] exI [of _ ?c] exI [of _ ?a]) simp
qed

text \<open>The connect button on \<^verbatim>\<open>host:port\<close>, when the system can connect: the host is looked
  up with the port modulo 65536, the socket is connected and the hello goes out with the
  fresh client id; the window waits for the answer.\<close>

theorem connect_button_connects:
  assumes "client_env_ok E view" "c_str (ce_as_char E data) = host @ CHR '':'' # show_nat p"
    and "CHR '':'' \<notin> set host" "p < 2 ^ 31"
    and "tc_inv (ca_tcp a)" "cb_status (ca_tcp a) \<noteq> Cl_connected"
    and "cr_socket r \<noteq> INVALID_SOCKET" "cr_getaddrinfo r = 0" "cr_connect r \<noteq> -1"
  shows "\<exists>buff c a'. packer_from (ce_json E) client_hello_request buff =
      Inr [(''id'', F_u64 n), (''command'', F_string cmd_hello)] \<and>
    cb_status c = Cl_connected \<and> cb_socket c = cr_socket r \<and> tc_joinable c \<and>
    a' = a\<lparr>ca_tcp := c, ca_calls := ca_calls a @
           [Sys_socket, Sys_getaddrinfo host (show_nat (p mod 65536)), Sys_connect (cr_socket r)],
           ca_id := n\<rparr> \<and>
    on_connect_frame_callback E r n data a =
      Inr (if sends E cmd_hello buff a'
           then output_handler On_connect Ui_pending ''Connect...'' [] (sent cmd_hello buff a')
           else output_handler On_connect Ui_failed ''Connect failed.'' [] (sent cmd_hello buff a'))"
  by (rule connect_button_connects_aux [OF assms])

lemma no_NUL_sample: "c_str ''localhost:75536'' = ''localhost:75536''"
  by (simp add: c_str_def)

lemma show_nat_75536: "show_nat 75536 = ''75536''" "show_nat 10000 = ''10000''"
  by (simp_all add: show_nat.simps digit_def char_of_def bit_simps)

text \<open>Port 75536 is 10000.\<close>

theorem connect_button_connects_witness:
  "\<exists>buff c a'. packer_from (ce_json sample_cenv) client_hello_request buff =
      Inr [(''id'', F_u64 77), (''command'', F_string cmd_hello)] \<and>
    a' = sample_capp\<lparr>ca_tcp := c,
      ca_calls := [Sys_socket, Sys_getaddrinfo ''localhost'' ''10000'', Sys_connect 8], ca_id := 77\<rparr> \<and>
    on_connect_frame_callback sample_cenv \<lparr>cr_socket = 8, cr_getaddrinfo = 0, cr_connect = 0\<rparr> 77
        ''localhost:75536'' sample_capp =
      Inr (output_handler On_connect Ui_pending ''Connect...'' [] (sent cmd_hello buff a'))"
proof -
  let ?r = "\<lparr>cr_socket = 8, cr_getaddrinfo = 0, cr_connect = 0\<rparr>"
  obtain buff c a' where "packer_from (ce_json sample_cenv) client_hello_request buff =
      Inr [(''id'', F_u64 77), (''command'', F_string cmd_hello)]"
    and "a' = sample_capp\<lparr>ca_tcp := c, ca_calls := ca_calls sample_capp @
      [Sys_socket, Sys_getaddrinfo ''localhost'' (show_nat (75536 mod 65536)), Sys_connect 8], ca_id := 77\<rparr>"
    and "on_connect_frame_callback sample_cenv ?r 77 ''localhost:75536'' sample_capp =
      Inr (if sends sample_cenv cmd_hello buff a'
           then output_handler On_connect Ui_pending ''Connect...'' [] (sent cmd_hello buff a')
           else output_handler On_connect Ui_failed ''Connect failed.'' [] (sent cmd_hello buff a'))"
    using connect_button_connects [OF csample.client_env_ok_axioms, of "''localhost:75536''" "''localhost''"
        75536 sample_capp ?r 77]
    by (auto simp: show_nat_75536 no_NUL_sample sample_cenv_def sample_capp_def tc_inv_new
        tcp_client_new_def INVALID_SOCKET_def tc_inv_def)
  then show ?thesis
    by (intro exI [of _ buff] exI [of _ c] exI [of _ a'])
      (simp add: show_nat_75536 sends_def, simp add: sample_cenv_def sample_capp_def)
qed

section \<open>What the server's packets do\<close>

lemma client_commands_mem [simp]:
  "cmd_msg \<in> set client_commands" "cmd_msg_reply \<in> set client_commands"
  "cmd_hello_reply \<in> set client_commands" "cmd_auth_reply \<in> set client_commands"
  "cmd_bye_reply \<in> set client_commands" "cmd_ping_reply \<in> set client_commands"
  by (simp_all add: client_commands_def)



lemma auth_reply_state:
  assumes "client_env_ok E view" "client_inv E view a"
    and "packer_from (ce_json E) server_auth_response body = Inr resp"
  shows "\<exists>a'. client_dispatch E a cmd_auth_reply cid body out = (True, a', cmd_auth_reply, out) \<and>
    client_inv E view a' \<and> ca_session a' = get_string resp ''session'' \<and> ca_id a' = ca_id a \<and>
    ca_tcp a' = ca_tcp a \<and> ca_calls a' = ca_calls a \<and>
    screen_of (view (ca_gui a')) =
      (if get_string resp ''status'' = ''ok'' then screen_step (On_login, Ui_success) else id)
        (screen_of (view (ca_gui a)))"
proof -
  let ?b = "a\<lparr>ca_session := get_string resp ''session''\<rparr>"
  let ?ok = "get_string resp ''status'' = ''ok''"
  let ?a = "if ?ok then output_handler On_login Ui_success ''Login success.'' [] ?b
      else output_handler On_login Ui_failed (ce_wx_string E (get_string resp ''message'')) [] ?b"
  have inv: "client_inv E view ?b"
    using assms(2) client_env_ok.decoded_utf8 [OF assms(1,3)] by (simp add: client_inv_def)
  note ok = client_env_ok.ok_reports [OF assms(1)]
  have "screen_of (view (ca_gui ?a)) =
      (if ?ok then screen_step (On_login, Ui_success) else id) (screen_of (view (ca_gui a)))"
    using client_env_ok.report_screen [OF assms(1) inv] ok by (cases "screen_of (view (ca_gui a))") simp
  moreover have "client_inv E view ?a"
    using client_env_ok.report_inv [OF assms(1) inv] ok by simp
  moreover have "client_dispatch E a cmd_auth_reply cid body out = (True, ?a, cmd_auth_reply, out)"
    by (rule client_env_ok.dispatch_reply [OF assms(1) client_commands_mem(4) client_handlers_map(4)
          assms(3)]) (simp add: server_auth_reply_packet_handler_def)
  ultimately show ?thesis
    by (intro exI [of _ ?a] conjI) (simp_all add: output_handler_report [OF client_inv_outputs [OF inv]])
qed

text \<open>
  A packet with a message is shown in the output field as \<^verbatim>\<open>login: text\<close>, whoever sent it: the
  test against the client's own login and session only decides what the answer says, and
  no answer is sent.
\<close>

lemma message_shown_unchecked:
  assumes "client_env_ok E view" "client_inv E view a"
    and "packer_from (ce_json E) server_msg_request body = Inr req"
  shows "\<exists>a' out'. fst (snd (client_dispatch E a cmd_msg cid body out)) = a' \<and>
    ca_calls a' = ca_calls a \<and> ca_session a' = ca_session a \<and>
    v_value (view (ca_gui a')) Output_field = v_value (view (ca_gui a)) Output_field @
      ce_wx_string E (get_string req ''sender_login'') @ '': '' @
      ce_wx_string E (get_string req ''body'') @ [CHR 0x0A] \<and>
    screen_of (view (ca_gui a')) = screen_of (view (ca_gui a))"
proof -
  let ?s = "ce_wx_string E (get_string req ''sender_login'')"
  let ?m = "ce_wx_string E (get_string req ''body'')"
  let ?a = "output_handler On_recv Ui_success ?s ?m a"
  have "fst (snd (client_dispatch E a cmd_msg cid body out)) = ?a"
    using client_env_ok.table_known [OF assms(1) client_commands_mem(1)] client_handlers_map(1) [of E] assms(3)
    by (simp add: client_dispatch_def dispatch_state wrapper3_state server_message_packet_handler_def Let_def)
  moreover have "screen_of (view (ca_gui ?a)) = screen_of (view (ca_gui a))"
    using client_env_ok.report_screen [OF assms(1,2), of On_recv Ui_success ?s ?m]
      client_env_ok.ok_reports(8) [OF assms(1)] by (cases "screen_of (view (ca_gui a))") simp
  moreover have "view (ca_gui ?a) = frame_on_recv plain_wx Ui_success ?s ?m (view (ca_gui a))"
    using wx_toolkit.report_view(6) [OF client_env_ok.toolkit [OF assms(1)]]
    by (simp add: output_handler_report [OF client_inv_outputs [OF assms(2)]] output_hadnlers_lookup)
  then have "v_value (view (ca_gui ?a)) Output_field = v_value (view (ca_gui a)) Output_field @
      ?s @ '': '' @ ?m @ [CHR 0x0A]"
    by (simp add: frame_on_recv_def Let_def plain_laws)
  ultimately show ?thesis
    by (simp add: output_handler_report [OF client_inv_outputs [OF assms(2)]])
qed

end
