(* ===== verification/Tcp_Server.thy ===== *)
theory Tcp_Server
  imports Receive Dispatcher
begin

text \<open>
  The class \<^verbatim>\<open>server\<close> of \<^verbatim>\<open>src/tcp/server/server.{hpp,cpp}\<close>: its configuration and
  status, the list of connected clients, sending to one of them, and the work of one
  connection's thread (\<^verbatim>\<open>client_handler\<close>, \<^verbatim>\<open>packet_handler\<close>).  The interleaving of the
  threads is in \<open>Server_Threads\<close>.
\<close>

section \<open>Configuration, start and stop\<close>

record keep_alive_config =
  ka_idle :: u32
  ka_interval :: u32
  ka_cnt :: u32

definition default_keep_alive :: keep_alive_config where
  "default_keep_alive = \<lparr>ka_idle = 120, ka_interval = 3, ka_cnt = 5\<rparr>"

text \<open>\<^verbatim>\<open>m_packet_handlers\<close> holds functions nothing ever calls; \<^typ>\<open>'h\<close> is their type.\<close>

record 'h tcp_server =
  srv_status :: server_status
  srv_socket :: socket_t
  srv_port :: u16
  srv_ka_conf :: keep_alive_config
  srv_packet_handlers :: "u64 \<rightharpoonup> 'h"

definition tcp_server :: "u16 \<Rightarrow> keep_alive_config \<Rightarrow> socket_t \<Rightarrow> 'h tcp_server" where
  "tcp_server port ka_conf uninit =
     \<lparr>srv_status = Srv_close, srv_socket = uninit, srv_port = port, srv_ka_conf = ka_conf,
      srv_packet_handlers = Map.empty\<rparr>"

text \<open>\<^verbatim>\<open>server::handle\<close>: it inserts only when the key is already there.\<close>

definition server_handle :: "(string \<Rightarrow> u64) \<Rightarrow> string \<Rightarrow> 'h \<Rightarrow> 'h tcp_server \<Rightarrow> 'h tcp_server" where
  "server_handle hash cmd h srv =
     (let id = hash cmd; hs = srv_packet_handlers srv in
      if hs id \<noteq> None then srv\<lparr>srv_packet_handlers := (if hs id = None then hs(id \<mapsto> h) else hs)\<rparr>
      else srv)"

text \<open>
  \<^verbatim>\<open>stop\<close> without its joins: the status, the closing of the listening socket.  \<open>Server_Threads\<close>
  models the joins and the clearing of the client list.
\<close>

definition server_stop :: "'h tcp_server \<Rightarrow> 'h tcp_server \<times> syscall list" where
  "server_stop srv = (srv\<lparr>srv_status := Srv_close\<rparr>, [Sys_closesocket (srv_socket srv)])"

text \<open>What the system answers to the calls of \<^verbatim>\<open>start\<close>.\<close>

record start_results =
  sr_socket :: socket_t
  sr_setsockopt :: int
  sr_bind :: int
  sr_listen :: int

definition SOCKET_ERROR :: int where
  "SOCKET_ERROR = -1"

definition server_start :: "start_results \<Rightarrow> 'h tcp_server \<Rightarrow> 'h tcp_server \<times> syscall list" where
  "server_start r srv =
     (let (srv, calls) = (if srv_status srv = Srv_up then server_stop srv else (srv, []));
          calls = calls @ [Sys_socket];
          srv = srv\<lparr>srv_socket := sr_socket r\<rparr>;
          s = srv_socket srv
      in if s = INVALID_SOCKET then (srv\<lparr>srv_status := Srv_init_error\<rparr>, calls)
         else if sr_setsockopt r = -1 then
           (srv\<lparr>srv_status := Srv_bind_error\<rparr>, calls @ [Sys_reuseaddr s])
         else if sr_bind r = SOCKET_ERROR then
           (srv\<lparr>srv_status := Srv_bind_error\<rparr>, calls @ [Sys_reuseaddr s, Sys_bind s (srv_port srv)])
         else if sr_listen r = SOCKET_ERROR then
           (srv\<lparr>srv_status := Srv_listening_error\<rparr>,
            calls @ [Sys_reuseaddr s, Sys_bind s (srv_port srv), Sys_listen s])
         else
           (srv\<lparr>srv_status := Srv_up\<rparr>,
            calls @ [Sys_reuseaddr s, Sys_bind s (srv_port srv), Sys_listen s]))"

definition server_destroy :: "'h tcp_server \<Rightarrow> syscall list" where
  "server_destroy srv = (if srv_status srv = Srv_up then snd (server_stop srv) else [])"

text \<open>\<^verbatim>\<open>set_keep_alive\<close>; the times are milliseconds in 32 bits, so they wrap.\<close>

definition set_keep_alive ::
  "int \<Rightarrow> int \<Rightarrow> keep_alive_config \<Rightarrow> socket_t \<Rightarrow> bool \<Rightarrow> bool \<times> syscall list" where
  "set_keep_alive r_setsockopt r_ioctl conf s alive =
     (let calls = [Sys_keepalive s alive] in
      if r_setsockopt \<noteq> 0 then (False, calls)
      else
        let calls = calls @ [Sys_keepalive_vals s 1 (ka_idle conf * 1000) (ka_interval conf * 1000)] in
        if r_ioctl \<noteq> 0 then (False, calls) else (True, calls))"

section \<open>The shared state of the connection threads\<close>

text \<open>
  \<^verbatim>\<open>m_client_list\<close> maps a client id, the number of the socket, to a
  \<^verbatim>\<open>shared_ptr<server_client>\<close>.  The thread of the connection holds another pointer to the
  same object, so the objects live in a store and the list holds references.  A reference is
  \<^emph>\<open>held\<close> while its thread runs; an object goes when it is neither held nor listed.
  \<open>w_calls\<close> is every system call made so far.
\<close>

record world =
  w_clients :: "(u64 \<times> nat) list"
  w_objs :: "nat \<rightharpoonup> client_base"
  w_held :: "nat set"
  w_calls :: "syscall list"

definition w_log :: "syscall list \<Rightarrow> 'a world_scheme \<Rightarrow> 'a world_scheme" where
  "w_log calls w = w\<lparr>w_calls := w_calls w @ calls\<rparr>"

definition w_release :: "nat \<Rightarrow> 'a world_scheme \<Rightarrow> 'a world_scheme" where
  "w_release ref w =
     (if ref \<in> w_held w \<or> ref \<in> snd ` set (w_clients w) then w
      else (case w_objs w ref of
              None \<Rightarrow> w
            | Some c \<Rightarrow> w_log (server_client_destroy c) (w\<lparr>w_objs := (w_objs w)(ref := None)\<rparr>)))"

text \<open>\<^verbatim>\<open>server::send_to\<close>.\<close>

definition send_to ::
  "(socket_t \<Rightarrow> buffer_t \<Rightarrow> int) \<Rightarrow> u64 \<Rightarrow> string \<Rightarrow> buffer_t \<Rightarrow> 'a world_scheme \<Rightarrow>
   bool \<times> 'a world_scheme" where
  "send_to os cookie cmd buff w =
     (case map_of (w_clients w) cookie of
        Some ref \<Rightarrow>
          (case w_objs w ref of
             Some c \<Rightarrow> let (ok, calls) = client_send os c cmd buff in (ok, w_log calls w)
           | None \<Rightarrow> (False, w))
      | None \<Rightarrow> (False, w))"

section \<open>One connection\<close>

text \<open>
  \<^verbatim>\<open>packet_handler\<close>.  The type field is read as a C string; without a NUL in its 16 bytes
  that is undefined behaviour (\<^term>\<open>None\<close>).  The result of \<^verbatim>\<open>dispatch\<close> is ignored: the answer
  goes out under whatever the command is now, and \<^verbatim>\<open>send\<close> drops an empty one.
\<close>

definition packet_handler ::
  "'a world_scheme dispatch_fun \<Rightarrow> (socket_t \<Rightarrow> buffer_t \<Rightarrow> int) \<Rightarrow> u64 \<Rightarrow> buffer_t \<Rightarrow> buffer_t \<Rightarrow>
   client_base \<Rightarrow> 'a world_scheme \<Rightarrow> 'a world_scheme option" where
  "packet_handler disp os cid hdr buff client w =
     (case c_string (ph_type (header_packet hdr)) of
        None \<Rightarrow> None
      | Some cmd \<Rightarrow>
          let (ok, w, cmd, out) = disp w cmd cid buff [];
              (sent, calls) = client_send os client cmd out
          in Some (w_log calls w))"

text \<open>The steps of \<^verbatim>\<open>client_handler\<close>: it makes and lists the client object, \<dots>\<close>

definition ch_register :: "nat \<Rightarrow> socket_t \<Rightarrow> sockaddr_in \<Rightarrow> 'a world_scheme \<Rightarrow> 'a world_scheme" where
  "ch_register ref sock addr w =
     w\<lparr>w_objs := (w_objs w)(ref \<mapsto> server_client sock addr),
       w_held := insert ref (w_held w),
       w_clients := smap_emplace sock ref (w_clients w)\<rparr>"

text \<open>\<dots> reads a message into fresh buffers (\<open>junk\<close> is the uninitialised header), \<dots>\<close>

definition ch_recv ::
  "'c os_recv \<Rightarrow> nat \<Rightarrow> buffer_t \<Rightarrow> 'c \<Rightarrow> 'a world_scheme \<Rightarrow>
   bool \<times> buffer_t \<times> buffer_t \<times> 'c \<times> 'a world_scheme" where
  "ch_recv rcv ref junk conn w =
     (case w_objs w ref of
        None \<Rightarrow> (False, junk, [], conn, w)
      | Some c \<Rightarrow>
          let (ok, s) = sc_recv rcv \<lparr>rs_client = c, rs_header = junk, rs_buff = [], rs_conn = conn,
                                     rs_calls = []\<rparr>
          in (ok, rs_header s, rs_buff s, rs_conn s,
              w_log (rs_calls s) (w\<lparr>w_objs := (w_objs w)(ref \<mapsto> rs_client s)\<rparr>)))"

text \<open>\<dots> takes its id off the list when the read failed, \<dots>\<close>

definition ch_erase :: "u64 \<Rightarrow> 'a world_scheme \<Rightarrow> 'a world_scheme" where
  "ch_erase cid w =
     (case map_of (w_clients w) cid of
        None \<Rightarrow> w
      | Some ref \<Rightarrow> w_release ref (w\<lparr>w_clients := smap_erase cid (w_clients w)\<rparr>))"

text \<open>\<dots> and drops its own reference when it returns.\<close>

definition ch_return :: "nat \<Rightarrow> 'a world_scheme \<Rightarrow> 'a world_scheme" where
  "ch_return ref w = w_release ref (w\<lparr>w_held := w_held w - {ref}\<rparr>)"

text \<open>
  The loop for one connection with nothing else running.  \<open>fuel\<close> bounds the number of
  iterations; \<open>up n\<close> says whether the status is still up and \<open>junk n\<close> what the uninitialised
  header holds when \<open>n\<close> iterations are left.
\<close>

datatype 'w ch_result = Ch_done 'w | Ch_undefined | Ch_no_fuel

primrec ch_loop ::
  "nat \<Rightarrow> (nat \<Rightarrow> bool) \<Rightarrow> (nat \<Rightarrow> buffer_t) \<Rightarrow> 'c os_recv \<Rightarrow> 'a world_scheme dispatch_fun \<Rightarrow>
   (socket_t \<Rightarrow> buffer_t \<Rightarrow> int) \<Rightarrow> u64 \<Rightarrow> nat \<Rightarrow> 'c \<Rightarrow> 'a world_scheme \<Rightarrow> 'a world_scheme ch_result" where
  "ch_loop 0 up junk rcv disp os cid ref conn w = Ch_no_fuel"
| "ch_loop (Suc n) up junk rcv disp os cid ref conn w =
     (if \<not> up n then Ch_done (ch_return ref w)
      else
        (case ch_recv rcv ref (junk n) conn w of (ok, hdr, data, conn, w) \<Rightarrow>
           if \<not> ok then Ch_done (ch_return ref (ch_erase cid w))
           else
             (case w_objs w ref of
                None \<Rightarrow> Ch_undefined
              | Some c \<Rightarrow>
                  (case packet_handler disp os cid hdr data c w of
                     None \<Rightarrow> Ch_undefined
                   | Some w \<Rightarrow> ch_loop n up junk rcv disp os cid ref conn w))))"

definition client_handler ::
  "nat \<Rightarrow> (nat \<Rightarrow> bool) \<Rightarrow> (nat \<Rightarrow> buffer_t) \<Rightarrow> 'c os_recv \<Rightarrow> 'a world_scheme dispatch_fun \<Rightarrow>
   (socket_t \<Rightarrow> buffer_t \<Rightarrow> int) \<Rightarrow> sockaddr_in \<Rightarrow> socket_t \<Rightarrow> nat \<Rightarrow> 'c \<Rightarrow> 'a world_scheme \<Rightarrow>
   'a world_scheme ch_result" where
  "client_handler fuel up junk rcv disp os addr sock ref conn w =
     ch_loop fuel up junk rcv disp os sock ref conn (ch_register ref sock addr w)"

section \<open>Start, stop and options\<close>

lemma server_start_status:
  "srv_status (fst (server_start r srv)) =
    (if sr_socket r = INVALID_SOCKET then Srv_init_error
     else if sr_setsockopt r = -1 \<or> sr_bind r = SOCKET_ERROR then Srv_bind_error
     else if sr_listen r = SOCKET_ERROR then Srv_listening_error
     else Srv_up)"
  by (simp add: server_start_def Let_def split: prod.split)

lemma server_start_socket: "srv_socket (fst (server_start r srv)) = sr_socket r"
  by (simp add: server_start_def Let_def split: prod.split)

lemma server_start_calls:
  "snd (server_start r srv) =
    (if srv_status srv = Srv_up then [Sys_closesocket (srv_socket srv)] else []) @ [Sys_socket] @
    (if sr_socket r = INVALID_SOCKET then []
     else [Sys_reuseaddr (sr_socket r)] @
       (if sr_setsockopt r = -1 then []
        else [Sys_bind (sr_socket r) (srv_port srv)] @
          (if sr_bind r = SOCKET_ERROR then [] else [Sys_listen (sr_socket r)])))"
  by (simp add: server_start_def server_stop_def Let_def)

text \<open>\<^verbatim>\<open>start\<close> brings the server up exactly when every call succeeds, and otherwise its
  status names the first step that failed; a server that was up is stopped before the new
  socket is made.\<close>

theorem server_start_outcome:
  "srv_status (fst (server_start r srv)) =
    (if sr_socket r = INVALID_SOCKET then Srv_init_error
     else if sr_setsockopt r = -1 \<or> sr_bind r = SOCKET_ERROR then Srv_bind_error
     else if sr_listen r = SOCKET_ERROR then Srv_listening_error
     else Srv_up) \<and>
   srv_socket (fst (server_start r srv)) = sr_socket r \<and>
   (srv_status srv = Srv_up \<longleftrightarrow>
     hd (snd (server_start r srv)) = Sys_closesocket (srv_socket srv))"
  by (simp add: server_start_status server_start_calls server_start_socket)

text \<open>A failed start leaks its socket: the new socket is never closed, and a further start
  overwrites the only copy of its number.\<close>

theorem server_start_leaks_socket:
  assumes "srv_status (fst (server_start r srv)) \<noteq> Srv_up" "srv_status srv \<noteq> Srv_up"
  shows "(\<forall>s. Sys_closesocket s \<notin> set (snd (server_start r srv))) \<and>
    srv_socket (fst (server_start r' (fst (server_start r srv)))) = sr_socket r' \<and>
    (\<forall>s. Sys_closesocket s \<notin> set (snd (server_start r' (fst (server_start r srv)))))"
  using assms
  by (auto simp: server_start_calls server_start_socket)

theorem server_start_leaks_socket_witness:
  "srv_socket (fst (server_start \<lparr>sr_socket = 9, sr_setsockopt = 0, sr_bind = 0, sr_listen = 0\<rparr>
    (fst (server_start \<lparr>sr_socket = 5, sr_setsockopt = 0, sr_bind = -1, sr_listen = 0\<rparr>
      (tcp_server 10501 default_keep_alive 0 :: unit tcp_server))))) = 9"
  using server_start_leaks_socket
    [of "\<lparr>sr_socket = 5, sr_setsockopt = 0, sr_bind = -1, sr_listen = 0\<rparr>"
      "tcp_server 10501 default_keep_alive 0 :: unit tcp_server"
      "\<lparr>sr_socket = 9, sr_setsockopt = 0, sr_bind = 0, sr_listen = 0\<rparr>"]
  by (simp add: server_start_status tcp_server_def INVALID_SOCKET_def SOCKET_ERROR_def)

text \<open>Registering a packet handler has no effect at all: the condition is the wrong way
  round, so nothing is ever inserted.\<close>

theorem server_handle_never_registers: "server_handle hash cmd h srv = srv"
  by (simp add: server_handle_def Let_def)

text \<open>The keep-alive options: one call to switch them on, one with the times in
  milliseconds, and success exactly when both succeed.\<close>

theorem set_keep_alive_outcome:
  "set_keep_alive r1 r2 conf s alive =
    (r1 = 0 \<and> r2 = 0,
     Sys_keepalive s alive #
       (if r1 = 0 then [Sys_keepalive_vals s 1 (ka_idle conf * 1000) (ka_interval conf * 1000)] else []))"
  by (simp add: set_keep_alive_def Let_def)

section \<open>Handling a packet\<close>

lemma w_log_Nil [simp]: "w_log [] w = w"
  by (simp add: w_log_def)

lemma w_log_simps [simp]:
  "w_clients (w_log cs w) = w_clients w" "w_objs (w_log cs w) = w_objs w"
  "w_held (w_log cs w) = w_held w" "w_calls (w_log cs w) = w_calls w @ cs"
  "w_log ds (w_log cs w) = w_log (cs @ ds) w"
  by (simp_all add: w_log_def)

lemma client_send_Nil [simp]: "client_send os c cmd [] = (False, [])"
  by (simp add: client_send_rejected)

context packet_dispatcher
begin

text \<open>A dispatch that fails sends no answer; an unknown command changes nothing at all.\<close>

lemma failed_dispatch_silent:
  "disp s cmd ck inp [] = (False, s', cmd', out) \<Longrightarrow> client_send os c cmd' out = (False, [])"
  using failure_no_output by fastforce

end

lemma packet_handler_failed:
  assumes "packet_dispatcher disp known" "c_string (ph_type (header_packet hdr)) = Some cmd"
    and "disp w cmd cid buff [] = (False, w', cmd', out)"
  shows "packet_handler disp os cid hdr buff c w = Some w'"
  using packet_dispatcher.failed_dispatch_silent [OF assms(1,3), of os c] assms(2,3)
  by (simp add: packet_handler_def)

lemma packet_handler_unknown:
  assumes "packet_dispatcher disp known" "c_string (ph_type (header_packet hdr)) = Some cmd"
    and "\<not> known cmd"
  shows "packet_handler disp os cid hdr buff c w = Some w"
  using packet_handler_failed [OF assms(1,2)] packet_dispatcher.unknown_ignored [OF assms(1,3)]
  by blast

section \<open>The life of a connection\<close>

text \<open>
  What a dispatch may do to the shared state: it makes \<^verbatim>\<open>::send\<close> calls and changes neither
  the objects nor the list.
\<close>

fun is_send :: "syscall \<Rightarrow> bool" where
  "is_send (Sys_send s b) = True"
| "is_send _ = False"

definition sends_only :: "'a world_scheme \<Rightarrow> 'a world_scheme \<Rightarrow> bool" where
  "sends_only w w' \<longleftrightarrow>
     w_clients w' = w_clients w \<and> w_objs w' = w_objs w \<and> w_held w' = w_held w \<and>
     (\<exists>cs. w_calls w' = w_calls w @ cs \<and> list_all is_send cs)"

definition disp_sends_only :: "'a world_scheme dispatch_fun \<Rightarrow> bool" where
  "disp_sends_only disp \<longleftrightarrow>
     (\<forall>w cmd ck inp out. sends_only w (fst (snd (disp w cmd ck inp out))))"

lemma sends_only_refl [simp]: "sends_only w w"
  by (simp add: sends_only_def)

lemma sends_only_trans: "sends_only u v \<Longrightarrow> sends_only v w \<Longrightarrow> sends_only u w"
  by (fastforce simp: sends_only_def)

lemma client_send_is_send: "list_all is_send (snd (client_send os c cmd buff))"
  by (simp add: client_send_def Let_def)

lemma sends_only_log: "list_all is_send cs \<Longrightarrow> sends_only w (w_log cs w)"
  by (auto simp: sends_only_def)

lemma send_to_sends_only: "sends_only w (snd (send_to os cookie cmd buff w))"
  using client_send_is_send
  by (auto simp: send_to_def sends_only_log split: option.split prod.split)
    (metis sends_only_log snd_conv)

lemma packet_handler_sends_only:
  assumes "disp_sends_only disp" "packet_handler disp os cid hdr buff c w = Some w'"
  shows "sends_only w w'"
proof -
  obtain cmd ok w1 cmd1 out where d: "disp w cmd cid buff [] = (ok, w1, cmd1, out)"
    and w': "w' = w_log (snd (client_send os c cmd1 out)) w1"
    using assms(2) by (auto simp: packet_handler_def split: option.splits prod.splits)
  have "sends_only w w1"
    using assms(1) d unfolding disp_sends_only_def by (metis fst_conv snd_conv)
  then show ?thesis
    unfolding w' by (rule sends_only_trans) (rule sends_only_log, rule client_send_is_send)
qed

end
