(* ===== verification/Connection.thy ===== *)
theory Connection
  imports Tcp_Server
begin

text \<open>
  The whole life of one connection of the server, \<^verbatim>\<open>server::client_handler\<close> from the
  registration of the client to the end of its thread: the loop ends on every finite
  traffic, and what it leaves behind is what it found.
\<close>

section \<open>Termination\<close>

fun seg_measure :: "segment list \<Rightarrow> nat" where
  "seg_measure [] = 0"
| "seg_measure (Data bs # es) = Suc (length bs + seg_measure es)"
| "seg_measure (Fault w so io # es) = Suc (seg_measure es)"

lemma seg_recv_decreases:
  "seg_recv n c = (r, c') \<Longrightarrow> seg_measure c' \<le> seg_measure c \<and>
    (0 < n \<longrightarrow> c \<noteq> [] \<longrightarrow> seg_measure c' < seg_measure c)"
  by (cases "(n, c)" rule: seg_recv.cases) (auto split: if_splits)

lemma recv_body_decreases:
  "recv_body seg_recv hdr buff c = (ok, buff', c') \<Longrightarrow> seg_measure c' \<le> seg_measure c"
  by (auto simp: recv_body_def Let_def dest!: seg_recv_decreases
      split: if_splits prod.splits recv_result.splits)

lemma rs_body_decreases:
  "rs_body seg_recv s = (ok, s') \<Longrightarrow> seg_measure (rs_conn s') \<le> seg_measure (rs_conn s)"
  by (auto simp: rs_body_def dest!: recv_body_decreases split: prod.splits)

lemma sc_recv_decreases:
  assumes "sc_recv seg_recv s = (True, s')"
  shows "seg_measure (rs_conn s') < seg_measure (rs_conn s)"
proof -
  obtain r c where r: "seg_recv sizeof_header (rs_conn s) = (r, c)" by fastforce
  have ne: "rs_conn s \<noteq> []"
    using assms r by (auto simp: sc_recv_closed)
  have dec: "seg_measure c < seg_measure (rs_conn s)"
    using seg_recv_decreases [OF r] ne by (simp add: packet_sizes)
  show ?thesis
  proof (cases r)
    case (Received bs)
    with r assms have "bs \<noteq> []" by (auto simp: sc_recv_closed)
    with Received r assms dec show ?thesis
      by (auto simp: sc_recv_received dest!: rs_body_decreases)
  next
    case (Recv_error w so io)
    with r assms dec show ?thesis
      by (auto simp: sc_recv_error Let_def dest!: rs_body_decreases split: if_splits)
  qed
qed

lemma ch_recv_decreases:
  "ch_recv seg_recv ref junk conn w = (True, hdr, data, conn', w') \<Longrightarrow>
    seg_measure conn' < seg_measure conn"
  by (auto simp: ch_recv_def dest!: sc_recv_decreases split: option.splits prod.splits)

lemma ch_loop_enough_fuel:
  "seg_measure conn < n \<Longrightarrow> ch_loop n up junk seg_recv disp os cid ref conn w \<noteq> Ch_no_fuel"
proof (induction n arbitrary: conn w)
  case (Suc n)
  obtain ok hdr data conn' w' where r: "ch_recv seg_recv ref (junk n) conn w = (ok, hdr, data, conn', w')"
    by (metis prod_cases5)
  show ?case
    using Suc ch_recv_decreases [of ref "junk n" conn w hdr data conn' w'] r
    by (cases ok) (auto split: option.splits)
qed simp

section \<open>What a connection leaves behind\<close>

lemma sc_recv_True:
  "sc_recv rcv s = (True, s') \<Longrightarrow> rs_client s' = rs_client s \<and> rs_calls s' = rs_calls s"
  by (cases "rcv sizeof_header (rs_conn s)"; cases "fst (rcv sizeof_header (rs_conn s))")
    (auto simp: sc_recv_def Let_def dest!: rs_body_frame split: if_splits errno.splits)

lemma ch_recv_True:
  assumes "ch_recv rcv ref junk conn w = (True, hdr, data, conn', w')"
  shows "sends_only w w'"
proof -
  obtain c where c: "w_objs w ref = Some c"
    using assms by (auto simp: ch_recv_def split: option.splits)
  have "(w_objs w)(ref \<mapsto> c) = w_objs w" using c by auto
  then show ?thesis
    using assms c by (auto simp: ch_recv_def sends_only_def dest!: sc_recv_True split: prod.splits)
qed

lemma ch_recv_False:
  assumes "ch_recv rcv ref junk conn w = (False, hdr, data, conn', w')" "w_objs w ref = Some c"
    and "cb_socket c = sock" "sock \<noteq> INVALID_SOCKET"
  shows "\<exists>c' calls. w' = w_log calls (w\<lparr>w_objs := (w_objs w)(ref \<mapsto> c')\<rparr>) \<and>
    calls @ server_client_destroy c' = [Sys_shutdown sock, Sys_closesocket sock]"
proof -
  let ?s = "\<lparr>rs_client = c, rs_header = junk, rs_buff = [], rs_conn = conn, rs_calls = []\<rparr>"
  obtain s' where s': "sc_recv rcv ?s = (False, s')"
    and w': "w' = w_log (rs_calls s') (w\<lparr>w_objs := (w_objs w)(ref \<mapsto> rs_client s')\<rparr>)"
    using assms(1,2) by (auto simp: ch_recv_def split: prod.splits)
  have "rs_calls s' @ server_client_destroy (rs_client s') = [Sys_shutdown sock, Sys_closesocket sock]"
    using sc_recv_shape [OF s'] assms(3,4)
    by (auto simp: server_client_destroy_def sc_disconnect_def Let_def)
  with w' show ?thesis by blast
qed

lemma smap_erase_emplace:
  "smap_ok m \<Longrightarrow> map_of m k = None \<Longrightarrow> smap_erase k (smap_emplace k v m) = m"
proof (induction m)
  case (Cons e es)
  have "k \<notin> fst ` set (e # es)" using Cons.prems(2) map_of_eq_None_iff by metis
  then have "filter (\<lambda>e. fst e \<noteq> k) (e # es) = e # es" by (auto simp: filter_id_conv)
  with Cons show ?case by (auto simp: smap_erase_def smap_ok_def split: if_splits)
qed (simp add: smap_erase_def)

text \<open>The thread of a connection that reads until the read fails.\<close>

lemma ch_loop_result:
  assumes disp: "disp_sends_only disp" and up: "\<forall>n. up n"
    and start: "w1 = ch_register ref sock addr w0" "sends_only w1 w"
    and fresh: "smap_ok (w_clients w0)" "map_of (w_clients w0) sock = None"
      "ref \<notin> w_held w0" "ref \<notin> snd ` set (w_clients w0)" "w_objs w0 ref = None"
      "sock \<noteq> INVALID_SOCKET"
    and result: "ch_loop n up junk rcv disp os sock ref conn w = Ch_done w'"
  shows "w_clients w' = w_clients w0 \<and> w_objs w' = w_objs w0 \<and> w_held w' = w_held w0 \<and>
    (\<exists>cs. list_all is_send cs \<and>
      w_calls w' = w_calls w0 @ cs @ [Sys_shutdown sock, Sys_closesocket sock])"
  using start(2) result
proof (induction n arbitrary: w conn)
  case (Suc n)
  have w: "w_clients w = smap_emplace sock ref (w_clients w0)"
    "w_objs w = (w_objs w0)(ref \<mapsto> server_client sock addr)" "w_held w = insert ref (w_held w0)"
    using Suc.prems(1) by (simp_all add: start(1) sends_only_def ch_register_def)
  obtain cs where cs: "w_calls w = w_calls w0 @ cs" "list_all is_send cs"
    using Suc.prems(1) by (auto simp: start(1) sends_only_def ch_register_def)
  obtain ok hdr data conn' v where r: "ch_recv rcv ref (junk n) conn w = (ok, hdr, data, conn', v)"
    by (metis prod_cases5)
  show ?case
  proof (cases ok)
    case True
    have "sends_only w v"
      using ch_recv_True [of rcv ref "junk n" conn w hdr data conn' v] r True by simp
    with Suc.prems(1) have v: "sends_only w1 v" by (rule sends_only_trans)
    obtain c u where p: "packet_handler disp os sock hdr data c v = Some u"
      and l: "ch_loop n up junk rcv disp os sock ref conn' u = Ch_done w'"
      using Suc.prems(2) r True spec [OF up, of n] by (auto split: option.splits)
    have "sends_only w1 u"
      using v packet_handler_sends_only [OF disp p] by (rule sends_only_trans)
    then show ?thesis using l by (rule Suc.IH)
  next
    case False
    obtain c' calls where v: "v = w_log calls (w\<lparr>w_objs := (w_objs w)(ref \<mapsto> c')\<rparr>)"
      and calls: "calls @ server_client_destroy c' = [Sys_shutdown sock, Sys_closesocket sock]"
      using ch_recv_False [of rcv ref "junk n" conn w hdr data conn' v "server_client sock addr" sock]
        r False w(2) fresh(6) by (auto simp: server_client_def)
    have look: "map_of (w_clients v) sock = Some ref"
      using fresh(1,2) by (simp add: v w map_of_smap_emplace)
    have er: "ch_erase sock v = v\<lparr>w_clients := w_clients w0\<rparr>"
      using look fresh(1,2) by (simp add: ch_erase_def w_release_def v w smap_erase_emplace)
    have "w' = ch_return ref (v\<lparr>w_clients := w_clients w0\<rparr>)"
      using Suc.prems(2) r False up er by simp
    then show ?thesis
      using fresh cs calls
      by (auto simp: ch_return_def w_release_def v w fun_upd_idem insert_absorb)
  qed
qed simp

section \<open>Properties\<close>

text \<open>C38: on any finite traffic the thread of a connection comes to an end: with more
  iterations allowed than there are bytes and faults to read, the loop returns (or runs into
  the undefined read of an unterminated type), whatever the status and the handlers do.\<close>

theorem client_handler_terminates:
  assumes "seg_measure conn < fuel"
  shows "client_handler fuel up junk seg_recv disp os addr sock ref conn w \<noteq> Ch_no_fuel"
  unfolding client_handler_def using assms by (rule ch_loop_enough_fuel)

definition empty_world :: world where
  "empty_world = \<lparr>w_clients = [], w_objs = Map.empty, w_held = {}, w_calls = []\<rparr>"

definition deaf :: "'a world_scheme dispatch_fun" where
  "deaf w cmd ck inp out = (False, w, cmd, out)"

theorem client_handler_terminates_witness:
  "client_handler 3 (\<lambda>n. True) (\<lambda>n. []) seg_recv deaf (\<lambda>s b. 0) \<lparr>sin_addr = 0, sin_port = 0\<rparr> 7 0
     [Data ''x''] empty_world \<noteq> Ch_no_fuel"
  by (rule client_handler_terminates) simp

text \<open>A connection whose reading ends leaves no trace: the list of clients, the objects
  and the held references are what they were before it, and besides the answers sent in
  between its socket was shut down once and closed once.\<close>

theorem client_handler_cleans_up:
  assumes "disp_sends_only disp" "\<forall>n. up n"
    and "smap_ok (w_clients w)" "map_of (w_clients w) sock = None"
    and "ref \<notin> w_held w" "ref \<notin> snd ` set (w_clients w)" "w_objs w ref = None"
    and "sock \<noteq> INVALID_SOCKET"
    and "client_handler fuel up junk rcv disp os addr sock ref conn w = Ch_done w'"
  shows "w_clients w' = w_clients w \<and> w_objs w' = w_objs w \<and> w_held w' = w_held w \<and>
    (\<exists>cs. list_all is_send cs \<and>
      w_calls w' = w_calls w @ cs @ [Sys_shutdown sock, Sys_closesocket sock])"
  using assms(9) unfolding client_handler_def
  by (rule ch_loop_result [OF assms(1,2) refl sends_only_refl assms(3-8)])

theorem client_handler_cleans_up_witness:
  "\<exists>w'. client_handler 3 (\<lambda>n. True) (\<lambda>n. []) seg_recv deaf (\<lambda>s b. 0)
      \<lparr>sin_addr = 0, sin_port = 0\<rparr> 7 0 [] empty_world = Ch_done w' \<and>
    w_clients w' = [] \<and> (\<exists>cs. w_calls w' = cs @ [Sys_shutdown 7, Sys_closesocket 7])"
proof -
  let ?run = "client_handler 3 (\<lambda>n. True) (\<lambda>n. []) seg_recv deaf (\<lambda>s b. 0)
      \<lparr>sin_addr = 0, sin_port = 0\<rparr> 7 0 [] empty_world"
  obtain w' where w': "?run = Ch_done w'"
    by (simp add: client_handler_def numeral_3_eq_3 ch_recv_def ch_register_def sc_recv_closed
        split: prod.split)
  have "disp_sends_only (deaf :: world dispatch_fun)"
    by (simp add: disp_sends_only_def deaf_def)
  from client_handler_cleans_up [OF this _ _ _ _ _ _ _ w'] w' show ?thesis
    by (simp add: empty_world_def INVALID_SOCKET_def) blast
qed

text \<open>A command no handler is registered for is dropped without an answer and without a
  trace; so is a packet whose handler fails, but for what the handler did before.\<close>

theorem packet_handler_no_answer:
  assumes "packet_dispatcher disp known" "c_string (ph_type (header_packet hdr)) = Some cmd"
    and "disp w cmd cid buff [] = (False, w', cmd', out)"
  shows "packet_handler disp os cid hdr buff c w = Some w' \<and> (\<not> known cmd \<longrightarrow> w' = w)"
  using packet_handler_failed [OF assms] packet_handler_unknown [OF assms(1,2)]
  by (metis option.inject)

theorem packet_handler_no_answer_witness:
  "packet_handler deaf (\<lambda>s b. 0) 7 (take sizeof_header (create_packet ''nope'' ''{}'')) ''{}''
     (server_client 7 \<lparr>sin_addr = 0, sin_port = 0\<rparr>) empty_world = Some empty_world"
proof -
  have d: "packet_dispatcher (deaf :: world dispatch_fun) (\<lambda>cmd. False)"
    by unfold_locales (simp_all add: deaf_def)
  have "c_string (ph_type (header_packet (take sizeof_header (create_packet ''nope'' ''{}''))))
      = Some ''nope''"
    by (rule header_command) (simp_all add: packet_sizes)
  from packet_handler_no_answer [OF d this] show ?thesis by (simp add: deaf_def)
qed

text \<open>A type field of 16 bytes without a NUL makes \<^verbatim>\<open>packet_handler\<close> read past the array:
  the behaviour is undefined, and any peer can send such a header.\<close>

theorem packet_handler_unterminated_type:
  "packet_handler disp os cid hdr buff c w = None \<longleftrightarrow> NUL \<notin> set (ph_type (header_packet hdr))"
  by (simp add: packet_handler_def c_string_def split: prod.split)

end
