(* ===== verification/Auth_Provider.thy ===== *)
theory Auth_Provider
  imports Tcp_Core
begin

text \<open>
  \<^verbatim>\<open>src/auth/provider/provider.{hpp,cpp}\<close>: the table of logged-in clients, keyed by the
  id a client chose, and the check of the one configured login and password.

  The table is a \<^verbatim>\<open>std::unordered_map\<close>: a list of entries in the order iteration visits
  them.  The standard leaves that order open and an insertion may change all of it, so the
  order after an insertion is the parameter \<open>ord\<close>, any function that permutes.  The random
  letters of a session are the parameter \<open>draws\<close>.  The mutex makes each operation atomic.
\<close>

section \<open>State\<close>

datatype auth_status = Auth_added | Auth_removed | Auth_accepted | Auth_rejected | Auth_not_found

record auth_client =
  ac_cookie :: u64
  ac_id :: u64
  ac_session :: string
  ac_login :: string
  ac_status :: auth_status

type_synonym client_table = "(u64 \<times> auth_client) list"

record provider =
  pv_login :: string
  pv_pass :: string
  pv_clients :: client_table

definition auth_provider :: "string \<Rightarrow> string \<Rightarrow> provider" where
  "auth_provider login pass = \<lparr>pv_login = login, pv_pass = pass, pv_clients = []\<rparr>"

section \<open>Operations\<close>

definition get_clients :: "provider \<Rightarrow> auth_status \<Rightarrow> auth_client list" where
  "get_clients p status =
     map snd (filter (\<lambda>c. ac_status (snd c) = status) (pv_clients p))"

definition status_client :: "provider \<Rightarrow> u64 \<Rightarrow> string \<Rightarrow> auth_status" where
  "status_client p cid session =
     (case map_of (pv_clients p) cid of
        Some c \<Rightarrow> ac_status c
      | None \<Rightarrow> Auth_not_found)"

text \<open>\<^verbatim>\<open>generate_n\<close>: 32 draws, each converted to a \<^verbatim>\<open>char\<close> and appended.\<close>

definition session_length :: nat where
  "session_length = 32"

definition generate_session :: "(nat \<Rightarrow> int) \<Rightarrow> string" where
  "generate_session draws = map (\<lambda>i. char_of (draws i)) [0..<session_length]"

definition add_client ::
  "(client_table \<Rightarrow> client_table) \<Rightarrow> (nat \<Rightarrow> int) \<Rightarrow> provider \<Rightarrow>
   u64 \<Rightarrow> u64 \<Rightarrow> string \<Rightarrow> string \<Rightarrow> string \<Rightarrow> auth_status \<times> provider \<times> string" where
  "add_client ord draws p cid cookie login pass session =
     (if login \<noteq> pv_login p \<or> pass \<noteq> pv_pass p then (Auth_rejected, p, session)
      else
        (case map_of (pv_clients p) cid of
           None \<Rightarrow>
             let session = session @ generate_session draws;
                 c = \<lparr>ac_cookie = cookie, ac_id = cid, ac_session = session,
                      ac_login = pv_login p, ac_status = Auth_accepted\<rparr>
             in (Auth_accepted, p\<lparr>pv_clients := ord ((cid, c) # pv_clients p)\<rparr>, session)
         | Some c \<Rightarrow> (Auth_removed, p, session)))"

definition rem_client :: "provider \<Rightarrow> u64 \<Rightarrow> string \<Rightarrow> auth_status \<times> provider" where
  "rem_client p cid session =
     (case map_of (pv_clients p) cid of
        Some c \<Rightarrow> (Auth_removed, p\<lparr>pv_clients := filter (\<lambda>e. fst e \<noteq> cid) (pv_clients p)\<rparr>)
      | None \<Rightarrow> (Auth_not_found, p))"

section \<open>The abstract table\<close>

definition permutes :: "('a list \<Rightarrow> 'a list) \<Rightarrow> bool" where
  "permutes ord \<longleftrightarrow> (\<forall>xs. mset (ord xs) = mset xs)"

lemma permutes_set: "permutes ord \<Longrightarrow> set (ord xs) = set xs"
  unfolding permutes_def by (metis set_mset_mset)

lemma permutes_keys: "permutes ord \<Longrightarrow> distinct (map fst (ord xs)) = distinct (map fst xs)"
  unfolding permutes_def by (metis mset_eq_imp_distinct_iff mset_map)

lemma map_of_permute:
  assumes "permutes ord" "distinct (map fst xs)"
  shows "map_of (ord xs) = map_of xs"
  using assms by (simp add: map_of_inject_set permutes_keys permutes_set)

definition registered :: "provider \<Rightarrow> u64 \<Rightarrow> auth_client option" where
  "registered p = map_of (pv_clients p)"

text \<open>
  The invariant of the table: one entry per key, stored under its own id, accepted, with the
  configured login and a session of 32 lower-case letters.
\<close>

definition draws_ok :: "(nat \<Rightarrow> int) \<Rightarrow> bool" where
  "draws_ok draws \<longleftrightarrow> (\<forall>i. 97 \<le> draws i \<and> draws i \<le> 122)"

definition session_ok :: "string \<Rightarrow> bool" where
  "session_ok s \<longleftrightarrow> length s = session_length \<and> (\<forall>c \<in> set s. 97 \<le> (of_char c :: nat) \<and> (of_char c :: nat) \<le> 122)"

definition entry_ok :: "provider \<Rightarrow> u64 \<times> auth_client \<Rightarrow> bool" where
  "entry_ok p e \<longleftrightarrow> ac_id (snd e) = fst e \<and> ac_status (snd e) = Auth_accepted \<and>
     ac_login (snd e) = pv_login p \<and> session_ok (ac_session (snd e))"

lemma entry_ok_update [simp]: "entry_ok (p\<lparr>pv_clients := cs\<rparr>) e = entry_ok p e"
  by (simp add: entry_ok_def)

definition provider_inv :: "provider \<Rightarrow> bool" where
  "provider_inv p \<longleftrightarrow> distinct (map fst (pv_clients p)) \<and> (\<forall>e \<in> set (pv_clients p). entry_ok p e)"

lemma byte_char_of_int: "0 \<le> i \<Longrightarrow> (of_char (char_of (i :: int)) :: nat) = nat i mod 256"
  using char_of_nat [of "nat i", where 'a = int] by simp

lemma generate_session_ok: "draws_ok draws \<Longrightarrow> session_ok (generate_session draws)"
proof -
  assume ok: "draws_ok draws"
  have "97 \<le> (of_char (char_of (draws i)) :: nat) \<and> (of_char (char_of (draws i)) :: nat) \<le> 122" for i
  proof -
    have b: "97 \<le> draws i" "draws i \<le> 122" using ok by (simp_all add: draws_ok_def)
    then have "nat (draws i) mod 256 = nat (draws i)" by simp
    with b show ?thesis using byte_char_of_int [of "draws i"] by linarith
  qed
  then show ?thesis by (auto simp: session_ok_def generate_session_def)
qed

section \<open>Effect of the operations on the table\<close>

lemma registered_simps:
  "status_client p cid session =
    (case registered p cid of None \<Rightarrow> Auth_not_found | Some c \<Rightarrow> ac_status c)"
  "rem_client p cid session =
    (case registered p cid of
       None \<Rightarrow> (Auth_not_found, p)
     | Some c \<Rightarrow> (Auth_removed, p\<lparr>pv_clients := filter (\<lambda>e. fst e \<noteq> cid) (pv_clients p)\<rparr>))"
  by (simp_all add: status_client_def rem_client_def registered_def split: option.split)

lemma registered_mem: "registered p cid = Some c \<Longrightarrow> (cid, c) \<in> set (pv_clients p)"
  by (simp add: registered_def map_of_SomeD)

lemma registered_iff_mem:
  "provider_inv p \<Longrightarrow> registered p cid = Some c \<longleftrightarrow> (cid, c) \<in> set (pv_clients p)"
  by (auto simp: registered_def provider_inv_def)

lemma registered_entry: "provider_inv p \<Longrightarrow> registered p cid = Some c \<Longrightarrow> entry_ok p (cid, c)"
  using registered_mem by (auto simp: provider_inv_def)

lemma registered_status: "provider_inv p \<Longrightarrow> registered p cid = Some c \<Longrightarrow> ac_status c = Auth_accepted"
  by (drule (1) registered_entry) (simp add: entry_ok_def)

text \<open>The entry \<^verbatim>\<open>add_client\<close> makes.\<close>

definition new_client :: "(nat \<Rightarrow> int) \<Rightarrow> provider \<Rightarrow> u64 \<Rightarrow> u64 \<Rightarrow> auth_client" where
  "new_client draws p cid cookie =
     \<lparr>ac_cookie = cookie, ac_id = cid, ac_session = generate_session draws,
      ac_login = pv_login p, ac_status = Auth_accepted\<rparr>"

definition add_entry :: "(client_table \<Rightarrow> client_table) \<Rightarrow> provider \<Rightarrow> u64 \<times> auth_client \<Rightarrow> provider" where
  "add_entry ord p e = p\<lparr>pv_clients := ord (e # pv_clients p)\<rparr>"

lemma add_client_cases:
  "add_client ord draws p cid cookie login pass [] =
    (if login = pv_login p \<and> pass = pv_pass p then
       (case registered p cid of
          None \<Rightarrow> (Auth_accepted, add_entry ord p (cid, new_client draws p cid cookie), generate_session draws)
        | Some c \<Rightarrow> (Auth_removed, p, []))
     else (Auth_rejected, p, []))"
  by (simp add: add_client_def new_client_def add_entry_def registered_def Let_def split: option.split)

lemma registered_add_entry:
  assumes "permutes ord" "provider_inv p" "registered p cid = None"
  shows "registered (add_entry ord p (cid, c)) = (registered p)(cid \<mapsto> c)"
proof -
  have "distinct (map fst ((cid, c) # pv_clients p))"
    using assms by (auto simp: provider_inv_def registered_def map_of_eq_None_iff)
  from map_of_permute [OF assms(1) this] show ?thesis
    by (simp add: registered_def add_entry_def)
qed

lemma provider_inv_add_entry:
  assumes "permutes ord" "provider_inv p" "registered p cid = None" "entry_ok p (cid, c)"
  shows "provider_inv (add_entry ord p (cid, c))"
  using assms
  by (auto simp: provider_inv_def registered_def map_of_eq_None_iff add_entry_def
      permutes_set permutes_keys)

lemma entry_ok_new_client: "draws_ok draws \<Longrightarrow> entry_ok p (cid, new_client draws p cid cookie)"
  by (simp add: entry_ok_def new_client_def generate_session_ok)

lemma provider_inv_add:
  assumes "permutes ord" "draws_ok draws" "provider_inv p"
    and "add_client ord draws p cid cookie login pass [] = (st, p', session)"
  shows "provider_inv p'"
  using assms provider_inv_add_entry [OF assms(1,3) _ entry_ok_new_client [OF assms(2)]]
  by (auto simp: add_client_cases split: if_splits option.splits)

lemma provider_inv_rem:
  "provider_inv p \<Longrightarrow> rem_client p cid session = (st, p') \<Longrightarrow> provider_inv p'"
  by (auto simp: rem_client_def provider_inv_def distinct_map_filter split: option.splits)

lemma provider_inv_start: "provider_inv (auth_provider login pass)"
  by (simp add: provider_inv_def auth_provider_def)

lemma auth_provider_simps [simp]:
  "pv_login (auth_provider login pass) = login" "pv_pass (auth_provider login pass) = pass"
  "pv_clients (auth_provider login pass) = []" "registered (auth_provider login pass) = Map.empty"
  by (simp_all add: auth_provider_def registered_def)

lemma config_unchanged:
  "add_client ord draws p cid cookie login pass s = (st, p', s') \<Longrightarrow>
    pv_login p' = pv_login p \<and> pv_pass p' = pv_pass p"
  "rem_client p cid session = (st, p') \<Longrightarrow> pv_login p' = pv_login p \<and> pv_pass p' = pv_pass p"
  by (auto simp: add_client_def rem_client_def Let_def split: if_splits option.splits)

lemma get_clients_accepted: "provider_inv p \<Longrightarrow> get_clients p Auth_accepted = map snd (pv_clients p)"
  by (auto simp: get_clients_def provider_inv_def entry_ok_def filter_id_conv)

lemma get_clients_other: "provider_inv p \<Longrightarrow> st \<noteq> Auth_accepted \<Longrightarrow> get_clients p st = []"
  by (auto simp: get_clients_def provider_inv_def entry_ok_def filter_empty_conv)

section \<open>The contract of a session registry\<close>

text \<open>
  What the server application relies on: a status that tells membership, and the list of
  accepted clients, which is the table with every id once.
\<close>

locale session_registry =
  fixes reg :: "'p \<Rightarrow> u64 \<Rightarrow> auth_client option"
    and status :: "'p \<Rightarrow> u64 \<Rightarrow> auth_status"
    and accepted :: "'p \<Rightarrow> auth_client list"
    and inv :: "'p \<Rightarrow> bool"
  assumes status_accepted: "inv p \<Longrightarrow> status p cid = Auth_accepted \<longleftrightarrow> reg p cid \<noteq> None"
    and accepted_set: "inv p \<Longrightarrow> set (accepted p) = ran (reg p)"
    and accepted_ids: "inv p \<Longrightarrow> distinct (map ac_id (accepted p))"
    and reg_id: "inv p \<Longrightarrow> reg p cid = Some c \<Longrightarrow> ac_id c = cid"
begin

lemma accepted_member:
  assumes "inv p" "status p cid = Auth_accepted"
  shows "\<exists>!c. c \<in> set (accepted p) \<and> ac_id c = cid"
proof -
  obtain c where c: "reg p cid = Some c"
    using assms status_accepted by auto
  have "d = c" if "d \<in> set (accepted p)" "ac_id d = cid" for d
    using that c reg_id [OF assms(1)] accepted_set [OF assms(1)] by (auto simp: ran_def)
  moreover have "c \<in> set (accepted p)" "ac_id c = cid"
    using c reg_id [OF assms(1)] accepted_set [OF assms(1)] by (auto simp: ran_def)
  ultimately show ?thesis by blast
qed

lemma accepted_count: "inv p \<Longrightarrow> length (accepted p) = card (dom (reg p))"
proof -
  assume i: "inv p"
  have "ac_id ` set (accepted p) = dom (reg p)"
    using accepted_set [OF i] reg_id [OF i] by (force simp: ran_def dom_def image_def)
  then have "card (dom (reg p)) = card (set (map ac_id (accepted p)))" by simp
  then show ?thesis
    using distinct_card [OF accepted_ids [OF i]] by simp
qed

end

interpretation registry: session_registry registered "\<lambda>p cid. status_client p cid session"
  "\<lambda>p. get_clients p Auth_accepted" provider_inv for session
proof
  fix p cid assume inv: "provider_inv p"
  show "status_client p cid session = Auth_accepted \<longleftrightarrow> registered p cid \<noteq> None"
    using registered_status [OF inv] by (auto simp: registered_simps split: option.split)
  show "set (get_clients p Auth_accepted) = ran (registered p)"
    using inv registered_iff_mem [OF inv]
    by (force simp: get_clients_accepted ran_def)
  have "map ac_id (map snd (pv_clients p)) = map fst (pv_clients p)"
    using inv by (auto simp: provider_inv_def entry_ok_def)
  then show "distinct (map ac_id (get_clients p Auth_accepted))"
    using inv by (simp add: get_clients_accepted provider_inv_def del: map_map)
  show "registered p cid = Some c \<Longrightarrow> ac_id c = cid" for c
    using registered_entry [OF inv] by (auto simp: entry_ok_def)
qed

section \<open>Properties\<close>

text \<open>C18: logging in refines insertion into a partial map.  Wrong credentials are rejected
  and an id that is already logged in is refused, both without any change; otherwise the id,
  and no other, is mapped to a fresh accepted client carrying the connection, the configured
  login and the session handed back.\<close>

theorem add_client_refines:
  assumes "permutes ord" "provider_inv p"
    and "add_client ord draws p cid cookie login pass [] = (st, p', session)"
  shows "st = (if login \<noteq> pv_login p \<or> pass \<noteq> pv_pass p then Auth_rejected
               else if registered p cid \<noteq> None then Auth_removed else Auth_accepted) \<and>
    registered p' = (if st = Auth_accepted then (registered p)(cid \<mapsto> new_client draws p cid cookie)
                     else registered p) \<and>
    session = (if st = Auth_accepted then generate_session draws else [])"
  using assms(3) registered_add_entry [OF assms(1,2), of cid]
  by (auto simp: add_client_cases split: if_splits option.splits)

theorem add_client_refines_witness:
  "\<exists>p'. add_client rev (\<lambda>i. 97) (auth_provider ''gologin'' ''pw'') 7 3 ''gologin'' ''pw'' []
      = (Auth_accepted, p', generate_session (\<lambda>i. 97)) \<and>
    registered p' 7 = Some (new_client (\<lambda>i. 97) (auth_provider ''gologin'' ''pw'') 7 3)"
proof -
  have perm: "permutes rev" by (simp add: permutes_def)
  let ?p = "auth_provider ''gologin'' ''pw''"
  have eq: "add_client rev (\<lambda>i. 97) ?p 7 3 ''gologin'' ''pw'' [] =
      (Auth_accepted, add_entry rev ?p (7, new_client (\<lambda>i. 97) ?p 7 3), generate_session (\<lambda>i. 97))"
    by (simp add: add_client_cases registered_def auth_provider_def)
  with add_client_refines [OF perm provider_inv_start eq] show ?thesis by simp
qed

text \<open>Logging out refines deletion from the map and reports whether the id was there.\<close>

theorem rem_client_refines:
  assumes "rem_client p cid session = (st, p')"
  shows "registered p' = (registered p)(cid := None) \<and>
    st = (if registered p cid = None then Auth_not_found else Auth_removed)"
  using assms
  by (auto simp: rem_client_def registered_def map_of_filter_keys split: option.splits)

theorem rem_client_refines_witness:
  "registered (snd (rem_client (auth_provider ''a'' ''b'') 7 [])) 7 = None"
  using rem_client_refines [of "auth_provider ''a'' ''b''" 7 "[]"]
  by (cases "rem_client (auth_provider ''a'' ''b'') 7 []") simp

text \<open>The session is never checked.  Whether a client counts as logged in, and whether
  it is logged out, depends on its id alone, whatever session the request carries.\<close>

theorem session_not_checked:
  "status_client p cid s = status_client p cid s' \<and> rem_client p cid s = rem_client p cid s'"
  by (simp add: status_client_def rem_client_def)

text \<open>A history of the provider: any calls in any order, each with its own randomness.\<close>

datatype provider_op =
    Op_add "nat \<Rightarrow> int" u64 u64 string string
  | Op_rem u64 string

fun provider_step :: "(client_table \<Rightarrow> client_table) \<Rightarrow> provider_op \<Rightarrow> provider \<Rightarrow> provider" where
  "provider_step ord (Op_add draws cid cookie login pass) p =
     fst (snd (add_client ord draws p cid cookie login pass []))"
| "provider_step ord (Op_rem cid session) p = snd (rem_client p cid session)"

fun op_ok :: "provider_op \<Rightarrow> bool" where
  "op_ok (Op_add draws cid cookie login pass) = draws_ok draws"
| "op_ok (Op_rem cid session) = True"

lemma provider_inv_step:
  "permutes ord \<Longrightarrow> op_ok opn \<Longrightarrow> provider_inv p \<Longrightarrow> provider_inv (provider_step ord opn p)"
  by (cases opn) (metis op_ok.simps(1) provider_step.simps(1) provider_inv_add prod.collapse,
      metis provider_step.simps(2) provider_inv_rem prod.collapse)

lemma provider_inv_run:
  "permutes ord \<Longrightarrow> list_all op_ok ops \<Longrightarrow> provider_inv p \<Longrightarrow> provider_inv (fold (provider_step ord) ops p)"
  by (induction ops arbitrary: p) (auto intro: provider_inv_step)

text \<open>After any history of logins and logouts every entry of the table is stored under
  its own id, is accepted, has the configured login and a session of 32 letters
  \<^verbatim>\<open>a\<close>..\<^verbatim>\<open>z\<close>; no id occurs twice.\<close>

theorem provider_reachable_inv:
  assumes "permutes ord" "list_all op_ok ops"
  shows "provider_inv (fold (provider_step ord) ops (auth_provider login pass))"
  using assms provider_inv_start by (rule provider_inv_run)

theorem provider_reachable_inv_witness:
  "provider_inv (fold (provider_step rev)
     [Op_add (\<lambda>i. 97) 7 3 ''gologin'' ''pw'', Op_add (\<lambda>i. 122) 8 4 ''gologin'' ''pw'', Op_rem 7 []]
     (auth_provider ''gologin'' ''pw''))"
  by (rule provider_reachable_inv) (simp_all add: permutes_def draws_ok_def)

text \<open>The list of accepted clients is the table without repetition: one element for each
  logged-in id, whatever order the hash table is in.\<close>

theorem get_clients_complete:
  assumes "provider_inv p"
  shows "set (get_clients p Auth_accepted) = ran (registered p) \<and>
    length (get_clients p Auth_accepted) = card (dom (registered p))"
  using registry.accepted_set [OF assms] registry.accepted_count [OF assms] by simp

theorem get_clients_complete_witness:
  "length (get_clients (auth_provider ''a'' ''b'') Auth_accepted) = 0"
  using get_clients_complete [OF provider_inv_start, of "''a''" "''b''"]
  by (simp add: registered_def auth_provider_def)

end
