(* ===== verification/Server_App.thy ===== *)
theory Server_App
  imports Connection Auth_Provider Core_Base
begin

text \<open>
  The server application, \<^verbatim>\<open>src/server/app.{hpp,cpp}\<close>: its configuration, the six packet
  handlers and their registration.  Its state extends that of the TCP server with the
  authentication provider and the random numbers still to be drawn.

  \<open>env\<close> collects what is not in the repository: the JSON library, \<^verbatim>\<open>std::hash\<close>, the order of
  the hash table and \<^verbatim>\<open>::send\<close>.  Writing to the log has no effect on the state.
\<close>

section \<open>State and environment\<close>

record app_world = world +
  w_auth :: provider
  w_rng :: "nat \<Rightarrow> int"

lemma w_log_auth [simp]: "w_auth (w_log cs w) = w_auth w" "w_rng (w_log cs w) = w_rng w"
  by (simp_all add: w_log_def)

record 'j env =
  env_json :: "'j json_ops"
  env_hash :: "string \<Rightarrow> u64"
  env_order :: "client_table \<Rightarrow> client_table"
  env_send :: "socket_t \<Rightarrow> buffer_t \<Rightarrow> int"

section \<open>Handlers\<close>

definition client_hello_packet_handler :: "app_world handler3" where
  "client_hello_packet_handler w cookie request response =
     (let cid = get_u64 request ''id'';
          response = set_u64 ''id'' cid response;
          response = set_string ''command'' cmd_hello response;
          response = set_string ''auth_method'' ''plain-text'' response
      in (Returned, w, response))"

definition client_ping_packet_handler :: "app_world handler3" where
  "client_ping_packet_handler w cookie request response =
     (let cid = get_u64 request ''id'';
          session = get_string request ''session'';
          response = set_u64 ''id'' cid response;
          response = set_string ''command'' cmd_ping_reply response;
          auth = status_client (w_auth w) cid session;
          response =
            (if auth = Auth_accepted then
               set_string ''message'' '''' (set_string ''status'' ''ok'' response)
             else
               set_string ''message'' ''client not registred''
                 (set_string ''status'' ''failed'' response))
      in (Returned, w, response))"

definition client_login_packet_handler :: "'j env \<Rightarrow> app_world handler3" where
  "client_login_packet_handler E w cookie request response =
     (let cid = get_u64 request ''id'';
          login = get_string request ''login'';
          password = get_string request ''password'';
          response = set_u64 ''id'' cid response;
          response = set_string ''command'' cmd_auth response;
          (auth, p, session) =
            add_client (env_order E) (w_rng w) (w_auth w) cid cookie login password '''';
          w = w\<lparr>w_auth := p,
                w_rng := (if auth = Auth_accepted then (\<lambda>i. w_rng w (i + session_length))
                          else w_rng w)\<rparr>;
          response =
            (if auth = Auth_accepted then
               set_string ''message'' ''''
                 (set_string ''session'' session (set_string ''status'' ''ok'' response))
             else
               set_string ''session'' session
                 (set_string ''message'' ''wrong auth login or pass''
                   (set_string ''status'' ''failed'' response)))
      in (Returned, w, response))"

definition client_logout_packet_handler :: "app_world handler3" where
  "client_logout_packet_handler w cookie request response =
     (let cid = get_u64 request ''id'';
          session = get_string request ''session'';
          response = set_u64 ''id'' cid response;
          response = set_string ''command'' cmd_bye_reply response;
          (auth, p) = rem_client (w_auth w) cid session;
          w = w\<lparr>w_auth := p\<rparr>;
          response = set_string ''status'' (if auth = Auth_removed then ''ok'' else ''failed'') response
      in (Returned, w, response))"

text \<open>The message sent to one accepted client: its own login and session, not the sender's.\<close>

definition broadcast_request :: "string \<Rightarrow> auth_client \<Rightarrow> tagged_tuple" where
  "broadcast_request body c =
     (let req = tuple_default server_msg_request;
          req = set_u64 ''id'' (ac_id c) req;
          req = set_string ''sender_login'' (ac_login c) req;
          req = set_string ''session'' (ac_session c) req;
          req = set_string ''body'' body req;
          req = set_string ''command'' cmd_msg req
      in req)"

primrec broadcast ::
  "'j env \<Rightarrow> string \<Rightarrow> auth_client list \<Rightarrow> app_world \<Rightarrow> outcome \<times> app_world" where
  "broadcast E body [] w = (Returned, w)"
| "broadcast E body (c # cs) w =
     (case packer_to (env_json E) (broadcast_request body c) of
        Inl e \<Rightarrow> (Threw, w)
      | Inr buff \<Rightarrow>
          let (ok, w) = send_to (env_send E) (ac_cookie c) cmd_msg buff w
          in broadcast E body cs w)"

definition client_message_packet_handler :: "'j env \<Rightarrow> app_world handler3" where
  "client_message_packet_handler E w cookie request response =
     (let cid = get_u64 request ''id'';
          session = get_string request ''session'';
          body = get_string request ''body'';
          response = set_u64 ''id'' cid response;
          response = set_string ''command'' cmd_msg_reply response;
          auth = status_client (w_auth w) cid session;
          (oc, w) =
            (if auth = Auth_accepted then broadcast E body (get_clients (w_auth w) Auth_accepted) w
             else (Returned, w))
      in if oc = Threw then (Threw, w, response)
         else
           (Returned, w,
            if auth = Auth_accepted then
              set_string ''message'' ''''
                (set_string_from_u64 ''client_id'' cid (set_string ''status'' ''ok'' response))
            else
              set_string ''message'' ''client not registered''
                (set_string_from_u64 ''client_id'' cid (set_string ''status'' ''failed'' response))))"

definition client_message_reply_packet_handler :: "app_world handler2" where
  "client_message_reply_packet_handler w cookie response = (Returned, w)"

section \<open>Registration and start\<close>

definition server_handlers :: "'j env \<Rightarrow> (string \<times> app_world wrapper) list" where
  "server_handlers E =
     (let J = env_json E in
      [(cmd_hello, wrapper3 J client_hello_request server_hello_response client_hello_packet_handler),
       (cmd_ping, wrapper3 J client_ping_request server_auth_response client_ping_packet_handler),
       (cmd_auth, wrapper3 J client_auth_request server_auth_response (client_login_packet_handler E)),
       (cmd_bye, wrapper3 J client_bye_request server_bye_response client_logout_packet_handler),
       (cmd_msg, wrapper3 J client_msg_request server_msg_response (client_message_packet_handler E)),
       (cmd_msg_reply, wrapper2 J client_msg_response client_message_reply_packet_handler)])"

record app_config =
  cfg_srv_addrr :: string
  cfg_data_folder :: string
  cfg_client_pass :: string
  cfg_client_login :: string

text \<open>
  \<^verbatim>\<open>startup\<close>: \<open>conf\<close> is the loaded configuration.  The logger's parameters are returned with
  the configuration.  The address is looked up under \<^verbatim>\<open>server_addrr\<close>, which is not the key
  of the shipped \<^verbatim>\<open>config/server.json\<close> (\<^verbatim>\<open>tcp_server\<close>).
\<close>

definition get_property :: "(string \<rightharpoonup> string) \<Rightarrow> string \<Rightarrow> string \<Rightarrow> string" where
  "get_property conf key dflt = (case conf key of Some v \<Rightarrow> v | None \<Rightarrow> dflt)"

definition app_startup :: "logger \<Rightarrow> (string \<rightharpoonup> string) \<Rightarrow> app_config \<times> logger option" where
  "app_startup default_logger conf =
     (let config =
            \<lparr>cfg_srv_addrr = get_property conf ''server_addrr'' ''localhost:10052'',
             cfg_data_folder = get_property conf ''application.dataDir'' '''',
             cfg_client_pass = get_property conf ''client_pass'' '''',
             cfg_client_login = get_property conf ''client_login'' ''''\<rparr>;
          path = cfg_data_folder config @ [CHR 0x5C] @ ''gologin_server.log'';
          level = get_property conf ''logger_level'' ''debug'';
          sink = get_property conf ''logger_sink'' ''console''
      in (config, create_logger default_logger level sink ''gologin_server'' path))"

text \<open>
  \<^verbatim>\<open>app::main()\<close>: the provider, the dispatcher with its handlers, the TCP server.  \<open>port\<close> is
  the port \<^verbatim>\<open>Poco::Net::SocketAddress\<close> finds in an address; it throws for an address it cannot
  resolve.  A clash of hashes throws too.
\<close>

datatype app_error = Handler_error dispatcher_error | Address_error string

record app =
  app_handlers :: "app_world handlers"
  app_server :: "unit tcp_server"
  app_world0 :: app_world

definition app_main ::
  "'j env \<Rightarrow> (string \<Rightarrow> u16 option) \<Rightarrow> start_results \<Rightarrow> socket_t \<Rightarrow> (nat \<Rightarrow> int) \<Rightarrow> app_config \<Rightarrow>
   app_error + app" where
  "app_main E port r uninit rng config =
     (case handle_all (env_hash E) (server_handlers E) Map.empty of
        Inl e \<Rightarrow> Inl (Handler_error e)
      | Inr hs \<Rightarrow>
          (case port (cfg_srv_addrr config) of
             None \<Rightarrow> Inl (Address_error (cfg_srv_addrr config))
           | Some p \<Rightarrow>
               let (srv, calls) = server_start r (tcp_server p default_keep_alive uninit)
               in Inr \<lparr>app_handlers = hs, app_server = srv,
                       app_world0 = \<lparr>w_clients = [], w_objs = Map.empty, w_held = {}, w_calls = calls,
                         w_auth = auth_provider (cfg_client_login config) (cfg_client_pass config),
                         w_rng = rng\<rparr>\<rparr>))"

text \<open>
  \<^verbatim>\<open>app::main(args)\<close>: \<^verbatim>\<open>startup\<close>, then \<^verbatim>\<open>app::main()\<close> on a thread of its own, then the
  wait for the request to terminate.  \<open>dirs_throw\<close> says whether making the data folder throws.

  The three \<^verbatim>\<open>catch\<close> clauses write to \<^verbatim>\<open>m_logger\<close>, which is still null when \<^verbatim>\<open>startup\<close>
  throws, and which stays null when \<^verbatim>\<open>create_logger\<close> does not know the sink; a message to it
  is undefined behaviour.  They do not see what is thrown on the other thread: an exception
  that leaves the function of a \<^verbatim>\<open>std::jthread\<close> ends the process.
\<close>

datatype app_end = App_exit_ok app | App_terminate app_error | App_null_logger

definition app_run ::
  "'j env \<Rightarrow> (string \<Rightarrow> u16 option) \<Rightarrow> start_results \<Rightarrow> socket_t \<Rightarrow> (nat \<Rightarrow> int) \<Rightarrow>
   (string \<Rightarrow> bool) \<Rightarrow> logger \<Rightarrow> (string \<rightharpoonup> string) \<Rightarrow> app_end" where
  "app_run E port r uninit rng dirs_throw default_logger conf =
     (let (config, lg) = app_startup default_logger conf in
      if dirs_throw (cfg_data_folder config) then App_null_logger
      else
        (case lg of
           None \<Rightarrow> App_null_logger
         | Some l \<Rightarrow>
             (case app_main E port r uninit rng config of
                Inl e \<Rightarrow> App_terminate e
              | Inr a \<Rightarrow> App_exit_ok a)))"

text \<open>The dispatcher the connection threads call.\<close>

definition server_dispatch :: "'j env \<Rightarrow> app_world dispatch_fun" where
  "server_dispatch E = dispatch (env_hash E) (handler_table (env_hash E) (server_handlers E))"

section \<open>The dispatcher's contract\<close>

lemma server_handlers_clean: "w \<in> ran (handler_table hash (server_handlers E)) \<Longrightarrow> clean_wrapper w"
  by (auto simp: handler_table_def server_handlers_def Let_def clean_wrapper3 clean_wrapper2 ran_def
      split: if_splits)

interpretation server_disp: packet_dispatcher "server_dispatch E"
  "\<lambda>cmd. handler_table (env_hash E) (server_handlers E) (env_hash E cmd) \<noteq> None" for E
  unfolding server_dispatch_def by (rule dispatcher_contract) (rule server_handlers_clean)

definition server_commands :: "string list" where
  "server_commands = [cmd_hello, cmd_ping, cmd_auth, cmd_bye, cmd_msg, cmd_msg_reply]"

lemma server_handlers_keys: "map fst (server_handlers E) = server_commands"
  by (simp add: server_handlers_def server_commands_def Let_def)

lemma distinct_server_commands: "distinct server_commands"
  by (simp add: server_commands_def cmd_defs)

lemma server_handlers_map:
  "map_of (server_handlers E) cmd_hello =
    Some (wrapper3 (env_json E) client_hello_request server_hello_response client_hello_packet_handler)"
  "map_of (server_handlers E) cmd_ping =
    Some (wrapper3 (env_json E) client_ping_request server_auth_response client_ping_packet_handler)"
  "map_of (server_handlers E) cmd_auth =
    Some (wrapper3 (env_json E) client_auth_request server_auth_response (client_login_packet_handler E))"
  "map_of (server_handlers E) cmd_bye =
    Some (wrapper3 (env_json E) client_bye_request server_bye_response client_logout_packet_handler)"
  "map_of (server_handlers E) cmd_msg =
    Some (wrapper3 (env_json E) client_msg_request server_msg_response (client_message_packet_handler E))"
  "map_of (server_handlers E) cmd_msg_reply =
    Some (wrapper2 (env_json E) client_msg_response client_message_reply_packet_handler)"
  by (simp_all add: server_handlers_def Let_def cmd_defs)

end
