(* ===== verification/Server_Props.thy ===== *)
theory Server_Props
  imports Server_App
begin

text \<open>
  What the server does with each packet, from the bytes of the request to the bytes of the
  answer.  The locale \<open>server_env\<close> collects what the theorems ask of the environment; its
  instance is the JSON text of \<open>Json_Text\<close> with the FNV-1a hash, the \<^verbatim>\<open>std::hash\<close> of the
  compiler the releases are built with.
\<close>

section \<open>The environment\<close>

locale server_env =
  fixes E :: "'j env"
  assumes json: "nlohmann (env_json E)"
    and order: "permutes (env_order E)"
    and hash_inj: "inj_on (env_hash E) (set server_commands)"
begin

lemma table_known:
  "cmd \<in> set server_commands \<Longrightarrow>
    handler_table (env_hash E) (server_handlers E) (env_hash E cmd) = map_of (server_handlers E) cmd"
proof -
  assume "cmd \<in> set server_commands"
  moreover have "fst ` set (server_handlers E) = set server_commands"
    by (metis server_handlers_keys list.set_map)
  ultimately show ?thesis
    using hash_inj by (intro handler_table_lookup) (simp add: insert_absorb)
qed

lemma registration: "handle_all (env_hash E) (server_handlers E) Map.empty =
    Inr (handler_table (env_hash E) (server_handlers E))"
proof (rule handle_all_ok)
  show "inj_on (env_hash E) (fst ` set (server_handlers E))"
    using hash_inj by (metis server_handlers_keys list.set_map)
qed (simp add: server_handlers_keys distinct_server_commands)

text \<open>The answer to a request: packed and sent when its strings are UTF-8, dropped otherwise.\<close>

lemma reply:
  assumes cmd: "cmd \<in> set server_commands"
    "map_of (server_handlers E) cmd = Some (wrapper3 (env_json E) req_t resp_t h)"
    and hdr: "c_string (ph_type (header_packet hdr)) = Some cmd"
    and req: "packer_from (env_json E) req_t body = Inr req"
    and h: "h w cid req (tuple_default resp_t) = (Returned, w1, resp)"
    and resp: "tuple_type resp = resp_t" "message_keys_ok resp_t"
    and rcmd: "get_string resp ''command'' = rcmd" "length rcmd < sizeof_type"
  shows "if tuple_utf8 resp then
      (\<exists>out. out \<noteq> [] \<and> packer_from (env_json E) resp_t out = Inr resp \<and>
        packet_handler (server_dispatch E) os cid hdr body c w =
          Some (w_log [Sys_send (cb_socket c) (create_packet rcmd out)] w1))
    else packet_handler (server_dispatch E) os cid hdr body c w = Some w1"
proof (cases "tuple_utf8 resp")
  case True
  obtain out where out: "packer_to (env_json E) resp = Inr out" "out \<noteq> []"
    "packer_from (env_json E) resp_t out = Inr resp"
    using packer_encodes [OF json, of resp] resp True by auto
  have "server_dispatch E w cmd cid body [] = (True, w1, rcmd, out)"
    using cmd req h out rcmd by (simp add: server_dispatch_def dispatch_def table_known wrapper3_def)
  then have "packet_handler (server_dispatch E) os cid hdr body c w =
      Some (w_log [Sys_send (cb_socket c) (create_packet rcmd out)] w1)"
    using hdr out rcmd by (simp add: packet_handler_def client_send_sent)
  with True out show ?thesis by auto
next
  case False
  have bad: "packer_to (env_json E) resp = Inl Json_invalid_utf8"
    using packer_rejects [OF json, of resp] resp False by simp
  have "server_dispatch E w cmd cid body [] = (False, w1, rcmd, [])"
    using cmd req h bad rcmd by (simp add: server_dispatch_def dispatch_def table_known wrapper3_def)
  then show ?thesis
    using hdr False by (simp add: packet_handler_def)
qed

lemma request_utf8: "packer_from (env_json E) req_t body = Inr req \<Longrightarrow> utf8_valid (get_string req k)"
  by (rule tuple_utf8_get) (rule packer_decoded_utf8 [OF json])

end

definition sample_env :: "json_text env" where
  "sample_env = \<lparr>env_json = json_text_ops, env_hash = fnv1a, env_order = rev, env_send = (\<lambda>s b. int (length b))\<rparr>"

lemma fnv1a_commands: "inj_on fnv1a (set server_commands)"
  by (simp add: server_commands_def cmd_defs fnv1a_def)

interpretation sample: server_env sample_env
proof (rule server_env.intro)
  show "nlohmann (env_json sample_env)"
    by (simp add: sample_env_def json_text.nlohmann_axioms)
  show "permutes (env_order sample_env)"
    by (simp add: sample_env_def permutes_def)
  show "inj_on (env_hash sample_env) (set server_commands)"
    by (simp add: sample_env_def fnv1a_commands)
qed

section \<open>Registration\<close>

text \<open>The server's six handlers register exactly when the hash tells their commands apart,
  and then each command finds its own handler; with a collision \<^verbatim>\<open>main\<close> throws before it
  starts the server.\<close>

theorem server_registration:
  "(case handle_all (env_hash E) (server_handlers E) Map.empty of
      Inr hs \<Rightarrow> inj_on (env_hash E) (set server_commands) \<and>
        (\<forall>cmd \<in> set server_commands. hs (env_hash E cmd) = map_of (server_handlers E) cmd)
    | Inl (Handler_exists h) \<Rightarrow> \<not> inj_on (env_hash E) (set server_commands))"
proof -
  have keys: "fst ` set (server_handlers E) = set server_commands"
    by (metis server_handlers_keys list.set_map)
  show ?thesis
  proof (cases "inj_on (env_hash E) (set server_commands)")
    case True
    then have "handle_all (env_hash E) (server_handlers E) Map.empty =
        Inr (handler_table (env_hash E) (server_handlers E))"
      by (intro handle_all_ok) (simp_all add: keys server_handlers_keys distinct_server_commands)
    moreover have "handler_table (env_hash E) (server_handlers E) (env_hash E cmd) =
        map_of (server_handlers E) cmd" if "cmd \<in> set server_commands" for cmd
      using True that by (intro handler_table_lookup) (simp add: keys insert_absorb)
    ultimately show ?thesis using True by simp
  next
    case False
    then have "\<not> inj_on (env_hash E) (fst ` set (server_handlers E))" by (simp only: keys) simp
    from handle_all_clash [OF this] obtain h where
      "handle_all (env_hash E) (server_handlers E) Map.empty = Inl (Handler_exists h)" by blast
    with False show ?thesis by simp
  qed
qed

theorem server_registration_witness:
  "\<exists>hs. handle_all fnv1a (server_handlers sample_env) Map.empty = Inr hs \<and>
    hs (fnv1a cmd_bye) = map_of (server_handlers sample_env) cmd_bye"
proof -
  have "handle_all fnv1a (server_handlers sample_env) Map.empty =
      Inr (handler_table fnv1a (server_handlers sample_env))"
    using sample.registration by (simp add: sample_env_def)
  with server_registration [of sample_env] show ?thesis
    by (simp add: sample_env_def server_commands_def)
qed

section \<open>Answers\<close>

text \<open>The world with one system call more: the packet sent to a client.\<close>

abbreviation answered :: "client_base \<Rightarrow> string \<Rightarrow> buffer_t \<Rightarrow> app_world \<Rightarrow> app_world" where
  "answered c cmd out w \<equiv> w_log [Sys_send (cb_socket c) (create_packet cmd out)] w"

lemmas setter_simps =
  set_u64_def set_string_def set_string_from_u64_def tuple_set_def tuple_default_def
  and response_simps = tuple_type_def tuple_utf8_def get_string_def

lemma server_commands_mem [simp]:
  "cmd_hello \<in> set server_commands" "cmd_ping \<in> set server_commands" "cmd_auth \<in> set server_commands"
  "cmd_bye \<in> set server_commands" "cmd_msg \<in> set server_commands" "cmd_msg_reply \<in> set server_commands"
  by (simp_all add: server_commands_def)

lemma command_utf8_all [simp]:
  "utf8_valid cmd_hello" "utf8_valid cmd_ping_reply" "utf8_valid cmd_auth" "utf8_valid cmd_bye_reply"
  "utf8_valid cmd_msg" "utf8_valid cmd_msg_reply"
  by (simp_all add: cmd_defs)

text \<open>Every well-formed hello is answered with the request's id and the authentication
  method, and changes nothing else.\<close>

theorem hello_answered:
  assumes "server_env E" "c_string (ph_type (header_packet hdr)) = Some cmd_hello"
    and "packer_from (env_json E) client_hello_request body = Inr req"
  shows "\<exists>out. packer_from (env_json E) server_hello_response out =
      Inr [(''id'', F_u64 (get_u64 req ''id'')), (''command'', F_string cmd_hello),
           (''auth_method'', F_string ''plain-text'')] \<and>
    packet_handler (server_dispatch E) os cid hdr body c w = Some (answered c cmd_hello out w)"
proof -
  let ?resp = "[(''id'', F_u64 (get_u64 req ''id'')), (''command'', F_string cmd_hello),
      (''auth_method'', F_string ''plain-text'')]"
  have h: "client_hello_packet_handler w cid req (tuple_default server_hello_response) =
      (Returned, w, ?resp)"
    by (simp add: client_hello_packet_handler_def server_hello_response_def setter_simps)
  show ?thesis
    using server_env.reply [OF assms(1) server_commands_mem(1) server_handlers_map(1) assms(2,3) h
        _ message_keys_ok_all(7) refl, of os c]
    by (simp add: response_simps server_hello_response_def) blast
qed

text \<open>A ping is answered with the request's id and whether that id is logged in; no state
  changes.\<close>

theorem ping_answered:
  assumes "server_env E" "c_string (ph_type (header_packet hdr)) = Some cmd_ping"
    and "packer_from (env_json E) client_ping_request body = Inr req"
    and "provider_inv (w_auth w)"
  shows "\<exists>out. packer_from (env_json E) server_auth_response out =
      Inr [(''id'', F_u64 (get_u64 req ''id'')), (''command'', F_string cmd_ping_reply),
           (''status'', F_string (if registered (w_auth w) (get_u64 req ''id'') \<noteq> None
                                  then ''ok'' else ''failed'')),
           (''session'', F_string []),
           (''message'', F_string (if registered (w_auth w) (get_u64 req ''id'') \<noteq> None
                                   then [] else ''client not registred''))] \<and>
    packet_handler (server_dispatch E) os cid hdr body c w = Some (answered c cmd_ping_reply out w)"
proof -
  let ?in = "registered (w_auth w) (get_u64 req ''id'') \<noteq> None"
  let ?resp = "[(''id'', F_u64 (get_u64 req ''id'')), (''command'', F_string cmd_ping_reply),
      (''status'', F_string (if ?in then ''ok'' else ''failed'')), (''session'', F_string []),
      (''message'', F_string (if ?in then [] else ''client not registred''))]"
  have "status_client (w_auth w) (get_u64 req ''id'') (get_string req ''session'') = Auth_accepted
      \<longleftrightarrow> ?in"
    by (rule registry.status_accepted [OF assms(4)])
  then have h: "client_ping_packet_handler w cid req (tuple_default server_auth_response) =
      (Returned, w, ?resp)"
    by (simp add: client_ping_packet_handler_def server_auth_response_def setter_simps)
  show ?thesis
    using server_env.reply [OF assms(1) server_commands_mem(2) server_handlers_map(2) assms(2,3) h
        _ message_keys_ok_all(10) refl, of os c]
    by (cases ?in) (simp_all add: response_simps server_auth_response_def, blast+)
qed

text \<open>The answer to a login and the state after it.\<close>

definition login_response :: "u64 \<Rightarrow> bool \<Rightarrow> app_world \<Rightarrow> tagged_tuple" where
  "login_response n ok w =
     [(''id'', F_u64 n), (''command'', F_string cmd_auth),
      (''status'', F_string (if ok then ''ok'' else ''failed'')),
      (''session'', F_string (if ok then generate_session (w_rng w) else [])),
      (''message'', F_string (if ok then [] else ''wrong auth login or pass''))]"

definition logged_in :: "'j env \<Rightarrow> u64 \<Rightarrow> u64 \<Rightarrow> app_world \<Rightarrow> app_world" where
  "logged_in E n cid w =
     w\<lparr>w_auth := add_entry (env_order E) (w_auth w) (n, new_client (w_rng w) (w_auth w) n cid),
       w_rng := (\<lambda>i. w_rng w (i + session_length))\<rparr>"

lemma logged_in_frame [simp]:
  "w_clients (logged_in E n cid w) = w_clients w" "w_objs (logged_in E n cid w) = w_objs w"
  "w_held (logged_in E n cid w) = w_held w" "w_calls (logged_in E n cid w) = w_calls w"
  by (simp_all add: logged_in_def)

lemma login_response_utf8: "draws_ok (w_rng w) \<Longrightarrow> tuple_utf8 (login_response n ok w)"
proof -
  assume "draws_ok (w_rng w)"
  then have "utf8_valid (generate_session (w_rng w))"
    using generate_session_ok by (intro utf8_ascii) (fastforce simp: session_ok_def)
  then show ?thesis by (simp add: login_response_def tuple_utf8_def)
qed

lemma login_result:
  assumes "server_env E" "c_string (ph_type (header_packet hdr)) = Some cmd_auth"
    and "packer_from (env_json E) client_auth_request body = Inr req" "draws_ok (w_rng w)"
    and "ok \<longleftrightarrow> get_string req ''login'' = pv_login (w_auth w) \<and>
          get_string req ''password'' = pv_pass (w_auth w) \<and>
          registered (w_auth w) (get_u64 req ''id'') = None"
  shows "\<exists>out. out \<noteq> [] \<and> packer_from (env_json E) server_auth_response out =
      Inr (login_response (get_u64 req ''id'') ok w) \<and>
    packet_handler (server_dispatch E) os cid hdr body c w =
      Some (answered c cmd_auth out (if ok then logged_in E (get_u64 req ''id'') cid w else w))"
proof -
  let ?n = "get_u64 req ''id''"
  have h: "client_login_packet_handler E w cid req (tuple_default server_auth_response) =
      (Returned, if ok then logged_in E ?n cid w else w, login_response ?n ok w)"
    using assms(5)
    by (auto simp: client_login_packet_handler_def server_auth_response_def setter_simps
        add_client_cases Let_def logged_in_def login_response_def split: option.split)
  show ?thesis
    using server_env.reply [OF assms(1) server_commands_mem(3) server_handlers_map(3) assms(2,3) h
        _ message_keys_ok_all(10) refl, of os c] login_response_utf8 [OF assms(4), of ?n ok]
    by (simp add: tuple_type_def get_string_def server_auth_response_def login_response_def)
qed

text \<open>A logout removes exactly the request's id from the table, whichever connection and
  session it comes with, and is answered with \<^verbatim>\<open>ok\<close> if the id was there.\<close>

theorem logout_answered:
  assumes "server_env E" "c_string (ph_type (header_packet hdr)) = Some cmd_bye"
    and "packer_from (env_json E) client_bye_request body = Inr req"
  shows "\<exists>out p. packer_from (env_json E) server_bye_response out =
      Inr [(''id'', F_u64 (get_u64 req ''id'')), (''command'', F_string cmd_bye_reply),
           (''status'', F_string (if registered (w_auth w) (get_u64 req ''id'') \<noteq> None
                                  then ''ok'' else ''failed''))] \<and>
    packet_handler (server_dispatch E) os cid hdr body c w =
      Some (answered c cmd_bye_reply out (w\<lparr>w_auth := p\<rparr>)) \<and>
    registered p = (registered (w_auth w))(get_u64 req ''id'' := None)"
proof -
  let ?in = "registered (w_auth w) (get_u64 req ''id'') \<noteq> None"
  let ?resp = "[(''id'', F_u64 (get_u64 req ''id'')), (''command'', F_string cmd_bye_reply),
      (''status'', F_string (if ?in then ''ok'' else ''failed''))]"
  obtain st p where rem: "rem_client (w_auth w) (get_u64 req ''id'') (get_string req ''session'') = (st, p)"
    by fastforce
  have st: "st = Auth_removed \<longleftrightarrow> ?in"
    and p: "registered p = (registered (w_auth w))(get_u64 req ''id'' := None)"
    using rem by (auto simp: rem_client_def registered_def map_of_filter_keys split: option.splits)
  have h: "client_logout_packet_handler w cid req (tuple_default server_bye_response) =
      (Returned, w\<lparr>w_auth := p\<rparr>, ?resp)"
    using st by (simp add: client_logout_packet_handler_def server_bye_response_def setter_simps rem Let_def)
  show ?thesis
    using server_env.reply [OF assms(1) server_commands_mem(4) server_handlers_map(4) assms(2,3) h
        _ message_keys_ok_all(8) refl, of os c] p
    by (cases ?in) (auto simp: response_simps server_bye_response_def)
qed

section \<open>Messages to everybody\<close>

text \<open>What one accepted client is sent: nothing when its connection is no longer listed.\<close>

definition delivery :: "'j env \<Rightarrow> app_world \<Rightarrow> string \<Rightarrow> auth_client \<Rightarrow> syscall list" where
  "delivery E w body c =
     (case (map_of (w_clients w) (ac_cookie c), packer_to (env_json E) (broadcast_request body c)) of
        (Some ref, Inr buff) \<Rightarrow>
          (case w_objs w ref of
             Some obj \<Rightarrow> [Sys_send (cb_socket obj) (create_packet cmd_msg buff)]
           | None \<Rightarrow> [])
      | _ \<Rightarrow> [])"

lemma broadcast_request_members:
  "broadcast_request body c =
    [(''id'', F_u64 (ac_id c)), (''command'', F_string cmd_msg), (''body'', F_string body),
     (''sender_login'', F_string (ac_login c)), (''session'', F_string (ac_session c))]"
  by (simp add: broadcast_request_def server_msg_request_def setter_simps)

lemma broadcast_request_type: "tuple_type (broadcast_request body c) = server_msg_request"
  by (simp add: broadcast_request_members server_msg_request_def tuple_type_def)

lemma delivery_log [simp]: "delivery E (w_log cs w) body c = delivery E w body c"
  by (simp add: delivery_def split: option.split sum.split)

lemma send_to_delivery:
  "packer_to (env_json E) (broadcast_request body c) = Inr buff \<Longrightarrow> buff \<noteq> [] \<Longrightarrow>
    snd (send_to os (ac_cookie c) cmd_msg buff w) = w_log (delivery E w body c) w"
  by (simp add: send_to_def delivery_def client_send_sent split: option.split)

lemma broadcast_deliveries:
  "\<forall>c \<in> set cs. \<exists>buff. packer_to (env_json E) (broadcast_request body c) = Inr buff \<and> buff \<noteq> [] \<Longrightarrow>
    broadcast E body cs w = (Returned, w_log (concat (map (delivery E w body) cs)) w)"
proof (induction cs arbitrary: w)
  case (Cons c cs)
  obtain buff where b: "packer_to (env_json E) (broadcast_request body c) = Inr buff" "buff \<noteq> []"
    using Cons.prems by auto
  have "delivery E (w_log (delivery E w body c) w) body = delivery E w body" by (rule ext) simp
  then show ?case
    using Cons b send_to_delivery [OF b, of "env_send E" w]
    by (simp add: split_beta)
qed simp

text \<open>The invariant of the server's state: the provider's, random letters to come, and a login
  that is UTF-8 as soon as somebody used it.\<close>

definition app_inv :: "app_world \<Rightarrow> bool" where
  "app_inv w \<longleftrightarrow> provider_inv (w_auth w) \<and> draws_ok (w_rng w) \<and>
     (pv_clients (w_auth w) \<noteq> [] \<longrightarrow> utf8_valid (pv_login (w_auth w)))"

lemma registered_logged_in:
  "permutes (env_order E) \<Longrightarrow> app_inv w \<Longrightarrow> registered (w_auth w) n = None \<Longrightarrow>
    registered (w_auth (logged_in E n cid w)) =
      (registered (w_auth w))(n \<mapsto> new_client (w_rng w) (w_auth w) n cid)"
  by (simp add: logged_in_def app_inv_def registered_add_entry)


lemma app_inv_client_utf8:
  assumes "app_inv w" "c \<in> set (get_clients (w_auth w) Auth_accepted)"
  shows "utf8_valid (ac_login c) \<and> utf8_valid (ac_session c)"
proof -
  obtain k where k: "(k, c) \<in> set (pv_clients (w_auth w))"
    using assms by (auto simp: get_clients_def)
  then have "entry_ok (w_auth w) (k, c)" "pv_clients (w_auth w) \<noteq> []"
    using assms(1) by (auto simp: app_inv_def provider_inv_def)
  then show ?thesis
    using assms(1) by (auto simp: app_inv_def entry_ok_def session_ok_def intro!: utf8_ascii)
qed

lemma broadcast_packs:
  assumes "server_env E" "app_inv w" "utf8_valid body" "c \<in> set (get_clients (w_auth w) Auth_accepted)"
  shows "\<exists>buff. packer_to (env_json E) (broadcast_request body c) = Inr buff \<and> buff \<noteq> [] \<and>
    packer_from (env_json E) server_msg_request buff = Inr (broadcast_request body c)"
proof -
  have "tuple_utf8 (broadcast_request body c)"
    using app_inv_client_utf8 [OF assms(2,4)] assms(3)
    by (simp add: broadcast_request_members tuple_utf8_def)
  then show ?thesis
    using packer_encodes [OF server_env.json [OF assms(1)], of "broadcast_request body c"]
    by (simp add: broadcast_request_type)
qed

lemma low_byte_utf8: "utf8_valid [char_of (unat (n :: u64))] \<longleftrightarrow> unat n mod 256 < 128"
  by (simp only: utf8_single) simp

lemma message_result:
  assumes env: "server_env E" and hdr: "c_string (ph_type (header_packet hdr)) = Some cmd_msg"
    and req: "packer_from (env_json E) client_msg_request body = Inr req"
    and inv: "app_inv w"
    and n: "n = get_u64 req ''id''" and known: "ok \<longleftrightarrow> registered (w_auth w) n \<noteq> None"
    and sent: "sent = (if ok then concat (map (delivery E w (get_string req ''body''))
                         (get_clients (w_auth w) Auth_accepted)) else [])"
  shows "if unat n mod 256 < 128 then
      (\<exists>out. out \<noteq> [] \<and> packer_from (env_json E) server_msg_response out =
         Inr [(''id'', F_u64 n), (''command'', F_string cmd_msg_reply),
              (''status'', F_string (if ok then ''ok'' else ''failed'')),
              (''client_id'', F_string [char_of (unat n)]),
              (''message'', F_string (if ok then [] else ''client not registered''))] \<and>
       packet_handler (server_dispatch E) os cid hdr body c w =
         Some (answered c cmd_msg_reply out (w_log sent w)))
    else packet_handler (server_dispatch E) os cid hdr body c w = Some (w_log sent w)"
proof -
  let ?resp = "[(''id'', F_u64 n), (''command'', F_string cmd_msg_reply),
      (''status'', F_string (if ok then ''ok'' else ''failed'')),
      (''client_id'', F_string [char_of (unat n)]),
      (''message'', F_string (if ok then [] else ''client not registered''))]"
  have auth: "status_client (w_auth w) n s = Auth_accepted \<longleftrightarrow> ok" for s
    using inv known by (simp add: registry.status_accepted app_inv_def)
  have body: "utf8_valid (get_string req ''body'')"
    using server_env.request_utf8 [OF env req] .
  have bc: "broadcast E (get_string req ''body'') (get_clients (w_auth w) Auth_accepted) w =
      (Returned, w_log (concat (map (delivery E w (get_string req ''body''))
         (get_clients (w_auth w) Auth_accepted))) w)"
    using broadcast_packs [OF env inv body] by (intro broadcast_deliveries) blast
  have h: "client_message_packet_handler E w cid req (tuple_default server_msg_response) =
      (Returned, w_log sent w, ?resp)"
    using auth by (simp add: client_message_packet_handler_def bc sent n setter_simps
        server_msg_response_def Let_def)
  have utf8: "tuple_utf8 ?resp \<longleftrightarrow> unat n mod 256 < 128"
    using low_byte_utf8 [of n] by (simp add: tuple_utf8_def)
  have ty: "tuple_type ?resp = server_msg_response"
    by (simp add: tuple_type_def server_msg_response_def)
  have cmd: "get_string ?resp ''command'' = cmd_msg_reply"
    by (simp add: get_string_def)
  show ?thesis
    using server_env.reply [OF env server_commands_mem(5) server_handlers_map(5) hdr req h ty
        message_keys_ok_all(12) cmd command_sizes(4), of os c]
    unfolding utf8 .
qed


text \<open>The reply to a message is lost for half of all ids.  The reply's \<^verbatim>\<open>client_id\<close> is
  assigned the number itself, which makes it one character with the id's low byte; from 128
  on that is not UTF-8, packing the reply throws, and the client gets no answer, although
  the message was passed on.\<close>

theorem message_reply_lost:
  assumes "server_env E" "c_string (ph_type (header_packet hdr)) = Some cmd_msg"
    and "packer_from (env_json E) client_msg_request body = Inr req" "app_inv w"
    and "ok \<longleftrightarrow> registered (w_auth w) (get_u64 req ''id'') \<noteq> None"
    and "128 \<le> unat (get_u64 req ''id'') mod 256"
  shows "packet_handler (server_dispatch E) os cid hdr body c w =
      Some (w_log (if ok then concat (map (delivery E w (get_string req ''body''))
                                (get_clients (w_auth w) Auth_accepted)) else []) w)"
  using message_result [OF assms(1-4) refl assms(5) refl, of os cid c] assms(6) by simp

text \<open>What an accepted client is sent names the client's own login and its own session as
  the sender's: whoever wrote the message, the packet is the same.\<close>

theorem delivered_message_names_recipient:
  assumes "server_env E" "app_inv w" "utf8_valid body"
    and "c \<in> set (get_clients (w_auth w) Auth_accepted)"
    and "map_of (w_clients w) (ac_cookie c) = Some ref" "w_objs w ref = Some obj"
  shows "\<exists>buff. delivery E w body c = [Sys_send (cb_socket obj) (create_packet cmd_msg buff)] \<and>
    packer_from (env_json E) server_msg_request buff =
      Inr [(''id'', F_u64 (ac_id c)), (''command'', F_string cmd_msg), (''body'', F_string body),
           (''sender_login'', F_string (ac_login c)), (''session'', F_string (ac_session c))]"
  using broadcast_packs [OF assms(1-4)] assms(5,6)
  by (auto simp: delivery_def broadcast_request_members)

end
