(* ===== verification/Server_Safety.thy ===== *)
theory Server_Safety
  imports Server_Props
begin

text \<open>
  What no sequence of packets can do to the server, whatever the commands and the bodies
  are: the invariant of its state survives every packet, and handlers touch neither the list
  of clients nor the client objects.
\<close>

section \<open>A relation every dispatch of the server respects\<close>

text \<open>The six handlers are enough.\<close>

lemma server_dispatch_rel:
  assumes refl: "\<And>s. R s s"
    and hello: "\<And>s ck req resp. R s (fst (snd (client_hello_packet_handler s ck req resp)))"
    and ping: "\<And>s ck req resp. R s (fst (snd (client_ping_packet_handler s ck req resp)))"
    and login: "\<And>s ck inp req resp. packer_from (env_json E) client_auth_request inp = Inr req \<Longrightarrow>
      R s (fst (snd (client_login_packet_handler E s ck req resp)))"
    and logout: "\<And>s ck req resp. R s (fst (snd (client_logout_packet_handler s ck req resp)))"
    and msg: "\<And>s ck req resp. R s (fst (snd (client_message_packet_handler E s ck req resp)))"
  shows "R s (fst (snd (server_dispatch E s cmd ck inp out)))"
  unfolding server_dispatch_def
proof (rule dispatch_rel [where R = R, OF refl])
  fix w assume "w \<in> ran (handler_table (env_hash E) (server_handlers E))"
  then have "w \<in> snd ` set (server_handlers E)"
    by (auto simp: handler_table_def ran_def dest!: map_of_SomeD)
  moreover have "wrapper_rel R (wrapper2 (env_json E) client_msg_response client_message_reply_packet_handler)"
    by (rule wrapper2_rel [OF refl]) (simp add: client_message_reply_packet_handler_def refl)
  ultimately show "wrapper_rel R w"
    using wrapper3_rel [where R = R, OF refl hello] wrapper3_rel [where R = R, OF refl ping]
      wrapper3_rel [where R = R, OF refl login] wrapper3_rel [where R = R, OF refl logout]
      wrapper3_rel [where R = R, OF refl msg]
    by (auto simp: server_handlers_def Let_def)
qed

section \<open>Handlers only send\<close>

lemma broadcast_sends_only: "sends_only w (snd (broadcast E body cs w))"
proof (induction cs arbitrary: w)
  case (Cons c cs)
  have "sends_only w (snd (send_to (env_send E) ck cmd buff w))" for ck cmd buff
    by (rule send_to_sends_only)
  then show ?case
    using Cons.IH sends_only_trans
    by (auto simp: split_beta split: sum.split) blast
qed simp

lemma sends_only_frame [simp]:
  "sends_only w (w\<lparr>w_auth := p\<rparr>)" "sends_only w (w\<lparr>w_auth := p, w_rng := g\<rparr>)"
  by (simp_all add: sends_only_def)

lemma server_sends_only: "disp_sends_only (server_dispatch E)"
  unfolding disp_sends_only_def
proof (intro allI)
  fix w cmd ck inp out
  show "sends_only w (fst (snd (server_dispatch E w cmd ck inp out)))"
  proof (rule server_dispatch_rel [where R = sends_only])
    show "sends_only s (fst (snd (client_message_packet_handler E s ck req resp)))" for s ck req resp
      using broadcast_sends_only [of s E "get_string req ''body''" "get_clients (w_auth s) Auth_accepted"]
      by (auto simp: client_message_packet_handler_def Let_def split: prod.split)
  qed (simp_all add: client_hello_packet_handler_def client_ping_packet_handler_def
      client_login_packet_handler_def client_logout_packet_handler_def Let_def split: prod.split)
qed

section \<open>The invariant\<close>

lemma app_inv_frame: "app_inv (w_log cs w) = app_inv w"
  by (simp add: app_inv_def w_log_def)

lemma sends_only_auth:
  "w_auth (snd (broadcast E body cs w)) = w_auth w \<and> w_rng (snd (broadcast E body cs w)) = w_rng w"
proof (induction cs arbitrary: w)
  case (Cons c cs)
  have "w_auth (snd (send_to os ck cmd buff v)) = w_auth v \<and> w_rng (snd (send_to os ck cmd buff v)) = w_rng v"
    for os ck cmd buff and v :: app_world
    by (simp add: send_to_def w_log_def split: option.split prod.split)
  with Cons show ?case by (simp add: split_beta split: sum.split)
qed simp

lemma app_inv_login:
  assumes "permutes (env_order E)" "utf8_valid (get_string req ''login'')" "app_inv w"
  shows "app_inv (fst (snd (client_login_packet_handler E w ck req resp)))"
proof -
  let ?id = "get_u64 req ''id''"
  have "app_inv (w\<lparr>w_auth := add_entry (env_order E) (w_auth w) (?id, new_client (w_rng w) (w_auth w) ?id ck),
        w_rng := (\<lambda>i. w_rng w (i + session_length))\<rparr>)"
    if "get_string req ''login'' = pv_login (w_auth w)" "registered (w_auth w) ?id = None"
    using that assms provider_inv_add_entry [OF assms(1) _ that(2) entry_ok_new_client]
    by (auto simp: app_inv_def draws_ok_def add_entry_def)
  then show ?thesis
    using assms(3)
    by (auto simp: client_login_packet_handler_def Let_def add_client_cases split: option.split)
qed

lemma app_inv_logout:
  assumes "app_inv w"
  shows "app_inv (fst (snd (client_logout_packet_handler w ck req resp)))"
proof -
  obtain st p where r: "rem_client (w_auth w) (get_u64 req ''id'') (get_string req ''session'') = (st, p)"
    by fastforce
  have "provider_inv p" "pv_login p = pv_login (w_auth w)"
    "pv_clients p \<noteq> [] \<Longrightarrow> pv_clients (w_auth w) \<noteq> []"
    using assms provider_inv_rem [OF _ r] config_unchanged(2) [OF r] r
    by (auto simp: app_inv_def rem_client_def split: option.splits)
  then show ?thesis
    using assms r by (auto simp: app_inv_def client_logout_packet_handler_def Let_def)
qed

lemma server_dispatch_inv:
  assumes "server_env E" "app_inv w"
  shows "app_inv (fst (snd (server_dispatch E w cmd ck inp out)))"
proof -
  have "app_inv w \<longrightarrow> app_inv (fst (snd (server_dispatch E w cmd ck inp out)))"
  proof (rule server_dispatch_rel [where R = "\<lambda>w w'. app_inv w \<longrightarrow> app_inv w'"])
    show "app_inv s \<longrightarrow> app_inv (fst (snd (client_login_packet_handler E s ck req resp)))"
      if "packer_from (env_json E) client_auth_request inp = Inr req" for s ck inp req resp
      using app_inv_login [OF server_env.order [OF assms(1)]]
        server_env.request_utf8 [OF assms(1) that] by blast
    show "app_inv s \<longrightarrow> app_inv (fst (snd (client_logout_packet_handler s ck req resp)))"
      for s ck req resp using app_inv_logout by blast
    show "app_inv s \<longrightarrow> app_inv (fst (snd (client_message_packet_handler E s ck req resp)))"
      for s ck req resp
      using sends_only_auth [of E "get_string req ''body''" "get_clients (w_auth s) Auth_accepted" s]
      by (auto simp: client_message_packet_handler_def Let_def app_inv_def split: prod.split)
  qed (simp_all add: client_hello_packet_handler_def client_ping_packet_handler_def Let_def)
  with assms(2) show ?thesis by blast
qed

lemma packet_inv:
  assumes "server_env E" "app_inv w"
    and "packet_handler (server_dispatch E) os cid hdr body c w = Some w'"
  shows "app_inv w'"
  using assms(3) server_dispatch_inv [OF assms(1,2)]
  by (auto simp: packet_handler_def app_inv_frame split: option.splits prod.splits)
    (metis fst_conv snd_conv)

section \<open>A whole connection\<close>

lemma ch_recv_auth:
  assumes "ch_recv rcv ref junk conn w = (ok, hdr, data, conn', w')"
  shows "w_auth w' = w_auth w \<and> w_rng w' = w_rng w"
  using assms by (auto simp: ch_recv_def w_log_def split: option.splits prod.splits)

lemma w_release_auth: "w_auth (w_release r w) = w_auth w \<and> w_rng (w_release r w) = w_rng w"
  by (auto simp: w_release_def w_log_def split: option.split)

lemma ch_end_auth:
  "w_auth (ch_return ref w) = w_auth w" "w_rng (ch_return ref w) = w_rng w"
  "w_auth (ch_erase cid w) = w_auth w" "w_rng (ch_erase cid w) = w_rng w"
  by (simp_all add: ch_return_def ch_erase_def w_release_auth split: option.split)

lemma app_inv_auth: "w_auth w' = w_auth w \<Longrightarrow> w_rng w' = w_rng w \<Longrightarrow> app_inv w' = app_inv w"
  by (simp add: app_inv_def)

lemma ch_loop_inv:
  assumes "server_env E"
  shows "app_inv w \<Longrightarrow> ch_loop n up junk rcv (server_dispatch E) os cid ref conn w = Ch_done w' \<Longrightarrow>
    app_inv w'"
proof (induction n arbitrary: conn w)
  case (Suc n)
  obtain ok hdr data conn' v where r: "ch_recv rcv ref (junk n) conn w = (ok, hdr, data, conn', v)"
    by (metis prod_cases5)
  have v: "app_inv v"
    using ch_recv_auth [OF r] Suc.prems(1) by (simp add: app_inv_def)
  show ?case
  proof (cases "up n \<and> ok")
    case True
    then obtain c u where "packet_handler (server_dispatch E) os cid hdr data c v = Some u"
      and l: "ch_loop n up junk rcv (server_dispatch E) os cid ref conn' u = Ch_done w'"
      using Suc.prems(2) r by (auto split: option.splits)
    then have "app_inv u" using packet_inv [OF assms v] by blast
    then show ?thesis using l by (rule Suc.IH)
  next
    case False
    then have "w' = ch_return ref (ch_erase cid v) \<or> w' = ch_return ref w"
      using Suc.prems(2) r by (auto split: if_splits)
    then show ?thesis
      using v Suc.prems(1) by (auto simp: app_inv_def ch_end_auth)
  qed
qed simp

section \<open>The table of sessions, abstractly\<close>

text \<open>
  What a packet does to the table of logged-in ids, as a function of the table alone: a
  login with the right credentials adds an id that is not there, a logout takes one away,
  everything else leaves the table as it is.
\<close>

definition table_step ::
  "'j env \<Rightarrow> provider \<Rightarrow> (nat \<Rightarrow> int) \<Rightarrow> u64 \<Rightarrow> string \<Rightarrow> buffer_t \<Rightarrow>
   (u64 \<rightharpoonup> auth_client) \<Rightarrow> (u64 \<rightharpoonup> auth_client)" where
  "table_step E p draws cookie cmd body tbl =
     (if cmd = cmd_auth then
        (case packer_from (env_json E) client_auth_request body of
           Inl e \<Rightarrow> tbl
         | Inr req \<Rightarrow>
             if get_string req ''login'' = pv_login p \<and> get_string req ''password'' = pv_pass p \<and>
                tbl (get_u64 req ''id'') = None
             then tbl(get_u64 req ''id'' \<mapsto> new_client draws p (get_u64 req ''id'') cookie)
             else tbl)
      else if cmd = cmd_bye then
        (case packer_from (env_json E) client_bye_request body of
           Inl e \<Rightarrow> tbl
         | Inr req \<Rightarrow> tbl(get_u64 req ''id'' := None))
      else tbl)"

lemma login_table:
  assumes "permutes (env_order E)" "provider_inv (w_auth w)"
  shows "registered (w_auth (fst (snd (client_login_packet_handler E w ck req resp)))) =
    (if get_string req ''login'' = pv_login (w_auth w) \<and> get_string req ''password'' = pv_pass (w_auth w) \<and>
        registered (w_auth w) (get_u64 req ''id'') = None
     then (registered (w_auth w))(get_u64 req ''id'' \<mapsto>
            new_client (w_rng w) (w_auth w) (get_u64 req ''id'') ck)
     else registered (w_auth w))"
  using registered_add_entry [OF assms]
  by (auto simp: client_login_packet_handler_def Let_def add_client_cases split: option.split)

lemma logout_table:
  "registered (w_auth (fst (snd (client_logout_packet_handler w ck req resp)))) =
    (registered (w_auth w))(get_u64 req ''id'' := None)"
  by (auto simp: client_logout_packet_handler_def Let_def rem_client_def registered_def
      map_of_filter_keys split: option.split)

lemma message_table:
  "w_auth (fst (snd (client_message_packet_handler E w ck req resp))) = w_auth w"
  using sends_only_auth [of E "get_string req ''body''" "get_clients (w_auth w) Auth_accepted" w]
  by (auto simp: client_message_packet_handler_def Let_def split: prod.split)

lemma command_neq:
  "cmd_hello \<noteq> cmd_auth" "cmd_hello \<noteq> cmd_bye" "cmd_ping \<noteq> cmd_auth" "cmd_ping \<noteq> cmd_bye"
  "cmd_auth \<noteq> cmd_bye" "cmd_bye \<noteq> cmd_auth" "cmd_msg \<noteq> cmd_auth" "cmd_msg \<noteq> cmd_bye"
  "cmd_msg_reply \<noteq> cmd_auth" "cmd_msg_reply \<noteq> cmd_bye"
  by (simp_all add: cmd_defs)

lemma dispatch_table:
  assumes "server_env E" "provider_inv (w_auth w)"
    and "inj_on (env_hash E) (insert cmd (set server_commands))"
  shows "registered (w_auth (fst (snd (server_dispatch E w cmd ck inp out)))) =
    table_step E (w_auth w) (w_rng w) ck cmd inp (registered (w_auth w))"
proof -
  have keys: "fst ` set (server_handlers E) = set server_commands"
    by (metis server_handlers_keys list.set_map)
  have look: "handler_table (env_hash E) (server_handlers E) (env_hash E cmd) = map_of (server_handlers E) cmd"
    using assms(3) by (intro handler_table_lookup) (simp add: keys)
  show ?thesis
  proof (cases "cmd \<in> set server_commands")
    case False
    then have "map_of (server_handlers E) cmd = None"
      using keys by (metis map_of_eq_None_iff)
    with False look show ?thesis
      by (auto simp: server_dispatch_def dispatch_state table_step_def)
  next
    case True
    then consider "cmd = cmd_hello" | "cmd = cmd_ping" | "cmd = cmd_auth" | "cmd = cmd_bye"
      | "cmd = cmd_msg" | "cmd = cmd_msg_reply"
      by (auto simp: server_commands_def)
    then show ?thesis
    proof cases
      case 1
      then show ?thesis
        using look server_handlers_map(1) [of E]
        by (simp add: server_dispatch_def dispatch_state wrapper3_state table_step_def command_neq
            client_hello_packet_handler_def Let_def split: sum.split)
    next
      case 2
      then show ?thesis
        using look server_handlers_map(2) [of E]
        by (simp add: server_dispatch_def dispatch_state wrapper3_state table_step_def command_neq
            client_ping_packet_handler_def Let_def split: sum.split)
    next
      case 3
      then show ?thesis
        using look server_handlers_map(3) [of E]
        by (simp add: server_dispatch_def dispatch_state wrapper3_state table_step_def command_neq
            login_table [OF server_env.order [OF assms(1)] assms(2)] split: sum.split)
    next
      case 4
      then show ?thesis
        using look server_handlers_map(4) [of E]
        by (simp add: server_dispatch_def dispatch_state wrapper3_state table_step_def command_neq
            logout_table split: sum.split)
    next
      case 5
      then show ?thesis
        using look server_handlers_map(5) [of E]
        by (simp add: server_dispatch_def dispatch_state wrapper3_state table_step_def command_neq
            message_table split: sum.split)
    next
      case 6
      then show ?thesis
        using look server_handlers_map(6) [of E]
        by (simp add: server_dispatch_def dispatch_state wrapper2_state table_step_def command_neq
            client_message_reply_packet_handler_def split: sum.split)
    qed
  qed
qed

section \<open>Properties\<close>


text \<open>The packets of all connections, one after the other: the thread of a connection holds
  no lock while it handles a packet, but the handlers' effects on the provider are atomic.\<close>

record arrival =
  ar_cookie :: u64
  ar_header :: buffer_t
  ar_body :: buffer_t
  ar_client :: client_base

primrec serve :: "'j env \<Rightarrow> arrival list \<Rightarrow> app_world \<Rightarrow> app_world option" where
  "serve E [] w = Some w"
| "serve E (a # as) w =
     (case packet_handler (server_dispatch E) (env_send E) (ar_cookie a) (ar_header a) (ar_body a)
             (ar_client a) w of
        None \<Rightarrow> None
      | Some w \<Rightarrow> serve E as w)"

lemma serve_inv: "server_env E \<Longrightarrow> app_inv w \<Longrightarrow> serve E as w = Some w' \<Longrightarrow> app_inv w'"
  by (induction as arbitrary: w) (auto split: option.splits dest: packet_inv)

lemma app_main_inv: "app_main E port r uninit rng config = Inr a \<Longrightarrow> draws_ok rng \<Longrightarrow> app_inv (app_world0 a)"
  by (auto simp: app_main_def app_inv_def provider_inv_start Let_def
      split: sum.splits prod.splits option.splits)

text \<open>C8: from the start of the server on, after any packets of any connections, the table
  satisfies its invariant: every id is stored once, is accepted, and carries the
  configured login (which is UTF-8 once anybody is logged in) and a session of 32 letters.
  And the server's answer to the next message packs for every recipient.\<close>

theorem server_runs_inv:
  assumes "server_env E" "draws_ok rng"
    and "app_main E port r uninit rng config = Inr a"
    and "serve E as (app_world0 a) = Some w"
  shows "app_inv w \<and>
    (\<forall>c \<in> set (get_clients (w_auth w) Auth_accepted). \<forall>text. utf8_valid text \<longrightarrow>
       (\<exists>buff. packer_to (env_json E) (broadcast_request text c) = Inr buff))"
proof -
  have inv: "app_inv w"
    using app_main_inv [OF assms(3,2)] serve_inv [OF assms(1) _ assms(4)] by blast
  show ?thesis
    using inv broadcast_packs [OF assms(1) inv] by blast
qed


section \<open>Start\<close>

lemma app_main_starts:
  "server_env E \<Longrightarrow>
    (case app_main E port r uninit rng config of
       Inl e \<Rightarrow> port (cfg_srv_addrr config) = None \<and> e = Address_error (cfg_srv_addrr config)
     | Inr a \<Rightarrow> port (cfg_srv_addrr config) \<noteq> None)"
  by (simp add: app_main_def server_env.registration split: option.split prod.split)

lemma app_startup_simps:
  "cfg_data_folder (fst (app_startup dl conf)) = get_property conf ''application.dataDir'' []"
  "cfg_srv_addrr (fst (app_startup dl conf)) = get_property conf ''server_addrr'' ''localhost:10052''"
  "snd (app_startup dl conf) = None \<longleftrightarrow> get_property conf ''logger_sink'' ''console'' \<notin> {''console'', ''file''}"
  by (simp_all add: app_startup_def Let_def create_logger_def)

text \<open>How the server application ends.  It runs until it is told to stop exactly when its
  data folder can be made, the configured sink is one of the two known and the address can be
  resolved.  A failure of one of the first two is not reported: the code that should log it
  uses a logger that is not there.  A bad address ends the process.\<close>

theorem app_run_outcome:
  assumes "server_env E"
  shows "(app_run E port r uninit rng dirs_throw dl conf = App_null_logger \<longleftrightarrow>
      dirs_throw (get_property conf ''application.dataDir'' []) \<or>
      get_property conf ''logger_sink'' ''console'' \<notin> {''console'', ''file''}) \<and>
    (app_run E port r uninit rng dirs_throw dl conf \<noteq> App_null_logger \<longrightarrow>
      (case port (get_property conf ''server_addrr'' ''localhost:10052'') of
         None \<Rightarrow> app_run E port r uninit rng dirs_throw dl conf =
           App_terminate (Address_error (get_property conf ''server_addrr'' ''localhost:10052''))
       | Some p \<Rightarrow> \<exists>a. app_run E port r uninit rng dirs_throw dl conf = App_exit_ok a))"
proof -
  obtain config lg where c: "app_startup dl conf = (config, lg)" by fastforce
  show ?thesis
    using app_main_starts [OF assms, where port = port and r = r and uninit = uninit and rng = rng
        and config = config] app_startup_simps [of dl conf]
    by (cases lg) (auto simp: app_run_def c split: sum.splits option.splits)
qed

theorem app_run_outcome_witness:
  "app_run sample_env (\<lambda>s. None) \<lparr>sr_socket = 3, sr_setsockopt = 0, sr_bind = 0, sr_listen = 0\<rparr> 0 (\<lambda>i. 97)
     (\<lambda>d. False) \<lparr>lg_name = [], lg_sink = Sink_default, lg_level = Level_info, lg_flush_on = None, lg_pattern = []\<rparr>
     Map.empty = App_terminate (Address_error ''localhost:10052'')"
  using app_run_outcome [OF sample.server_env_axioms, of "\<lambda>s. None"
      "\<lparr>sr_socket = 3, sr_setsockopt = 0, sr_bind = 0, sr_listen = 0\<rparr>" 0 "\<lambda>i. 97" "\<lambda>d. False" _ Map.empty]
  by (simp add: get_property_def)

end
