(* ===== verification/Server_Samples.thy ===== *)
theory Server_Samples
  imports Server_Safety
begin

text \<open>
  A concrete server, the environment \<open>sample_env\<close> with one logged-in client, and the
  theorems about the server applied to it.
\<close>

section \<open>A server with one client\<close>

definition sample_header :: "string \<Rightarrow> buffer_t" where
  "sample_header cmd = take sizeof_header (create_packet cmd ''x'')"

definition sample_obj :: client_base where
  "sample_obj = server_client 5 \<lparr>sin_addr = 0, sin_port = 0\<rparr>"

definition sample_start :: app_world where
  "sample_start =
     \<lparr>w_clients = [(5, 0)], w_objs = [0 \<mapsto> sample_obj], w_held = {0}, w_calls = [],
      w_auth = auth_provider ''login'' ''pass'', w_rng = (\<lambda>i. 97)\<rparr>"

definition sample_client :: auth_client where
  "sample_client = new_client (\<lambda>i. 97) (w_auth sample_start) 200 5"

definition sample_world :: app_world where
  "sample_world = sample_start\<lparr>w_auth := add_entry rev (w_auth sample_start) (200, sample_client)\<rparr>"

lemma sample_header [simp]:
  "cmd \<in> set server_commands \<Longrightarrow> c_string (ph_type (header_packet (sample_header cmd))) = Some cmd"
  unfolding sample_header_def
  by (rule header_command) (auto simp: server_commands_def cmd_defs packet_sizes)

lemma sample_body:
  "tuple_utf8 t \<Longrightarrow> message_keys_ok (tuple_type t) \<Longrightarrow>
    packer_from (env_json sample_env) (tuple_type t) (sample_body t) = Inr t"
  by (simp add: sample_env_def sample_body_parses)

lemma sample_inv: "app_inv sample_start" "app_inv sample_world"
proof -
  show start: "app_inv sample_start"
    by (simp add: app_inv_def sample_start_def provider_inv_start draws_ok_def)
  have "provider_inv (add_entry rev (w_auth sample_start) (200, sample_client))"
    using start unfolding sample_client_def
    by (intro provider_inv_add_entry entry_ok_new_client)
      (simp_all add: permutes_def app_inv_def draws_ok_def sample_start_def)
  then show "app_inv sample_world"
    by (simp add: app_inv_def sample_world_def sample_start_def draws_ok_def add_entry_def)
qed

lemma sample_registered:
  "registered (w_auth sample_start) = Map.empty"
  "registered (w_auth sample_world) = [200 \<mapsto> sample_client]"
  by (simp_all add: sample_world_def sample_start_def add_entry_def)
    (simp add: registered_def)

lemma sample_accepted: "get_clients (w_auth sample_world) Auth_accepted = [sample_client]"
  by (simp add: sample_world_def sample_start_def add_entry_def get_clients_def sample_client_def
      new_client_def)

definition sample_request :: "u64 \<Rightarrow> members \<Rightarrow> tagged_tuple" where
  "sample_request n ms = set_u64 ''id'' n (tuple_default ms)"

lemma sample_requests:
  "packer_from (env_json sample_env) client_hello_request (sample_body (sample_request n client_hello_request))
    = Inr (sample_request n client_hello_request)"
  "packer_from (env_json sample_env) client_ping_request (sample_body (sample_request n client_ping_request))
    = Inr (sample_request n client_ping_request)"
  "packer_from (env_json sample_env) client_bye_request (sample_body (sample_request n client_bye_request))
    = Inr (sample_request n client_bye_request)"
  "packer_from (env_json sample_env) client_msg_request (sample_body (sample_request n client_msg_request))
    = Inr (sample_request n client_msg_request)"
  using sample_body [of "sample_request n client_hello_request"]
    sample_body [of "sample_request n client_ping_request"]
    sample_body [of "sample_request n client_bye_request"]
    sample_body [of "sample_request n client_msg_request"]
  by (simp_all add: sample_request_def setter_simps response_simps message_defs
      message_keys_ok_def ascii_def)

lemma sample_request_id [simp]: "get_u64 (sample_request n ms) ''id'' = n" if "ms \<in> set all_messages"
  using that by (auto simp: sample_request_def setter_simps get_u64_def all_messages_def message_defs)

lemma packet_handler_Some:
  "c_string (ph_type (header_packet hdr)) = Some cmd \<Longrightarrow>
    \<exists>w'. packet_handler disp os cid hdr body c w = Some w'"
  by (simp add: packet_handler_def split_beta)

section \<open>The theorems on the sample\<close>

theorem hello_answered_witness:
  "\<exists>out. packer_from (env_json sample_env) server_hello_response out =
      Inr [(''id'', F_u64 7), (''command'', F_string cmd_hello), (''auth_method'', F_string ''plain-text'')] \<and>
    packet_handler (server_dispatch sample_env) (\<lambda>s b. 0) 5 (sample_header cmd_hello)
      (sample_body (sample_request 7 client_hello_request)) sample_obj sample_start =
      Some (answered sample_obj cmd_hello out sample_start)"
  using hello_answered [OF sample.server_env_axioms sample_header sample_requests(1), of 7]
  by (simp add: all_messages_def)

theorem ping_answered_witness:
  "\<exists>out. packer_from (env_json sample_env) server_auth_response out =
      Inr [(''id'', F_u64 200), (''command'', F_string cmd_ping_reply), (''status'', F_string ''ok''),
           (''session'', F_string []), (''message'', F_string [])] \<and>
    packet_handler (server_dispatch sample_env) (\<lambda>s b. 0) 5 (sample_header cmd_ping)
      (sample_body (sample_request 200 client_ping_request)) sample_obj sample_world =
      Some (answered sample_obj cmd_ping_reply out sample_world)"
  using ping_answered [OF sample.server_env_axioms sample_header sample_requests(2), of sample_world 200]
    sample_inv(2)
  by (simp add: all_messages_def sample_registered app_inv_def)

definition sample_login :: "string \<Rightarrow> tagged_tuple" where
  "sample_login pass = set_string ''login'' ''login''
     (set_string ''password'' pass (sample_request 9 client_auth_request))"

lemma sample_login:
  "utf8_valid pass \<Longrightarrow> packer_from (env_json sample_env) client_auth_request (sample_body (sample_login pass))
    = Inr (sample_login pass)"
  using sample_body [of "sample_login pass"]
  by (simp add: sample_login_def sample_request_def setter_simps response_simps message_defs
      message_keys_ok_def ascii_def)

lemma sample_login_fields:
  "get_u64 (sample_login pass) ''id'' = 9" "get_string (sample_login pass) ''login'' = ''login''"
  "get_string (sample_login pass) ''password'' = pass"
  by (simp_all add: sample_login_def sample_request_def setter_simps response_simps message_defs
      get_u64_def)


theorem logout_answered_witness:
  "\<exists>out p. packet_handler (server_dispatch sample_env) (\<lambda>s b. 0) 6 (sample_header cmd_bye)
      (sample_body (sample_request 200 client_bye_request)) sample_obj sample_world =
        Some (answered sample_obj cmd_bye_reply out (sample_world\<lparr>w_auth := p\<rparr>)) \<and>
    registered p = Map.empty"
  using logout_answered [OF sample.server_env_axioms sample_header sample_requests(3), of 200
      sample_world "\<lambda>s b. 0" 6 sample_obj]
  by (auto simp: all_messages_def sample_registered)


theorem message_reply_lost_witness:
  "packet_handler (server_dispatch sample_env) (\<lambda>s b. 0) 5 (sample_header cmd_msg)
      (sample_body (sample_request 200 client_msg_request)) sample_obj sample_world =
    Some (w_log (delivery sample_env sample_world [] sample_client) sample_world)"
proof -
  have "get_string (sample_request 200 client_msg_request) ''body'' = []"
    by (simp add: sample_request_def setter_simps get_string_def message_defs)
  then show ?thesis
    using message_reply_lost [OF sample.server_env_axioms sample_header sample_requests(4) sample_inv(2),
      where ok = True and n1 = 200 and os = "\<lambda>s b. 0" and cid = 5 and c = sample_obj]
    by (simp add: all_messages_def sample_registered sample_accepted)
qed

theorem delivered_message_names_recipient_witness:
  "\<exists>buff. delivery sample_env sample_world ''hi'' sample_client =
      [Sys_send 5 (create_packet cmd_msg buff)] \<and>
    packer_from (env_json sample_env) server_msg_request buff =
      Inr [(''id'', F_u64 200), (''command'', F_string cmd_msg), (''body'', F_string ''hi''),
           (''sender_login'', F_string ''login''), (''session'', F_string (replicate 32 CHR ''a''))]"
proof -
  have c: "ac_cookie sample_client = 5" "ac_id sample_client = 200" "ac_login sample_client = ''login''"
    "ac_session sample_client = replicate 32 CHR ''a''"
    by (simp_all add: sample_client_def new_client_def sample_start_def generate_session_def
        session_length_def map_replicate_const char_of_def)
  have w: "w_clients sample_world = [(5, 0)]" "w_objs sample_world 0 = Some sample_obj"
    by (simp_all add: sample_world_def sample_start_def)
  show ?thesis
    using delivered_message_names_recipient [OF sample.server_env_axioms sample_inv(2), of "''hi''"
        sample_client 0 sample_obj]
    by (simp add: sample_accepted c w sample_obj_def server_client_def)
qed


theorem server_runs_inv_witness:
  "\<exists>a w. app_main sample_env (\<lambda>s. Some 10052) \<lparr>sr_socket = 3, sr_setsockopt = 0, sr_bind = 0, sr_listen = 0\<rparr>
      0 (\<lambda>i. 97) \<lparr>cfg_srv_addrr = ''localhost:10052'', cfg_data_folder = [], cfg_client_pass = ''pass'',
        cfg_client_login = ''login''\<rparr> = Inr a \<and>
    serve sample_env [\<lparr>ar_cookie = 5, ar_header = sample_header cmd_auth,
      ar_body = sample_body (sample_login ''pass''), ar_client = sample_obj\<rparr>] (app_world0 a) = Some w \<and>
    app_inv w"
proof -
  let ?as = "[\<lparr>ar_cookie = 5, ar_header = sample_header cmd_auth,
      ar_body = sample_body (sample_login ''pass''), ar_client = sample_obj\<rparr>]"
  obtain a where a: "app_main sample_env (\<lambda>s. Some 10052)
      \<lparr>sr_socket = 3, sr_setsockopt = 0, sr_bind = 0, sr_listen = 0\<rparr>
      0 (\<lambda>i. 97) \<lparr>cfg_srv_addrr = ''localhost:10052'', cfg_data_folder = [], cfg_client_pass = ''pass'',
        cfg_client_login = ''login''\<rparr> = Inr a"
    by (simp add: app_main_def sample.registration split_beta)
  have "c_string (ph_type (header_packet (sample_header cmd_auth))) = Some cmd_auth" by simp
  then obtain w where "packet_handler (server_dispatch sample_env) (env_send sample_env) 5
      (sample_header cmd_auth) (sample_body (sample_login ''pass'')) sample_obj (app_world0 a) = Some w"
    using packet_handler_Some by blast
  then have w: "serve sample_env ?as (app_world0 a) = Some w" by simp
  have "draws_ok (\<lambda>i. 97)" by (simp add: draws_ok_def)
  from server_runs_inv [OF sample.server_env_axioms this a w] a w show ?thesis by blast
qed


end
