(* ===== verification/End_To_End.thy ===== *)
theory End_To_End
  imports Client_Props Server_Samples
begin

text \<open>
  Client and server together: the bytes one side sends, handled by the other.  What
  \<open>client_recv\<close> and \<open>sc_recv\<close> do with a packet that arrives whole is in \<open>Receive\<close>: they hand
  on its header and its body.
\<close>

section \<open>A packet on the other side\<close>

lemma packet_command:
  "buff \<noteq> [] \<Longrightarrow> cmd \<in> set commands \<Longrightarrow>
    c_string (ph_type (header_packet (take sizeof_header (create_packet cmd buff)))) = Some cmd"
  by (intro header_command command_size command_no_NUL)

lemma packet_body:
  "buff \<noteq> [] \<Longrightarrow> cmd \<in> set commands \<Longrightarrow> drop sizeof_header (create_packet cmd buff) = buff"
  using command_size by (simp add: drop_create_packet)

lemma commands_mem [simp]:
  "cmd_hello \<in> set commands" "cmd_auth \<in> set commands" "cmd_msg \<in> set commands"
  by (simp_all add: commands_def)

text \<open>The server handles the packet \<open>pkt\<close> of the connection \<open>cid\<close> with the client object \<open>c\<close>.\<close>

definition server_gets ::
  "'j env \<Rightarrow> u64 \<Rightarrow> client_base \<Rightarrow> buffer_t \<Rightarrow> app_world \<Rightarrow> app_world option" where
  "server_gets E cid c pkt w =
     packet_handler (server_dispatch E) (env_send E) cid (take sizeof_header pkt) (drop sizeof_header pkt) c w"

text \<open>The client's thread dispatches the packet \<open>pkt\<close>.\<close>

definition client_gets ::
  "('j, 'g) client_env \<Rightarrow> buffer_t \<Rightarrow> 'g client_app \<Rightarrow> 'g client_app option" where
  "client_gets E pkt a =
     (case c_string (ph_type (header_packet (take sizeof_header pkt))) of
        None \<Rightarrow> None
      | Some cmd \<Rightarrow>
          Some (fst (snd (client_dispatch E a cmd (cb_socket (ca_tcp a)) (drop sizeof_header pkt) []))))"

lemma server_gets_packet:
  "buff \<noteq> [] \<Longrightarrow> cmd \<in> set commands \<Longrightarrow>
    server_gets E cid c (create_packet cmd buff) w =
      packet_handler (server_dispatch E) (env_send E) cid (take sizeof_header (create_packet cmd buff)) buff c w"
  by (simp add: server_gets_def packet_body)

lemma client_gets_packet:
  "buff \<noteq> [] \<Longrightarrow> cmd \<in> set commands \<Longrightarrow>
    client_gets E (create_packet cmd buff) a =
      Some (fst (snd (client_dispatch E a cmd (cb_socket (ca_tcp a)) buff [])))"
  by (simp add: client_gets_def packet_command packet_body)

section \<open>Logging in\<close>

lemma cmd_auth_reply_eq: "cmd_auth_reply = cmd_auth" "cmd_hello_reply = cmd_hello"
  by (simp_all add: cmd_defs)

lemma sent_simps [simp]:
  "ca_id (sent cmd buff a) = ca_id a" "ca_tcp (sent cmd buff a) = ca_tcp a"
  "ca_gui (sent cmd buff a) = ca_gui a" "client_inv E view (sent cmd buff a) = client_inv E view a"
  "ca_calls (sent cmd buff a) = ca_calls a @ [Sys_send (cb_socket (ca_tcp a)) (create_packet cmd buff)]"
  by (simp_all add: sent_def)

lemma login_request_get:
  "get_u64 (login_request n login pass) ''id'' = n" "get_string (login_request n login pass) ''login'' = login"
  "get_string (login_request n login pass) ''password'' = pass"
  by (simp_all add: login_request_def get_u64_def get_string_def)

lemma login_response_get:
  "get_string (login_response n ok w) ''session'' = (if ok then generate_session (w_rng w) else [])"
  "get_string (login_response n ok w) ''status'' = (if ok then ''ok'' else ''failed'')"
  by (simp_all add: login_response_def get_string_def)

end
