(* ===== verification/Wire_Types.thy ===== *)
theory Wire_Types
  imports End_To_End
begin

text \<open>
  The two programs agree on the types of their messages: whatever packet the server handles,
  all it sends can be read by the handler the client has for it.
\<close>

section \<open>What a side can read\<close>

text \<open>The type a command is read with, by the wrapper of its handler.\<close>

definition reads_as :: "'j json_ops \<Rightarrow> (string \<times> 's wrapper) list \<Rightarrow> string \<Rightarrow> members \<Rightarrow> bool" where
  "reads_as J hs cmd ms \<longleftrightarrow>
     (\<exists>w. map_of hs cmd = Some w \<and>
       ((\<exists>resp f. w = wrapper3 J ms resp f) \<or> (\<exists>f. w = wrapper2 J ms f)))"

lemma reads_as_client:
  "reads_as (ce_json C) (client_handlers C) cmd_msg server_msg_request"
  "reads_as (ce_json C) (client_handlers C) cmd_msg_reply server_msg_response"
  "reads_as (ce_json C) (client_handlers C) cmd_hello_reply server_hello_response"
  "reads_as (ce_json C) (client_handlers C) cmd_auth_reply server_auth_response"
  "reads_as (ce_json C) (client_handlers C) cmd_bye_reply server_bye_response"
  "reads_as (ce_json C) (client_handlers C) cmd_ping_reply server_ping_response"
  unfolding reads_as_def client_handlers_map by blast+

lemma reads_as_server:
  "reads_as (env_json S) (server_handlers S) cmd_hello client_hello_request"
  "reads_as (env_json S) (server_handlers S) cmd_auth client_auth_request"
  "reads_as (env_json S) (server_handlers S) cmd_bye client_bye_request"
  "reads_as (env_json S) (server_handlers S) cmd_msg client_msg_request"
  unfolding reads_as_def server_handlers_map by blast+

text \<open>A packet the handler for its command reads, and which carries that command.\<close>

definition typed_packet :: "'j json_ops \<Rightarrow> (string \<times> 's wrapper) list \<Rightarrow> buffer_t \<Rightarrow> bool" where
  "typed_packet J hs pkt \<longleftrightarrow>
     (\<exists>cmd out ms t. pkt = create_packet cmd out \<and> out \<noteq> [] \<and> reads_as J hs cmd ms \<and>
        packer_from J ms out = Inr t \<and> get_string t ''command'' = cmd)"

text \<open>A packed message can be read with its own type, or with fewer members.\<close>

lemma typed_packetI:
  assumes "nlohmann J" "packer_to J t = Inr out" "message_keys_ok (tuple_type t)"
    and "reads_as J hs cmd ms" "get_string t ''command'' = cmd"
    and "ms = filter (\<lambda>m. fst m \<in> keys) (tuple_type t)" "''command'' \<in> keys"
  shows "out \<noteq> [] \<and> typed_packet J hs (create_packet cmd out)"
proof -
  let ?u = "filter (\<lambda>m. fst m \<in> keys) t"
  have type: "tuple_type ?u = ms" by (simp add: assms(6) tuple_type_def filter_map o_def split_beta)
  have part: "out \<noteq> []" "packer_from J ms out = Inr ?u"
    using packer_part [OF assms(1-3), of ?u] by (auto simp: type)
  have "map_of ?u k = map_of t k" if "k \<in> keys" for k
    using that by (induction t) auto
  then have "get_string ?u ''command'' = cmd" using assms(5,7) by (simp add: get_string_def)
  with part assms(4) show ?thesis unfolding typed_packet_def by blast
qed

lemma typed_packet_whole:
  assumes "nlohmann J" "packer_to J t = Inr out" "message_keys_ok (tuple_type t)"
    and "reads_as J hs cmd (tuple_type t)" "get_string t ''command'' = cmd"
  shows "typed_packet J hs (create_packet cmd out)"
  using typed_packetI [OF assms, of UNIV] by simp

section \<open>The server's calls\<close>

definition typed_send :: "('j, 'g) client_env \<Rightarrow> syscall \<Rightarrow> bool" where
  "typed_send C call \<longleftrightarrow>
     (\<exists>s pkt. call = Sys_send s pkt \<and> typed_packet (ce_json C) (client_handlers C) pkt)"

definition speaks :: "('j, 'g) client_env \<Rightarrow> app_world \<Rightarrow> app_world \<Rightarrow> bool" where
  "speaks C w w' \<longleftrightarrow> (\<exists>cs. w_calls w' = w_calls w @ cs \<and> list_all (typed_send C) cs)"

lemma speaks_refl [simp]: "speaks C w w"
  by (simp add: speaks_def)

lemma speaks_trans: "speaks C w w' \<Longrightarrow> speaks C w' w'' \<Longrightarrow> speaks C w w''"
  by (fastforce simp: speaks_def)

lemma speaks_calls: "w_calls w' = w_calls w \<Longrightarrow> speaks C w w'"
  by (simp add: speaks_def)

lemma send_to_speaks:
  assumes "\<And>s. typed_send C (Sys_send s (create_packet cmd out))"
  shows "speaks C w (snd (send_to os cookie cmd out w))"
  using assms
  by (auto simp: send_to_def client_send_def speaks_def w_log_def Let_def
      split: option.split prod.split if_splits)

section \<open>What the server says\<close>

lemma broadcast_request_command: "get_string (broadcast_request body c) ''command'' = cmd_msg"
  by (simp add: broadcast_request_def Let_def map_of_tuple_type [symmetric] server_msg_request_def)

lemma broadcast_speaks:
  assumes "nlohmann (ce_json C)" "env_json E = ce_json C"
  shows "speaks C w (snd (broadcast E body cs w))"
proof (induction cs arbitrary: w)
  case (Cons c cs)
  show ?case
  proof (cases "packer_to (env_json E) (broadcast_request body c)")
    case (Inr buff)
    have "typed_send C (Sys_send s (create_packet cmd_msg buff))" for s
      using typed_packet_whole [OF assms(1) Inr [unfolded assms(2)] _ _ broadcast_request_command]
        reads_as_client(1) [of C]
      by (simp add: broadcast_request_type typed_send_def)
    then have "speaks C w (snd (send_to (env_send E) (ac_cookie c) cmd_msg buff w))"
      by (rule send_to_speaks)
    with Inr Cons.IH show ?thesis by (auto simp: split_beta intro: speaks_trans)
  qed simp
qed simp

lemma server_dispatch_speaks:
  assumes "nlohmann (ce_json C)" "env_json E = ce_json C"
  shows "speaks C w (fst (snd (server_dispatch E w cmd ck inp out)))"
proof (rule server_dispatch_rel [where R = "speaks C"])
  show "speaks C s (fst (snd (client_message_packet_handler E s ck req resp)))" for s ck req resp
    using broadcast_speaks [OF assms]
    by (auto simp: client_message_packet_handler_def Let_def split: prod.split)
      (metis snd_conv)+
qed (simp_all add: client_hello_packet_handler_def client_ping_packet_handler_def
    client_login_packet_handler_def client_logout_packet_handler_def Let_def speaks_calls split: prod.split)

text \<open>The answer a wrapper leaves in the output buffer.\<close>

lemma wrapper3_answer:
  assumes "wrapper3 J req_t resp_t f w cmd ck inp [] = (oc, w', cmd', out)" "out \<noteq> []"
    and "\<And>req w' resp. f w ck req (tuple_default resp_t) = (Returned, w', resp) \<Longrightarrow>
      tuple_type resp = resp_t \<and> get_string resp ''command'' = c"
  shows "\<exists>resp. tuple_type resp = resp_t \<and> get_string resp ''command'' = c \<and> cmd' = c \<and>
    packer_to J resp = Inr out"
  using assms by (fastforce simp: wrapper3_def Let_def split: sum.splits prod.splits outcome.splits)

lemma answer_types:
  "client_hello_packet_handler w ck req (tuple_default server_hello_response) = (Returned, w', resp) \<Longrightarrow>
    tuple_type resp = server_hello_response \<and> get_string resp ''command'' = cmd_hello_reply"
  "client_ping_packet_handler w ck req (tuple_default server_auth_response) = (Returned, w', resp) \<Longrightarrow>
    tuple_type resp = server_auth_response \<and> get_string resp ''command'' = cmd_ping_reply"
  "client_login_packet_handler E w ck req (tuple_default server_auth_response) = (Returned, w', resp) \<Longrightarrow>
    tuple_type resp = server_auth_response \<and> get_string resp ''command'' = cmd_auth_reply"
  "client_logout_packet_handler w ck req (tuple_default server_bye_response) = (Returned, w', resp) \<Longrightarrow>
    tuple_type resp = server_bye_response \<and> get_string resp ''command'' = cmd_bye_reply"
  "client_message_packet_handler E w ck req (tuple_default server_msg_response) = (Returned, w', resp) \<Longrightarrow>
    tuple_type resp = server_msg_response \<and> get_string resp ''command'' = cmd_msg_reply"
  by (auto simp: client_hello_packet_handler_def client_ping_packet_handler_def
      client_login_packet_handler_def client_logout_packet_handler_def client_message_packet_handler_def
      Let_def map_of_tuple_type [symmetric] message_defs set_string_from_u64_def cmd_auth_reply_eq
      split: if_splits prod.splits)

lemma answer_readable:
  assumes "nlohmann (ce_json C)" "packer_to (ce_json C) resp = Inr out" "get_string resp ''command'' = cmd"
    and "(cmd, tuple_type resp) \<in> {(cmd_hello_reply, server_hello_response),
      (cmd_ping_reply, server_auth_response), (cmd_auth_reply, server_auth_response),
      (cmd_bye_reply, server_bye_response), (cmd_msg_reply, server_msg_response)}"
  shows "typed_send C (Sys_send s (create_packet cmd out))"
proof (cases "cmd = cmd_ping_reply")
  case True
  then have ty: "tuple_type resp = server_auth_response" using assms(4) by (auto simp: cmd_defs)
  have keys: "server_ping_response = filter (\<lambda>m. fst m \<in> - {''session''}) (tuple_type resp)"
    by (simp add: ty message_defs)
  show ?thesis
    using typed_packetI [OF assms(1,2) _ reads_as_client(6) assms(3) [unfolded True] keys] True
    by (simp add: ty typed_send_def)
next
  case False
  have "reads_as (ce_json C) (client_handlers C) cmd (tuple_type resp)" "message_keys_ok (tuple_type resp)"
    using assms(4) False reads_as_client by auto
  then show ?thesis
    using typed_packet_whole [OF assms(1,2) _ _ assms(3)] by (simp add: typed_send_def)
qed

lemma dispatch_answer:
  assumes "server_env E" "server_dispatch E w cmd ck inp [] = (ok, w', cmd', out)" "out \<noteq> []"
    and "inj_on (env_hash E) (insert cmd (set server_commands))"
  shows "\<exists>resp. packer_to (env_json E) resp = Inr out \<and> get_string resp ''command'' = cmd' \<and>
    (cmd', tuple_type resp) \<in> {(cmd_hello_reply, server_hello_response),
      (cmd_ping_reply, server_auth_response), (cmd_auth_reply, server_auth_response),
      (cmd_bye_reply, server_bye_response), (cmd_msg_reply, server_msg_response)}"
proof -
  have keys: "fst ` set (server_handlers E) = set server_commands"
    by (metis server_handlers_keys list.set_map)
  have look: "handler_table (env_hash E) (server_handlers E) (env_hash E cmd) = map_of (server_handlers E) cmd"
    using assms(4) by (intro handler_table_lookup) (simp add: keys)
  obtain h where h: "map_of (server_handlers E) cmd = Some h"
    using assms(2,3) look by (cases "map_of (server_handlers E) cmd") (simp_all add: server_dispatch_def dispatch_def)
  obtain oc where run: "h w cmd ck inp [] = (oc, w', cmd', out)"
    using assms(2) look h by (auto simp: server_dispatch_def dispatch_def split: prod.splits outcome.splits)
  let ?answer = "\<lambda>ty c. \<exists>resp. tuple_type resp = ty \<and> get_string resp ''command'' = c \<and> cmd' = c \<and>
    packer_to (env_json E) resp = Inr out"
  have "(cmd, h) \<in> set (server_handlers E)" using h by (rule map_of_SomeD)
  then consider
      "h = wrapper3 (env_json E) client_hello_request server_hello_response client_hello_packet_handler"
    | "h = wrapper3 (env_json E) client_ping_request server_auth_response client_ping_packet_handler"
    | "h = wrapper3 (env_json E) client_auth_request server_auth_response (client_login_packet_handler E)"
    | "h = wrapper3 (env_json E) client_bye_request server_bye_response client_logout_packet_handler"
    | "h = wrapper3 (env_json E) client_msg_request server_msg_response (client_message_packet_handler E)"
    | "h = wrapper2 (env_json E) client_msg_response client_message_reply_packet_handler"
    by (auto simp: server_handlers_def Let_def)
  then show ?thesis
  proof cases
    case 1
    have "?answer server_hello_response cmd_hello_reply"
      by (rule wrapper3_answer [OF run [unfolded 1] assms(3)]) (erule answer_types(1))
    then show ?thesis by blast
  next
    case 2
    have "?answer server_auth_response cmd_ping_reply"
      by (rule wrapper3_answer [OF run [unfolded 2] assms(3)]) (erule answer_types(2))
    then show ?thesis by blast
  next
    case 3
    have "?answer server_auth_response cmd_auth_reply"
      by (rule wrapper3_answer [OF run [unfolded 3] assms(3)]) (erule answer_types(3))
    then show ?thesis by blast
  next
    case 4
    have "?answer server_bye_response cmd_bye_reply"
      by (rule wrapper3_answer [OF run [unfolded 4] assms(3)]) (erule answer_types(4))
    then show ?thesis by blast
  next
    case 5
    have "?answer server_msg_response cmd_msg_reply"
      by (rule wrapper3_answer [OF run [unfolded 5] assms(3)]) (erule answer_types(5))
    then show ?thesis by blast
  next
    case 6
    with run assms(3) show ?thesis
      by (auto simp: wrapper2_def split: sum.splits prod.splits)
  qed
qed



section \<open>What the client says\<close>

text \<open>Of the calls of the client only the packets are in question.\<close>

definition typed_request :: "'j env \<Rightarrow> syscall \<Rightarrow> bool" where
  "typed_request S call \<longleftrightarrow>
     (\<forall>s pkt. call = Sys_send s pkt \<longrightarrow> typed_packet (env_json S) (server_handlers S) pkt)"

definition asks :: "'j env \<Rightarrow> 'g client_app \<Rightarrow> 'g client_app \<Rightarrow> bool" where
  "asks S a a' \<longleftrightarrow> (\<exists>cs. ca_calls a' = ca_calls a @ cs \<and> list_all (typed_request S) cs)"

lemma asks_trans: "asks S a a' \<Longrightarrow> asks S a' a'' \<Longrightarrow> asks S a a''"
  by (fastforce simp: asks_def)

lemma asks_calls: "ca_calls a' = ca_calls a \<Longrightarrow> asks S a a'"
  by (simp add: asks_def)

lemma output_handler_calls [simp]: "ca_calls (output_handler act st msg data a) = ca_calls a"
  by (simp add: output_handler_def split: option.split)

lemma tc_connect_no_send:
  "tc_connect r host port c = Some (c', calls) \<Longrightarrow> list_all (typed_request S) calls"
  by (auto simp: tc_connect_def Let_def typed_request_def split: if_splits)

lemma tc_disconnect_no_send:
  "tc_disconnect c = Some (c', calls) \<Longrightarrow> list_all (typed_request S) calls"
  by (auto simp: tc_disconnect_def typed_request_def split: if_splits)

text \<open>A callback ends with a request that is packed and sent, and a report to the window.\<close>

lemma request_asks:
  assumes "nlohmann (env_json S)" "env_json S = ce_json C" "asks S a a1"
    and "reads_as (env_json S) (server_handlers S) cmd (tuple_type req)" "message_keys_ok (tuple_type req)"
    and "get_string req ''command'' = cmd"
    and "(case packer_to (ce_json C) req of
        Inl e \<Rightarrow> Inl (Ce_json e)
      | Inr buff \<Rightarrow> let (ret, a) = app_send C cmd buff a1 in Inr (f ret a)) = Inr a'"
    and "\<And>ret b. ca_calls (f ret b) = ca_calls b"
  shows "asks S a a'"
proof -
  obtain buff where buff: "packer_to (ce_json C) req = Inr buff" using assms(7) by (auto split: sum.splits)
  have "typed_packet (env_json S) (server_handlers S) (create_packet cmd buff)"
    using typed_packet_whole [OF assms(1) _ assms(5,4,6)] buff assms(2) by simp
  then have "list_all (typed_request S) (snd (client_send (ce_send C) b cmd buff))" for b
    by (simp add: client_send_def typed_request_def Let_def)
  then have "asks S a1 a'"
    using assms(7,8) buff
    by (auto simp: asks_def app_send_def split: prod.splits) (metis snd_conv)
  with assms(3) show ?thesis by (rule asks_trans)
qed

lemma asks_refl [simp]: "asks S a a"
  by (simp add: asks_calls)

lemma login_asks:
  assumes "nlohmann (env_json S)" "env_json S = ce_json C" "on_login_frame_callback C data a = Inr a'"
  shows "asks S a a'"
proof -
  obtain login pass where split: "split_colon (c_str (ce_as_char C data)) = (login, pass)" by fastforce
  let ?req = "set_string ''password'' pass (set_string ''login'' login (set_u64 ''id'' (ca_id a)
    (set_string ''command'' cmd_auth (tuple_default client_auth_request))))"
  let ?f = "\<lambda>ret a. if ret then output_handler On_login Ui_success ''Login...'' [] a
    else output_handler On_login Ui_failed ''Login failed.'' [] a"
  show ?thesis
  proof (cases "login = [] \<or> pass = []")
    case True
    with assms(3) split show ?thesis by (auto simp: on_login_frame_callback_def intro: asks_calls)
  next
    case False
    then have run: "(case packer_to (ce_json C) ?req of
        Inl e \<Rightarrow> Inl (Ce_json e)
      | Inr buff \<Rightarrow> let (ret, a) = app_send C cmd_auth buff a in Inr (?f ret a)) = Inr a'"
      using assms(3) split by (simp add: on_login_frame_callback_def Let_def)
    have "get_string ?req ''command'' = cmd_auth"
      by (simp add: map_of_tuple_type [symmetric] client_auth_request_def)
    from request_asks [OF assms(1,2) asks_refl _ _ this run] reads_as_server(2) [of S] show ?thesis by simp
  qed
qed

lemma logout_asks:
  assumes "nlohmann (env_json S)" "env_json S = ce_json C" "on_logout_frame_callback C data a = Inr a'"
  shows "asks S a a'"
proof -
  let ?req = "set_string ''session'' (ca_session a) (set_u64 ''id'' (ca_id a)
    (set_string ''command'' cmd_bye (tuple_default client_bye_request)))"
  let ?f = "\<lambda>ret a. if ret then output_handler On_logout Ui_success ''Logout...'' [] a
    else output_handler On_logout Ui_failed ''Logout failed.'' [] a"
  have run: "(case packer_to (ce_json C) ?req of
        Inl e \<Rightarrow> Inl (Ce_json e)
      | Inr buff \<Rightarrow> let (ret, a) = app_send C cmd_bye buff a in Inr (?f ret a)) = Inr a'"
    using assms(3) by (simp add: on_logout_frame_callback_def Let_def)
  have "get_string ?req ''command'' = cmd_bye"
    by (simp add: map_of_tuple_type [symmetric] client_bye_request_def)
  from request_asks [OF assms(1,2) asks_refl _ _ this run] reads_as_server(3) [of S] show ?thesis by simp
qed

lemma send_asks:
  assumes "nlohmann (env_json S)" "env_json S = ce_json C" "on_send_frame_callback C data a = Inr a'"
  shows "asks S a a'"
proof -
  let ?req = "set_string ''body'' (c_str (ce_as_char C data)) (set_string ''session'' (ca_session a)
    (set_u64 ''id'' (ca_id a) (set_string ''command'' cmd_msg (tuple_default client_msg_request))))"
  let ?f = "\<lambda>ret a. if ret then output_handler On_send Ui_pending ''Mesaging...'' [] a
    else output_handler On_send Ui_failed ''Mesaging failed.'' [] a"
  have run: "(case packer_to (ce_json C) ?req of
        Inl e \<Rightarrow> Inl (Ce_json e)
      | Inr buff \<Rightarrow> let (ret, a) = app_send C cmd_msg buff a in Inr (?f ret a)) = Inr a'"
    using assms(3) by (simp add: on_send_frame_callback_def Let_def)
  have "get_string ?req ''command'' = cmd_msg"
    by (simp add: map_of_tuple_type [symmetric] client_msg_request_def)
  from request_asks [OF assms(1,2) asks_refl _ _ this run] reads_as_server(4) [of S] show ?thesis by simp
qed

lemma connect_asks:
  assumes "nlohmann (env_json S)" "env_json S = ce_json C" "on_connect_frame_callback C r n data a = Inr a'"
  shows "asks S a a'"
proof -
  obtain host port where split: "split_colon (c_str (ce_as_char C data)) = (host, port)" by fastforce
  obtain p where p: "atoi (c_str port) = Some p"
    using assms(3) split by (auto simp: on_connect_frame_callback_def split: option.splits)
  obtain c calls where c: "tc_connect r host (word_of_int p) (ca_tcp a) = Some (c, calls)"
    using assms(3) split p by (auto simp: on_connect_frame_callback_def split: option.splits)
  let ?a = "a\<lparr>ca_tcp := c, ca_calls := ca_calls a @ calls\<rparr>"
  have a: "asks S a (?a\<lparr>ca_id := n\<rparr>)" "asks S a ?a"
    using tc_connect_no_send [OF c] by (auto simp: asks_def)
  show ?thesis
  proof (cases "cb_status c = Cl_connected")
    case False
    then have "a' = output_handler On_connect Ui_failed ''Connect to server failed.'' [] ?a"
      using assms(3) split p c by (simp add: on_connect_frame_callback_def Let_def)
    with a(2) show ?thesis by (simp add: asks_def)
  next
    case True
    let ?req = "set_u64 ''id'' n (set_string ''command'' cmd_hello (tuple_default client_hello_request))"
    let ?f = "\<lambda>ret a. if ret then output_handler On_connect Ui_pending ''Connect...'' [] a
      else output_handler On_connect Ui_failed ''Connect failed.'' [] a"
    have run: "(case packer_to (ce_json C) ?req of
        Inl e \<Rightarrow> Inl (Ce_json e)
      | Inr buff \<Rightarrow> let (ret, a) = app_send C cmd_hello buff (?a\<lparr>ca_id := n\<rparr>) in Inr (?f ret a)) = Inr a'"
      using assms(3) split p c True by (simp add: on_connect_frame_callback_def Let_def)
    have "get_string ?req ''command'' = cmd_hello"
      by (simp add: map_of_tuple_type [symmetric] client_hello_request_def)
    from request_asks [OF assms(1,2) a(1) _ _ this run] reads_as_server(1) [of S] show ?thesis by simp
  qed
qed

lemma disconnect_asks:
  assumes "on_disconnect_frame_callback C data a = Inr a'"
  shows "asks S a a'"
proof -
  obtain c calls where c: "tc_disconnect (ca_tcp a) = Some (c, calls)"
    using assms by (auto simp: on_disconnect_frame_callback_def split: option.splits)
  then have "ca_calls a' = ca_calls a @ calls"
    using assms by (auto simp: on_disconnect_frame_callback_def Let_def split: if_splits)
  with tc_disconnect_no_send [OF c] show ?thesis by (auto simp: asks_def)
qed

lemma click_asks:
  assumes "nlohmann (env_json S)" "env_json S = ce_json C" "app_click C r n w a = Inr a'"
  shows "asks S a a'"
proof -
  obtain g cb where c: "clicked (ce_wx C) w (ca_gui a) = (g, cb)" by fastforce
  have g: "asks S a (a\<lparr>ca_gui := g\<rparr>)" by (simp add: asks_calls)
  show ?thesis
  proof (cases cb)
    case None
    with assms(3) c g show ?thesis by (simp add: app_click_def)
  next
    case (Some p)
    obtain act data where p: "p = (act, data)" by fastforce
    have "asks S (a\<lparr>ca_gui := g\<rparr>) a'"
      using assms(3) c Some p login_asks [OF assms(1,2)] logout_asks [OF assms(1,2)]
        send_asks [OF assms(1,2)] connect_asks [OF assms(1,2)] disconnect_asks
      by (cases act) (auto simp: app_click_def input_callbacks_def Let_def)
    with g show ?thesis by (rule asks_trans)
  qed
qed

text \<open>The thread that reads the packets of the server sends nothing: the answer a handler packs
  is dropped.\<close>

theorem client_never_answers:
  "client_event_step C (Ev_packet cmd body) a = Inr a' \<Longrightarrow> ca_calls a' = ca_calls a"
proof -
  let ?R = "\<lambda>a a'. ca_calls a' = ca_calls a"
  have "?R a (fst (snd (client_dispatch C a cmd (cb_socket (ca_tcp a)) body [])))"
    unfolding client_dispatch_def
  proof (rule dispatch_rel [where R = ?R])
    fix w assume "w \<in> ran (handler_table (ce_hash C) (client_handlers C))"
    then have "w \<in> snd ` set (client_handlers C)"
      by (auto simp: handler_table_def ran_def dest!: map_of_SomeD)
    then show "wrapper_rel ?R w"
      by (auto simp: client_handlers_def Let_def server_message_packet_handler_def
          server_message_reply_packet_handler_def server_hello_reply_packet_handler_def
          server_auth_reply_packet_handler_def server_bye_reply_packet_handler_def
          server_ping_reply_packet_handler_def
          intro!: wrapper3_rel [where R = ?R] wrapper2_rel [where R = ?R])
  qed simp
  then show "client_event_step C (Ev_packet cmd body) a = Inr a' \<Longrightarrow> ca_calls a' = ca_calls a" by auto
qed

lemma event_asks:
  assumes "nlohmann (env_json S)" "env_json S = ce_json C" "client_event_step C ev a = Inr a'"
  shows "asks S a a'"
proof (cases ev)
  case (Ev_click r n w)
  with assms(3) click_asks [OF assms(1,2)] show ?thesis by simp
next
  case (Ev_packet cmd body)
  with assms(3) show ?thesis using client_never_answers by (auto intro!: asks_calls)
qed

text \<open>C13: The client speaks the server's types: whatever is clicked, whatever the system answers and
  whatever packets arrive, every packet the client sends carries its own command and decodes
  with the type the server's handler for that command reads.\<close>

theorem client_speaks_server_types:
  assumes "nlohmann (env_json S)" "env_json S = ce_json C" "client_events C evs a = Inr a'"
  shows "\<exists>cs. ca_calls a' = ca_calls a @ cs \<and> list_all (typed_request S) cs"
proof -
  have "asks S a a'"
    using assms(3)
  proof (induction evs arbitrary: a)
    case (Cons ev evs)
    then obtain b where "client_event_step C ev a = Inr b" "client_events C evs b = Inr a'"
      by (auto split: sum.splits)
    with Cons.IH event_asks [OF assms(1,2)] show ?case by (blast intro: asks_trans)
  qed simp
  then show ?thesis by (simp add: asks_def)
qed

theorem client_speaks_server_types_witness:
  "\<exists>a' s pkt cs. client_events sample_cenv
      [Ev_click \<lparr>cr_socket = 8, cr_getaddrinfo = 0, cr_connect = 0\<rparr> 77 Logout_button] sample_capp = Inr a' \<and>
    ca_calls a' = Sys_send s pkt # cs \<and> list_all (typed_request sample_env) (Sys_send s pkt # cs)"
proof -
  let ?evs = "[Ev_click \<lparr>cr_socket = 8, cr_getaddrinfo = 0, cr_connect = 0\<rparr> 77 Logout_button]"
  let ?req = "set_string ''session'' (ca_session sample_capp) (set_u64 ''id'' (ca_id sample_capp)
    (set_string ''command'' cmd_bye (tuple_default client_bye_request)))"
  have "tuple_utf8 ?req" by (simp add: sample_capp_def cmd_defs)
  then obtain buff where buff: "packer_to (ce_json sample_cenv) ?req = Inr buff" "buff \<noteq> []"
    using csample.request_packed [of ?req client_bye_request] by auto
  have none: "ca_calls sample_capp = []" by (simp add: sample_capp_def)
  obtain a' where run: "client_events sample_cenv ?evs sample_capp = Inr a'"
    and calls: "ca_calls a' = [Sys_send (cb_socket (ca_tcp sample_capp)) (create_packet cmd_bye buff)]"
    using buff none
    by (auto simp: app_click_def logout_clicked_def input_callbacks_def on_logout_frame_callback_def Let_def
        app_send_sent sent_def)
  have "env_json sample_env = ce_json sample_cenv" by (simp add: sample_env_def sample_cenv_def)
  from client_speaks_server_types [OF server_env.json [OF sample.server_env_axioms] this run] run calls none
  show ?thesis by auto
qed

end
