(* ===== verification/Server_Threads.thy ===== *)
theory Server_Threads
  imports Connection
begin

text \<open>
  The threads of the TCP server, \<^verbatim>\<open>src/tcp/server/server.cpp\<close>: the accepting thread
  (\<^verbatim>\<open>handler_thread_routine\<close>), one thread for each connection (\<^verbatim>\<open>client_handler\<close>), and the
  thread that calls \<^verbatim>\<open>stop\<close>.  A step of the system is a step of one thread between two
  points where others can interfere: what runs under \<^verbatim>\<open>m_client_list_mutex\<close> is one step.

  A label says which thread moves and what the system answers it.  \<open>sys_exec\<close> is the effect
  of a label, \<^term>\<open>None\<close> where the thread cannot make that step (it waits, or is elsewhere).
\<close>

section \<open>State\<close>

datatype thread_pc =
    Spawned | Looping | Receiving | Handling buffer_t buffer_t | Erasing | Returning | Finished

record conn_thread =
  ct_sock :: socket_t
  ct_addr :: sockaddr_in
  ct_pc :: thread_pc

datatype stop_pc = Running | Joining_acceptor | Joining_clients | Stopped

text \<open>
  \<open>sys_threads\<close> is \<^verbatim>\<open>m_client_handler_threads\<close>; the position of a thread is also the reference
  of its client object.  \<open>sys_open\<close> are the numbers of the sockets the process has open:
  the system only hands out others.
\<close>

record 'w server_sys =
  sys_status :: server_status
  sys_listener :: socket_t
  sys_accepting :: bool
  sys_threads :: "conn_thread list"
  sys_world :: 'w
  sys_stop :: stop_pc
  sys_open :: "socket_t set"

text \<open>The server when \<^verbatim>\<open>start\<close> returns.\<close>

definition sys_start :: "socket_t \<Rightarrow> socket_t set \<Rightarrow> 'w \<Rightarrow> 'w server_sys" where
  "sys_start listener opened w =
     \<lparr>sys_status = Srv_up, sys_listener = listener, sys_accepting = True, sys_threads = [],
      sys_world = w, sys_stop = Running, sys_open = insert listener opened\<rparr>"

section \<open>Steps\<close>

datatype label =
    Do_accept socket_t sockaddr_in int int
  | Do_accept_end
  | Do_register nat
  | Do_check nat
  | Do_recv nat buffer_t "segment list"
  | Do_handle nat
  | Do_erase nat
  | Do_return nat
  | Do_stop
  | Do_join_acceptor
  | Do_join_clients

fun closed_by :: "syscall \<Rightarrow> socket_t list" where
  "closed_by (Sys_closesocket s) = [s]"
| "closed_by _ = []"

text \<open>A step that makes the world \<open>w\<close>: the sockets it closed are free again.\<close>

definition sys_set :: "'a world_scheme \<Rightarrow> 'a world_scheme server_sys \<Rightarrow> 'a world_scheme server_sys" where
  "sys_set w st = st\<lparr>sys_world := w,
     sys_open := sys_open st -
       set (concat (map closed_by (drop (length (w_calls (sys_world st))) (w_calls w))))\<rparr>"

definition sys_goto :: "nat \<Rightarrow> thread_pc \<Rightarrow> 'w server_sys \<Rightarrow> 'w server_sys" where
  "sys_goto t pc st = st\<lparr>sys_threads := (sys_threads st)[t := (sys_threads st ! t)\<lparr>ct_pc := pc\<rparr>]\<rparr>"

definition at_pc :: "'w server_sys \<Rightarrow> nat \<Rightarrow> thread_pc \<Rightarrow> bool" where
  "at_pc st t pc \<longleftrightarrow> t < length (sys_threads st) \<and> ct_pc (sys_threads st ! t) = pc"

text \<open>\<^verbatim>\<open>m_client_list.clear()\<close>: every listed object loses its reference.\<close>

definition clear_clients :: "'a world_scheme \<Rightarrow> 'a world_scheme" where
  "clear_clients w = fold w_release (map snd (w_clients w)) (w\<lparr>w_clients := []\<rparr>)"

text \<open>
  Accepting: a socket whose keep-alive options cannot be set is shut down and closed, and
  then given to a thread like any other.
\<close>

definition sys_accept ::
  "keep_alive_config \<Rightarrow> socket_t \<Rightarrow> sockaddr_in \<Rightarrow> int \<Rightarrow> int \<Rightarrow>
   'a world_scheme server_sys \<Rightarrow> 'a world_scheme server_sys" where
  "sys_accept conf s addr r1 r2 st =
     (let st = st\<lparr>sys_open := insert s (sys_open st)\<rparr>;
          (ok, calls) = set_keep_alive r1 r2 conf s True;
          calls = (if ok then calls else calls @ [Sys_shutdown s, Sys_closesocket s]);
          st = sys_set (w_log calls (sys_world st)) st
      in st\<lparr>sys_threads := sys_threads st @ [\<lparr>ct_sock = s, ct_addr = addr, ct_pc = Spawned\<rparr>]\<rparr>)"

fun sys_exec ::
  "keep_alive_config \<Rightarrow> 'a world_scheme dispatch_fun \<Rightarrow> (socket_t \<Rightarrow> buffer_t \<Rightarrow> int) \<Rightarrow> label \<Rightarrow>
   'a world_scheme server_sys \<Rightarrow> 'a world_scheme server_sys option" where
  "sys_exec conf disp os (Do_accept s addr r1 r2) st =
     (if sys_accepting st \<and> sys_status st = Srv_up \<and> s \<notin> sys_open st \<and> s \<noteq> 0 \<and> s \<noteq> INVALID_SOCKET
      then Some (sys_accept conf s addr r1 r2 st) else None)"
| "sys_exec conf disp os Do_accept_end st =
     (if sys_accepting st \<and> sys_status st \<noteq> Srv_up then Some (st\<lparr>sys_accepting := False\<rparr>) else None)"
| "sys_exec conf disp os (Do_register t) st =
     (if at_pc st t Spawned then
        let th = sys_threads st ! t in
        Some (sys_goto t Looping (sys_set (ch_register t (ct_sock th) (ct_addr th) (sys_world st)) st))
      else None)"
| "sys_exec conf disp os (Do_check t) st =
     (if at_pc st t Looping then
        Some (sys_goto t (if sys_status st = Srv_up then Receiving else Returning) st)
      else None)"
| "sys_exec conf disp os (Do_recv t junk segs) st =
     (if at_pc st t Receiving then
        (case ch_recv seg_recv t junk segs (sys_world st) of (ok, hdr, data, rest, w) \<Rightarrow>
           Some (sys_goto t (if ok then Handling hdr data else Erasing) (sys_set w st)))
      else None)"
| "sys_exec conf disp os (Do_handle t) st =
     (if t < length (sys_threads st) then
        (case ct_pc (sys_threads st ! t) of
           Handling hdr data \<Rightarrow>
             (case w_objs (sys_world st) t of
                None \<Rightarrow> None
              | Some c \<Rightarrow>
                  map_option (\<lambda>w. sys_goto t Looping (sys_set w st))
                    (packet_handler disp os (ct_sock (sys_threads st ! t)) hdr data c (sys_world st)))
         | _ \<Rightarrow> None)
      else None)"
| "sys_exec conf disp os (Do_erase t) st =
     (if at_pc st t Erasing then
        Some (sys_goto t Returning (sys_set (ch_erase (ct_sock (sys_threads st ! t)) (sys_world st)) st))
      else None)"
| "sys_exec conf disp os (Do_return t) st =
     (if at_pc st t Returning then
        Some (sys_goto t Finished (sys_set (ch_return t (sys_world st)) st))
      else None)"
| "sys_exec conf disp os Do_stop st =
     (if sys_stop st = Running \<and> sys_status st = Srv_up then
        Some (sys_set (w_log [Sys_closesocket (sys_listener st)] (sys_world st))
               (st\<lparr>sys_status := Srv_close, sys_stop := Joining_acceptor\<rparr>))
      else None)"
| "sys_exec conf disp os Do_join_acceptor st =
     (if sys_stop st = Joining_acceptor \<and> \<not> sys_accepting st
      then Some (st\<lparr>sys_stop := Joining_clients\<rparr>) else None)"
| "sys_exec conf disp os Do_join_clients st =
     (if sys_stop st = Joining_clients \<and> (\<forall>th \<in> set (sys_threads st). ct_pc th = Finished)
      then Some (sys_set (clear_clients (sys_world st))
                  (st\<lparr>sys_stop := Stopped, sys_threads := []\<rparr>)) else None)"

primrec sys_run ::
  "keep_alive_config \<Rightarrow> 'a world_scheme dispatch_fun \<Rightarrow> (socket_t \<Rightarrow> buffer_t \<Rightarrow> int) \<Rightarrow> label list \<Rightarrow>
   'a world_scheme server_sys \<Rightarrow> 'a world_scheme server_sys option" where
  "sys_run conf disp os [] st = Some st"
| "sys_run conf disp os (l # ls) st =
     (case sys_exec conf disp os l st of None \<Rightarrow> None | Some st \<Rightarrow> sys_run conf disp os ls st)"

text \<open>The states the server can be in after a start.\<close>

inductive sys_reach ::
  "keep_alive_config \<Rightarrow> 'a world_scheme dispatch_fun \<Rightarrow> (socket_t \<Rightarrow> buffer_t \<Rightarrow> int) \<Rightarrow>
   'a world_scheme server_sys \<Rightarrow> bool" for conf disp os where
  reach_start: "w_clients w = [] \<Longrightarrow> w_objs w = Map.empty \<Longrightarrow> w_held w = {} \<Longrightarrow>
    sys_reach conf disp os (sys_start listener opened w)"
| reach_step: "sys_reach conf disp os st \<Longrightarrow> sys_exec conf disp os l st = Some st' \<Longrightarrow>
    sys_reach conf disp os st'"

section \<open>The invariant of the shared state\<close>

text \<open>
  \<open>A\<close> are the references held by running threads, \<open>R\<close> those ever registered, \<open>sock\<close> the socket
  a thread was made for: the list is a map, the objects that exist are the held and the
  listed ones, a listed reference stands under the number of its socket, and an object has
  the socket of its thread or none.
\<close>

definition world_ok :: "nat set \<Rightarrow> nat set \<Rightarrow> (nat \<Rightarrow> socket_t) \<Rightarrow> 'a world_scheme \<Rightarrow> bool" where
  "world_ok A R sock w \<longleftrightarrow>
     smap_ok (w_clients w) \<and> w_held w = A \<and> A \<subseteq> R \<and>
     dom (w_objs w) = A \<union> snd ` set (w_clients w) \<and>
     (\<forall>e \<in> set (w_clients w). snd e \<in> R \<and> fst e = sock (snd e)) \<and>
     (\<forall>t c. w_objs w t = Some c \<longrightarrow> cb_socket c = INVALID_SOCKET \<or> cb_socket c = sock t)"

lemma world_ok_log [simp]: "world_ok A R sock (w_log cs w) = world_ok A R sock w"
  by (simp add: world_ok_def)

lemma world_ok_sends: "sends_only w w' \<Longrightarrow> world_ok A R sock w \<Longrightarrow> world_ok A R sock w'"
  by (simp add: world_ok_def sends_only_def)

lemma world_ok_register:
  assumes "world_ok A R sock w" "t \<notin> R"
  shows "world_ok (insert t A) (insert t R) sock (ch_register t (sock t) addr w)"
proof -
  have sub: "set (smap_emplace (sock t) t (w_clients w)) \<subseteq> insert (sock t, t) (set (w_clients w))"
    "set (w_clients w) \<subseteq> set (smap_emplace (sock t) t (w_clients w))"
    by (rule set_smap_emplace, rule set_smap_emplace_old)
  then have "insert t A \<union> snd ` set (smap_emplace (sock t) t (w_clients w)) =
      insert t (A \<union> snd ` set (w_clients w))" by auto
  moreover have "\<forall>e \<in> set (smap_emplace (sock t) t (w_clients w)). snd e \<in> insert t R \<and> fst e = sock (snd e)"
    using assms(1) sub(1) by (auto simp: world_ok_def)
  ultimately show ?thesis
    using assms by (auto simp: world_ok_def ch_register_def smap_ok_emplace server_client_def)
qed

lemma ch_recv_object:
  assumes "ch_recv rcv t junk conn w = (ok, hdr, data, conn', w')" "w_objs w t = Some c"
  shows "\<exists>c' calls. w' = w_log calls (w\<lparr>w_objs := (w_objs w)(t \<mapsto> c')\<rparr>) \<and>
    (cb_socket c' = INVALID_SOCKET \<or> cb_socket c' = cb_socket c)"
proof -
  let ?s = "\<lparr>rs_client = c, rs_header = junk, rs_buff = [], rs_conn = conn, rs_calls = []\<rparr>"
  obtain s' where s': "sc_recv rcv ?s = (ok, s')"
    and w': "w' = w_log (rs_calls s') (w\<lparr>w_objs := (w_objs w)(t \<mapsto> rs_client s')\<rparr>)"
    using assms by (auto simp: ch_recv_def split: prod.splits)
  have "cb_socket (rs_client s') = INVALID_SOCKET \<or> cb_socket (rs_client s') = cb_socket c"
    using sc_recv_shape [OF s'] by (auto simp: sc_disconnect_def Let_def)
  with w' show ?thesis by blast
qed

lemma world_ok_recv:
  assumes "world_ok A R sock w" "t \<in> A" "ch_recv rcv t junk conn w = (ok, hdr, data, conn', w')"
  shows "world_ok A R sock w'"
proof -
  have "t \<in> dom (w_objs w)" using assms(1,2) unfolding world_ok_def by blast
  then obtain c where c: "w_objs w t = Some c" by blast
  obtain c' calls where w': "w' = w_log calls (w\<lparr>w_objs := (w_objs w)(t \<mapsto> c')\<rparr>)"
    and s: "cb_socket c' = INVALID_SOCKET \<or> cb_socket c' = cb_socket c"
    using ch_recv_object [OF assms(3) c] by blast
  have "cb_socket c' = INVALID_SOCKET \<or> cb_socket c' = sock t"
    using s c assms(1) unfolding world_ok_def by metis
  then show ?thesis
    using assms(1,2) c by (auto simp: w' world_ok_def insert_absorb)
qed

text \<open>Dropping references: the objects left are the held and the listed ones.\<close>

lemma w_release_frame [simp]:
  "w_clients (w_release t w) = w_clients w" "w_held (w_release t w) = w_held w"
  by (simp_all add: w_release_def split: option.split)

lemma w_release_objs:
  "w_objs (w_release t w) =
    (if t \<in> w_held w \<or> t \<in> snd ` set (w_clients w) then w_objs w else (w_objs w)(t := None))"
  by (auto simp: w_release_def split: option.split)

lemma world_ok_erase:
  assumes "world_ok A R sock w"
  shows "world_ok A R sock (ch_erase k w)"
proof (cases "map_of (w_clients w) k")
  case (Some t)
  let ?m = "smap_erase k (w_clients w)"
  have mem: "(k, t) \<in> set (w_clients w)" using Some by (rule map_of_SomeD)
  have "e = (k, t) \<or> e \<in> set ?m" if "e \<in> set (w_clients w)" for e
  proof -
    have "distinct (map fst (w_clients w))"
      using assms smap_ok_distinct by (auto simp: world_ok_def)
    then have "map_of (w_clients w) (fst e) = Some (snd e)" using that by simp
    then show ?thesis using that Some by (cases e) (auto simp: smap_erase_def)
  qed
  then have "snd ` set (w_clients w) = insert t (snd ` set ?m)"
    using mem set_smap_erase [of k "w_clients w"] by force
  moreover have "e \<in> set (w_clients w)" if "e \<in> set ?m" for e
    using that set_smap_erase [of k "w_clients w"] by auto
  ultimately show ?thesis
    using assms Some
    by (auto simp: ch_erase_def world_ok_def w_release_objs smap_ok_erase)
qed (simp add: ch_erase_def assms)

lemma world_ok_return:
  "world_ok A R sock w \<Longrightarrow> world_ok (A - {t}) R sock (ch_return t w)"
  by (auto simp: ch_return_def world_ok_def w_release_objs split: if_splits)

lemma clear_clients_frame:
  "w_clients (fold w_release ts w) = w_clients w \<and> w_held (fold w_release ts w) = w_held w"
  by (induction ts arbitrary: w) simp_all

lemma clear_clients_objs:
  "w_clients w = [] \<Longrightarrow> w_held w = {} \<Longrightarrow> w_objs (fold w_release ts w) = (w_objs w) |` (- set ts)"
  by (induction ts arbitrary: w) (auto simp: w_release_objs restrict_map_def fun_eq_iff)

lemma world_ok_clear:
  assumes "world_ok {} R sock w"
  shows "w_clients (clear_clients w) = []" "w_held (clear_clients w) = {}"
    "w_objs (clear_clients w) = Map.empty"
proof -
  show "w_clients (clear_clients w) = []" "w_held (clear_clients w) = {}"
    using assms by (simp_all add: clear_clients_def clear_clients_frame world_ok_def)
  have "dom (w_objs w) = snd ` set (w_clients w)" using assms by (simp add: world_ok_def)
  then show "w_objs (clear_clients w) = Map.empty"
    using assms
    by (auto simp: clear_clients_def clear_clients_objs world_ok_def restrict_map_def fun_eq_iff
        dest: domI)
qed

section \<open>The invariant of the system\<close>

definition active :: "conn_thread list \<Rightarrow> nat set" where
  "active ths = {t. t < length ths \<and> ct_pc (ths ! t) \<noteq> Spawned \<and> ct_pc (ths ! t) \<noteq> Finished}"

definition registered_refs :: "conn_thread list \<Rightarrow> nat set" where
  "registered_refs ths = {t. t < length ths \<and> ct_pc (ths ! t) \<noteq> Spawned}"

definition sock_of :: "conn_thread list \<Rightarrow> nat \<Rightarrow> socket_t" where
  "sock_of ths t = (if t < length ths then ct_sock (ths ! t) else INVALID_SOCKET)"

definition sys_inv :: "'a world_scheme server_sys \<Rightarrow> bool" where
  "sys_inv st \<longleftrightarrow>
     world_ok (active (sys_threads st)) (registered_refs (sys_threads st)) (sock_of (sys_threads st))
       (sys_world st) \<and>
     (sys_stop st = Running \<longleftrightarrow> sys_status st = Srv_up) \<and>
     (sys_stop st \<in> {Joining_clients, Stopped} \<longrightarrow> \<not> sys_accepting st) \<and>
     (sys_stop st = Stopped \<longrightarrow> sys_threads st = [])"

lemma goto_simps [simp]:
  "sys_status (sys_goto t pc st) = sys_status st" "sys_world (sys_goto t pc st) = sys_world st"
  "sys_stop (sys_goto t pc st) = sys_stop st" "sys_accepting (sys_goto t pc st) = sys_accepting st"
  "sys_status (sys_set w st) = sys_status st" "sys_world (sys_set w st) = w"
  "sys_stop (sys_set w st) = sys_stop st" "sys_accepting (sys_set w st) = sys_accepting st"
  "sys_threads (sys_set w st) = sys_threads st" "sys_listener (sys_set w st) = sys_listener st"
  by (simp_all add: sys_goto_def sys_set_def)

lemma goto_threads:
  "sys_threads (sys_goto t pc st) = (sys_threads st)[t := (sys_threads st ! t)\<lparr>ct_pc := pc\<rparr>]"
  by (simp add: sys_goto_def)

lemma sock_of_goto [simp]: "sock_of (ths[t := (ths ! t)\<lparr>ct_pc := pc\<rparr>]) = sock_of ths"
  by (rule ext, cases "t < length ths") (auto simp: sock_of_def nth_list_update)

lemma active_goto:
  "t < length ths \<Longrightarrow> active (ths[t := (ths ! t)\<lparr>ct_pc := pc\<rparr>]) =
    (if pc = Spawned \<or> pc = Finished then active ths - {t} else insert t (active ths))"
  by (auto simp: active_def nth_list_update)

lemma registered_goto:
  "t < length ths \<Longrightarrow> registered_refs (ths[t := (ths ! t)\<lparr>ct_pc := pc\<rparr>]) =
    (if pc = Spawned then registered_refs ths - {t} else insert t (registered_refs ths))"
  by (auto simp: registered_refs_def nth_list_update)

lemma threads_append:
  "active (ths @ [\<lparr>ct_sock = s, ct_addr = addr, ct_pc = Spawned\<rparr>]) = active ths"
  "registered_refs (ths @ [\<lparr>ct_sock = s, ct_addr = addr, ct_pc = Spawned\<rparr>]) = registered_refs ths"
  "t < length ths \<Longrightarrow> sock_of (ths @ [th]) t = sock_of ths t"
  by (auto simp: active_def registered_refs_def sock_of_def nth_append)

lemma registered_bound: "t \<in> registered_refs ths \<Longrightarrow> t < length ths"
  by (simp add: registered_refs_def)

lemma world_ok_sock:
  assumes "world_ok A R sock w" "\<And>t. t \<in> R \<Longrightarrow> sock' t = sock t"
  shows "world_ok A R sock' w"
proof -
  have r: "t \<in> R" if "w_objs w t = Some c" for t c
    using assms(1) domI [of "w_objs w" t c] that by (auto simp: world_ok_def)
  have "fst e = sock' (snd e)" if "e \<in> set (w_clients w)" for e
    using assms that by (auto simp: world_ok_def)
  moreover have "cb_socket c = INVALID_SOCKET \<or> cb_socket c = sock' t" if "w_objs w t = Some c" for t c
    using assms(1) that unfolding world_ok_def assms(2) [OF r [OF that]] by blast
  ultimately show ?thesis using assms(1) unfolding world_ok_def by blast
qed

text \<open>The steps of a thread: the threads that count as active stay the same, except for the
  first and the last step.\<close>

lemma inv_thread_step:
  assumes "sys_inv st" "t \<in> active (sys_threads st)" "pc \<noteq> Spawned" "pc \<noteq> Finished"
    and "world_ok (active (sys_threads st)) (registered_refs (sys_threads st))
          (sock_of (sys_threads st)) w"
  shows "sys_inv (sys_goto t pc (sys_set w st))"
proof -
  have "t < length (sys_threads st)" "t \<in> registered_refs (sys_threads st)"
    using assms(2) by (simp_all add: active_def registered_refs_def)
  moreover have "sys_stop st \<noteq> Stopped"
    using assms(1) calculation(1) by (auto simp: sys_inv_def)
  ultimately show ?thesis
    using assms
    by (simp add: sys_inv_def goto_threads active_goto registered_goto insert_absorb)
qed

lemma at_pc_active: "at_pc st t pc \<Longrightarrow> pc \<noteq> Spawned \<Longrightarrow> pc \<noteq> Finished \<Longrightarrow> t \<in> active (sys_threads st)"
  by (auto simp: at_pc_def active_def)

lemma sys_set_same: "sys_set (sys_world st) st = st"
  by (simp add: sys_set_def)

lemma sys_inv_world: "sys_inv st \<Longrightarrow>
    world_ok (active (sys_threads st)) (registered_refs (sys_threads st)) (sock_of (sys_threads st))
      (sys_world st)"
  by (simp add: sys_inv_def)

lemma inv_accept:
  assumes "sys_inv st" "sys_accepting st"
  shows "sys_inv (sys_accept conf s addr r1 r2 st)"
proof -
  have "sys_stop st \<noteq> Stopped" using assms by (auto simp: sys_inv_def)
  then show ?thesis
    using assms
    by (auto simp: sys_accept_def Let_def sys_inv_def threads_append split: prod.split
        intro: world_ok_sock dest!: registered_bound)
qed

lemma inv_register:
  assumes "sys_inv st" "at_pc st t Spawned"
  shows "sys_inv (sys_goto t Looping (sys_set
    (ch_register t (ct_sock (sys_threads st ! t)) (ct_addr (sys_threads st ! t)) (sys_world st)) st))"
proof -
  have t: "t < length (sys_threads st)" "t \<notin> registered_refs (sys_threads st)"
    "ct_sock (sys_threads st ! t) = sock_of (sys_threads st) t"
    using assms(2) by (simp_all add: at_pc_def registered_refs_def sock_of_def)
  then have "sys_stop st \<noteq> Stopped" using assms(1) by (auto simp: sys_inv_def)
  moreover have "world_ok (insert t (active (sys_threads st))) (insert t (registered_refs (sys_threads st)))
      (sock_of (sys_threads st))
      (ch_register t (sock_of (sys_threads st) t) (ct_addr (sys_threads st ! t)) (sys_world st))"
    using sys_inv_world [OF assms(1)] t(2) by (rule world_ok_register)
  ultimately show ?thesis
    using assms(1) t by (simp add: sys_inv_def goto_threads active_goto registered_goto)
qed

lemma inv_return:
  assumes "sys_inv st" "at_pc st t Returning"
  shows "sys_inv (sys_goto t Finished (sys_set (ch_return t (sys_world st)) st))"
proof -
  have t: "t < length (sys_threads st)" "t \<in> registered_refs (sys_threads st)"
    using assms(2) by (simp_all add: at_pc_def registered_refs_def)
  then have "sys_stop st \<noteq> Stopped" using assms(1) by (auto simp: sys_inv_def)
  then show ?thesis
    using assms(1) t world_ok_return [OF sys_inv_world [OF assms(1)], of t]
    by (simp add: sys_inv_def goto_threads active_goto registered_goto insert_absorb)
qed

lemma inv_join_clients:
  assumes "sys_inv st" "sys_stop st = Joining_clients" "\<forall>th \<in> set (sys_threads st). ct_pc th = Finished"
  shows "sys_inv (sys_set (clear_clients (sys_world st)) (st\<lparr>sys_stop := Stopped, sys_threads := []\<rparr>))"
    and "w_clients (clear_clients (sys_world st)) = []" "w_held (clear_clients (sys_world st)) = {}"
    "w_objs (clear_clients (sys_world st)) = Map.empty"
proof -
  have "active (sys_threads st) = {}"
    using assms(3) by (auto simp: active_def)
  then have w: "world_ok {} (registered_refs (sys_threads st)) (sock_of (sys_threads st)) (sys_world st)"
    using sys_inv_world [OF assms(1)] by simp
  note c = world_ok_clear [OF w]
  show "w_clients (clear_clients (sys_world st)) = []" "w_held (clear_clients (sys_world st)) = {}"
    "w_objs (clear_clients (sys_world st)) = Map.empty" by (rule c)+
  have "world_ok {} {} sock (clear_clients (sys_world st))" for sock
    using c by (simp add: world_ok_def)
  moreover have "active [] = {}" "registered_refs [] = {}"
    by (simp_all add: active_def registered_refs_def)
  ultimately show "sys_inv (sys_set (clear_clients (sys_world st)) (st\<lparr>sys_stop := Stopped, sys_threads := []\<rparr>))"
    using assms(1,2) by (simp add: sys_inv_def)
qed

lemma inv_step:
  assumes disp: "disp_sends_only disp" and inv: "sys_inv st" and step: "sys_exec conf disp os l st = Some st'"
  shows "sys_inv st'"
proof (cases l)
  case (Do_accept s addr r1 r2)
  then show ?thesis using step inv inv_accept by (auto split: if_splits)
next
  case Do_accept_end
  then show ?thesis using step inv by (auto simp: sys_inv_def split: if_splits)
next
  case (Do_register t)
  then show ?thesis using step inv inv_register by (auto simp: Let_def split: if_splits)
next
  case (Do_check t)
  then show ?thesis
    using step inv_thread_step [OF inv, of t _ "sys_world st"] at_pc_active [of st t Looping]
      sys_inv_world [OF inv]
    by (auto simp: sys_set_same split: if_splits)
next
  case (Do_recv t junk segs)
  obtain ok hdr data rest w where r: "ch_recv seg_recv t junk segs (sys_world st) = (ok, hdr, data, rest, w)"
    by (metis prod_cases5)
  have t: "at_pc st t Receiving" and st': "st' = sys_goto t (if ok then Handling hdr data else Erasing) (sys_set w st)"
    using step Do_recv r by (auto split: if_splits)
  have a: "t \<in> active (sys_threads st)" using t by (rule at_pc_active) simp_all
  show ?thesis
    unfolding st' by (rule inv_thread_step [OF inv a]) (use world_ok_recv [OF sys_inv_world [OF inv] a r] in simp_all)
next
  case (Do_handle t)
  obtain hdr data c w where t: "at_pc st t (Handling hdr data)"
    and p: "packet_handler disp os (ct_sock (sys_threads st ! t)) hdr data c (sys_world st) = Some w"
    and st': "st' = sys_goto t Looping (sys_set w st)"
    using step Do_handle by (auto simp: at_pc_def split: if_splits thread_pc.splits option.splits)
  have a: "t \<in> active (sys_threads st)" using t by (rule at_pc_active) simp_all
  show ?thesis
    unfolding st'
    by (rule inv_thread_step [OF inv a])
      (use world_ok_sends [OF packet_handler_sends_only [OF disp p] sys_inv_world [OF inv]] in simp_all)
next
  case (Do_erase t)
  have t: "at_pc st t Erasing"
    and st': "st' = sys_goto t Returning (sys_set (ch_erase (ct_sock (sys_threads st ! t)) (sys_world st)) st)"
    using step Do_erase by (auto split: if_splits)
  have a: "t \<in> active (sys_threads st)" using t by (rule at_pc_active) simp_all
  show ?thesis
    unfolding st' by (rule inv_thread_step [OF inv a]) (use world_ok_erase [OF sys_inv_world [OF inv]] in simp_all)
next
  case (Do_return t)
  then show ?thesis using step inv inv_return by (auto split: if_splits)
next
  case Do_stop
  then show ?thesis using step inv by (auto simp: sys_inv_def split: if_splits)
next
  case Do_join_acceptor
  then show ?thesis using step inv by (auto simp: sys_inv_def split: if_splits)
next
  case Do_join_clients
  then show ?thesis using step inv inv_join_clients(1) [OF inv] by (auto split: if_splits)
qed

lemma inv_start:
  "w_clients w = [] \<Longrightarrow> w_objs w = Map.empty \<Longrightarrow> w_held w = {} \<Longrightarrow> sys_inv (sys_start listener opened w)"
  by (simp add: sys_inv_def sys_start_def world_ok_def active_def registered_refs_def)

lemma inv_reach:
  assumes "disp_sends_only disp" "sys_reach conf disp os st"
  shows "sys_inv st"
  using assms(2) by induction (auto intro: inv_start inv_step [OF assms(1)])

lemma reach_run: "sys_reach conf disp os st \<Longrightarrow> sys_run conf disp os ls st = Some st' \<Longrightarrow> sys_reach conf disp os st'"
proof (induction ls arbitrary: st)
  case (Cons l ls)
  then obtain st1 where "sys_exec conf disp os l st = Some st1" "sys_run conf disp os ls st1 = Some st'"
    by (auto split: option.splits)
  with Cons show ?case using reach_step by blast
qed simp

section \<open>Properties\<close>


text \<open>C9: a stop that returns leaves nothing behind: no thread, no listed client, no object, no
  reference, and nobody accepts any more.\<close>

theorem stop_leaves_nothing:
  assumes "disp_sends_only disp" "sys_reach conf disp os st" "sys_stop st = Stopped"
  shows "sys_threads st = [] \<and> w_clients (sys_world st) = [] \<and> w_objs (sys_world st) = Map.empty \<and>
    w_held (sys_world st) = {} \<and> \<not> sys_accepting st \<and> sys_status st \<noteq> Srv_up"
proof -
  have inv: "sys_inv st" using assms(1,2) by (rule inv_reach)
  then have th: "sys_threads st = []" using assms(3) by (simp add: sys_inv_def)
  then have "world_ok {} {} (sock_of []) (sys_world st)"
    using sys_inv_world [OF inv] by (simp add: active_def registered_refs_def)
  moreover have "w_clients (sys_world st) = []"
    using calculation by (cases "w_clients (sys_world st)") (auto simp: world_ok_def)
  ultimately show ?thesis
    using inv th assms(3) by (auto simp: world_ok_def sys_inv_def)
qed

lemma idle_step:
  assumes "sys_exec conf disp os l st = Some st'" "at_pc st t Receiving" "sys_stop st \<noteq> Stopped"
    and "\<And>junk segs. l \<noteq> Do_recv t junk segs"
  shows "at_pc st' t Receiving \<and> sys_stop st' \<noteq> Stopped"
proof -
  have other: "at_pc (sys_goto u pc st1) t Receiving"
    if "at_pc st1 t Receiving" "t \<noteq> u" for u pc and st1 :: "'a world_scheme server_sys"
    using that by (simp add: at_pc_def goto_threads)
  have set: "at_pc (sys_set w st1) t Receiving = at_pc st1 t Receiving"
    for w and st1 :: "'a world_scheme server_sys"
    by (simp add: at_pc_def)
  have ne: "t \<noteq> u" if "at_pc st u pc" "pc \<noteq> Receiving" for u pc
    using assms(2) that by (auto simp: at_pc_def)
  show ?thesis
  proof (cases l)
    case (Do_accept s addr r1 r2)
    then show ?thesis
      using assms(1-3)
      by (auto simp: sys_accept_def Let_def at_pc_def nth_append split: if_splits prod.splits)
  next
    case (Do_handle u)
    then show ?thesis
      using assms(1-3) ne [of u] other set
      by (auto simp: at_pc_def split: if_splits thread_pc.splits option.splits)
  next
    case (Do_recv u junk segs)
    then have "t \<noteq> u" using assms(4) by blast
    then show ?thesis
      using Do_recv assms(1-3) other [of "sys_set _ st" u] set by (auto split: if_splits prod.splits)
  next
    case Do_join_clients
    then have "ct_pc (sys_threads st ! t) = Finished"
      using assms(1,2) by (auto simp: at_pc_def split: if_splits)
    then show ?thesis using assms(2) by (simp add: at_pc_def)
  qed (use assms other set ne in \<open>auto simp: at_pc_def Let_def split: if_splits prod.splits\<close>)
qed

text \<open>An idle client blocks \<^verbatim>\<open>stop\<close>: as long as a thread that is reading gets nothing from its
  peer, no sequence of steps lets \<^verbatim>\<open>stop\<close> return.  It closes the listening socket and waits
  for threads it never wakes.\<close>

theorem stop_waits_for_idle_client:
  assumes "sys_run conf disp os ls st = Some st'" "at_pc st t Receiving" "sys_stop st \<noteq> Stopped"
    and "\<forall>l \<in> set ls. \<forall>junk segs. l \<noteq> Do_recv t junk segs"
  shows "at_pc st' t Receiving \<and> sys_stop st' \<noteq> Stopped"
  using assms
proof (induction ls arbitrary: st)
  case (Cons l ls)
  then obtain st1 where s: "sys_exec conf disp os l st = Some st1" "sys_run conf disp os ls st1 = Some st'"
    by (auto split: option.splits)
  have "at_pc st1 t Receiving \<and> sys_stop st1 \<noteq> Stopped"
    using idle_step [OF s(1) Cons.prems(2,3)] Cons.prems(4) by simp
  with Cons.IH [OF s(2)] Cons.prems(4) show ?case by simp
qed simp

section \<open>Concrete runs\<close>

definition here :: sockaddr_in where
  "here = \<lparr>sin_addr = 0, sin_port = 0\<rparr>"

abbreviation fresh_sys :: "world server_sys" where
  "fresh_sys \<equiv> sys_start 3 {} empty_world"

abbreviation demo_run :: "label list \<Rightarrow> world server_sys option" where
  "demo_run ls \<equiv> sys_run default_keep_alive deaf (\<lambda>s b. 0) ls fresh_sys"

abbreviation demo_reach :: "world server_sys \<Rightarrow> bool" where
  "demo_reach \<equiv> sys_reach default_keep_alive deaf (\<lambda>s b. 0)"

lemma fresh_reach: "demo_reach fresh_sys"
  by (rule reach_start) (simp_all add: empty_world_def)

lemma deaf_sends_only: "disp_sends_only deaf"
  by (simp add: disp_sends_only_def deaf_def)

lemmas run_simps = sys_start_def empty_world_def sys_accept_def set_keep_alive_def sys_set_def
  sys_goto_def at_pc_def ch_register_def ch_erase_def ch_return_def w_release_def w_log_def
  ch_recv_def sc_recv_def rs_disconnect_def sc_disconnect_def server_client_def
  server_client_destroy_def smap_erase_def clear_clients_def INVALID_SOCKET_def here_def

text \<open>One client that connects and waits while the server is told to stop.\<close>

lemma idle_run: "\<exists>st. demo_run [Do_accept 5 here 0 0, Do_register 0, Do_check 0] = Some st \<and>
    at_pc st 0 Receiving \<and> sys_stop st = Running \<and> w_clients (sys_world st) = [(5, 0)]"
  by (simp add: run_simps)


lemma stop_run: "\<exists>st. demo_run [Do_accept 5 here 0 0, Do_register 0, Do_stop, Do_accept_end,
      Do_join_acceptor, Do_check 0, Do_return 0, Do_join_clients] = Some st \<and> sys_stop st = Stopped"
  by (simp add: run_simps)

theorem stop_leaves_nothing_witness:
  "\<exists>st. demo_run [Do_accept 5 here 0 0, Do_register 0, Do_stop, Do_accept_end,
      Do_join_acceptor, Do_check 0, Do_return 0, Do_join_clients] = Some st \<and>
    w_objs (sys_world st) = Map.empty"
proof -
  obtain st where st: "demo_run [Do_accept 5 here 0 0, Do_register 0, Do_stop, Do_accept_end,
      Do_join_acceptor, Do_check 0, Do_return 0, Do_join_clients] = Some st" "sys_stop st = Stopped"
    using stop_run by blast
  have "demo_reach st" using fresh_reach st(1) by (rule reach_run)
  from stop_leaves_nothing [OF deaf_sends_only this st(2)] st show ?thesis by blast
qed

theorem stop_waits_for_idle_client_witness:
  "\<exists>st st'. demo_run [Do_accept 5 here 0 0, Do_register 0, Do_check 0] = Some st \<and>
    sys_run default_keep_alive deaf (\<lambda>s b. 0) [Do_stop, Do_accept_end, Do_join_acceptor] st = Some st' \<and>
    sys_stop st' \<noteq> Stopped"
proof -
  let ?ls = "[Do_stop, Do_accept_end, Do_join_acceptor]"
  obtain st st' where st: "demo_run [Do_accept 5 here 0 0, Do_register 0, Do_check 0] = Some st"
    "at_pc st 0 Receiving" "sys_stop st = Running"
    and st': "sys_run default_keep_alive deaf (\<lambda>s b. 0) ?ls st = Some st'"
    by (simp add: run_simps)
  from stop_waits_for_idle_client [OF st' st(2)] st st' show ?thesis by simp
qed

text \<open>Reusing a socket number loses a client.  A thread whose read fails closes its socket
  before it takes its entry off the list; if the next connection gets the same number and
  registers in between, its entry is not inserted (the key is there) and then the other
  thread erases it: the new client is connected and served, but not listed, and no
  message ever reaches it.\<close>

theorem socket_reuse_loses_client:
  "\<exists>st. demo_reach st \<and> at_pc st 1 Receiving \<and>
    (\<exists>c. w_objs (sys_world st) 1 = Some c \<and> cb_socket c = 5 \<and> cb_status c = Cl_connected) \<and>
    5 \<in> sys_open st \<and> w_clients (sys_world st) = [] \<and>
    send_to os 5 cmd buff (sys_world st) = (False, sys_world st)"
proof -
  have "\<exists>st. demo_run [Do_accept 5 here 0 0, Do_register 0, Do_check 0, Do_recv 0 [] [],
      Do_accept 5 here 0 0, Do_register 1, Do_check 1, Do_erase 0] = Some st \<and>
    at_pc st 1 Receiving \<and>
    (\<exists>c. w_objs (sys_world st) 1 = Some c \<and> cb_socket c = 5 \<and> cb_status c = Cl_connected) \<and>
    5 \<in> sys_open st \<and> w_clients (sys_world st) = []"
    by (simp add: run_simps)
  then show ?thesis using reach_run [OF fresh_reach] by (fastforce simp: send_to_def)
qed

text \<open>A connection whose keep-alive options cannot be set is closed and served all the same:
  its thread closes the number a second time, and by then it can belong to the next client,
  whose connection dies while its thread is reading.\<close>

theorem keep_alive_failure_closes_other:
  "\<exists>st. demo_reach st \<and> at_pc st 1 Receiving \<and>
    (\<exists>c. w_objs (sys_world st) 1 = Some c \<and> cb_socket c = 5 \<and> cb_status c = Cl_connected) \<and>
    5 \<notin> sys_open st"
proof -
  have "\<exists>st. demo_run [Do_accept 5 here (-1) 0, Do_accept 5 here 0 0, Do_register 0, Do_check 0,
      Do_register 1, Do_check 1, Do_recv 0 [] []] = Some st \<and>
    at_pc st 1 Receiving \<and>
    (\<exists>c. w_objs (sys_world st) 1 = Some c \<and> cb_socket c = 5 \<and> cb_status c = Cl_connected) \<and>
    5 \<notin> sys_open st"
    by (simp add: run_simps)
  then show ?thesis using reach_run [OF fresh_reach] by blast
qed

end
