(* ===== verification/Spd_Flags.thy ===== *)
theory Spd_Flags
  imports Spd_Common
begin

text \<open>
  The flags of a log pattern (\<^verbatim>\<open>contrib/spdlog/include/spdlog/pattern_formatter-inl.h\<close>): one
  definition for each formatter class, from the two padders to the full formatter.  A
  formatter appends to the line built so far; \<^term>\<open>None\<close> is an exception.
\<close>

section \<open>Padding\<close>

datatype pad_side = Side_left | Side_right | Side_center

record padding_info =
  pad_width :: nat
  pad_side :: pad_side
  pad_truncate :: bool
  pad_enabled :: bool

definition no_padding :: padding_info where
  "no_padding = \<lparr>pad_width = 0, pad_side = Side_left, pad_truncate = False, pad_enabled = False\<rparr>"

text \<open>The template argument of a formatter class: the padder it uses.\<close>

datatype padder = Scoped_padder | Null_padder

abbreviation spaces :: "nat \<Rightarrow> string" where
  "spaces n \<equiv> replicate n (CHR '' '')"

definition scoped_padder_open :: "padding_info \<Rightarrow> nat \<Rightarrow> string \<Rightarrow> int \<times> string" where
  "scoped_padder_open pi wrapped dest =
     (let remaining = int (pad_width pi) - int wrapped in
      if remaining \<le> 0 then (remaining, dest)
      else (case pad_side pi of
              Side_left \<Rightarrow> (0, dest @ spaces (nat remaining))
            | Side_center \<Rightarrow>
                let half_pad = remaining div 2; reminder = remaining mod 2
                in (half_pad + reminder, dest @ spaces (nat half_pad))
            | Side_right \<Rightarrow> (remaining, dest)))"

text \<open>The destructor pads the right side or cuts off what is too long.  A size below zero is
  converted to \<^verbatim>\<open>size_t\<close>: the buffer cannot grow to that size, and \<^verbatim>\<open>resize\<close> throws.\<close>

definition scoped_padder_close :: "padding_info \<Rightarrow> int \<Rightarrow> string \<Rightarrow> string option" where
  "scoped_padder_close pi remaining dest =
     (if 0 \<le> remaining then Some (dest @ spaces (nat remaining))
      else if pad_truncate pi then
        let new_size = int (length dest) + remaining
        in if new_size < 0 then None else Some (take (nat new_size) dest)
      else Some dest)"

definition padded :: "padder \<Rightarrow> padding_info \<Rightarrow> nat \<Rightarrow> string \<Rightarrow> string \<Rightarrow> string option" where
  "padded P pi wrapped text dest =
     (case P of
        Null_padder \<Rightarrow> Some (dest @ text)
      | Scoped_padder \<Rightarrow>
          let (remaining, dest) = scoped_padder_open pi wrapped dest
          in scoped_padder_close pi remaining (dest @ text))"

definition count_digits :: "padder \<Rightarrow> nat \<Rightarrow> nat" where
  "count_digits P n = (case P of Scoped_padder \<Rightarrow> fmt_count_digits n | Null_padder \<Rightarrow> 0)"

section \<open>Name and level\<close>

type_synonym flag_fun = "log_msg \<Rightarrow> tm \<Rightarrow> string \<Rightarrow> string option"

definition name_formatter :: "padder \<Rightarrow> padding_info \<Rightarrow> flag_fun" where
  "name_formatter P pi msg t dest =
     padded P pi (length (lm_logger_name msg)) (lm_logger_name msg) dest"

definition level_formatter :: "padder \<Rightarrow> padding_info \<Rightarrow> flag_fun" where
  "level_formatter P pi msg t dest =
     (let level_name = to_string_view (lm_level msg)
      in padded P pi (length level_name) level_name dest)"

definition short_level_formatter :: "padder \<Rightarrow> padding_info \<Rightarrow> flag_fun" where
  "short_level_formatter P pi msg t dest =
     (let level_name = to_short_c_str (lm_level msg)
      in padded P pi (length level_name) level_name dest)"

section \<open>Date and time\<close>

definition ampm :: "tm \<Rightarrow> string" where
  "ampm t = (if 12 \<le> tm_hour t then ''PM'' else ''AM'')"

definition to12h :: "tm \<Rightarrow> int" where
  "to12h t = (if 12 < tm_hour t then tm_hour t - 12 else tm_hour t)"

definition days :: "string list" where
  "days = [''Sun'', ''Mon'', ''Tue'', ''Wed'', ''Thu'', ''Fri'', ''Sat'']"

definition full_days :: "string list" where
  "full_days =
     [''Sunday'', ''Monday'', ''Tuesday'', ''Wednesday'', ''Thursday'', ''Friday'', ''Saturday'']"

definition months :: "string list" where
  "months = [''Jan'', ''Feb'', ''Mar'', ''Apr'', ''May'', ''Jun'', ''Jul'', ''Aug'', ''Sept'',
     ''Oct'', ''Nov'', ''Dec'']"

definition full_months :: "string list" where
  "full_months = [''January'', ''February'', ''March'', ''April'', ''May'', ''June'', ''July'',
     ''August'', ''September'', ''October'', ''November'', ''December'']"

text \<open>\<^verbatim>\<open>static_cast<size_t>\<close> of the index; outside the array the behaviour is undefined, as is
  the value here.\<close>

definition array_at :: "string list \<Rightarrow> int \<Rightarrow> string" where
  "array_at xs i = xs ! unat (of_int i :: u64)"

definition a_formatter :: "padder \<Rightarrow> padding_info \<Rightarrow> flag_fun" where
  "a_formatter P pi msg t dest =
     (let field_value = array_at days (tm_wday t)
      in padded P pi (length field_value) field_value dest)"

definition A_formatter :: "padder \<Rightarrow> padding_info \<Rightarrow> flag_fun" where
  "A_formatter P pi msg t dest =
     (let field_value = array_at full_days (tm_wday t)
      in padded P pi (length field_value) field_value dest)"

definition b_formatter :: "padder \<Rightarrow> padding_info \<Rightarrow> flag_fun" where
  "b_formatter P pi msg t dest =
     (let field_value = array_at months (tm_mon t)
      in padded P pi (length field_value) field_value dest)"

definition B_formatter :: "padder \<Rightarrow> padding_info \<Rightarrow> flag_fun" where
  "B_formatter P pi msg t dest =
     (let field_value = array_at full_months (tm_mon t)
      in padded P pi (length field_value) field_value dest)"

definition c_formatter :: "padder \<Rightarrow> padding_info \<Rightarrow> flag_fun" where
  "c_formatter P pi msg t dest =
     padded P pi 24
       (array_at days (tm_wday t) @ '' '' @ array_at months (tm_mon t) @ '' '' @
        append_int (tm_mday t) @ '' '' @
        pad2 (tm_hour t) @ '':'' @ pad2 (tm_min t) @ '':'' @ pad2 (tm_sec t) @ '' '' @
        append_int (tm_year t + 1900)) dest"

definition C_formatter :: "padder \<Rightarrow> padding_info \<Rightarrow> flag_fun" where
  "C_formatter P pi msg t dest = padded P pi 2 (pad2 (tm_year t smod 100)) dest"

definition D_formatter :: "padder \<Rightarrow> padding_info \<Rightarrow> flag_fun" where
  "D_formatter P pi msg t dest =
     padded P pi 10
       (pad2 (tm_mon t + 1) @ ''/'' @ pad2 (tm_mday t) @ ''/'' @ pad2 (tm_year t smod 100)) dest"

definition Y_formatter :: "padder \<Rightarrow> padding_info \<Rightarrow> flag_fun" where
  "Y_formatter P pi msg t dest = padded P pi 4 (append_int (tm_year t + 1900)) dest"

definition m_formatter :: "padder \<Rightarrow> padding_info \<Rightarrow> flag_fun" where
  "m_formatter P pi msg t dest = padded P pi 2 (pad2 (tm_mon t + 1)) dest"

definition d_formatter :: "padder \<Rightarrow> padding_info \<Rightarrow> flag_fun" where
  "d_formatter P pi msg t dest = padded P pi 2 (pad2 (tm_mday t)) dest"

definition H_formatter :: "padder \<Rightarrow> padding_info \<Rightarrow> flag_fun" where
  "H_formatter P pi msg t dest = padded P pi 2 (pad2 (tm_hour t)) dest"

definition I_formatter :: "padder \<Rightarrow> padding_info \<Rightarrow> flag_fun" where
  "I_formatter P pi msg t dest = padded P pi 2 (pad2 (to12h t)) dest"

definition M_formatter :: "padder \<Rightarrow> padding_info \<Rightarrow> flag_fun" where
  "M_formatter P pi msg t dest = padded P pi 2 (pad2 (tm_min t)) dest"

definition S_formatter :: "padder \<Rightarrow> padding_info \<Rightarrow> flag_fun" where
  "S_formatter P pi msg t dest = padded P pi 2 (pad2 (tm_sec t)) dest"

text \<open>The fractions of a second are cast to an unsigned type before they are printed.\<close>

definition e_formatter :: "padder \<Rightarrow> padding_info \<Rightarrow> flag_fun" where
  "e_formatter P pi msg t dest =
     padded P pi 3
       (pad3 (unat (of_int (time_fraction milliseconds (lm_time msg)) :: u32))) dest"

definition f_formatter :: "padder \<Rightarrow> padding_info \<Rightarrow> flag_fun" where
  "f_formatter P pi msg t dest =
     padded P pi 6
       (pad6 (unat (of_int (time_fraction microseconds (lm_time msg)) :: u64))) dest"

definition F_formatter :: "padder \<Rightarrow> padding_info \<Rightarrow> flag_fun" where
  "F_formatter P pi msg t dest =
     padded P pi 9
       (pad9 (unat (of_int (time_fraction nanoseconds (lm_time msg)) :: u64))) dest"

definition E_formatter :: "padder \<Rightarrow> padding_info \<Rightarrow> flag_fun" where
  "E_formatter P pi msg t dest =
     padded P pi 10 (append_int (duration_cast seconds (lm_time msg))) dest"

definition p_formatter :: "padder \<Rightarrow> padding_info \<Rightarrow> flag_fun" where
  "p_formatter P pi msg t dest = padded P pi 2 (ampm t) dest"

definition r_formatter :: "padder \<Rightarrow> padding_info \<Rightarrow> flag_fun" where
  "r_formatter P pi msg t dest =
     padded P pi 11
       (pad2 (to12h t) @ '':'' @ pad2 (tm_min t) @ '':'' @ pad2 (tm_sec t) @ '' '' @ ampm t) dest"

definition R_formatter :: "padder \<Rightarrow> padding_info \<Rightarrow> flag_fun" where
  "R_formatter P pi msg t dest =
     padded P pi 5 (pad2 (tm_hour t) @ '':'' @ pad2 (tm_min t)) dest"

definition T_formatter :: "padder \<Rightarrow> padding_info \<Rightarrow> flag_fun" where
  "T_formatter P pi msg t dest =
     padded P pi 8
       (pad2 (tm_hour t) @ '':'' @ pad2 (tm_min t) @ '':'' @ pad2 (tm_sec t)) dest"

text \<open>The offset from UTC is asked for again ten seconds after the last time it was.\<close>

record z_state =
  zs_last_update :: int
  zs_offset_minutes :: int

definition get_cached_offset :: "platform \<Rightarrow> log_msg \<Rightarrow> tm \<Rightarrow> z_state \<Rightarrow> (int \<times> z_state) option" where
  "get_cached_offset os msg t z =
     (if 10 * seconds \<le> lm_time msg - zs_last_update z then
        (case utc_minutes_offset os t of
           None \<Rightarrow> None
         | Some off \<Rightarrow> Some (off, \<lparr>zs_last_update = lm_time msg, zs_offset_minutes = off\<rparr>))
      else Some (zs_offset_minutes z, z))"

definition offset_text :: "int \<Rightarrow> string" where
  "offset_text total_minutes =
     (let is_negative = total_minutes < 0;
          m = (if is_negative then - total_minutes else total_minutes)
      in (if is_negative then ''-'' else ''+'') @ pad2 (m sdiv 60) @ '':'' @ pad2 (m smod 60))"

definition z_formatter ::
  "platform \<Rightarrow> padder \<Rightarrow> padding_info \<Rightarrow> z_state \<Rightarrow> log_msg \<Rightarrow> tm \<Rightarrow> string \<Rightarrow>
   (z_state \<times> string) option" where
  "z_formatter os P pi z msg t dest =
     (case get_cached_offset os msg t z of
        None \<Rightarrow> None
      | Some (total_minutes, z) \<Rightarrow>
          map_option (\<lambda>dest. (z, dest)) (padded P pi 6 (offset_text total_minutes) dest))"

section \<open>Thread, process and message\<close>

definition t_formatter :: "padder \<Rightarrow> padding_info \<Rightarrow> flag_fun" where
  "t_formatter P pi msg t dest =
     padded P pi (count_digits P (unat (lm_thread_id msg)))
       (append_int (uint (lm_thread_id msg))) dest"

definition pid_formatter :: "platform \<Rightarrow> padder \<Rightarrow> padding_info \<Rightarrow> flag_fun" where
  "pid_formatter os P pi msg t dest =
     padded P pi (count_digits P (unat (os_pid os))) (append_int (uint (os_pid os))) dest"

definition v_formatter :: "padder \<Rightarrow> padding_info \<Rightarrow> flag_fun" where
  "v_formatter P pi msg t dest = padded P pi (length (lm_payload msg)) (lm_payload msg) dest"

definition ch_formatter :: "char \<Rightarrow> flag_fun" where
  "ch_formatter c msg t dest = Some (dest @ [c])"

definition aggregate_formatter :: "string \<Rightarrow> flag_fun" where
  "aggregate_formatter str msg t dest = Some (dest @ str)"

text \<open>The two marks of the coloured range write into the message.\<close>

definition color_start_formatter :: "string \<Rightarrow> log_msg \<Rightarrow> log_msg" where
  "color_start_formatter dest msg = msg\<lparr>lm_color_start := length dest\<rparr>"

definition color_stop_formatter :: "string \<Rightarrow> log_msg \<Rightarrow> log_msg" where
  "color_stop_formatter dest msg = msg\<lparr>lm_color_end := length dest\<rparr>"

section \<open>Source location\<close>

definition source_location_formatter :: "padder \<Rightarrow> padding_info \<Rightarrow> flag_fun" where
  "source_location_formatter P pi msg t dest =
     (let s = lm_source msg in
      if source_empty s then Some dest
      else
        let text_size =
              (if pad_enabled pi
               then length (sl_filename s) + count_digits P (unat (sl_line s)) + 1 else 0)
        in padded P pi text_size (sl_filename s @ '':'' @ append_int (sint (sl_line s))) dest)"

definition source_filename_formatter :: "padder \<Rightarrow> padding_info \<Rightarrow> flag_fun" where
  "source_filename_formatter P pi msg t dest =
     (let s = lm_source msg in
      if source_empty s then Some dest
      else padded P pi (if pad_enabled pi then length (sl_filename s) else 0) (sl_filename s) dest)"

definition basename :: "platform \<Rightarrow> string \<Rightarrow> string" where
  "basename os filename =
     rev (takeWhile (\<lambda>c. c \<notin> set (os_folder_seps os)) (rev filename))"

definition short_filename_formatter :: "platform \<Rightarrow> padder \<Rightarrow> padding_info \<Rightarrow> flag_fun" where
  "short_filename_formatter os P pi msg t dest =
     (if source_empty (lm_source msg) then Some dest
      else
        let filename = basename os (sl_filename (lm_source msg))
        in padded P pi (if pad_enabled pi then length filename else 0) filename dest)"

definition source_linenum_formatter :: "padder \<Rightarrow> padding_info \<Rightarrow> flag_fun" where
  "source_linenum_formatter P pi msg t dest =
     (let s = lm_source msg in
      if source_empty s then Some dest
      else padded P pi (count_digits P (unat (sl_line s))) (append_int (sint (sl_line s))) dest)"

definition source_funcname_formatter :: "padder \<Rightarrow> padding_info \<Rightarrow> flag_fun" where
  "source_funcname_formatter P pi msg t dest =
     (let s = lm_source msg in
      if source_empty s then Some dest
      else padded P pi (if pad_enabled pi then length (sl_funcname s) else 0) (sl_funcname s) dest)"

section \<open>Elapsed time and the full format\<close>

definition elapsed_formatter ::
  "padder \<Rightarrow> int \<Rightarrow> padding_info \<Rightarrow> int \<Rightarrow> log_msg \<Rightarrow> string \<Rightarrow> (int \<times> string) option" where
  "elapsed_formatter P units pi since msg dest =
     (let delta = max (lm_time msg - since) 0;
          delta_units = duration_cast units delta;
          delta_count = unat (of_int delta_units :: u64)
      in map_option (\<lambda>dest. (lm_time msg, dest))
           (padded P pi (count_digits P delta_count) (append_int (int delta_count)) dest))"

record full_state =
  fs_cache_timestamp :: int
  fs_cached_datetime :: string

definition datetime_text :: "tm \<Rightarrow> string" where
  "datetime_text t =
     ''['' @ append_int (tm_year t + 1900) @ ''-'' @ pad2 (tm_mon t + 1) @ ''-'' @
     pad2 (tm_mday t) @ '' '' @ pad2 (tm_hour t) @ '':'' @ pad2 (tm_min t) @ '':'' @
     pad2 (tm_sec t) @ ''.''"

definition full_formatter ::
  "platform \<Rightarrow> full_state \<Rightarrow> log_msg \<Rightarrow> tm \<Rightarrow> string \<Rightarrow> full_state \<times> log_msg \<times> string" where
  "full_formatter os fs msg t dest =
     (let secs = duration_cast seconds (lm_time msg);
          fs = (if fs_cache_timestamp fs \<noteq> secs \<or> fs_cached_datetime fs = [] then
                  \<lparr>fs_cache_timestamp = secs, fs_cached_datetime = datetime_text t\<rparr> else fs);
          dest = dest @ fs_cached_datetime fs;
          millis = time_fraction milliseconds (lm_time msg);
          dest = dest @ pad3 (unat (of_int millis :: u32)) @ ''] '';
          dest = (if lm_logger_name msg \<noteq> [] then dest @ ''['' @ lm_logger_name msg @ ''] ''
                  else dest);
          dest = dest @ ''['';
          msg = msg\<lparr>lm_color_start := length dest\<rparr>;
          dest = dest @ to_string_view (lm_level msg);
          msg = msg\<lparr>lm_color_end := length dest\<rparr>;
          dest = dest @ ''] '';
          dest = (if source_empty (lm_source msg) then dest
                  else dest @ ''['' @ basename os (sl_filename (lm_source msg)) @ '':'' @
                         append_int (sint (sl_line (lm_source msg))) @ ''] '')
      in (fs, msg, dest @ lm_payload msg))"

end
