(* ===== verification/Spd_Pattern.thy ===== *)
theory Spd_Pattern
  imports Spd_Flags
begin

text \<open>
  The pattern formatter of the logging library
  (\<^verbatim>\<open>contrib/spdlog/include/spdlog/pattern_formatter-inl.h\<close>): a pattern is compiled once into
  a list of flag formatters, which then print every message.  The program adds no flags of
  its own, so the map of custom flags is empty and is left out.
\<close>

section \<open>Flag formatters\<close>

text \<open>The classes whose objects keep no state between messages are told apart by a kind; the
  others carry their state.\<close>

datatype flag_kind =
  K_name | K_level | K_short_level | K_thread | K_payload
| K_a | K_A | K_b | K_B | K_c | K_C | K_Y | K_D | K_m | K_d | K_H | K_I | K_M | K_S
| K_e | K_f | K_F | K_E | K_p | K_r | K_R | K_T
| K_pid | K_location | K_short_filename | K_filename | K_linenum | K_funcname

datatype flag_formatter =
  Flag flag_kind padder padding_info
| Z_flag padder padding_info z_state
| Elapsed_flag padder int padding_info int
| Full_flag padding_info full_state
| Ch_flag char
| Aggregate string
| Color_start padding_info
| Color_stop padding_info

fun flag_fun :: "platform \<Rightarrow> flag_kind \<Rightarrow> padder \<Rightarrow> padding_info \<Rightarrow> flag_fun" where
  "flag_fun os K_name = name_formatter"
| "flag_fun os K_level = level_formatter"
| "flag_fun os K_short_level = short_level_formatter"
| "flag_fun os K_thread = t_formatter"
| "flag_fun os K_payload = v_formatter"
| "flag_fun os K_a = a_formatter"
| "flag_fun os K_A = A_formatter"
| "flag_fun os K_b = b_formatter"
| "flag_fun os K_B = B_formatter"
| "flag_fun os K_c = c_formatter"
| "flag_fun os K_C = C_formatter"
| "flag_fun os K_Y = Y_formatter"
| "flag_fun os K_D = D_formatter"
| "flag_fun os K_m = m_formatter"
| "flag_fun os K_d = d_formatter"
| "flag_fun os K_H = H_formatter"
| "flag_fun os K_I = I_formatter"
| "flag_fun os K_M = M_formatter"
| "flag_fun os K_S = S_formatter"
| "flag_fun os K_e = e_formatter"
| "flag_fun os K_f = f_formatter"
| "flag_fun os K_F = F_formatter"
| "flag_fun os K_E = E_formatter"
| "flag_fun os K_p = p_formatter"
| "flag_fun os K_r = r_formatter"
| "flag_fun os K_R = R_formatter"
| "flag_fun os K_T = T_formatter"
| "flag_fun os K_pid = pid_formatter os"
| "flag_fun os K_location = source_location_formatter"
| "flag_fun os K_short_filename = short_filename_formatter os"
| "flag_fun os K_filename = source_filename_formatter"
| "flag_fun os K_linenum = source_linenum_formatter"
| "flag_fun os K_funcname = source_funcname_formatter"

fun flag_format ::
  "platform \<Rightarrow> flag_formatter \<Rightarrow> log_msg \<Rightarrow> tm \<Rightarrow> string \<Rightarrow>
   (flag_formatter \<times> log_msg \<times> string) option" where
  "flag_format os (Flag k P pi) msg t dest =
     map_option (\<lambda>dest. (Flag k P pi, msg, dest)) (flag_fun os k P pi msg t dest)"
| "flag_format os (Z_flag P pi z) msg t dest =
     map_option (\<lambda>(z, dest). (Z_flag P pi z, msg, dest)) (z_formatter os P pi z msg t dest)"
| "flag_format os (Elapsed_flag P units pi since) msg t dest =
     map_option (\<lambda>(since, dest). (Elapsed_flag P units pi since, msg, dest))
       (elapsed_formatter P units pi since msg dest)"
| "flag_format os (Full_flag pi fs) msg t dest =
     (let (fs, msg, dest) = full_formatter os fs msg t dest in Some (Full_flag pi fs, msg, dest))"
| "flag_format os (Ch_flag c) msg t dest =
     map_option (\<lambda>dest. (Ch_flag c, msg, dest)) (ch_formatter c msg t dest)"
| "flag_format os (Aggregate s) msg t dest =
     map_option (\<lambda>dest. (Aggregate s, msg, dest)) (aggregate_formatter s msg t dest)"
| "flag_format os (Color_start pi) msg t dest =
     Some (Color_start pi, color_start_formatter dest msg, dest)"
| "flag_format os (Color_stop pi) msg t dest =
     Some (Color_stop pi, color_stop_formatter dest msg, dest)"

fun flags_format ::
  "platform \<Rightarrow> flag_formatter list \<Rightarrow> log_msg \<Rightarrow> tm \<Rightarrow> string \<Rightarrow>
   (flag_formatter list \<times> log_msg \<times> string) option" where
  "flags_format os [] msg t dest = Some ([], msg, dest)"
| "flags_format os (f # fs) msg t dest =
     (case flag_format os f msg t dest of
        None \<Rightarrow> None
      | Some (f, msg, dest) \<Rightarrow>
          (case flags_format os fs msg t dest of
             None \<Rightarrow> None
           | Some (fs, msg, dest) \<Rightarrow> Some (f # fs, msg, dest)))"

section \<open>Compiling a pattern\<close>

text \<open>The width is accumulated in a \<^verbatim>\<open>size_t\<close>.\<close>

fun pad_digits :: "u64 \<Rightarrow> string \<Rightarrow> u64 \<times> string" where
  "pad_digits w [] = (w, [])"
| "pad_digits w (c # cs) =
     (if is_digit c then pad_digits (w * 10 + of_nat (byte c - 48)) cs else (w, c # cs))"

definition pad_side_of :: "string \<Rightarrow> pad_side \<times> string" where
  "pad_side_of cs =
     (case cs of
        [] \<Rightarrow> (Side_left, [])
      | c # r \<Rightarrow>
          if c = CHR ''-'' then (Side_right, r)
          else if c = CHR ''='' then (Side_center, r)
          else (Side_left, cs))"

definition handle_padspec :: "string \<Rightarrow> padding_info \<times> string" where
  "handle_padspec cs =
     (if cs = [] then (no_padding, [])
      else
        (case pad_side_of cs of
           (side, cs) \<Rightarrow>
             if cs = [] \<or> \<not> is_digit (hd cs) then (no_padding, cs)
             else
               (case pad_digits (of_nat (byte (hd cs) - 48)) (tl cs) of
                  (width, cs) \<Rightarrow>
                    let truncate = (cs \<noteq> [] \<and> hd cs = CHR ''!'');
                        cs = (if truncate then tl cs else cs)
                    in (\<lparr>pad_width = min (unat width) 64, pad_side = side,
                         pad_truncate = truncate, pad_enabled = True\<rparr>, cs))))"

definition handle_flag :: "int \<Rightarrow> padder \<Rightarrow> char \<Rightarrow> padding_info \<Rightarrow> flag_formatter list" where
  "handle_flag now P flag padding =
     (if flag = CHR ''+'' then [Full_flag padding \<lparr>fs_cache_timestamp = 0, fs_cached_datetime = []\<rparr>]
      else if flag = CHR ''n'' then [Flag K_name P padding]
      else if flag = CHR ''l'' then [Flag K_level P padding]
      else if flag = CHR ''L'' then [Flag K_short_level P padding]
      else if flag = CHR ''t'' then [Flag K_thread P padding]
      else if flag = CHR ''v'' then [Flag K_payload P padding]
      else if flag = CHR ''a'' then [Flag K_a P padding]
      else if flag = CHR ''A'' then [Flag K_A P padding]
      else if flag = CHR ''b'' \<or> flag = CHR ''h'' then [Flag K_b P padding]
      else if flag = CHR ''B'' then [Flag K_B P padding]
      else if flag = CHR ''c'' then [Flag K_c P padding]
      else if flag = CHR ''C'' then [Flag K_C P padding]
      else if flag = CHR ''Y'' then [Flag K_Y P padding]
      else if flag = CHR ''D'' \<or> flag = CHR ''x'' then [Flag K_D P padding]
      else if flag = CHR ''m'' then [Flag K_m P padding]
      else if flag = CHR ''d'' then [Flag K_d P padding]
      else if flag = CHR ''H'' then [Flag K_H P padding]
      else if flag = CHR ''I'' then [Flag K_I P padding]
      else if flag = CHR ''M'' then [Flag K_M P padding]
      else if flag = CHR ''S'' then [Flag K_S P padding]
      else if flag = CHR ''e'' then [Flag K_e P padding]
      else if flag = CHR ''f'' then [Flag K_f P padding]
      else if flag = CHR ''F'' then [Flag K_F P padding]
      else if flag = CHR ''E'' then [Flag K_E P padding]
      else if flag = CHR ''p'' then [Flag K_p P padding]
      else if flag = CHR ''r'' then [Flag K_r P padding]
      else if flag = CHR ''R'' then [Flag K_R P padding]
      else if flag = CHR ''T'' \<or> flag = CHR ''X'' then [Flag K_T P padding]
      else if flag = CHR ''z'' then
        [Z_flag P padding \<lparr>zs_last_update = 0, zs_offset_minutes = 0\<rparr>]
      else if flag = CHR ''P'' then [Flag K_pid P padding]
      else if flag = CHR ''^'' then [Color_start padding]
      else if flag = CHR ''$'' then [Color_stop padding]
      else if flag = CHR ''@'' then [Flag K_location P padding]
      else if flag = CHR ''s'' then [Flag K_short_filename P padding]
      else if flag = CHR ''g'' then [Flag K_filename P padding]
      else if flag = CHR ''#'' then [Flag K_linenum P padding]
      else if flag = CHR ''!'' then [Flag K_funcname P padding]
      else if flag = CHR ''%'' then [Ch_flag (CHR ''%'')]
      else if flag = CHR ''u'' then [Elapsed_flag P nanoseconds padding now]
      else if flag = CHR ''i'' then [Elapsed_flag P microseconds padding now]
      else if flag = CHR ''o'' then [Elapsed_flag P milliseconds padding now]
      else if flag = CHR ''O'' then [Elapsed_flag P seconds padding now]
      else if \<not> pad_truncate padding then [Aggregate [CHR ''%'', flag]]
      else [Flag K_funcname P (padding\<lparr>pad_truncate := False\<rparr>), Aggregate [flag]])"

lemma length_pad_digits: "length (snd (pad_digits w cs)) \<le> length cs"
  by (induction w cs rule: pad_digits.induct) auto

lemma length_handle_padspec: "length (snd (handle_padspec cs)) \<le> length cs"
proof -
  have "length (snd (pad_side_of cs)) \<le> length cs"
    by (auto simp: pad_side_of_def split: list.splits)
  moreover have "length (snd (pad_digits w (tl ds))) \<le> length ds" for w ds
    using length_pad_digits [of w "tl ds"] by simp
  ultimately show ?thesis
    by (auto simp: handle_padspec_def Let_def split: prod.splits)
      (metis length_tl diff_le_self le_trans snd_conv length_pad_digits)+
qed

lemma padspec_rest_length: "(padding, rest) = handle_padspec cs \<Longrightarrow> length rest < Suc (length cs)"
  using length_handle_padspec [of cs] by (cases "handle_padspec cs") simp

definition push_user_chars :: "string option \<Rightarrow> flag_formatter list" where
  "push_user_chars u = (case u of None \<Rightarrow> [] | Some s \<Rightarrow> [Aggregate s])"

function compile_from :: "int \<Rightarrow> string option \<Rightarrow> string \<Rightarrow> flag_formatter list" where
  "compile_from now u [] = push_user_chars u"
| "compile_from now u (c # cs) =
     (if c = CHR ''%'' then
        push_user_chars u @
        (case handle_padspec cs of
           (padding, rest) \<Rightarrow>
             if rest = [] then []
             else
               handle_flag now (if pad_enabled padding then Scoped_padder else Null_padder)
                 (hd rest) padding @
               compile_from now None (tl rest))
      else compile_from now (Some (case u of None \<Rightarrow> [c] | Some s \<Rightarrow> s @ [c])) cs)"
  by pat_completeness auto
termination
  by (relation "measure (\<lambda>(now, u, cs). length cs)") (auto dest!: padspec_rest_length)

definition compile_pattern :: "int \<Rightarrow> string \<Rightarrow> flag_formatter list" where
  "compile_pattern now pattern = compile_from now None pattern"

section \<open>The formatter\<close>

datatype pattern_time_type = Time_local | Time_utc

record pattern_formatter =
  pf_pattern :: string
  pf_eol :: string
  pf_time_type :: pattern_time_type
  pf_cached_tm :: tm
  pf_last_log_secs :: int
  pf_formatters :: "flag_formatter list"

definition zero_tm :: tm where
  "zero_tm = \<lparr>tm_sec = 0, tm_min = 0, tm_hour = 0, tm_mday = 0, tm_mon = 0, tm_year = 0,
     tm_wday = 0, tm_isdst = 0, tm_gmtoff = 0\<rparr>"

definition pattern_formatter :: "int \<Rightarrow> string \<Rightarrow> pattern_time_type \<Rightarrow> string \<Rightarrow> pattern_formatter" where
  "pattern_formatter now pattern ty eol =
     \<lparr>pf_pattern = pattern, pf_eol = eol, pf_time_type = ty, pf_cached_tm = zero_tm,
      pf_last_log_secs = 0, pf_formatters = compile_pattern now pattern\<rparr>"

definition default_formatter :: "pattern_time_type \<Rightarrow> string \<Rightarrow> pattern_formatter" where
  "default_formatter ty eol =
     \<lparr>pf_pattern = ''%+'', pf_eol = eol, pf_time_type = ty, pf_cached_tm = zero_tm,
      pf_last_log_secs = 0,
      pf_formatters = [Full_flag no_padding \<lparr>fs_cache_timestamp = 0, fs_cached_datetime = []\<rparr>]\<rparr>"

definition pf_clone :: "int \<Rightarrow> pattern_formatter \<Rightarrow> pattern_formatter" where
  "pf_clone now pf = pattern_formatter now (pf_pattern pf) (pf_time_type pf) (pf_eol pf)"

definition pf_set_pattern :: "int \<Rightarrow> string \<Rightarrow> pattern_formatter \<Rightarrow> pattern_formatter" where
  "pf_set_pattern now pattern pf =
     pf\<lparr>pf_pattern := pattern, pf_formatters := compile_pattern now pattern\<rparr>"

definition get_time :: "platform \<Rightarrow> pattern_time_type \<Rightarrow> log_msg \<Rightarrow> tm" where
  "get_time os ty msg =
     (case ty of
        Time_local \<Rightarrow> os_localtime os (duration_cast seconds (lm_time msg))
      | Time_utc \<Rightarrow> os_gmtime os (duration_cast seconds (lm_time msg)))"

definition pf_format ::
  "platform \<Rightarrow> pattern_formatter \<Rightarrow> log_msg \<Rightarrow> string \<Rightarrow>
   (pattern_formatter \<times> log_msg \<times> string) option" where
  "pf_format os pf msg dest =
     (let secs = duration_cast seconds (lm_time msg);
          pf = (if secs \<noteq> pf_last_log_secs pf then
                  pf\<lparr>pf_cached_tm := get_time os (pf_time_type pf) msg, pf_last_log_secs := secs\<rparr>
                else pf)
      in map_option (\<lambda>(fs, msg, dest). (pf\<lparr>pf_formatters := fs\<rparr>, msg, dest @ pf_eol pf))
           (flags_format os (pf_formatters pf) msg (pf_cached_tm pf) dest))"

end
