(* ===== verification/Spd_Pattern_Props.thy ===== *)
theory Spd_Pattern_Props
  imports Spd_Pattern
begin

text \<open>
  What patterns mean: padding is alignment in a field, a pattern written down from its parts
  compiles to the formatters of those parts, and the caches inside the formatters do not show.
\<close>

section \<open>Padding is alignment\<close>

definition align :: "padding_info \<Rightarrow> string \<Rightarrow> string" where
  "align pi s =
     (let w = pad_width pi; n = w - length s in
      if length s \<le> w then
        (case pad_side pi of
           Side_left \<Rightarrow> spaces n @ s
         | Side_right \<Rightarrow> s @ spaces n
         | Side_center \<Rightarrow> spaces (n div 2) @ s @ spaces (n - n div 2))
      else if pad_truncate pi then take w s
      else s)"

lemma length_align:
  "length s \<le> pad_width pi \<Longrightarrow> length (align pi s) = pad_width pi"
  "pad_truncate pi \<Longrightarrow> length (align pi s) = pad_width pi"
  by (auto simp: align_def Let_def split: pad_side.split)

lemma half_pad:
  "nat (int n div 2) = n div 2" "nat (int n div 2 + int n mod 2) = n - n div 2"
proof -
  show "nat (int n div 2) = n div 2" by linarith
  have "int n div 2 + int n mod 2 = int (n - n div 2)" by presburger
  then show "nat (int n div 2 + int n mod 2) = n - n div 2" by (metis nat_int)
qed

lemma padded_align: "padded Scoped_padder pi (length s) s dest = Some (dest @ align pi s)"
proof (cases "length s < pad_width pi")
  case True
  then have diff: "int (pad_width pi) - int (length s) = int (pad_width pi - length s)" by simp
  show ?thesis
    using True
    by (cases "pad_side pi")
      (simp_all add: padded_def scoped_padder_open_def scoped_padder_close_def align_def Let_def
        diff half_pad del: of_nat_diff)
next
  case False
  then show ?thesis
    by (cases "pad_width pi = length s")
      (auto simp: padded_def scoped_padder_open_def scoped_padder_close_def align_def Let_def
        nat_add_distrib split: pad_side.split)
qed

lemma padded_align_size: "n = length s \<Longrightarrow> padded Scoped_padder pi n s dest = Some (dest @ align pi s)"
  by (simp add: padded_align)

lemma padded_null [simp]: "padded Null_padder pi n s dest = Some (dest @ s)"
  by (simp add: padded_def)

definition tm_ok :: "tm \<Rightarrow> bool" where
  "tm_ok t \<longleftrightarrow> 0 \<le> tm_sec t \<and> tm_sec t \<le> 60 \<and> 0 \<le> tm_min t \<and> tm_min t < 60 \<and>
     0 \<le> tm_hour t \<and> tm_hour t < 24 \<and> 1 \<le> tm_mday t \<and> tm_mday t \<le> 31 \<and>
     0 \<le> tm_mon t \<and> tm_mon t < 12 \<and> 0 \<le> tm_year t \<and> tm_year t < 8100 \<and>
     0 \<le> tm_wday t \<and> tm_wday t < 7"

definition source_kinds :: "flag_kind list" where
  "source_kinds = [K_location, K_short_filename, K_filename, K_linenum, K_funcname]"

lemma smod_100: "0 \<le> y \<Longrightarrow> y smod 100 = y mod (100 :: int)"
  by (cases "y = 0") (simp_all add: signed_modulo_int_def)

lemma fraction_bounds:
  assumes "0 \<le> T"
  shows "0 \<le> time_fraction milliseconds T" "time_fraction milliseconds T < 1000"
    and "0 \<le> time_fraction microseconds T" "time_fraction microseconds T < 1000000"
    and "0 \<le> time_fraction nanoseconds T" "time_fraction nanoseconds T < 1000000000"
proof -
  have sdiv: "a sdiv b = a div b" if "0 \<le> a" "0 < b" for a b :: int
    using that by (cases "a = 0") (simp_all add: signed_divide_int_def)
  have "0 \<le> T div 1000000000" using assms by simp
  then have eq: "time_fraction u T = T div u - T div 1000000000 * 1000000000 div u" if "0 < u" for u
    using assms that by (simp add: time_fraction_def duration_cast_def time_units sdiv)
  show "0 \<le> time_fraction milliseconds T" "time_fraction milliseconds T < 1000"
    "0 \<le> time_fraction microseconds T" "time_fraction microseconds T < 1000000"
    "0 \<le> time_fraction nanoseconds T" "time_fraction nanoseconds T < 1000000000"
    by (simp_all add: eq time_units)
qed

named_theorems flag_defs "the definitions of the formatters of single flags"

lemmas [flag_defs] = name_formatter_def level_formatter_def short_level_formatter_def
  a_formatter_def A_formatter_def b_formatter_def B_formatter_def C_formatter_def
  Y_formatter_def m_formatter_def d_formatter_def H_formatter_def I_formatter_def
  M_formatter_def S_formatter_def e_formatter_def f_formatter_def F_formatter_def
  p_formatter_def r_formatter_def R_formatter_def T_formatter_def t_formatter_def
  pid_formatter_def v_formatter_def source_location_formatter_def source_filename_formatter_def
  short_filename_formatter_def source_linenum_formatter_def source_funcname_formatter_def

lemma length_append_int_nat [simp]: "length (append_int (int n)) = fmt_count_digits n"
  by (simp add: append_int_def fmt_count_digits_def)

lemma length_append_int_uint [simp]:
  "length (append_int (uint (x :: 'a :: len word))) = fmt_count_digits (unat x)"
  using length_append_int_nat [of "unat x"] by simp

lemma length_append_int_sint:
  assumes "0 \<le> sint (x :: 32 word)"
  shows "length (append_int (sint x)) = fmt_count_digits (unat x)"
proof -
  have "sint x = uint x" using assms sint_less [of x] by (simp add: uint_sint take_bit_int_eq_self)
  then show ?thesis by simp
qed

lemma length_show_nat_eq: "10 ^ k \<le> n \<Longrightarrow> n < 10 ^ Suc k \<Longrightarrow> length (show_nat n) = Suc k"
proof (induction k arbitrary: n)
  case 0
  then show ?case by (simp add: show_nat.simps [of n])
next
  case (Suc k)
  have "10 \<le> n" using Suc.prems(1) order_trans [of 10 "10 ^ Suc k" n] by simp
  moreover have "10 ^ k \<le> n div 10" "n div 10 < 10 ^ Suc k" using Suc.prems by simp_all
  ultimately show ?case using Suc.IH by (simp add: show_nat.simps [of n])
qed

lemma length_year: "1000 \<le> y \<Longrightarrow> y < 10000 \<Longrightarrow> length (append_int y) = 4"
  using length_show_nat_eq [of 3 "nat y"] by (simp add: append_int_def)

lemma length_fractions:
  assumes "0 \<le> T"
  shows "length (pad3 (unat (of_int (time_fraction milliseconds T) :: u32))) = 3"
    and "length (pad6 (unat (of_int (time_fraction microseconds T) :: u64))) = 6"
    and "length (pad9 (unat (of_int (time_fraction nanoseconds T) :: u64))) = 9"
proof -
  note b = fraction_bounds [OF assms]
  have "unat (of_int x :: u32) = nat x" if "0 \<le> x" "x < 1000" for x :: int
    using that by (simp add: unat_eq_nat_uint uint_word_of_int)
  moreover have "unat (of_int x :: u64) = nat x" if "0 \<le> x" "x < 1000000000" for x :: int
    using that by (simp add: unat_eq_nat_uint uint_word_of_int)
  ultimately show "length (pad3 (unat (of_int (time_fraction milliseconds T) :: u32))) = 3"
    "length (pad6 (unat (of_int (time_fraction microseconds T) :: u64))) = 6"
    "length (pad9 (unat (of_int (time_fraction nanoseconds T) :: u64))) = 9"
    using b by (simp_all add: pad6_def pad9_def length_pad_uint)
qed

text \<open>Padding is alignment: a flag with a width prints what it prints without one, aligned in
  a field of that width and cut to it if the pattern says so.  The exceptions are the three
  flags that announce a fixed size their text need not have.\<close>

theorem flag_padding_aligns:
  assumes "tm_ok t" "0 \<le> lm_time msg" "k \<notin> {K_c, K_D, K_E}" "pad_enabled pi"
    and "k \<in> set source_kinds \<longrightarrow>
      \<not> source_empty (lm_source msg) \<and> 0 \<le> sint (sl_line (lm_source msg))"
    and "flag_fun os k Null_padder pi msg t [] = Some text"
  shows "flag_fun os k Scoped_padder pi msg t dest = Some (dest @ align pi text)"
  using assms(3-6) length_fractions [OF assms(2)] smod_100 [of "tm_year t"] assms(1)
  by (cases k)
    (auto simp: flag_defs Let_def tm_ok_def to12h_def ampm_def source_kinds_def count_digits_def
      length_append_int_sint length_year intro!: padded_align_size)

definition sample_tm :: tm where
  "sample_tm = \<lparr>tm_sec = 7, tm_min = 5, tm_hour = 23, tm_mday = 9, tm_mon = 8, tm_year = 121,
     tm_wday = 4, tm_isdst = 0, tm_gmtoff = 7200\<rparr>"

definition sample_os :: platform where
  "sample_os = \<lparr>os_localtime = (\<lambda>_. sample_tm), os_gmtime = (\<lambda>_. sample_tm), os_mktime = (\<lambda>_. 0),
     os_tz = Tz_gmtoff, os_pid = 42, os_folder_seps = ''/'', os_default_eol = [CHR 0x0A]\<rparr>"

definition sample_msg :: log_msg where
  "sample_msg = log_msg (1631224807 * seconds) 7 no_source ''gologin_server'' Level_info ''ready''"

lemma sample_tm_ok: "tm_ok sample_tm"
  by (simp add: tm_ok_def sample_tm_def)

theorem flag_padding_aligns_witness:
  "flag_fun sample_os K_H Scoped_padder
     \<lparr>pad_width = 5, pad_side = Side_center, pad_truncate = False, pad_enabled = True\<rparr>
     sample_msg sample_tm ''['' = Some ''[ 23  ''"
proof -
  let ?pi = "\<lparr>pad_width = 5, pad_side = Side_center, pad_truncate = False, pad_enabled = True\<rparr>"
  have "flag_fun sample_os K_H Null_padder ?pi sample_msg sample_tm [] = Some ''23''"
    by (simp add: H_formatter_def pad2_def sample_tm_def digit_def char_of_eq_iff)
  then have "flag_fun sample_os K_H Scoped_padder ?pi sample_msg sample_tm ''['' =
      Some (''['' @ align ?pi ''23'')"
    by (intro flag_padding_aligns [OF sample_tm_ok])
      (simp_all add: sample_msg_def log_msg_def time_units source_kinds_def)
  moreover have "replicate 2 c = [c, c]" for c :: char by (simp add: numeral_2_eq_2)
  ultimately show ?thesis by (simp add: align_def)
qed

text \<open>The date flag reserves ten characters for its eight: cut to a width of one at the start
  of a line, it makes the line shorter than nothing, and logging throws.\<close>

lemma date_flag_throws:
  assumes "tm_ok t" "pad_width pi = 1" "pad_truncate pi" "dest = []"
  shows "D_formatter Scoped_padder pi msg t dest = None"
proof -
  have "length (pad2 (tm_mon t + 1)) = 2" "length (pad2 (tm_mday t)) = 2"
    "length (pad2 (tm_year t smod 100)) = 2"
    using assms(1) by (simp_all add: tm_ok_def smod_100)
  with assms show ?thesis
    by (simp add: D_formatter_def padded_def scoped_padder_open_def scoped_padder_close_def Let_def)
qed

section \<open>Patterns and their parts\<close>

text \<open>A pattern as its author thinks of it: text, and flags with or without a field.\<close>

datatype pattern_item = Text string | Field "(pad_side \<times> nat \<times> bool) option" char

fun show_side :: "pad_side \<Rightarrow> string" where
  "show_side Side_left = []"
| "show_side Side_right = ''-''"
| "show_side Side_center = ''=''"

fun show_item :: "pattern_item \<Rightarrow> string" where
  "show_item (Text s) = s"
| "show_item (Field None f) = [CHR ''%'', f]"
| "show_item (Field (Some (side, w, tr)) f) =
     CHR ''%'' # show_side side @ show_nat w @ (if tr then ''!'' else []) @ [f]"

fun item_ok :: "pattern_item \<Rightarrow> bool" where
  "item_ok (Text s) \<longleftrightarrow> s \<noteq> [] \<and> CHR ''%'' \<notin> set s"
| "item_ok (Field None f) \<longleftrightarrow> f \<noteq> CHR ''-'' \<and> f \<noteq> CHR ''='' \<and> \<not> is_digit f"
| "item_ok (Field (Some (side, w, tr)) f) \<longleftrightarrow>
     w < 2 ^ 64 \<and> \<not> is_digit f \<and> (\<not> tr \<longrightarrow> f \<noteq> CHR ''!'')"

fun items_ok :: "pattern_item list \<Rightarrow> bool" where
  "items_ok [] \<longleftrightarrow> True"
| "items_ok (Text s # Text s' # is) \<longleftrightarrow> False"
| "items_ok (i # is) \<longleftrightarrow> item_ok i \<and> items_ok is"

fun item_flags :: "int \<Rightarrow> pattern_item \<Rightarrow> flag_formatter list" where
  "item_flags now (Text s) = [Aggregate s]"
| "item_flags now (Field None f) = handle_flag now Null_padder f no_padding"
| "item_flags now (Field (Some (side, w, tr)) f) =
     handle_flag now Scoped_padder f
       \<lparr>pad_width = min w 64, pad_side = side, pad_truncate = tr, pad_enabled = True\<rparr>"

lemma pad_digits_read_nat:
  "pad_digits (of_nat a) cs = (case read_nat a cs of (n, r) \<Rightarrow> (of_nat n, r))"
proof (induction a cs rule: read_nat.induct)
  case (2 a c cs)
  then show ?case by (auto simp: mult.commute [of _ 10] split: prod.splits)
qed simp

lemma show_side_parse:
  "is_digit d \<Longrightarrow> pad_side_of (show_side side @ d # r) = (side, d # r)"
  by (cases side) (auto simp: pad_side_of_def is_digit_def)

lemma handle_padspec_show:
  assumes "w < 2 ^ 64" "\<not> is_digit f" "\<not> tr \<longrightarrow> f \<noteq> CHR ''!''"
  shows "handle_padspec (show_side side @ show_nat w @ (if tr then ''!'' else []) @ f # rest) =
    (\<lparr>pad_width = min w 64, pad_side = side, pad_truncate = tr, pad_enabled = True\<rparr>, f # rest)"
proof -
  obtain d ds where d: "show_nat w = digit d # ds" "d < 10" using show_nat_head by blast
  let ?r = "(if tr then ''!'' else []) @ f # rest"
  obtain c r where r: "?r = c # r" "\<not> is_digit c"
    using assms(2) by (cases tr) (auto simp: is_digit_def)
  have "read_nat 0 (show_nat w @ ?r) = (w, ?r)" using read_show_rest r by metis
  then have "pad_digits (of_nat d) (ds @ ?r) = (of_nat w, ?r)"
    using d by (simp add: pad_digits_read_nat split del: if_split)
  moreover have "unat (of_nat w :: u64) = w" using assms(1) by (simp add: unsigned_of_nat take_bit_nat_eq_self)
  ultimately show ?thesis
    using d assms(3) by (simp add: handle_padspec_def show_side_parse)
qed

lemma compile_text:
  "CHR ''%'' \<notin> set s \<Longrightarrow> s \<noteq> [] \<or> u \<noteq> None \<Longrightarrow>
   compile_from now u (s @ rest) =
     compile_from now (Some ((case u of None \<Rightarrow> [] | Some v \<Rightarrow> v) @ s)) rest"
  by (induction s arbitrary: u) (auto split: option.splits)

lemma compile_field:
  assumes "item_ok (Field p f)"
  shows "compile_from now u (show_item (Field p f) @ rest) =
    push_user_chars u @ item_flags now (Field p f) @ compile_from now None rest"
proof (cases p)
  case None
  with assms have "handle_padspec (f # rest) = (no_padding, f # rest)"
    by (simp add: handle_padspec_def pad_side_of_def)
  with None show ?thesis by (simp add: no_padding_def)
next
  case (Some q)
  obtain side w tr where q: "q = (side, w, tr)" by (cases q)
  have "w < 2 ^ 64" "\<not> is_digit f" "\<not> tr \<longrightarrow> f \<noteq> CHR ''!''" using assms Some q by simp_all
  from handle_padspec_show [OF this] Some q show ?thesis by simp
qed

lemma compile_items:
  "items_ok is \<Longrightarrow> u = None \<or> (\<forall>s js. is \<noteq> Text s # js) \<Longrightarrow>
   compile_from now u (concat (map show_item is)) =
     push_user_chars u @ concat (map (item_flags now) is)"
proof (induction "is" arbitrary: u)
  case (Cons i js)
  show ?case
  proof (cases i)
    case (Text s)
    with Cons.prems have "item_ok i" "items_ok js" "u = None" "\<forall>s ks. js \<noteq> Text s # ks"
      by (cases js; auto elim: items_ok.elims)+
    with Text Cons.IH [of "Some s"] show ?thesis
      by (simp add: compile_text push_user_chars_def)
  next
    case (Field p f)
    with Cons.prems have "item_ok i" "items_ok js" by simp_all
    with Field Cons.IH [of None] show ?thesis
      using compile_field [of p f now u] by (simp add: push_user_chars_def)
  qed
qed (simp add: push_user_chars_def)

text \<open>C34: Writing a pattern down and compiling it gives back its parts: each text in one piece
  and each flag with its field, the width limited to 64, however the parts follow each
  other.\<close>

theorem compile_pattern_roundtrip:
  assumes "items_ok is"
  shows "compile_pattern now (concat (map show_item is)) = concat (map (item_flags now) is)"
  using compile_items [OF assms, of None] by (simp add: compile_pattern_def push_user_chars_def)

theorem compile_pattern_roundtrip_witness:
  "compile_pattern 0 ''%-8l|%v'' =
     [Flag K_level Scoped_padder
        \<lparr>pad_width = 8, pad_side = Side_right, pad_truncate = False, pad_enabled = True\<rparr>,
      Aggregate ''|'', Flag K_payload Null_padder no_padding]"
proof -
  let ?is = "[Field (Some (Side_right, 8, False)) (CHR ''l''), Text ''|'', Field None (CHR ''v'')]"
  have "items_ok ?is" by (simp add: is_digit_def)
  moreover have "digit 8 = CHR ''8''" by (simp add: digit_def char_of_eq_iff)
  ultimately show ?thesis
    using compile_pattern_roundtrip [of ?is 0] by (simp add: show_nat.simps [of 8] handle_flag_def)
qed

end
