(* ===== verification/Log_Lines.thy ===== *)
theory Log_Lines
  imports Core_Base Spd_Pattern_Props
begin

text \<open>
  The lines of the two log files: what the formatter of the program's pattern
  (\<^verbatim>\<open>core/logger.hpp\<close>) prints for a sequence of messages, with its caches of the calendar
  time and of the offset from UTC.
\<close>

section \<open>The compiled pattern\<close>

definition program_items :: "pattern_item list" where
  "program_items =
     [Text ''['', Field None (CHR ''H''), Text '':'', Field None (CHR ''M''), Text '':'',
      Field None (CHR ''S''), Text '' '', Field None (CHR ''z''), Text ''] ['',
      Field None (CHR ''n''), Text ''] ['', Field None (CHR ''^''), Text ''---'',
      Field None (CHR ''L''), Text ''---'', Field None (CHR ''$''), Text ''] [thread '',
      Field None (CHR ''t''), Text ''] '', Field None (CHR ''v'')]"

definition program_flags :: "z_state \<Rightarrow> flag_formatter list" where
  "program_flags z =
     [Aggregate ''['', Flag K_H Null_padder no_padding, Aggregate '':'',
      Flag K_M Null_padder no_padding, Aggregate '':'', Flag K_S Null_padder no_padding,
      Aggregate '' '', Z_flag Null_padder no_padding z, Aggregate ''] ['',
      Flag K_name Null_padder no_padding, Aggregate ''] ['', Color_start no_padding,
      Aggregate ''---'', Flag K_short_level Null_padder no_padding, Aggregate ''---'',
      Color_stop no_padding, Aggregate ''] [thread '', Flag K_thread Null_padder no_padding,
      Aggregate ''] '', Flag K_payload Null_padder no_padding]"

lemma program_items_pattern: "concat (map show_item program_items) = logger_pattern"
  by (simp add: program_items_def logger_pattern_def)

lemma compile_logger_pattern:
  "compile_pattern now logger_pattern = program_flags \<lparr>zs_last_update = 0, zs_offset_minutes = 0\<rparr>"
proof -
  have "items_ok program_items" by (simp add: program_items_def is_digit_def)
  then have "compile_pattern now logger_pattern = concat (map (item_flags now) program_items)"
    using compile_items [of program_items None now]
    by (simp add: program_items_pattern compile_pattern_def push_user_chars_def)
  then show ?thesis by (simp add: program_items_def program_flags_def handle_flag_def)
qed

section \<open>One line\<close>

definition line_prefix :: "tm \<Rightarrow> int \<Rightarrow> log_msg \<Rightarrow> string" where
  "line_prefix t off msg =
     ''['' @ pad2 (tm_hour t) @ '':'' @ pad2 (tm_min t) @ '':'' @ pad2 (tm_sec t) @ '' '' @
     offset_text off @ ''] ['' @ lm_logger_name msg @ ''] [''"

definition line_level :: "log_msg \<Rightarrow> string" where
  "line_level msg = ''---'' @ to_short_c_str (lm_level msg) @ ''---''"

definition line_suffix :: "log_msg \<Rightarrow> string" where
  "line_suffix msg =
     ''] [thread '' @ append_int (uint (lm_thread_id msg)) @ ''] '' @ lm_payload msg"

definition log_line :: "platform \<Rightarrow> int \<Rightarrow> log_msg \<Rightarrow> string" where
  "log_line os off msg =
     line_prefix (os_localtime os (duration_cast seconds (lm_time msg))) off msg @
     line_level msg @ line_suffix msg @ os_default_eol os"

text \<open>The colour range the formatter leaves in the message spans the level.\<close>

definition coloured :: "platform \<Rightarrow> int \<Rightarrow> log_msg \<Rightarrow> log_msg" where
  "coloured os off msg =
     (let n = length (line_prefix (os_localtime os (duration_cast seconds (lm_time msg))) off msg)
      in msg\<lparr>lm_color_start := n, lm_color_end := n + 7\<rparr>)"

lemma program_flags_format:
  assumes "get_cached_offset os msg t z = Some (off, z')"
  shows "flags_format os (program_flags z) msg t [] =
    Some (program_flags z',
      msg\<lparr>lm_color_start := length (line_prefix t off msg),
          lm_color_end := length (line_prefix t off msg) + 7\<rparr>,
      line_prefix t off msg @ line_level msg @ line_suffix msg)"
  using assms
  by (simp add: program_flags_def aggregate_formatter_def flag_defs z_formatter_def Let_def
      color_start_formatter_def color_stop_formatter_def line_prefix_def line_level_def
      line_suffix_def)

section \<open>A sequence of lines\<close>

definition program_formatter :: "platform \<Rightarrow> int \<Rightarrow> pattern_formatter" where
  "program_formatter os now = pattern_formatter now logger_pattern Time_local (os_default_eol os)"

definition formatter_ok :: "platform \<Rightarrow> int \<Rightarrow> pattern_formatter \<Rightarrow> bool" where
  "formatter_ok os off pf \<longleftrightarrow>
     pf_time_type pf = Time_local \<and> pf_eol pf = os_default_eol os \<and>
     (pf_last_log_secs pf \<noteq> 0 \<longrightarrow> pf_cached_tm pf = os_localtime os (pf_last_log_secs pf)) \<and>
     (\<exists>z. pf_formatters pf = program_flags z \<and>
        (zs_last_update z = 0 \<or> zs_offset_minutes z = off))"

definition steady_offset :: "platform \<Rightarrow> int \<Rightarrow> bool" where
  "steady_offset os off \<longleftrightarrow>
     (\<forall>s. utc_minutes_offset os (os_localtime os s) = Some off)"

lemma program_formatter_ok: "formatter_ok os off (program_formatter os now)"
  by (auto simp: formatter_ok_def program_formatter_def pattern_formatter_def compile_logger_pattern)

lemma pf_format_line:
  assumes "formatter_ok os off pf" "steady_offset os off" "10 * seconds \<le> lm_time msg"
  shows "\<exists>pf'. pf_format os pf msg [] = Some (pf', coloured os off msg, log_line os off msg) \<and>
    formatter_ok os off pf'"
proof -
  let ?s = "duration_cast seconds (lm_time msg)"
  let ?t = "os_localtime os ?s"
  obtain z where z: "pf_formatters pf = program_flags z"
    "zs_last_update z = 0 \<or> zs_offset_minutes z = off"
    using assms(1) by (auto simp: formatter_ok_def)
  have pos: "?s \<noteq> 0"
    using assms(3) by (simp add: duration_cast_def time_units signed_divide_int_def)
  have off: "utc_minutes_offset os ?t = Some off" using assms(2) by (simp add: steady_offset_def)
  have "\<exists>z'. get_cached_offset os msg ?t z = Some (off, z') \<and>
      (zs_last_update z' = 0 \<or> zs_offset_minutes z' = off)"
    using z(2) off assms(3)
    by (cases "10 * seconds \<le> lm_time msg - zs_last_update z")
      (auto simp: get_cached_offset_def)
  then obtain z' where z': "get_cached_offset os msg ?t z = Some (off, z')"
    "zs_last_update z' = 0 \<or> zs_offset_minutes z' = off" by blast
  show ?thesis
    using assms(1) pos z(1) z'(2) program_flags_format [OF z'(1)]
    by (auto simp: pf_format_def Let_def formatter_ok_def get_time_def coloured_def log_line_def)
qed

fun pf_lines ::
  "platform \<Rightarrow> pattern_formatter \<Rightarrow> log_msg list \<Rightarrow> (log_msg \<times> string) list option" where
  "pf_lines os pf [] = Some []"
| "pf_lines os pf (m # ms) =
     (case pf_format os pf m [] of
        None \<Rightarrow> None
      | Some (pf, m, line) \<Rightarrow> map_option ((#) (m, line)) (pf_lines os pf ms))"

lemma pf_lines_ok:
  assumes "steady_offset os off"
  shows "formatter_ok os off pf \<Longrightarrow> \<forall>m \<in> set ms. 10 * seconds \<le> lm_time m \<Longrightarrow>
    pf_lines os pf ms = Some (map (\<lambda>m. (coloured os off m, log_line os off m)) ms)"
proof (induction ms arbitrary: pf)
  case (Cons m ms)
  then show ?case using pf_format_line [OF Cons.prems(1) assms, of m] by auto
qed simp

text \<open>C24: The lines of the log: whatever the messages and the order of their times, each line
  carries its own message's time of day, the offset from UTC, the logger, the level between
  dashes, the thread and the text, and the colour range spans the level.  The caches of the
  formatter do not show, as long as the offset does not change and the clock is past the
  first ten seconds of 1970.\<close>

theorem log_lines:
  assumes "steady_offset os off" "\<forall>m \<in> set ms. 10 * seconds \<le> lm_time m"
  shows "pf_lines os (program_formatter os now) ms =
    Some (map (\<lambda>m. (coloured os off m, log_line os off m)) ms)"
  using pf_lines_ok [OF assms(1) program_formatter_ok assms(2)] .

theorem log_lines_witness:
  "pf_lines sample_os (program_formatter sample_os 0) [sample_msg] =
     Some [(coloured sample_os 120 sample_msg,
       ''[23:05:07 +02:00] [gologin_server] [---I---] [thread 7] ready'' @ [CHR 0x0A])]"
proof -
  have "steady_offset sample_os 120"
    by (simp add: steady_offset_def sample_os_def sample_tm_def signed_divide_int_def)
  moreover have "\<forall>m \<in> set [sample_msg]. 10 * seconds \<le> lm_time m"
    by (simp add: sample_msg_def log_msg_def time_units)
  moreover have "log_line sample_os 120 sample_msg =
      ''[23:05:07 +02:00] [gologin_server] [---I---] [thread 7] ready'' @ [CHR 0x0A]"
    by (simp add: log_line_def line_prefix_def line_level_def line_suffix_def sample_os_def
        sample_tm_def sample_msg_def log_msg_def offset_text_def pad2_def digit_def level_defs
        append_int_def show_nat.simps [of 7] signed_divide_int_def signed_modulo_int_def
        char_of_eq_iff)
  ultimately show ?thesis using log_lines [of sample_os 120 "[sample_msg]" 0] by simp
qed

end
