(* ===== verification/Circular_Q.thy ===== *)
theory Circular_Q
  imports Main
begin

text \<open>
  The ring buffer of the logging library
  (\<^verbatim>\<open>contrib/spdlog/include/spdlog/details/circular_q.h\<close>): a vector with one slot more than the
  queue may hold, a head and a tail.  The interface \<open>bounded_queue\<close> says what its clients rely
  on, and the ring buffer is shown to provide it.
\<close>

section \<open>The ring buffer\<close>

record 'a circular_q =
  cq_max :: nat
  cq_head :: nat
  cq_tail :: nat
  cq_overrun :: nat
  cq_v :: "'a list"

definition cq_disabled :: "'a circular_q" where
  "cq_disabled = \<lparr>cq_max = 0, cq_head = 0, cq_tail = 0, cq_overrun = 0, cq_v = []\<rparr>"

text \<open>\<open>blank\<close> is a value-initialised element; the size is computed in a \<^verbatim>\<open>size_t\<close>.\<close>

definition cq_new :: "'a \<Rightarrow> nat \<Rightarrow> 'a circular_q" where
  "cq_new blank max_items =
     (let m = (max_items + 1) mod 2 ^ 64
      in \<lparr>cq_max = m, cq_head = 0, cq_tail = 0, cq_overrun = 0, cq_v = replicate m blank\<rparr>)"

definition cq_push_back :: "'a \<Rightarrow> 'a circular_q \<Rightarrow> 'a circular_q" where
  "cq_push_back item q =
     (if 0 < cq_max q then
        let q = q\<lparr>cq_v := (cq_v q)[cq_tail q := item]\<rparr>;
            q = q\<lparr>cq_tail := (cq_tail q + 1) mod cq_max q\<rparr>
        in if cq_tail q = cq_head q then
             q\<lparr>cq_head := (cq_head q + 1) mod cq_max q,
               cq_overrun := (cq_overrun q + 1) mod 2 ^ 64\<rparr>
           else q
      else q)"

definition cq_front :: "'a circular_q \<Rightarrow> 'a" where
  "cq_front q = cq_v q ! cq_head q"

definition cq_size :: "'a circular_q \<Rightarrow> nat" where
  "cq_size q =
     (if cq_head q \<le> cq_tail q then cq_tail q - cq_head q
      else cq_max q - (cq_head q - cq_tail q))"

definition cq_at :: "'a circular_q \<Rightarrow> nat \<Rightarrow> 'a" where
  "cq_at q i = cq_v q ! ((cq_head q + i) mod cq_max q)"

definition cq_pop_front :: "'a circular_q \<Rightarrow> 'a circular_q" where
  "cq_pop_front q = q\<lparr>cq_head := (cq_head q + 1) mod cq_max q\<rparr>"

definition cq_empty :: "'a circular_q \<Rightarrow> bool" where
  "cq_empty q \<longleftrightarrow> cq_tail q = cq_head q"

definition cq_full :: "'a circular_q \<Rightarrow> bool" where
  "cq_full q \<longleftrightarrow> 0 < cq_max q \<and> (cq_tail q + 1) mod cq_max q = cq_head q"

text \<open>Moving a queue gives its contents away and leaves it disabled.\<close>

definition cq_move :: "'a circular_q \<Rightarrow> 'a circular_q \<times> 'a circular_q" where
  "cq_move other =
     (\<lparr>cq_max = cq_max other, cq_head = cq_head other, cq_tail = cq_tail other,
       cq_overrun = cq_overrun other, cq_v = cq_v other\<rparr>,
      \<lparr>cq_max = 0, cq_head = 0, cq_tail = 0, cq_overrun = 0, cq_v = []\<rparr>)"

lemmas cq_defs = cq_push_back_def cq_front_def cq_size_def cq_at_def cq_pop_front_def
  cq_empty_def cq_full_def

section \<open>What a client relies on\<close>

locale bounded_queue =
  fixes push :: "'a \<Rightarrow> 'q \<Rightarrow> 'q" and pop :: "'q \<Rightarrow> 'q" and front :: "'q \<Rightarrow> 'a"
    and is_empty :: "'q \<Rightarrow> bool" and is_full :: "'q \<Rightarrow> bool"
    and items :: "'q \<Rightarrow> 'a list" and capacity :: "'q \<Rightarrow> nat" and inv :: "'q \<Rightarrow> bool"
  assumes inv_push: "inv q \<Longrightarrow> inv (push x q)"
    and inv_pop: "inv q \<Longrightarrow> items q \<noteq> [] \<Longrightarrow> inv (pop q)"
    and items_push: "inv q \<Longrightarrow> items (push x q) =
      (if length (items q) < capacity q then items q @ [x] else tl (items q @ [x]))"
    and items_pop: "inv q \<Longrightarrow> items q \<noteq> [] \<Longrightarrow> items (pop q) = tl (items q)"
    and front_items: "inv q \<Longrightarrow> items q \<noteq> [] \<Longrightarrow> front q = hd (items q)"
    and empty_items: "inv q \<Longrightarrow> is_empty q \<longleftrightarrow> items q = []"
    and full_items: "inv q \<Longrightarrow> 0 < capacity q \<Longrightarrow>
      is_full q \<longleftrightarrow> length (items q) = capacity q"
    and length_items: "inv q \<Longrightarrow> length (items q) \<le> capacity q"
    and capacity_push: "inv q \<Longrightarrow> capacity (push x q) = capacity q"
    and capacity_pop: "inv q \<Longrightarrow> capacity (pop q) = capacity q"
begin

lemma push_all:
  "inv q \<Longrightarrow> inv (fold push xs q) \<and> capacity (fold push xs q) = capacity q \<and>
     items (fold push xs q) =
       drop (length (items q) + length xs - capacity q) (items q @ xs)"
proof (induction xs arbitrary: q)
  case Nil
  then show ?case using length_items [of q] by simp
next
  case (Cons x xs)
  let ?q = "push x q"
  have q: "inv ?q" "capacity ?q = capacity q"
    using Cons.prems by (simp_all add: inv_push capacity_push)
  have "items (fold push xs ?q) =
      drop (length (items ?q) + length xs - capacity q) (items ?q @ xs)"
    using Cons.IH [OF q(1)] q(2) by simp
  moreover have "drop (length (items ?q) + length xs - capacity q) (items ?q @ xs) =
      drop (length (items q) + length (x # xs) - capacity q) (items q @ x # xs)"
    using length_items [OF Cons.prems]
    by (cases "items q"; cases "length (items q) < capacity q")
      (auto simp: items_push [OF Cons.prems] Suc_diff_le)
  ultimately show ?case using Cons.IH [OF q(1)] q(2) by simp
qed

text \<open>Reading from the front until the queue is empty, as a loop with a bound.\<close>

primrec drain :: "nat \<Rightarrow> 'q \<Rightarrow> 'a list \<times> 'q" where
  "drain 0 q = ([], q)"
| "drain (Suc n) q =
     (if is_empty q then ([], q)
      else (case drain n (pop q) of (xs, q') \<Rightarrow> (front q # xs, q')))"

lemma drain_items:
  "inv q \<Longrightarrow> length (items q) \<le> n \<Longrightarrow>
   fst (drain n q) = items q \<and> items (snd (drain n q)) = [] \<and> inv (snd (drain n q)) \<and>
     capacity (snd (drain n q)) = capacity q"
proof (induction n arbitrary: q)
  case (Suc n)
  show ?case
  proof (cases "items q")
    case Nil
    then show ?thesis using Suc.prems by (simp add: empty_items)
  next
    case (Cons x xs)
    then have "inv (pop q)" "items (pop q) = xs" "front q = x" "capacity (pop q) = capacity q"
      using Suc.prems by (simp_all add: inv_pop items_pop front_items capacity_pop)
    with Cons Suc.IH [of "pop q"] Suc.prems show ?thesis
      by (auto simp: empty_items split: prod.splits)
  qed
qed simp

end

section \<open>The ring buffer provides it\<close>

definition cq_items :: "'a circular_q \<Rightarrow> 'a list" where
  "cq_items q = map (cq_at q) [0..<cq_size q]"

definition cq_capacity :: "'a circular_q \<Rightarrow> nat" where
  "cq_capacity q = cq_max q - 1"

definition cq_inv :: "'a circular_q \<Rightarrow> bool" where
  "cq_inv q \<longleftrightarrow> length (cq_v q) = cq_max q \<and> cq_head q < cq_max q \<and> cq_tail q < cq_max q"

lemma cq_tail_size:
  assumes "cq_inv q"
  shows "cq_size q < cq_max q \<and> cq_tail q = (cq_head q + cq_size q) mod cq_max q"
  using assms by (auto simp: cq_inv_def cq_size_def mod_if)

lemma cq_size_unique:
  assumes "cq_head q < cq_max q" "n < cq_max q" "cq_tail q = (cq_head q + n) mod cq_max q"
  shows "cq_size q = n"
  using assms by (auto simp: cq_size_def mod_if)

lemma length_cq_items [simp]: "length (cq_items q) = cq_size q"
  by (simp add: cq_items_def)

lemma mod_add_inject:
  "(h :: nat) < m \<Longrightarrow> i < m \<Longrightarrow> j < m \<Longrightarrow> (h + i) mod m = (h + j) mod m \<longleftrightarrow> i = j"
  by (auto simp: mod_if split: if_splits)

lemma cq_items_eq:
  assumes "cq_inv q" "cq_size q' = n" "cq_max q' = cq_max q"
    and "\<And>i. i < n \<Longrightarrow> cq_at q' i = xs ! i" "length xs = n"
  shows "cq_items q' = xs"
  using assms(2,4,5) by (auto simp: cq_items_def intro: nth_equalityI)

lemma cq_push_inv: "cq_inv q \<Longrightarrow> cq_inv (cq_push_back x q)"
  by (auto simp: cq_inv_def cq_push_back_def Let_def)

lemma cq_max_push [simp]: "cq_max (cq_push_back x q) = cq_max q"
  by (simp add: cq_push_back_def Let_def)

lemma cq_max_pop [simp]: "cq_max (cq_pop_front q) = cq_max q"
  by (simp add: cq_pop_front_def)

lemma cq_items_push:
  assumes "cq_inv q"
  shows "cq_items (cq_push_back x q) =
    (if length (cq_items q) < cq_capacity q then cq_items q @ [x] else tl (cq_items q @ [x]))"
proof -
  let ?m = "cq_max q" and ?h = "cq_head q" and ?n = "cq_size q"
  let ?v = "(cq_v q)[cq_tail q := x]"
  have h: "?h < ?m" and len: "length (cq_v q) = ?m" using assms by (simp_all add: cq_inv_def)
  have n: "?n < ?m" and t: "cq_tail q = (?h + ?n) mod ?m" using cq_tail_size [OF assms] by simp_all
  have old: "?v ! ((?h + i) mod ?m) = cq_items q ! i" if "i < ?n" for i
    using that n h mod_add_inject [OF h, of i ?n] by (simp add: cq_items_def cq_at_def t nth_list_update)
  have new: "?v ! ((?h + ?n) mod ?m) = x"
    using h len by (simp add: t)
  have t': "(cq_tail q + 1) mod ?m = (?h + Suc ?n) mod ?m" by (simp add: t mod_simps)
  have full: "(?h + Suc ?n) mod ?m = ?h \<longleftrightarrow> Suc ?n = ?m"
    using h n by (auto simp: mod_if)
  show ?thesis
  proof (cases "Suc ?n = ?m")
    case False
    then have "Suc ?n < ?m" using n by simp
    then show ?thesis
      using h t' full False old new
      by (auto intro!: cq_items_eq [OF assms, where n = "Suc ?n"] cq_size_unique
          simp: cq_push_back_def Let_def cq_capacity_def cq_at_def nth_append less_Suc_eq)
  next
    case True
    have at: "(Suc ?h mod ?m + i) mod ?m = (?h + Suc i) mod ?m" for i by (simp add: mod_simps)
    have "(?h + Suc ?n) mod ?m = (Suc ?h mod ?m + ?n) mod ?m" by (simp add: mod_simps)
    moreover have "(cq_items q @ [x]) ! Suc i = ?v ! ((?h + Suc i) mod ?m)" if "i < ?n" for i
      using that old [of "Suc i"] new by (cases "Suc i = ?n") (auto simp: nth_append)
    ultimately show ?thesis
      using h t' full True n
      by (auto intro!: cq_items_eq [OF assms, where n = ?n] cq_size_unique
          simp: cq_push_back_def Let_def cq_capacity_def cq_at_def nth_tl at)
  qed
qed

lemma cq_items_pop:
  assumes "cq_inv q" "cq_items q \<noteq> []"
  shows "cq_items (cq_pop_front q) = tl (cq_items q)" "cq_inv (cq_pop_front q)"
    "cq_front q = hd (cq_items q)"
proof -
  let ?m = "cq_max q" and ?h = "cq_head q" and ?n = "cq_size q"
  have h: "?h < ?m" using assms(1) by (simp add: cq_inv_def)
  have n: "?n < ?m" and t: "cq_tail q = (?h + ?n) mod ?m"
    using cq_tail_size [OF assms(1)] by simp_all
  have pos: "0 < ?n" using assms(2) by (simp flip: length_greater_0_conv)
  have at: "(Suc ?h mod ?m + i) mod ?m = (?h + Suc i) mod ?m" for i by (simp add: mod_simps)
  have "cq_size (cq_pop_front q) = ?n - 1"
    using h n t pos at [of "?n - 1"] by (auto intro!: cq_size_unique simp: cq_pop_front_def)
  moreover have "cq_at (cq_pop_front q) i = cq_at q (Suc i)" for i
    by (simp add: cq_pop_front_def cq_at_def at)
  ultimately show "cq_items (cq_pop_front q) = tl (cq_items q)"
    by (auto simp: cq_items_def nth_tl intro!: nth_equalityI)
  show "cq_inv (cq_pop_front q)" using assms(1) h by (simp add: cq_inv_def cq_pop_front_def)
  show "cq_front q = hd (cq_items q)"
    using pos h by (simp add: cq_front_def cq_items_def cq_at_def hd_map upt_conv_Cons)
qed

interpretation cq: bounded_queue cq_push_back cq_pop_front cq_front cq_empty cq_full
  cq_items cq_capacity cq_inv
proof (unfold_locales, goal_cases)
  case (6 q)
  then show ?case
    using cq_tail_size [of q] by (auto simp: cq_empty_def cq_inv_def cq_items_def cq_size_def)
next
  case (7 q)
  then show ?case
    using cq_tail_size [of q] by (auto simp: cq_full_def cq_inv_def cq_capacity_def mod_if)
next
  case (8 q)
  then show ?case using cq_tail_size [of q] by (auto simp: cq_capacity_def)
qed (simp_all add: cq_push_inv cq_items_push cq_items_pop cq_capacity_def del: length_cq_items)

section \<open>Properties\<close>

lemma cq_new_inv:
  assumes "n < 2 ^ 64 - 1"
  shows "cq_inv (cq_new b n)" "cq_items (cq_new b n) = []" "cq_capacity (cq_new b n) = n"
  using assms by (simp_all add: cq_inv_def cq_new_def cq_items_def cq_size_def cq_capacity_def Let_def)

text \<open>A ring buffer made for \<open>n\<close> items holds, after any pushes, exactly the last \<open>n\<close> of them in
  the order they came, and reading it to the end returns those and leaves it empty.\<close>

theorem circular_q_keeps_last:
  assumes "n < 2 ^ 64 - 1"
  shows "cq_items (fold cq_push_back xs (cq_new b n)) = drop (length xs - n) xs \<and>
    fst (cq.drain n (fold cq_push_back xs (cq_new b n))) = drop (length xs - n) xs"
proof -
  note new = cq_new_inv [OF assms, of b]
  let ?q = "fold cq_push_back xs (cq_new b n)"
  have q: "cq_inv ?q" "cq_capacity ?q = n" "cq_items ?q = drop (length xs - n) xs"
    using cq.push_all [OF new(1), of xs] new(2,3) by simp_all
  then have "length (cq_items ?q) \<le> n" using cq.length_items [OF q(1)] by simp
  with q show ?thesis using cq.drain_items [OF q(1)] by simp
qed

theorem circular_q_keeps_last_witness:
  "cq_items (fold cq_push_back [1, 2, 3, 4, 5 :: nat] (cq_new 0 3)) = [3, 4, 5]"
  using circular_q_keeps_last [of 3 "[1, 2, 3, 4, 5 :: nat]" 0] by simp

text \<open>A queue asked to hold the largest \<^verbatim>\<open>size_t\<close> is disabled: the size wraps to zero.\<close>

lemma cq_new_wraps: "cq_push_back x (cq_new b (2 ^ 64 - 1)) = cq_new b (2 ^ 64 - 1)"
  by (simp add: cq_push_back_def cq_new_def)

end
