(* ===== verification/Spd_Os.thy ===== *)
theory Spd_Os
  imports Spd_Common
begin

text \<open>
  Files and folders as the logging library reaches them
  (\<^verbatim>\<open>contrib/spdlog/include/spdlog/details/os-inl.h\<close>): opening, removing, and making the folders
  a path needs.
\<close>

section \<open>The disk\<close>

text \<open>The results of the coming calls of \<^verbatim>\<open>fopen\<close>, \<^verbatim>\<open>fwrite\<close>, \<^verbatim>\<open>remove\<close>, \<^verbatim>\<open>mkdir\<close>,
  \<^verbatim>\<open>rename\<close> and of the clock are given as streams.\<close>

record disk =
  dk_files :: "string \<Rightarrow> string option"
  dk_dirs :: "string \<Rightarrow> bool"
  dk_open :: "nat \<Rightarrow> bool"
  dk_write :: "nat \<Rightarrow> bool"
  dk_remove :: "nat \<Rightarrow> bool"
  dk_mkdir :: "nat \<Rightarrow> bool"
  dk_rename :: "nat \<Rightarrow> bool"
  dk_clock :: "nat \<Rightarrow> int"

definition dk_now :: "disk \<Rightarrow> int \<times> disk" where
  "dk_now d = (dk_clock d 0, d\<lparr>dk_clock := (\<lambda>i. dk_clock d (Suc i))\<rparr>)"

text \<open>\<^verbatim>\<open>fopen\<close> in mode \<^verbatim>\<open>ab\<close> creates a missing file, in mode \<^verbatim>\<open>wb\<close> it also empties an old one.\<close>

definition dk_fopen :: "bool \<Rightarrow> string \<Rightarrow> disk \<Rightarrow> bool \<times> disk" where
  "dk_fopen wb name d =
     (let ok = dk_open d 0;
          d = d\<lparr>dk_open := (\<lambda>i. dk_open d (Suc i))\<rparr>;
          d = (if ok \<and> (wb \<or> dk_files d name = None)
               then d\<lparr>dk_files := (dk_files d)(name := Some [])\<rparr> else d)
      in (ok, d))"

definition dk_append :: "string \<Rightarrow> string \<Rightarrow> disk \<Rightarrow> disk" where
  "dk_append name s d =
     d\<lparr>dk_files := (dk_files d)(name := map_option (\<lambda>old. old @ s) (dk_files d name))\<rparr>"

text \<open>A path exists when it is a file or a folder.\<close>

definition path_exists :: "string \<Rightarrow> disk \<Rightarrow> bool" where
  "path_exists name d \<longleftrightarrow> dk_files d name \<noteq> None \<or> dk_dirs d name"

definition remove_if_exists :: "string \<Rightarrow> disk \<Rightarrow> bool \<times> disk" where
  "remove_if_exists name d =
     (if path_exists name d then
        let ok = dk_remove d 0;
            d = d\<lparr>dk_remove := (\<lambda>i. dk_remove d (Suc i))\<rparr>
        in (ok, if ok then d\<lparr>dk_files := (dk_files d)(name := None),
                              dk_dirs := (dk_dirs d)(name := False)\<rparr> else d)
      else (True, d))"

definition os_remove :: "string \<Rightarrow> disk \<Rightarrow> bool \<times> disk" where
  "os_remove name d = (if path_exists name d then remove_if_exists name d else (False, d))"

text \<open>\<^verbatim>\<open>rename\<close> of a path that does not exist fails; what is in a folder is not followed.\<close>

definition os_rename :: "string \<Rightarrow> string \<Rightarrow> disk \<Rightarrow> bool \<times> disk" where
  "os_rename src target d =
     (let ok = dk_rename d 0 \<and> path_exists src d;
          d = d\<lparr>dk_rename := (\<lambda>i. dk_rename d (Suc i))\<rparr>
      in (ok, if ok then d\<lparr>dk_files := (dk_files d)(src := None, target := dk_files d src),
                            dk_dirs := (dk_dirs d)(src := False, target := dk_dirs d src)\<rparr> else d))"

section \<open>Paths\<close>

definition find_last_of :: "string \<Rightarrow> string \<Rightarrow> nat option" where
  "find_last_of seps s =
     (if \<exists>c \<in> set s. c \<in> set seps
      then Some (length s - 1 - length (takeWhile (\<lambda>c. c \<notin> set seps) (rev s))) else None)"

definition dir_name :: "platform \<Rightarrow> string \<Rightarrow> string" where
  "dir_name os path =
     (case find_last_of (os_folder_seps os) path of Some pos \<Rightarrow> take pos path | None \<Rightarrow> [])"

text \<open>Where the folder that starts at an offset ends: \<^verbatim>\<open>find_first_of\<close>, or the end of the path.\<close>

definition token_end :: "string \<Rightarrow> string \<Rightarrow> nat \<Rightarrow> nat" where
  "token_end seps path off = off + length (takeWhile (\<lambda>c. c \<notin> set seps) (drop off path))"

definition os_mkdir :: "string \<Rightarrow> disk \<Rightarrow> bool \<times> disk" where
  "os_mkdir name d =
     (let ok = dk_mkdir d 0;
          d = d\<lparr>dk_mkdir := (\<lambda>i. dk_mkdir d (Suc i))\<rparr>
      in (ok, if ok then d\<lparr>dk_dirs := (dk_dirs d)(name := True)\<rparr> else d))"

text \<open>One turn of the loop of \<^verbatim>\<open>create_dir\<close>.\<close>

definition make_folder :: "string \<Rightarrow> disk \<Rightarrow> bool \<times> disk" where
  "make_folder subdir d =
     (if subdir \<noteq> [] \<and> \<not> path_exists subdir d then os_mkdir subdir d else (True, d))"

function create_dir_from :: "string \<Rightarrow> string \<Rightarrow> nat \<Rightarrow> disk \<Rightarrow> bool \<times> disk" where
  "create_dir_from seps path off d =
     (case make_folder (take (token_end seps path off) path) d of
        (ok, d) \<Rightarrow>
          if \<not> ok then (False, d)
          else if token_end seps path off + 1 < length path
          then create_dir_from seps path (token_end seps path off + 1) d
          else (True, d))"
  by pat_completeness auto
termination
  by (relation "measure (\<lambda>(seps, path, off, d). length path - off)") (auto simp: token_end_def)

declare create_dir_from.simps [simp del]

definition create_dir :: "platform \<Rightarrow> string \<Rightarrow> disk \<Rightarrow> bool \<times> disk" where
  "create_dir os path d =
     (if path_exists path d then (True, d)
      else if path = [] then (False, d)
      else create_dir_from (os_folder_seps os) path 0 d)"

section \<open>Making folders\<close>

text \<open>What making a folder leaves alone.\<close>

definition only_folders :: "disk \<Rightarrow> disk \<Rightarrow> bool" where
  "only_folders d d' \<longleftrightarrow>
     d' = d\<lparr>dk_dirs := dk_dirs d', dk_mkdir := dk_mkdir d'\<rparr> \<and>
     (\<forall>name. dk_dirs d name \<longrightarrow> dk_dirs d' name)"

lemma only_folders_refl [simp]: "only_folders d d"
  by (simp add: only_folders_def)

lemma only_folders_trans: "only_folders d d' \<Longrightarrow> only_folders d' d'' \<Longrightarrow> only_folders d d''"
  by (cases d; cases d'; cases d'') (simp add: only_folders_def)

lemma only_folders_simps:
  assumes "only_folders d d'"
  shows "dk_files d' = dk_files d" "dk_open d' = dk_open d" "dk_write d' = dk_write d"
    "dk_remove d' = dk_remove d" "dk_clock d' = dk_clock d" "dk_rename d' = dk_rename d"
proof -
  have eq: "d' = d\<lparr>dk_dirs := dk_dirs d', dk_mkdir := dk_mkdir d'\<rparr>"
    using assms by (simp add: only_folders_def)
  show "dk_files d' = dk_files d" by (subst eq) simp
  show "dk_open d' = dk_open d" by (subst eq) simp
  show "dk_write d' = dk_write d" by (subst eq) simp
  show "dk_remove d' = dk_remove d" by (subst eq) simp
  show "dk_clock d' = dk_clock d" by (subst eq) simp
  show "dk_rename d' = dk_rename d" by (subst eq) simp
qed

lemma only_folders_path: "only_folders d d' \<Longrightarrow> path_exists p d \<Longrightarrow> path_exists p d'"
  by (auto simp: path_exists_def only_folders_simps) (simp add: only_folders_def)

lemma make_folder_result:
  "make_folder p d = (ok, d') \<Longrightarrow> only_folders d d' \<and> (ok \<longrightarrow> p \<noteq> [] \<longrightarrow> path_exists p d')"
  by (auto simp: make_folder_def os_mkdir_def only_folders_def path_exists_def Let_def
      split: if_splits)

text \<open>Where a folder of a path ends.\<close>

definition folder_end :: "string \<Rightarrow> string \<Rightarrow> nat \<Rightarrow> bool" where
  "folder_end seps path k \<longleftrightarrow>
     0 < k \<and> (k = length path \<and> last path \<notin> set seps \<or> k < length path \<and> path ! k \<in> set seps)"

lemma token_end_bounds:
  assumes "off \<le> length path"
  shows "off \<le> token_end seps path off" "token_end seps path off \<le> length path"
    and "\<And>k. off \<le> k \<Longrightarrow> k < token_end seps path off \<Longrightarrow> path ! k \<notin> set seps"
    and "token_end seps path off < length path \<Longrightarrow> path ! token_end seps path off \<in> set seps"
proof -
  let ?t = "takeWhile (\<lambda>c. c \<notin> set seps) (drop off path)"
  have len: "length ?t \<le> length path - off" using length_takeWhile_le [of _ "drop off path"] by simp
  then show "off \<le> token_end seps path off" "token_end seps path off \<le> length path"
    using assms by (simp_all add: token_end_def)
  show "path ! k \<notin> set seps" if "off \<le> k" "k < token_end seps path off" for k
  proof -
    have "k - off < length ?t" using that by (simp add: token_end_def)
    then have "?t ! (k - off) \<in> set ?t" "?t ! (k - off) = drop off path ! (k - off)"
      by (rule nth_mem, rule takeWhile_nth)
    then show ?thesis using that assms by (auto dest: set_takeWhileD)
  qed
  show "path ! token_end seps path off \<in> set seps" if "token_end seps path off < length path"
    using that assms nth_length_takeWhile [of "\<lambda>c. c \<notin> set seps" "drop off path"]
    by (simp add: token_end_def)
qed

lemma create_dir_from_result:
  "create_dir_from seps path off d = (ok, d') \<Longrightarrow> off < length path \<Longrightarrow>
   only_folders d d' \<and>
   (ok \<longrightarrow> (\<forall>k. off \<le> k \<longrightarrow> folder_end seps path k \<longrightarrow> path_exists (take k path) d'))"
proof (induction seps path off d arbitrary: ok d' rule: create_dir_from.induct)
  case (1 seps path off d)
  let ?e = "token_end seps path off"
  have le: "off \<le> length path" using 1(3) by simp
  note e = token_end_bounds [OF le, where seps = seps]
  obtain ok1 d1 where mk: "make_folder (take ?e path) d = (ok1, d1)"
    by (cases "make_folder (take ?e path) d")
  note made = make_folder_result [OF mk]
  have upto: "k = ?e \<or> ?e + 1 \<le> k" if "off \<le> k" "folder_end seps path k" for k
    using that e by (cases "k < ?e") (auto simp: folder_end_def)
  consider "\<not> ok1" | "ok1" "?e + 1 < length path" | "ok1" "\<not> ?e + 1 < length path" by blast
  then show ?case
  proof cases
    case 1
    then show ?thesis using made "1.prems" by (simp add: create_dir_from.simps [of seps path off] mk)
  next
    case 2
    then have "create_dir_from seps path (?e + 1) d1 = (ok, d')"
      using "1.prems"(1) by (simp add: create_dir_from.simps [of seps path off] mk)
    from "1.IH" [OF mk [symmetric] _ _ this] 2 have ih: "only_folders d1 d'"
      "\<And>k. ok \<Longrightarrow> ?e + 1 \<le> k \<Longrightarrow> folder_end seps path k \<Longrightarrow> path_exists (take k path) d'"
      by simp_all
    have "path_exists (take k path) d'" if "ok" "off \<le> k" "folder_end seps path k" for k
    proof (cases "k = ?e")
      case True
      then have "path_exists (take k path) d1" using made 2(1) that(3) by (auto simp: folder_end_def)
      with ih(1) show ?thesis by (rule only_folders_path)
    next
      case False
      then show ?thesis using ih(2) upto that by blast
    qed
    with made ih(1) show ?thesis by (blast intro: only_folders_trans)
  next
    case 3
    then have res: "ok" "d' = d1"
      using "1.prems"(1) by (simp_all add: create_dir_from.simps [of seps path off] mk)
    have "k = ?e" if "off \<le> k" "folder_end seps path k" for k
    proof (rule ccontr)
      assume "k \<noteq> ?e"
      with upto [OF that] that 3 have "k = length path" "length path = ?e + 1" "last path \<notin> set seps"
        by (auto simp: folder_end_def)
      moreover from this have "path ! ?e \<in> set seps" using e(4) by simp
      ultimately show False by (cases path rule: rev_cases) (simp_all add: nth_append)
    qed
    with res made 3 show ?thesis by (auto simp: folder_end_def)
  qed
qed

lemma create_dir_only_folders: "create_dir os path d = (ok, d') \<Longrightarrow> only_folders d d'"
  by (auto simp: create_dir_def dest: create_dir_from_result split: if_splits)

text \<open>When \<^verbatim>\<open>create_dir\<close> reports success, the path and every folder that leads to it exist;
  whatever it reports, no file and no other folder is touched.\<close>

theorem create_dir_makes_path:
  assumes "create_dir os path d = (True, d')" "\<not> path_exists path d"
  shows "only_folders d d' \<and>
    (\<forall>k. folder_end (os_folder_seps os) path k \<longrightarrow> path_exists (take k path) d')"
  using assms create_dir_from_result [of "os_folder_seps os" path 0 d True d']
  by (auto simp: create_dir_def split: if_splits)

end
