(* ===== verification/Spd_Files.thy ===== *)
theory Spd_Files
  imports Spd_Pattern Circular_Q Spd_Os
begin

text \<open>
  The file a daily logger writes (\<^verbatim>\<open>details/file_helper-inl.h\<close>, \<^verbatim>\<open>sinks/daily_file_sink.h\<close> of
  \<^verbatim>\<open>contrib/spdlog/include/spdlog\<close>): opening with retries, the name of the day, the rotation
  and the removal of old files.  What is written stays in the buffer of the \<^verbatim>\<open>FILE\<close> until it is
  flushed or closed.
\<close>

section \<open>One open file\<close>

record file_helper =
  fh_open :: bool
  fh_filename :: string
  fh_pending :: string

definition fh_new :: file_helper where
  "fh_new = \<lparr>fh_open = False, fh_filename = [], fh_pending = []\<rparr>"

definition fh_flush :: "file_helper \<Rightarrow> disk \<Rightarrow> file_helper \<times> disk" where
  "fh_flush h d =
     (if fh_open h then (h\<lparr>fh_pending := []\<rparr>, dk_append (fh_filename h) (fh_pending h) d)
      else (h, d))"

definition fh_close :: "file_helper \<Rightarrow> disk \<Rightarrow> file_helper \<times> disk" where
  "fh_close h d =
     (if fh_open h then
        (h\<lparr>fh_open := False, fh_pending := []\<rparr>, dk_append (fh_filename h) (fh_pending h) d)
      else (h, d))"

definition open_tries :: nat where
  "open_tries = 5"

text \<open>An operation that may throw returns the text of the exception (without what the system
  adds for \<^verbatim>\<open>errno\<close>), or \<^term>\<open>None\<close>.\<close>

primrec fh_try_open ::
  "platform \<Rightarrow> nat \<Rightarrow> string \<Rightarrow> bool \<Rightarrow> file_helper \<Rightarrow> disk \<Rightarrow> string option \<times> file_helper \<times> disk" where
  "fh_try_open os 0 fname trunc h d =
     (Some (''Failed opening file '' @ fh_filename h @ '' for writing''), h, d)"
| "fh_try_open os (Suc n) fname trunc h d =
     (let (_, d) = create_dir os (dir_name os fname) d;
          (ok, d) = (if trunc then dk_fopen True fname d else (True, d)) in
      if \<not> ok then fh_try_open os n fname trunc h d
      else
        let (ok, d) = dk_fopen False fname d in
        if ok then (None, h\<lparr>fh_open := True, fh_pending := []\<rparr>, d)
        else fh_try_open os n fname trunc h d)"

definition fh_open_file ::
  "platform \<Rightarrow> string \<Rightarrow> bool \<Rightarrow> file_helper \<Rightarrow> disk \<Rightarrow> string option \<times> file_helper \<times> disk" where
  "fh_open_file os fname trunc h d =
     (let (h, d) = fh_close h d
      in fh_try_open os open_tries fname trunc (h\<lparr>fh_filename := fname\<rparr>) d)"

definition fh_reopen :: "platform \<Rightarrow> bool \<Rightarrow> file_helper \<Rightarrow> disk \<Rightarrow> string option \<times> file_helper \<times> disk" where
  "fh_reopen os trunc h d =
     (if fh_filename h = [] then
        (Some ''Failed re opening file - was not opened before'', h, d)
      else fh_open_file os (fh_filename h) trunc h d)"

text \<open>Writing through a null \<^verbatim>\<open>FILE\<close> pointer is undefined: \<^term>\<open>None\<close>.\<close>

definition fh_write ::
  "string \<Rightarrow> file_helper \<Rightarrow> disk \<Rightarrow> (string option \<times> file_helper \<times> disk) option" where
  "fh_write buf h d =
     (if \<not> fh_open h then None
      else
        let ok = dk_write d 0;
            d = d\<lparr>dk_write := (\<lambda>i. dk_write d (Suc i))\<rparr>
        in Some (if ok then (None, h\<lparr>fh_pending := fh_pending h @ buf\<rparr>, d)
                 else (Some (''Failed writing to file '' @ fh_filename h), h, d)))"

definition fh_size :: "file_helper \<Rightarrow> disk \<Rightarrow> string + nat" where
  "fh_size h d =
     (if \<not> fh_open h then Inl (''Cannot use size() on closed file '' @ fh_filename h)
      else Inr (case dk_files d (fh_filename h) of None \<Rightarrow> 0 | Some s \<Rightarrow> length s))"

section \<open>File names\<close>

definition split_by_extension :: "platform \<Rightarrow> string \<Rightarrow> string \<times> string" where
  "split_by_extension os fname =
     (case find_last_of ''.'' fname of
        None \<Rightarrow> (fname, [])
      | Some ext_index \<Rightarrow>
          if ext_index = 0 \<or> ext_index = length fname - 1 then (fname, [])
          else
            (case find_last_of (os_folder_seps os) fname of
               None \<Rightarrow> (take ext_index fname, drop ext_index fname)
             | Some folder_index \<Rightarrow>
                 if ext_index - 1 \<le> folder_index then (fname, [])
                 else (take ext_index fname, drop ext_index fname)))"

text \<open>Zero padding to a width, after the sign, as \<^verbatim>\<open>{:04d}\<close> does.\<close>

definition zero_pad :: "nat \<Rightarrow> int \<Rightarrow> string" where
  "zero_pad w n =
     (if n < 0 then CHR ''-'' # replicate (w - 1 - length (show_nat (nat (- n)))) (CHR ''0'') @
        show_nat (nat (- n))
      else replicate (w - length (show_nat (nat n))) (CHR ''0'') @ show_nat (nat n))"

definition calc_filename :: "platform \<Rightarrow> string \<Rightarrow> tm \<Rightarrow> string" where
  "calc_filename os filename t =
     (let (basename, ext) = split_by_extension os filename
      in basename @ ''_'' @ zero_pad 4 (tm_year t + 1900) @ ''-'' @ zero_pad 2 (tm_mon t + 1) @
         ''-'' @ zero_pad 2 (tm_mday t) @ ext)"

section \<open>The daily sink\<close>

record daily_sink =
  ds_base :: string
  ds_hour :: int
  ds_minute :: int
  ds_rotation :: int
  ds_file :: file_helper
  ds_truncate :: bool
  ds_max_files :: u16
  ds_names :: "string circular_q"
  ds_formatter :: pattern_formatter
  ds_level :: level_enum

definition now_tm :: "platform \<Rightarrow> int \<Rightarrow> tm" where
  "now_tm os tp = os_localtime os (duration_cast seconds tp)"

definition hours24 :: int where
  "hours24 = 24 * 3600 * seconds"

definition rotation_after :: "platform \<Rightarrow> int \<Rightarrow> int \<Rightarrow> int \<Rightarrow> int" where
  "rotation_after os h m now =
     (let date = (now_tm os now)\<lparr>tm_hour := h, tm_min := m, tm_sec := 0\<rparr>;
          rotation_time = os_mktime os date * seconds
      in if now < rotation_time then rotation_time else rotation_time + hours24)"

definition next_rotation_tp :: "platform \<Rightarrow> daily_sink \<Rightarrow> disk \<Rightarrow> int \<times> disk" where
  "next_rotation_tp os s d =
     (let (now, d) = dk_now d in (rotation_after os (ds_hour s) (ds_minute s) now, d))"

primrec existing_names :: "platform \<Rightarrow> string \<Rightarrow> disk \<Rightarrow> nat \<Rightarrow> int \<Rightarrow> string list" where
  "existing_names os base d 0 now = []"
| "existing_names os base d (Suc n) now =
     (let filename = calc_filename os base (now_tm os now) in
      if path_exists filename d then filename # existing_names os base d n (now - hours24) else [])"

definition init_filenames_q :: "platform \<Rightarrow> daily_sink \<Rightarrow> disk \<Rightarrow> daily_sink \<times> disk" where
  "init_filenames_q os s d =
     (let (now, d) = dk_now d;
          names = existing_names os (ds_base s) d (unat (ds_max_files s)) now
      in (s\<lparr>ds_names := fold cq_push_back (rev names) (cq_new [] (unat (ds_max_files s)))\<rparr>, d))"

definition daily_sink_new ::
  "platform \<Rightarrow> string \<Rightarrow> int \<Rightarrow> int \<Rightarrow> bool \<Rightarrow> u16 \<Rightarrow> disk \<Rightarrow> (string + daily_sink) \<times> disk" where
  "daily_sink_new os base h m trunc max_files d =
     (if h < 0 \<or> 23 < h \<or> m < 0 \<or> 59 < m then
        (Inl ''daily_file_sink: Invalid rotation time in ctor'', d)
      else
        let (now, d) = dk_now d;
            (e, file, d) = fh_open_file os (calc_filename os base (now_tm os now)) trunc fh_new d
        in (case e of
              Some msg \<Rightarrow> (Inl msg, d)
            | None \<Rightarrow>
                let s = \<lparr>ds_base = base, ds_hour = h, ds_minute = m, ds_rotation = 0,
                         ds_file = file, ds_truncate = trunc, ds_max_files = max_files,
                         ds_names = cq_disabled,
                         ds_formatter = default_formatter Time_local (os_default_eol os),
                         ds_level = Level_trace\<rparr>;
                    (tp, d) = next_rotation_tp os s d;
                    s = s\<lparr>ds_rotation := tp\<rparr>;
                    (s, d) = (if 0 < max_files then init_filenames_q os s d else (s, d))
                in (Inr s, d)))"

definition delete_old :: "daily_sink \<Rightarrow> disk \<Rightarrow> string option \<times> daily_sink \<times> disk" where
  "delete_old s d =
     (let current_file = fh_filename (ds_file s);
          push = (\<lambda>s. s\<lparr>ds_names := cq_push_back current_file (ds_names s)\<rparr>)
      in if cq_full (ds_names s) then
           let old_filename = cq_front (ds_names s);
               s = s\<lparr>ds_names := cq_pop_front (ds_names s)\<rparr>;
               (ok, d) = remove_if_exists old_filename d
           in if ok then (None, push s, d)
              else (Some (''Failed removing daily file '' @ old_filename), push s, d)
         else (None, push s, d))"

text \<open>One message.  An exception of the formatter leaves its caches behind in the source; the
  next message refreshes them, so the formatter is kept as it was.\<close>

definition daily_write ::
  "platform \<Rightarrow> bool \<Rightarrow> log_msg \<Rightarrow> daily_sink \<Rightarrow> disk \<Rightarrow>
   (string option \<times> daily_sink \<times> disk) option" where
  "daily_write os should_rotate msg s d =
     (case pf_format os (ds_formatter s) msg [] of
        None \<Rightarrow> Some (Some ''formatter'', s, d)
      | Some (pf, msg, formatted) \<Rightarrow>
          (case fh_write formatted (ds_file s) d of
             None \<Rightarrow> None
           | Some (e, file, d) \<Rightarrow>
               let s = s\<lparr>ds_formatter := pf, ds_file := file\<rparr> in
               (case e of
                  Some err \<Rightarrow> Some (Some err, s, d)
                | None \<Rightarrow>
                    if should_rotate \<and> 0 < ds_max_files s then Some (delete_old s d)
                    else Some (None, s, d))))"

definition daily_sink_it ::
  "platform \<Rightarrow> log_msg \<Rightarrow> daily_sink \<Rightarrow> disk \<Rightarrow> (string option \<times> daily_sink \<times> disk) option" where
  "daily_sink_it os msg s d =
     (let should_rotate = ds_rotation s \<le> lm_time msg in
      if should_rotate then
        let (e, file, d) =
              fh_open_file os (calc_filename os (ds_base s) (now_tm os (lm_time msg)))
                (ds_truncate s) (ds_file s) d;
            s = s\<lparr>ds_file := file\<rparr>
        in (case e of
              Some err \<Rightarrow> Some (Some err, s, d)
            | None \<Rightarrow>
                let (tp, d) = next_rotation_tp os s d
                in daily_write os True msg (s\<lparr>ds_rotation := tp\<rparr>) d)
      else daily_write os False msg s d)"

definition daily_flush :: "daily_sink \<Rightarrow> disk \<Rightarrow> daily_sink \<times> disk" where
  "daily_flush s d = (let (file, d) = fh_flush (ds_file s) d in (s\<lparr>ds_file := file\<rparr>, d))"

end
