(* ===== verification/Spd_Files_Props.thy ===== *)
theory Spd_Files_Props
  imports Spd_Files Spd_Pattern_Props
begin

text \<open>
  Properties of the file layer: the parts of a file name, and the safety of the daily sink
  under any failures of the system.
\<close>

section \<open>Splitting off the extension\<close>

lemma find_last_of_app:
  assumes "c \<in> set seps" "set b \<inter> set seps = {}"
  shows "find_last_of seps (a @ c # b) = Some (length a)"
proof -
  have "takeWhile (\<lambda>c. c \<notin> set seps) (rev b @ c # rev a) = rev b"
    using assms by (subst takeWhile_append2) auto
  then show ?thesis using assms by (auto simp: find_last_of_def)
qed

lemma find_last_of_None: "set s \<inter> set seps = {} \<Longrightarrow> find_last_of seps s = None"
  by (auto simp: find_last_of_def)

lemma find_last_of_SomeD:
  "find_last_of seps s = Some i \<Longrightarrow> \<exists>a c b. s = a @ c # b \<and> i = length a \<and> c \<in> set seps"
proof -
  assume "find_last_of seps s = Some i"
  then obtain c where "c \<in> set s" "c \<in> set seps" by (auto simp: find_last_of_def split: if_splits)
  then obtain a c' b where s: "s = a @ c' # b" "c' \<in> set seps" "\<forall>x \<in> set b. x \<notin> set seps"
    using split_list_last_prop [of s "\<lambda>x. x \<in> set seps"] by blast
  then have "find_last_of seps s = Some (length a)" using find_last_of_app [of c' seps b a] by auto
  with \<open>find_last_of seps s = Some i\<close> s show ?thesis by auto
qed

text \<open>The extension of a path is what follows the last dot of its last component, dot
  included, unless that dot opens or closes the component; the two parts always make up the
  path.\<close>

theorem split_by_extension_parts:
  assumes "CHR ''.'' \<notin> set (os_folder_seps os)"
    and "dir = [] \<or> last dir \<in> set (os_folder_seps os)"
    and "set (stem @ ext) \<inter> set (os_folder_seps os) = {}" "CHR ''.'' \<notin> set ext"
  shows "split_by_extension os (dir @ stem @ CHR ''.'' # ext) =
      (if stem \<noteq> [] \<and> ext \<noteq> [] then (dir @ stem, CHR ''.'' # ext)
       else (dir @ stem @ CHR ''.'' # ext, [])) \<and>
    (\<forall>path. fst (split_by_extension os path) @ snd (split_by_extension os path) = path)"
proof
  let ?f = "dir @ stem @ CHR ''.'' # ext" and ?seps = "os_folder_seps os"
  have dot: "find_last_of ''.'' ?f = Some (length (dir @ stem))"
    using find_last_of_app [of "CHR ''.''" "''.''" ext "dir @ stem"] assms(4) by simp
  have sep: "find_last_of ?seps ?f = (if dir = [] then None else Some (length dir - 1))"
  proof (cases dir rule: rev_exhaust)
    case Nil
    then show ?thesis using assms(1,3) by (auto intro!: find_last_of_None)
  next
    case (snoc d c)
    then show ?thesis
      using assms find_last_of_app [of c ?seps "stem @ CHR ''.'' # ext" d] by auto
  qed
  show "split_by_extension os ?f =
      (if stem \<noteq> [] \<and> ext \<noteq> [] then (dir @ stem, CHR ''.'' # ext) else (?f, []))"
    unfolding split_by_extension_def dot sep
    by (cases dir rule: rev_exhaust; cases stem; cases ext) auto
  show "\<forall>path. fst (split_by_extension os path) @ snd (split_by_extension os path) = path"
    by (auto simp: split_by_extension_def split: option.splits)
qed

theorem split_by_extension_parts_witness:
  "split_by_extension sample_os ''/home/u/gologin.d/server.log'' =
     (''/home/u/gologin.d/server'', ''.log'')"
  using split_by_extension_parts [of sample_os "''/home/u/gologin.d/''" "''server''" "''log''"]
  by (simp add: sample_os_def)

section \<open>The daily sink under failures\<close>

lemma fh_try_open_result:
  "fh_try_open os n fname tr h d = (e, h', d') \<Longrightarrow> fh_filename h' = fh_filename h \<and>
     (e = None \<longrightarrow> fh_open h' \<and> fh_pending h' = []) \<and> (e \<noteq> None \<longrightarrow> fh_open h' = fh_open h)"
  by (induction n arbitrary: d) (auto simp: Let_def split: prod.splits if_splits)

lemma fh_open_file_result:
  "fh_open_file os fname tr h d = (e, h', d') \<Longrightarrow>
     fh_filename h' = fname \<and> (fh_open h' \<longleftrightarrow> e = None)"
  by (auto simp: fh_open_file_def fh_close_def Let_def dest!: fh_try_open_result
      split: prod.splits if_splits)

text \<open>When the system opens the file, it is opened at once: what was held back is written, the
  folders are made and the file is created unless it is there.\<close>

lemma open_healthy:
  assumes "dk_open d 0"
  shows "\<exists>d'. fh_open_file os name False f d =
      (None, \<lparr>fh_open = True, fh_filename = name, fh_pending = []\<rparr>, d') \<and>
    dk_files d' = (let fs = dk_files (snd (fh_close f d))
      in fs(name := Some (case fs name of None \<Rightarrow> [] | Some x \<Rightarrow> x))) \<and>
    dk_open d' = (\<lambda>i. dk_open d (Suc i)) \<and> dk_write d' = dk_write d \<and> dk_clock d' = dk_clock d"
proof -
  obtain f1 d1 where close: "fh_close f d = (f1, d1)" by (cases "fh_close f d")
  then have f1: "fh_pending f1 = (if fh_open f then [] else fh_pending f)" "dk_open d1 = dk_open d"
    "dk_write d1 = dk_write d" "dk_clock d1 = dk_clock d"
    by (auto simp: fh_close_def dk_append_def split: if_splits)
  obtain ok d2 where dir: "create_dir os (dir_name os name) d1 = (ok, d2)"
    by (cases "create_dir os (dir_name os name) d1")
  note folders = only_folders_simps [OF create_dir_only_folders [OF dir]]
  show ?thesis
    using assms
    by (cases f1)
      (auto simp: fh_open_file_def close dir open_tries_def numeral_eq_Suc dk_fopen_def Let_def folders
        f1 fun_eq_iff split: option.splits)
qed

lemma fh_write_result:
  "fh_write buf h d = Some (e, h', d') \<Longrightarrow> fh_open h' \<and> fh_filename h' = fh_filename h"
  by (auto simp: fh_write_def Let_def split: if_splits)

lemma delete_old_sink:
  "delete_old s d = (e, s', d') \<Longrightarrow> ds_file s' = ds_file s \<and> ds_rotation s' = ds_rotation s"
  by (auto simp: delete_old_def Let_def split: if_splits prod.splits)

lemma daily_write_result:
  assumes "fh_open (ds_file s)"
  shows "\<exists>e s' d'. daily_write os r msg s d = Some (e, s', d') \<and> fh_open (ds_file s') \<and>
    ds_rotation s' = ds_rotation s"
proof (cases "pf_format os (ds_formatter s) msg []")
  case None
  then show ?thesis using assms by (simp add: daily_write_def)
next
  case (Some p)
  obtain pf m formatted where p: "p = (pf, m, formatted)" by (cases p)
  have "fh_write formatted (ds_file s) d \<noteq> None" using assms by (simp add: fh_write_def Let_def)
  then obtain e fl d1 where w: "fh_write formatted (ds_file s) d = Some (e, fl, d1)" by auto
  let ?s = "s\<lparr>ds_formatter := pf, ds_file := fl\<rparr>"
  obtain e2 s2 d2 where del: "delete_old ?s d1 = (e2, s2, d2)" by (metis prod_cases3)
  from fh_write_result [OF w] delete_old_sink [OF del] show ?thesis
    using Some p w del
    by (cases e; cases "r \<and> 0 < ds_max_files s") (auto simp: daily_write_def Let_def)
qed

text \<open>What holds between two messages: the file is open, or the last message was past the time
  of rotation, so that the next one opens a file first.\<close>

definition daily_safe :: "int \<Rightarrow> daily_sink \<Rightarrow> bool" where
  "daily_safe T s \<longleftrightarrow> fh_open (ds_file s) \<or> ds_rotation s \<le> T"

text \<open>A run: an exception of the sink is caught by the logger, and the next message goes to the
  same sink.\<close>

primrec sink_run ::
  "(log_msg \<Rightarrow> 's \<Rightarrow> 'd \<Rightarrow> (string option \<times> 's \<times> 'd) option) \<Rightarrow> log_msg list \<Rightarrow> 's \<Rightarrow> 'd \<Rightarrow>
   (string option list \<times> 's \<times> 'd) option" where
  "sink_run step [] s d = Some ([], s, d)"
| "sink_run step (m # ms) s d =
     (case step m s d of
        None \<Rightarrow> None
      | Some (e, s, d) \<Rightarrow> map_option (\<lambda>(es, r). (e # es, r)) (sink_run step ms s d))"

abbreviation daily_run where
  "daily_run os \<equiv> sink_run (daily_sink_it os)"

text \<open>A sink whose file changes at given times: while the time has not come, an open file stays
  open; at a rotation the file is opened, or the rotation stays due.\<close>

locale timed_sink =
  fixes step :: "log_msg \<Rightarrow> 's \<Rightarrow> 'd \<Rightarrow> (string option \<times> 's \<times> 'd) option"
    and is_open :: "'s \<Rightarrow> bool" and rotation :: "'s \<Rightarrow> int"
  assumes stays_open: "is_open s \<Longrightarrow> lm_time m < rotation s \<Longrightarrow>
      \<exists>e s' d'. step m s d = Some (e, s', d') \<and> is_open s'"
    and rotates: "rotation s \<le> lm_time m \<Longrightarrow>
      \<exists>e s' d'. step m s d = Some (e, s', d') \<and> (is_open s' \<or> rotation s' \<le> lm_time m)"
begin

lemma step_safe:
  assumes "is_open s \<or> rotation s \<le> T" "T \<le> lm_time m"
  shows "\<exists>e s' d'. step m s d = Some (e, s', d') \<and> (is_open s' \<or> rotation s' \<le> lm_time m)"
proof (cases "rotation s \<le> lm_time m")
  case True
  then show ?thesis by (rule rotates)
next
  case False
  then show ?thesis using stays_open [of s m d] assms by auto
qed

lemma run_safe:
  "is_open s \<or> rotation s \<le> T \<Longrightarrow> sorted (T # map lm_time ms) \<Longrightarrow> sink_run step ms s d \<noteq> None"
proof (induction ms arbitrary: s d T)
  case (Cons m ms)
  obtain e s' d' where "step m s d = Some (e, s', d')" "is_open s' \<or> rotation s' \<le> lm_time m"
    using step_safe [OF Cons.prems(1), of m d] Cons.prems(2) by auto
  then show ?case using Cons.IH [of s' "lm_time m" d'] Cons.prems(2) by simp
qed simp

lemma open_run_safe:
  assumes "is_open s" "sorted (map lm_time ms)"
  shows "sink_run step ms s d \<noteq> None"
proof (cases ms)
  case (Cons m ms')
  with assms run_safe [of s "lm_time m" ms d] show ?thesis by simp
qed simp

end

lemma daily_sink_it_open:
  assumes "fh_open (ds_file s)" "lm_time msg < ds_rotation s"
  shows "\<exists>e s' d'. daily_sink_it os msg s d = Some (e, s', d') \<and> fh_open (ds_file s')"
  using daily_write_result [OF assms(1), of os False msg d] assms(2) by (auto simp: daily_sink_it_def)

lemma daily_sink_it_rotates:
  assumes "ds_rotation s \<le> lm_time msg"
  shows "\<exists>e s' d'. daily_sink_it os msg s d = Some (e, s', d') \<and>
    (fh_open (ds_file s') \<or> ds_rotation s' \<le> lm_time msg)"
proof -
  obtain e fl d1 where o: "fh_open_file os (calc_filename os (ds_base s) (now_tm os (lm_time msg)))
      (ds_truncate s) (ds_file s) d = (e, fl, d1)" by (metis prod_cases3)
  show ?thesis
  proof (cases e)
    case (Some err)
    with assms o show ?thesis by (auto simp: daily_sink_it_def)
  next
    case None
    obtain tp d2 where n: "next_rotation_tp os (s\<lparr>ds_file := fl\<rparr>) d1 = (tp, d2)"
      by (cases "next_rotation_tp os (s\<lparr>ds_file := fl\<rparr>) d1")
    have "fh_open (ds_file (s\<lparr>ds_file := fl, ds_rotation := tp\<rparr>))"
      using fh_open_file_result [OF o] None by simp
    from daily_write_result [OF this, of os True msg d2] assms o n None show ?thesis
      by (auto simp: daily_sink_it_def)
  qed
qed

interpretation daily: timed_sink "daily_sink_it os" "\<lambda>s. fh_open (ds_file s)" ds_rotation for os
  using daily_sink_it_open daily_sink_it_rotates by unfold_locales

lemma daily_sink_it_safe:
  assumes "daily_safe T s" "T \<le> lm_time msg"
  shows "\<exists>e s' d'. daily_sink_it os msg s d = Some (e, s', d') \<and> daily_safe (lm_time msg) s'"
  using daily.step_safe [of s T msg os d] assms by (simp add: daily_safe_def)

lemma daily_sink_new_safe:
  assumes "daily_sink_new os base h m tr n d = (Inr s, d')"
  shows "daily_safe T s"
proof -
  have "fh_open (ds_file s)"
    using assms
    by (auto simp: daily_sink_new_def Let_def init_filenames_q_def dest!: fh_open_file_result
        split: if_splits prod.splits option.splits)
  then show ?thesis by (simp add: daily_safe_def)
qed

text \<open>Once it is created, a daily sink never writes through a null \<^verbatim>\<open>FILE\<close> pointer while the
  times of its messages do not decrease, whichever calls of \<^verbatim>\<open>fopen\<close>, \<^verbatim>\<open>fwrite\<close> and
  \<^verbatim>\<open>remove\<close> fail: a rotation that failed is tried again with the next message.\<close>

theorem daily_sink_safe:
  assumes "daily_sink_new os base h m tr n d = (Inr s, d')" "sorted (map lm_time ms)"
  shows "daily_run os ms s d' \<noteq> None"
proof -
  have "fh_open (ds_file s)"
    using daily_sink_new_safe [OF assms(1), of "ds_rotation s - 1"] by (simp add: daily_safe_def)
  then show ?thesis using assms(2) by (rule daily.open_run_safe)
qed

definition sample_disk :: disk where
  "sample_disk = \<lparr>dk_files = Map.empty, dk_dirs = (\<lambda>_. False), dk_open = (\<lambda>i. i < 3),
     dk_write = (\<lambda>_. True), dk_remove = (\<lambda>_. True), dk_mkdir = (\<lambda>_. True),
     dk_rename = (\<lambda>_. True), dk_clock = (\<lambda>i. int i)\<rparr>"

lemma daily_new_opens:
  assumes "dk_open d 0" "0 \<le> h" "h \<le> 23" "0 \<le> m" "m \<le> 59"
  shows "\<exists>s d'. daily_sink_new os base h m False 0 d = (Inr s, d')"
proof -
  let ?d = "d\<lparr>dk_clock := (\<lambda>i. dk_clock d (Suc i))\<rparr>"
  from assms(1) have "dk_open ?d 0" by simp
  from open_healthy [OF this, of os "calc_filename os base (now_tm os (dk_clock d 0))" fh_new]
  obtain d1 where "fh_open_file os (calc_filename os base (now_tm os (dk_clock d 0))) False fh_new ?d =
      (None, \<lparr>fh_open = True, fh_filename = calc_filename os base (now_tm os (dk_clock d 0)), fh_pending = []\<rparr>, d1)"
    by blast
  with assms show ?thesis
    by (simp add: daily_sink_new_def dk_now_def next_rotation_tp_def Let_def)
qed

theorem daily_sink_safe_witness:
  "\<exists>s d. daily_sink_new sample_os ''/tmp/a.log'' 23 59 False 0 sample_disk = (Inr s, d) \<and>
     daily_run sample_os [sample_msg, sample_msg] s d \<noteq> None"
  using daily_new_opens [of sample_disk 23 59 sample_os "''/tmp/a.log''"] daily_sink_safe [of sample_os "''/tmp/a.log''" 23 59 False 0 sample_disk _ _
      "[sample_msg, sample_msg]"] by (auto simp: sample_disk_def)

end
