(* ===== verification/Log_Files.thy ===== *)
theory Log_Files
  imports Log_Lines Spd_Files_Props
begin

text \<open>
  The log file of the two programs: the daily sink with the program's pattern
  (\<^verbatim>\<open>core/logger.hpp\<close> asks for a rotation at 23:59) as an abstract machine that appends lines
  to named texts, and what the names say about the days of the messages.
\<close>

section \<open>The abstract machine\<close>

text \<open>The texts of all files, flushed or not, the current file, the time of the next rotation
  and the clock.\<close>

record log_texts =
  lt_text :: "string \<Rightarrow> string"
  lt_name :: string
  lt_rotation :: int
  lt_clock :: "nat \<Rightarrow> int"

definition lt_append :: "string \<Rightarrow> log_texts \<Rightarrow> log_texts" where
  "lt_append line st =
     st\<lparr>lt_text := (lt_text st)(lt_name st := lt_text st (lt_name st) @ line)\<rparr>"

definition lt_rotate :: "platform \<Rightarrow> string \<Rightarrow> int \<Rightarrow> int \<Rightarrow> int \<Rightarrow> log_texts \<Rightarrow> log_texts" where
  "lt_rotate os base h m T st =
     st\<lparr>lt_name := calc_filename os base (now_tm os T),
       lt_rotation := rotation_after os h m (lt_clock st 0),
       lt_clock := (\<lambda>i. lt_clock st (Suc i))\<rparr>"

definition route :: "platform \<Rightarrow> int \<Rightarrow> string \<Rightarrow> int \<Rightarrow> int \<Rightarrow> log_msg \<Rightarrow> log_texts \<Rightarrow> log_texts" where
  "route os off base h m msg st =
     lt_append (log_line os off msg)
       (if lt_rotation st \<le> lm_time msg then lt_rotate os base h m (lm_time msg) st else st)"

definition daily_abs :: "daily_sink \<Rightarrow> disk \<Rightarrow> log_texts" where
  "daily_abs s d =
     (let file = ds_file s in
      \<lparr>lt_text = (\<lambda>name. (case dk_files d name of None \<Rightarrow> [] | Some x \<Rightarrow> x) @
         (if name = fh_filename file then fh_pending file else [])),
       lt_name = fh_filename file, lt_rotation = ds_rotation s, lt_clock = dk_clock d\<rparr>)"

definition daily_ok :: "platform \<Rightarrow> int \<Rightarrow> string \<Rightarrow> int \<Rightarrow> int \<Rightarrow> daily_sink \<Rightarrow> disk \<Rightarrow> bool" where
  "daily_ok os off base h m s d \<longleftrightarrow>
     fh_open (ds_file s) \<and> dk_files d (fh_filename (ds_file s)) \<noteq> None \<and>
     (\<forall>i. dk_open d i \<and> dk_write d i) \<and> \<not> ds_truncate s \<and> ds_max_files s = 0 \<and>
     ds_base s = base \<and> ds_hour s = h \<and> ds_minute s = m \<and>
     formatter_ok os off (ds_formatter s)"

section \<open>The sink implements it\<close>

lemma daily_write_healthy:
  assumes "daily_ok os off base h m s d" "steady_offset os off" "10 * seconds \<le> lm_time msg"
  shows "\<exists>s' d'. daily_write os r msg s d = Some (None, s', d') \<and> daily_ok os off base h m s' d' \<and>
    daily_abs s' d' = lt_append (log_line os off msg) (daily_abs s d)"
proof -
  have ok: "formatter_ok os off (ds_formatter s)" using assms(1) by (simp add: daily_ok_def)
  obtain pf where "pf_format os (ds_formatter s) msg [] =
      Some (pf, coloured os off msg, log_line os off msg)" "formatter_ok os off pf"
    using pf_format_line [OF ok assms(2,3)] by blast
  then show ?thesis
    using assms(1)
    by (auto simp: daily_write_def fh_write_def Let_def daily_ok_def daily_abs_def lt_append_def fun_eq_iff)
qed

lemma daily_step_refines:
  assumes "daily_ok os off base h m s d" "steady_offset os off" "10 * seconds \<le> lm_time msg"
  shows "\<exists>s' d'. daily_sink_it os msg s d = Some (None, s', d') \<and> daily_ok os off base h m s' d' \<and>
    daily_abs s' d' = route os off base h m msg (daily_abs s d)"
proof (cases "ds_rotation s \<le> lm_time msg")
  case False
  with daily_write_healthy [OF assms, of False] show ?thesis
    by (auto simp: daily_sink_it_def route_def daily_abs_def [of s d] Let_def)
next
  case True
  let ?name = "calc_filename os base (now_tm os (lm_time msg))"
  let ?f = "\<lparr>fh_open = True, fh_filename = ?name, fh_pending = []\<rparr>"
  let ?old = "ds_file s"
  let ?fs = "dk_files (dk_append (fh_filename ?old) (fh_pending ?old) d)"
  obtain d1 where o: "fh_open_file os ?name False ?old d = (None, ?f, d1)"
    "dk_files d1 = ?fs(?name := Some (case ?fs ?name of None \<Rightarrow> [] | Some x \<Rightarrow> x))"
    "dk_open d1 = (\<lambda>i. dk_open d (Suc i))" "dk_write d1 = dk_write d" "dk_clock d1 = dk_clock d"
    using assms(1) open_healthy [of d os ?name ?old]
    by (auto simp: daily_ok_def fh_close_def Let_def)
  let ?d2 = "d1\<lparr>dk_clock := (\<lambda>i. dk_clock d (Suc i))\<rparr>"
  let ?s = "s\<lparr>ds_file := ?f, ds_rotation := rotation_after os h m (dk_clock d 0)\<rparr>"
  have eq: "daily_sink_it os msg s d = daily_write os True msg ?s ?d2"
    using True assms(1) o
    by (simp add: daily_sink_it_def daily_ok_def next_rotation_tp_def dk_now_def)
  have ok: "daily_ok os off base h m ?s ?d2"
    using assms(1) o by (simp add: daily_ok_def)
  have abs: "daily_abs ?s ?d2 = lt_rotate os base h m (lm_time msg) (daily_abs s d)"
    using assms(1) o
    by (auto simp: daily_abs_def lt_rotate_def Let_def dk_append_def fun_eq_iff daily_ok_def
        split: option.splits)
  have "lt_rotation (daily_abs s d) \<le> lm_time msg" using True by (simp add: daily_abs_def Let_def)
  with daily_write_healthy [OF ok assms(2,3), of True] show ?thesis
    by (simp only: eq abs route_def if_True)
qed

text \<open>C32: The daily sink with the program's pattern refines the abstract machine: while the system
  does what it is asked, every message becomes one line at the end of the text the machine
  names, and nothing else changes.\<close>

theorem daily_sink_refines:
  assumes "daily_ok os off base h m s d" "steady_offset os off"
    and "\<forall>msg \<in> set ms. 10 * seconds \<le> lm_time msg"
  shows "\<exists>s' d'. daily_run os ms s d = Some (map (\<lambda>_. None) ms, s', d') \<and>
    daily_abs s' d' = fold (route os off base h m) ms (daily_abs s d)"
  using assms(1,3)
proof (induction ms arbitrary: s d)
  case (Cons a ms)
  obtain s' d' where "daily_sink_it os a s d = Some (None, s', d')"
    "daily_ok os off base h m s' d'" "daily_abs s' d' = route os off base h m a (daily_abs s d)"
    using daily_step_refines [OF Cons.prems(1) assms(2), of a] Cons.prems(2) by auto
  with Cons.IH [of s' d'] Cons.prems(2) show ?case by auto
qed simp

lemma daily_new_fields:
  assumes "daily_sink_new os base h m False 0 d = (Inr s, d')" "dk_open d 0"
  shows "dk_files d' (fh_filename (ds_file s)) \<noteq> None" "dk_open d' = (\<lambda>i. dk_open d (Suc i))"
    "dk_write d' = dk_write d" "dk_clock d' = (\<lambda>i. dk_clock d (Suc (Suc i)))"
    "fh_open (ds_file s)" "fh_pending (ds_file s) = []" "ds_level s = Level_trace"
    "\<not> ds_truncate s" "ds_max_files s = 0" "ds_base s = base" "ds_hour s = h" "ds_minute s = m"
proof -
  let ?d = "d\<lparr>dk_clock := (\<lambda>i. dk_clock d (Suc i))\<rparr>"
  let ?name = "calc_filename os base (now_tm os (dk_clock d 0))"
  from assms(2) have "dk_open ?d 0" by simp
  from open_healthy [OF this, of os ?name fh_new] obtain d1 where
    "fh_open_file os ?name False fh_new ?d =
      (None, \<lparr>fh_open = True, fh_filename = ?name, fh_pending = []\<rparr>, d1)"
    "dk_files d1 ?name \<noteq> None" "dk_open d1 = (\<lambda>i. dk_open d (Suc i))" "dk_write d1 = dk_write d"
    "dk_clock d1 = (\<lambda>i. dk_clock d (Suc i))"
    by (auto simp: Let_def)
  with assms(1) show "dk_files d' (fh_filename (ds_file s)) \<noteq> None"
    "dk_open d' = (\<lambda>i. dk_open d (Suc i))"
    "dk_write d' = dk_write d" "dk_clock d' = (\<lambda>i. dk_clock d (Suc (Suc i)))"
    "fh_open (ds_file s)" "fh_pending (ds_file s) = []" "ds_level s = Level_trace"
    "\<not> ds_truncate s" "ds_max_files s = 0" "ds_base s = base" "ds_hour s = h" "ds_minute s = m"
    by (auto simp: daily_sink_new_def dk_now_def next_rotation_tp_def Let_def split: if_splits)
qed

lemma daily_new_ok:
  assumes "daily_sink_new os base h m False 0 d = (Inr s, d')"
    and "\<forall>i. dk_open d i \<and> dk_write d i"
  shows "daily_ok os off base h m (s\<lparr>ds_formatter := program_formatter os now\<rparr>) d'"
  using daily_new_fields [OF assms(1)] assms(2) by (simp add: daily_ok_def program_formatter_ok)

definition calm_disk :: disk where
  "calm_disk = \<lparr>dk_files = Map.empty, dk_dirs = (\<lambda>_. False), dk_open = (\<lambda>_. True),
     dk_write = (\<lambda>_. True), dk_remove = (\<lambda>_. True), dk_mkdir = (\<lambda>_. True),
     dk_rename = (\<lambda>_. True), dk_clock = (\<lambda>_. 0)\<rparr>"

lemma sample_offset: "steady_offset sample_os 120"
  by (simp add: steady_offset_def sample_os_def sample_tm_def signed_divide_int_def)

theorem daily_sink_refines_witness:
  "\<exists>s d s' d'. daily_sink_new sample_os ''/tmp/a.log'' 23 59 False 0 calm_disk = (Inr s, d) \<and>
     daily_run sample_os [sample_msg] (s\<lparr>ds_formatter := program_formatter sample_os 0\<rparr>) d =
       Some ([None], s', d')"
proof -
  obtain s d where new: "daily_sink_new sample_os ''/tmp/a.log'' 23 59 False 0 calm_disk = (Inr s, d)"
    using daily_new_opens [of calm_disk 23 59 sample_os "''/tmp/a.log''"] by (auto simp: calm_disk_def)
  have "daily_ok sample_os 120 ''/tmp/a.log'' 23 59
      (s\<lparr>ds_formatter := program_formatter sample_os 0\<rparr>) d"
    using daily_new_ok [OF new] by (simp add: calm_disk_def)
  from daily_sink_refines [OF this sample_offset, of "[sample_msg]"] new show ?thesis
    by (simp add: sample_msg_def log_msg_def time_units) blast
qed

section \<open>Names and days\<close>

text \<open>What is assumed of the calendar: the date is the same all through a day of 86400 seconds,
  and \<^verbatim>\<open>mktime\<close> finds a time of the day.\<close>

definition plain_calendar :: "platform \<Rightarrow> bool" where
  "plain_calendar os \<longleftrightarrow>
     (\<forall>s h m. 0 \<le> s \<longrightarrow>
        os_mktime os ((os_localtime os s)\<lparr>tm_hour := h, tm_min := m, tm_sec := 0\<rparr>) =
          s div 86400 * 86400 + h * 3600 + m * 60) \<and>
     (\<forall>s. 0 \<le> s \<longrightarrow>
        tm_year (os_localtime os s) = tm_year (os_localtime os (s div 86400 * 86400)) \<and>
        tm_mon (os_localtime os s) = tm_mon (os_localtime os (s div 86400 * 86400)) \<and>
        tm_mday (os_localtime os s) = tm_mday (os_localtime os (s div 86400 * 86400)))"

definition day_name :: "platform \<Rightarrow> string \<Rightarrow> int \<Rightarrow> string" where
  "day_name os base day = calc_filename os base (os_localtime os (day * 86400))"

lemma duration_cast_nonneg: "0 \<le> t \<Longrightarrow> 0 < u \<Longrightarrow> duration_cast u t = t div u"
  by (cases "t = 0") (simp_all add: duration_cast_def signed_divide_int_def)

lemma name_of_day:
  assumes "plain_calendar os" "0 \<le> T" "T div seconds div 86400 = day"
  shows "calc_filename os base (now_tm os T) = day_name os base day"
proof -
  have pos: "0 \<le> T div seconds"
    using assms(2) by (simp add: time_units pos_imp_zdiv_nonneg_iff)
  have "now_tm os T = os_localtime os (T div seconds)"
    using assms(2) duration_cast_nonneg [of T seconds] by (simp add: now_tm_def time_units)
  moreover have "tm_year (os_localtime os (T div seconds)) = tm_year (os_localtime os (day * 86400)) \<and>
      tm_mon (os_localtime os (T div seconds)) = tm_mon (os_localtime os (day * 86400)) \<and>
      tm_mday (os_localtime os (T div seconds)) = tm_mday (os_localtime os (day * 86400))"
    using assms(1,3) pos unfolding plain_calendar_def by blast
  ultimately show ?thesis by (simp add: calc_filename_def day_name_def)
qed

lemma rotation_of_day:
  assumes "plain_calendar os" "0 \<le> now" "now div seconds div 86400 = day"
    and "(day * 86400 + h * 3600 + m * 60) * seconds \<le> now"
  shows "rotation_after os h m now = ((day + 1) * 86400 + h * 3600 + m * 60) * seconds"
proof -
  have pos: "0 \<le> now div seconds"
    using assms(2) by (simp add: time_units pos_imp_zdiv_nonneg_iff)
  have "now_tm os now = os_localtime os (now div seconds)"
    using assms(2) duration_cast_nonneg [of now seconds] by (simp add: now_tm_def time_units)
  moreover have "os_mktime os ((os_localtime os (now div seconds))\<lparr>tm_hour := h, tm_min := m, tm_sec := 0\<rparr>) =
      day * 86400 + h * 3600 + m * 60"
    using assms(1,3) pos unfolding plain_calendar_def by blast
  ultimately show ?thesis
    using assms(4) by (simp add: rotation_after_def hours24_def Let_def time_units)
qed

lemma route_stays:
  "\<forall>msg \<in> set ms. lm_time msg < lt_rotation st \<Longrightarrow>
   lt_name (fold (route os off base h m) ms st) = lt_name st \<and>
   lt_text (fold (route os off base h m) ms st) = (lt_text st)
     (lt_name st := lt_text st (lt_name st) @ concat (map (log_line os off) ms))"
proof (induction ms arbitrary: st)
  case (Cons a ms)
  then show ?case
    using Cons.IH [of "route os off base h m a st"]
    by (auto simp: route_def lt_append_def fun_eq_iff)
qed simp

text \<open>The rotation at 23:59 misnames the log: the file that is opened in the last minute of a
  day bears that day's date and then takes all messages until 23:59 of the next day.\<close>

theorem log_named_a_day_behind:
  assumes "plain_calendar os" "0 \<le> day" "lt_rotation st \<le> lm_time a"
    and "\<forall>T \<in> {lm_time a, lt_clock st 0}.
      (day * 86400 + 86340) * seconds \<le> T \<and> T < (day + 1) * 86400 * seconds"
    and "\<forall>msg \<in> set ms. lm_time msg < ((day + 1) * 86400 + 86340) * seconds"
  shows "let st' = fold (route os off base 23 59) (a # ms) st; name = day_name os base day in
    lt_name st' = name \<and>
    lt_text st' = (lt_text st)(name := lt_text st name @ concat (map (log_line os off) (a # ms)))"
proof -
  have div: "0 \<le> T \<and> T div seconds div 86400 = day"
    if "(day * 86400 + 86340) * seconds \<le> T" "T < (day + 1) * 86400 * seconds" for T
    using that assms(2) by (auto simp: time_units zdiv_zmult2_eq [symmetric])
  have name: "calc_filename os base (now_tm os (lm_time a)) = day_name os base day"
    using name_of_day [OF assms(1)] div assms(4) by simp
  have tp: "rotation_after os 23 59 (lt_clock st 0) = ((day + 1) * 86400 + 86340) * seconds"
    using rotation_of_day [OF assms(1), of "lt_clock st 0" day 23 59] div assms(4)
    by (simp add: add.commute)
  let ?st = "route os off base 23 59 a st"
  have st: "lt_name ?st = day_name os base day"
    "lt_rotation ?st = ((day + 1) * 86400 + 86340) * seconds"
    "lt_text ?st = (lt_text st)
      (day_name os base day := lt_text st (day_name os base day) @ log_line os off a)"
    using assms(3) name tp by (simp_all add: route_def lt_append_def lt_rotate_def)
  have "\<forall>msg \<in> set ms. lm_time msg < lt_rotation ?st" using assms(5) st(2) by simp
  from route_stays [OF this, of os off base 23 59] st show ?thesis
    by (auto simp: Let_def fun_eq_iff)
qed

text \<open>A platform for the first weeks of 1970, at offset zero.\<close>

definition january_os :: platform where
  "january_os = sample_os\<lparr>
     os_localtime := (\<lambda>s. \<lparr>tm_sec = s mod 60, tm_min = s div 60 mod 60, tm_hour = s div 3600 mod 24,
       tm_mday = s div 86400 + 1, tm_mon = 0, tm_year = 70, tm_wday = (s div 86400 + 4) mod 7,
       tm_isdst = 0, tm_gmtoff = 0\<rparr>),
     os_mktime := (\<lambda>t. (tm_mday t - 1) * 86400 + tm_hour t * 3600 + tm_min t * 60 + tm_sec t)\<rparr>"

theorem log_named_a_day_behind_witness:
  "\<exists>a b st st'. st' = fold (route january_os 0 ''a.log'' 23 59) [a, b] st \<and>
     lm_time b = (6 * 86400 + 43200) * seconds \<and>
     lt_text st' ''a_1970-01-06.log'' = log_line january_os 0 a @ log_line january_os 0 b"
proof -
  define msg where "msg s = log_msg (s * seconds) 7 no_source [] Level_info ''x''" for s
  let ?a = "msg (5 * 86400 + 86350)" and ?b = "msg (6 * 86400 + 43200)"
  let ?st = "\<lparr>lt_text = (\<lambda>_. []), lt_name = [], lt_rotation = 0,
    lt_clock = (\<lambda>_. (5 * 86400 + 86350) * seconds)\<rparr>"
  have cal: "plain_calendar january_os"
    by (simp add: plain_calendar_def january_os_def)
  have "day_name january_os ''a.log'' 5 = ''a_1970-01-06.log''"
    by (simp add: day_name_def calc_filename_def split_by_extension_def find_last_of_def
        january_os_def sample_os_def zero_pad_def show_nat.simps [of 6] show_nat.simps [of "Suc 0"]
        show_nat.simps [of 1970] show_nat.simps [of 197] show_nat.simps [of 19] digit_def
        char_of_eq_iff)
  with log_named_a_day_behind [OF cal, of 5 ?st ?a "[?b]" 0 "''a.log''"]
  have "lt_text (fold (route january_os 0 ''a.log'' 23 59) [?a, ?b] ?st) ''a_1970-01-06.log'' =
      log_line january_os 0 ?a @ log_line january_os 0 ?b"
    by (simp add: msg_def log_msg_def time_units Let_def)
  moreover have "lm_time ?b = (6 * 86400 + 43200) * seconds" by (simp add: msg_def log_msg_def)
  ultimately show ?thesis by blast
qed

end
