(* ===== verification/Spd_Logger.thy ===== *)
theory Spd_Logger
  imports Spd_Files
begin

text \<open>
  Sinks and loggers (\<^verbatim>\<open>sinks/ansicolor_sink-inl.h\<close>, \<^verbatim>\<open>sinks/base_sink-inl.h\<close>,
  \<^verbatim>\<open>sinks/sink-inl.h\<close>, \<^verbatim>\<open>details/backtracer-inl.h\<close>, \<^verbatim>\<open>logger-inl.h\<close>, \<^verbatim>\<open>logger.h\<close> of
  \<^verbatim>\<open>contrib/spdlog/include/spdlog\<close>).  Sinks and loggers are reached through shared pointers:
  both live in a store under a number, so that two loggers can share a sink.
\<close>

section \<open>The console sink\<close>

definition esc :: "string \<Rightarrow> string" where
  "esc code = CHR 0x1B # ''['' @ code"

definition code_reset :: string where "code_reset = esc ''m''"

datatype color_mode = Color_always | Color_automatic | Color_never

record color_sink =
  cs_formatter :: pattern_formatter
  cs_do_colors :: bool
  cs_colors :: "level_enum \<Rightarrow> string"
  cs_level :: level_enum

definition set_color_mode :: "bool \<Rightarrow> color_mode \<Rightarrow> color_sink \<Rightarrow> color_sink" where
  "set_color_mode terminal mode s =
     s\<lparr>cs_do_colors := (case mode of
         Color_always \<Rightarrow> True | Color_automatic \<Rightarrow> terminal | Color_never \<Rightarrow> False)\<rparr>"

definition color_sink_new :: "platform \<Rightarrow> bool \<Rightarrow> color_mode \<Rightarrow> color_sink" where
  "color_sink_new os terminal mode =
     set_color_mode terminal mode
       \<lparr>cs_formatter = default_formatter Time_local (os_default_eol os), cs_do_colors = False,
        cs_colors = (\<lambda>l. case l of
          Level_trace \<Rightarrow> esc ''37m''
        | Level_debug \<Rightarrow> esc ''36m''
        | Level_info \<Rightarrow> esc ''32m''
        | Level_warn \<Rightarrow> esc ''33m'' @ esc ''1m''
        | Level_err \<Rightarrow> esc ''31m'' @ esc ''1m''
        | Level_critical \<Rightarrow> esc ''1m'' @ esc ''41m''
        | Level_off \<Rightarrow> code_reset),
        cs_level = Level_trace\<rparr>"

text \<open>\<^verbatim>\<open>print_range_\<close>: with the end before the start the length wraps, and the read is
  undefined.\<close>

definition print_range :: "string \<Rightarrow> nat \<Rightarrow> nat \<Rightarrow> string option" where
  "print_range formatted a b =
     (if a \<le> b \<and> b \<le> length formatted then Some (take (b - a) (drop a formatted)) else None)"

text \<open>The result: the exception if there is one, the sink, and what is printed; \<^term>\<open>None\<close> is
  undefined behaviour.\<close>

definition color_log ::
  "platform \<Rightarrow> log_msg \<Rightarrow> color_sink \<Rightarrow> (string option \<times> color_sink \<times> string) option" where
  "color_log os msg s =
     (let msg = msg\<lparr>lm_color_start := 0, lm_color_end := 0\<rparr> in
      case pf_format os (cs_formatter s) msg [] of
        None \<Rightarrow> Some (Some ''formatter'', s, [])
      | Some (pf, msg, formatted) \<Rightarrow>
          let s = s\<lparr>cs_formatter := pf\<rparr> in
          if cs_do_colors s \<and> lm_color_start msg < lm_color_end msg then
            (case (print_range formatted 0 (lm_color_start msg),
                   print_range formatted (lm_color_start msg) (lm_color_end msg),
                   print_range formatted (lm_color_end msg) (length formatted)) of
               (Some a, Some b, Some c) \<Rightarrow>
                 Some (None, s, a @ cs_colors s (lm_level msg) @ b @ code_reset @ c)
             | _ \<Rightarrow> None)
          else Some (None, s, formatted))"

section \<open>Sinks behind their interface\<close>

datatype sink = Daily daily_sink | Color color_sink

record log_io =
  io_disk :: disk
  io_console :: string

fun sink_level :: "sink \<Rightarrow> level_enum" where
  "sink_level (Daily s) = ds_level s"
| "sink_level (Color s) = cs_level s"

definition sink_should_log :: "level_enum \<Rightarrow> sink \<Rightarrow> bool" where
  "sink_should_log l s \<longleftrightarrow> sink_level s \<le> l"

fun sink_set_level :: "level_enum \<Rightarrow> sink \<Rightarrow> sink" where
  "sink_set_level l (Daily s) = Daily (s\<lparr>ds_level := l\<rparr>)"
| "sink_set_level l (Color s) = Color (s\<lparr>cs_level := l\<rparr>)"

fun sink_set_formatter :: "pattern_formatter \<Rightarrow> sink \<Rightarrow> sink" where
  "sink_set_formatter pf (Daily s) = Daily (s\<lparr>ds_formatter := pf\<rparr>)"
| "sink_set_formatter pf (Color s) = Color (s\<lparr>cs_formatter := pf\<rparr>)"

fun sink_log :: "platform \<Rightarrow> log_msg \<Rightarrow> sink \<Rightarrow> log_io \<Rightarrow> (string option \<times> sink \<times> log_io) option" where
  "sink_log os msg (Daily s) io =
     map_option (\<lambda>(e, s, d). (e, Daily s, io\<lparr>io_disk := d\<rparr>)) (daily_sink_it os msg s (io_disk io))"
| "sink_log os msg (Color s) io =
     map_option (\<lambda>(e, s, out). (e, Color s, io\<lparr>io_console := io_console io @ out\<rparr>))
       (color_log os msg s)"

fun sink_flush :: "sink \<Rightarrow> log_io \<Rightarrow> sink \<times> log_io" where
  "sink_flush (Daily s) io =
     (let (s, d) = daily_flush s (io_disk io) in (Daily s, io\<lparr>io_disk := d\<rparr>))"
| "sink_flush (Color s) io = (Color s, io)"

section \<open>The backtracer\<close>

record backtracer =
  bt_enabled :: bool
  bt_messages :: "log_msg circular_q"

definition blank_msg :: log_msg where
  "blank_msg = \<lparr>lm_logger_name = [], lm_level = Level_off, lm_time = 0, lm_thread_id = 0,
     lm_color_start = 0, lm_color_end = 0, lm_source = no_source, lm_payload = []\<rparr>"

definition backtracer_new :: backtracer where
  "backtracer_new = \<lparr>bt_enabled = False, bt_messages = cq_disabled\<rparr>"

definition bt_enable :: "nat \<Rightarrow> backtracer \<Rightarrow> backtracer" where
  "bt_enable n b = b\<lparr>bt_enabled := True, bt_messages := cq_new blank_msg n\<rparr>"

definition bt_disable :: "backtracer \<Rightarrow> backtracer" where
  "bt_disable b = b\<lparr>bt_enabled := False\<rparr>"

definition bt_push_back :: "log_msg \<Rightarrow> backtracer \<Rightarrow> backtracer" where
  "bt_push_back msg b = b\<lparr>bt_messages := cq_push_back msg (bt_messages b)\<rparr>"

text \<open>The messages the loop of \<^verbatim>\<open>foreach_pop\<close> hands out, and the queue it leaves: the size of
  the queue bounds the loop.\<close>

definition bt_pop_all :: "backtracer \<Rightarrow> log_msg list \<times> backtracer" where
  "bt_pop_all b =
     (let (ms, q) = cq.drain (cq_size (bt_messages b)) (bt_messages b)
      in (ms, b\<lparr>bt_messages := q\<rparr>))"

section \<open>Loggers\<close>

record spd_logger =
  lo_name :: string
  lo_sinks :: "nat list"
  lo_level :: level_enum
  lo_flush_level :: level_enum
  lo_err_handler :: "string option"
  lo_tracer :: backtracer

text \<open>The state of the library: the two stores, the outside world, what the error handlers were
  told (under the name of a handler, or by the default one), and the counters of the default
  handler.\<close>

record log_state =
  ls_sinks :: "nat \<Rightarrow> sink option"
  ls_loggers :: "nat \<Rightarrow> spd_logger option"
  ls_io :: log_io
  ls_errors :: "(string option \<times> string) list"
  ls_err_counter :: nat
  ls_last_report :: int

definition spd_logger_new :: "string \<Rightarrow> nat list \<Rightarrow> spd_logger" where
  "spd_logger_new name sinks =
     \<lparr>lo_name = name, lo_sinks = sinks, lo_level = Level_info, lo_flush_level = Level_off,
      lo_err_handler = None, lo_tracer = backtracer_new\<rparr>"

definition should_log :: "level_enum \<Rightarrow> spd_logger \<Rightarrow> bool" where
  "should_log l lg \<longleftrightarrow> lo_level lg \<le> l"

definition should_flush :: "log_msg \<Rightarrow> spd_logger \<Rightarrow> bool" where
  "should_flush msg lg \<longleftrightarrow> lo_flush_level lg \<le> lm_level msg \<and> lm_level msg \<noteq> Level_off"

definition ls_now :: "log_state \<Rightarrow> int \<times> log_state" where
  "ls_now w =
     (let (now, d) = dk_now (io_disk (ls_io w))
      in (now, w\<lparr>ls_io := (ls_io w)\<lparr>io_disk := d\<rparr>\<rparr>))"

text \<open>The default handler reports at most one error a second; it counts all of them.\<close>

definition err_handler :: "spd_logger \<Rightarrow> string \<Rightarrow> log_state \<Rightarrow> log_state" where
  "err_handler lg msg w =
     (case lo_err_handler lg of
        Some h \<Rightarrow> w\<lparr>ls_errors := ls_errors w @ [(Some h, msg)]\<rparr>
      | None \<Rightarrow>
          let (now, w) = ls_now w;
              w = w\<lparr>ls_err_counter := ls_err_counter w + 1\<rparr>
          in if now - ls_last_report w < seconds then w
             else w\<lparr>ls_last_report := now, ls_errors := ls_errors w @ [(None, msg)]\<rparr>)"

text \<open>What the \<^verbatim>\<open>catch\<close> clause around a sink reports; a null file name is the empty one.\<close>

definition catch_text :: "source_loc \<Rightarrow> string \<Rightarrow> string" where
  "catch_text loc what =
     (if sl_filename loc \<noteq> []
      then what @ '' ['' @ sl_filename loc @ ''('' @ append_int (sint (sl_line loc)) @ '')]''
      else what)"

definition sink_one :: "platform \<Rightarrow> spd_logger \<Rightarrow> log_msg \<Rightarrow> nat \<Rightarrow> log_state \<Rightarrow> log_state option" where
  "sink_one os lg msg i w =
     (case ls_sinks w i of
        None \<Rightarrow> None
      | Some s \<Rightarrow>
          if sink_should_log (lm_level msg) s then
            (case sink_log os msg s (ls_io w) of
               None \<Rightarrow> None
             | Some (e, s, io) \<Rightarrow>
                 let w = w\<lparr>ls_sinks := (ls_sinks w)(i \<mapsto> s), ls_io := io\<rparr>
                 in Some (case e of None \<Rightarrow> w
                          | Some what \<Rightarrow> err_handler lg (catch_text (lm_source msg) what) w))
          else Some w)"

primrec sink_all :: "platform \<Rightarrow> spd_logger \<Rightarrow> log_msg \<Rightarrow> nat list \<Rightarrow> log_state \<Rightarrow> log_state option" where
  "sink_all os lg msg [] w = Some w"
| "sink_all os lg msg (i # is) w =
     Option.bind (sink_one os lg msg i w) (sink_all os lg msg is)"

definition flush_one :: "nat \<Rightarrow> log_state \<Rightarrow> log_state" where
  "flush_one i w =
     (case ls_sinks w i of
        None \<Rightarrow> w
      | Some s \<Rightarrow>
          let (s, io) = sink_flush s (ls_io w)
          in w\<lparr>ls_sinks := (ls_sinks w)(i \<mapsto> s), ls_io := io\<rparr>)"

definition logger_flush :: "spd_logger \<Rightarrow> log_state \<Rightarrow> log_state" where
  "logger_flush lg w = fold flush_one (lo_sinks lg) w"

definition sink_it :: "platform \<Rightarrow> spd_logger \<Rightarrow> log_msg \<Rightarrow> log_state \<Rightarrow> log_state option" where
  "sink_it os lg msg w =
     map_option (\<lambda>w. if should_flush msg lg then logger_flush lg w else w)
       (sink_all os lg msg (lo_sinks lg) w)"

text \<open>\<^verbatim>\<open>log_it_\<close> through the pointer \<open>l\<close> to the logger.\<close>

definition log_it :: "platform \<Rightarrow> nat \<Rightarrow> log_msg \<Rightarrow> bool \<Rightarrow> bool \<Rightarrow> log_state \<Rightarrow> log_state option" where
  "log_it os l msg log_enabled traceback_enabled w =
     (case ls_loggers w l of
        None \<Rightarrow> None
      | Some lg \<Rightarrow>
          map_option
            (\<lambda>w. if traceback_enabled
                  then w\<lparr>ls_loggers := (ls_loggers w)
                         (l \<mapsto> lg\<lparr>lo_tracer := bt_push_back msg (lo_tracer lg)\<rparr>)\<rparr>
                  else w)
            (if log_enabled then sink_it os lg msg w else Some w))"

definition logger_log ::
  "platform \<Rightarrow> u64 \<Rightarrow> nat \<Rightarrow> source_loc \<Rightarrow> level_enum \<Rightarrow> string \<Rightarrow> log_state \<Rightarrow> log_state option" where
  "logger_log os tid l loc lvl payload w =
     (case ls_loggers w l of
        None \<Rightarrow> None
      | Some lg \<Rightarrow>
          let log_enabled = should_log lvl lg;
              traceback_enabled = bt_enabled (lo_tracer lg)
          in if \<not> log_enabled \<and> \<not> traceback_enabled then Some w
             else
               let (now, w) = ls_now w
               in log_it os l (log_msg now tid loc (lo_name lg) lvl payload)
                    log_enabled traceback_enabled w)"

definition dump_backtrace :: "platform \<Rightarrow> u64 \<Rightarrow> nat \<Rightarrow> log_state \<Rightarrow> log_state option" where
  "dump_backtrace os tid l w =
     (case ls_loggers w l of
        None \<Rightarrow> None
      | Some lg \<Rightarrow>
          if \<not> bt_enabled (lo_tracer lg) then Some w
          else
            let (now, w) = ls_now w;
                start = log_msg now tid no_source (lo_name lg) Level_info
                  ''****************** Backtrace Start ******************'';
                (ms, tracer) = bt_pop_all (lo_tracer lg);
                stop = (\<lambda>now. log_msg now tid no_source (lo_name lg) Level_info
                  ''****************** Backtrace End ********************'')
            in Option.bind (sink_it os lg start w) (\<lambda>w.
               Option.bind (fold (\<lambda>m r. Option.bind r (sink_it os lg m)) ms (Some w)) (\<lambda>w.
                 let w = w\<lparr>ls_loggers := (ls_loggers w)(l \<mapsto> lg\<lparr>lo_tracer := tracer\<rparr>)\<rparr>;
                     (now, w) = ls_now w
                 in sink_it os lg (stop now) w)))"

section \<open>Configuration of a logger\<close>

definition set_level :: "level_enum \<Rightarrow> spd_logger \<Rightarrow> spd_logger" where
  "set_level l lg = lg\<lparr>lo_level := l\<rparr>"

definition flush_on :: "level_enum \<Rightarrow> spd_logger \<Rightarrow> spd_logger" where
  "flush_on l lg = lg\<lparr>lo_flush_level := l\<rparr>"

definition set_error_handler :: "string option \<Rightarrow> spd_logger \<Rightarrow> spd_logger" where
  "set_error_handler h lg = lg\<lparr>lo_err_handler := h\<rparr>"

definition enable_backtrace :: "nat \<Rightarrow> spd_logger \<Rightarrow> spd_logger" where
  "enable_backtrace n lg = lg\<lparr>lo_tracer := bt_enable n (lo_tracer lg)\<rparr>"

definition disable_backtrace :: "spd_logger \<Rightarrow> spd_logger" where
  "disable_backtrace lg = lg\<lparr>lo_tracer := bt_disable (lo_tracer lg)\<rparr>"

definition logger_clone :: "string \<Rightarrow> spd_logger \<Rightarrow> spd_logger" where
  "logger_clone name lg = lg\<lparr>lo_name := name\<rparr>"

text \<open>Every sink but the last gets a clone of the formatter, the last one the formatter
  itself.\<close>

primrec set_formatter_on :: "int \<Rightarrow> pattern_formatter \<Rightarrow> nat list \<Rightarrow> log_state \<Rightarrow> log_state" where
  "set_formatter_on now pf [] w = w"
| "set_formatter_on now pf (i # is) w =
     (let f = (if is = [] then pf else pf_clone now pf)
      in set_formatter_on now pf is
           (w\<lparr>ls_sinks := (ls_sinks w)(i := map_option (sink_set_formatter f) (ls_sinks w i))\<rparr>))"

definition set_formatter :: "int \<Rightarrow> pattern_formatter \<Rightarrow> spd_logger \<Rightarrow> log_state \<Rightarrow> log_state" where
  "set_formatter now pf lg w = set_formatter_on now pf (lo_sinks lg) w"

definition set_pattern ::
  "platform \<Rightarrow> int \<Rightarrow> string \<Rightarrow> pattern_time_type \<Rightarrow> spd_logger \<Rightarrow> log_state \<Rightarrow> log_state" where
  "set_pattern os now pattern ty lg w =
     set_formatter now (pattern_formatter now pattern ty (os_default_eol os)) lg w"

end
