(* ===== verification/Spd_Registry.thy ===== *)
theory Spd_Registry
  imports Spd_Logger
begin

text \<open>
  The registry of loggers and the factory that fills it (\<^verbatim>\<open>details/registry-inl.h\<close>,
  \<^verbatim>\<open>details/synchronous_factory.h\<close>, \<^verbatim>\<open>daily_logger_mt\<close> of
  \<^verbatim>\<open>contrib/spdlog/include/spdlog\<close>).  A pointer to a logger is its number in the store; a new
  object takes the number the allocator gives.
\<close>

section \<open>The registry\<close>

record registry =
  rg_loggers :: "(string \<times> nat) list"
  rg_levels :: "(string \<times> level_enum) list"
  rg_formatter :: pattern_formatter
  rg_global_level :: level_enum
  rg_flush_level :: level_enum
  rg_err_handler :: "string option"
  rg_default :: "nat option"
  rg_automatic :: bool
  rg_backtrace :: nat

text \<open>\<open>loggers_[name] = l\<close> on the hash map.\<close>

definition map_assign :: "'k \<Rightarrow> 'v \<Rightarrow> ('k \<times> 'v) list \<Rightarrow> ('k \<times> 'v) list" where
  "map_assign k v xs = (k, v) # filter (\<lambda>e. fst e \<noteq> k) xs"

definition map_erase :: "'k \<Rightarrow> ('k \<times> 'v) list \<Rightarrow> ('k \<times> 'v) list" where
  "map_erase k xs = filter (\<lambda>e. fst e \<noteq> k) xs"

definition logger_name :: "nat \<Rightarrow> log_state \<Rightarrow> string option" where
  "logger_name l w = map_option lo_name (ls_loggers w l)"

text \<open>The constructor: the default logger has no name and writes to the console, in the sink for
  Unix.\<close>

definition registry_new ::
  "platform \<Rightarrow> bool \<Rightarrow> nat \<Rightarrow> nat \<Rightarrow> log_state \<Rightarrow> registry \<times> log_state" where
  "registry_new os terminal i l w =
     (\<lparr>rg_loggers = [([], l)], rg_levels = [],
       rg_formatter = default_formatter Time_local (os_default_eol os),
       rg_global_level = Level_info, rg_flush_level = Level_off, rg_err_handler = None,
       rg_default = Some l, rg_automatic = True, rg_backtrace = 0\<rparr>,
      w\<lparr>ls_sinks := (ls_sinks w)(i \<mapsto> Color (color_sink_new os terminal Color_automatic)),
        ls_loggers := (ls_loggers w)(l \<mapsto> spd_logger_new [] [i])\<rparr>)"

definition on_logger :: "nat \<Rightarrow> (spd_logger \<Rightarrow> spd_logger) \<Rightarrow> log_state \<Rightarrow> log_state" where
  "on_logger l f w = w\<lparr>ls_loggers := (ls_loggers w)(l := map_option f (ls_loggers w l))\<rparr>"

definition on_all :: "(nat \<Rightarrow> log_state \<Rightarrow> log_state) \<Rightarrow> registry \<Rightarrow> log_state \<Rightarrow> log_state" where
  "on_all f r w = fold f (map snd (rg_loggers r)) w"

text \<open>Operations that may throw return the text of the exception or the new state.\<close>

definition throw_if_exists :: "string \<Rightarrow> registry \<Rightarrow> string option" where
  "throw_if_exists name r =
     (if map_of (rg_loggers r) name \<noteq> None
      then Some (''logger with name '' @ [CHR 0x27] @ name @ [CHR 0x27] @ '' already exists'') else None)"

definition register_logger :: "nat \<Rightarrow> registry \<Rightarrow> log_state \<Rightarrow> string option \<times> registry" where
  "register_logger l r w =
     (case logger_name l w of
        None \<Rightarrow> (None, r)
      | Some name \<Rightarrow>
          (case throw_if_exists name r of
             Some e \<Rightarrow> (Some e, r)
           | None \<Rightarrow> (None, r\<lparr>rg_loggers := map_assign name l (rg_loggers r)\<rparr>)))"

definition initialize_logger ::
  "int \<Rightarrow> nat \<Rightarrow> registry \<Rightarrow> log_state \<Rightarrow> string option \<times> registry \<times> log_state" where
  "initialize_logger now l r w =
     (case ls_loggers w l of
        None \<Rightarrow> (None, r, w)
      | Some lg \<Rightarrow>
          let w = set_formatter now (pf_clone now (rg_formatter r)) lg w;
              lg = (if rg_err_handler r \<noteq> None then set_error_handler (rg_err_handler r) lg else lg);
              lg = set_level (case map_of (rg_levels r) (lo_name lg) of
                                Some lv \<Rightarrow> lv | None \<Rightarrow> rg_global_level r) lg;
              lg = flush_on (rg_flush_level r) lg;
              lg = (if 0 < rg_backtrace r then enable_backtrace (rg_backtrace r) lg else lg);
              w = w\<lparr>ls_loggers := (ls_loggers w)(l \<mapsto> lg)\<rparr>
          in if rg_automatic r then
               let (e, r) = register_logger l r w in (e, r, w)
             else (None, r, w))"

definition registry_get :: "string \<Rightarrow> registry \<Rightarrow> nat option" where
  "registry_get name r = map_of (rg_loggers r) name"

definition default_logger :: "registry \<Rightarrow> nat option" where
  "default_logger r = rg_default r"

definition set_default_logger :: "nat option \<Rightarrow> registry \<Rightarrow> log_state \<Rightarrow> registry" where
  "set_default_logger new r w =
     (let loggers = (case Option.bind (rg_default r) (\<lambda>l. logger_name l w) of
                       None \<Rightarrow> rg_loggers r | Some name \<Rightarrow> map_erase name (rg_loggers r));
          loggers = (case new of
                       None \<Rightarrow> loggers
                     | Some l \<Rightarrow> (case logger_name l w of
                                   None \<Rightarrow> loggers | Some name \<Rightarrow> map_assign name l loggers))
      in r\<lparr>rg_loggers := loggers, rg_default := new\<rparr>)"

definition registry_set_formatter ::
  "int \<Rightarrow> pattern_formatter \<Rightarrow> registry \<Rightarrow> log_state \<Rightarrow> registry \<times> log_state" where
  "registry_set_formatter now pf r w =
     (r\<lparr>rg_formatter := pf\<rparr>,
      on_all (\<lambda>l w. case ls_loggers w l of
          None \<Rightarrow> w | Some lg \<Rightarrow> set_formatter now (pf_clone now pf) lg w) r w)"

definition registry_enable_backtrace :: "nat \<Rightarrow> registry \<Rightarrow> log_state \<Rightarrow> registry \<times> log_state" where
  "registry_enable_backtrace n r w =
     (r\<lparr>rg_backtrace := n\<rparr>, on_all (\<lambda>l. on_logger l (enable_backtrace n)) r w)"

definition registry_disable_backtrace :: "registry \<Rightarrow> log_state \<Rightarrow> registry \<times> log_state" where
  "registry_disable_backtrace r w =
     (r\<lparr>rg_backtrace := 0\<rparr>, on_all (\<lambda>l. on_logger l disable_backtrace) r w)"

definition registry_set_level :: "level_enum \<Rightarrow> registry \<Rightarrow> log_state \<Rightarrow> registry \<times> log_state" where
  "registry_set_level lv r w =
     (r\<lparr>rg_global_level := lv\<rparr>, on_all (\<lambda>l. on_logger l (set_level lv)) r w)"

definition registry_flush_on :: "level_enum \<Rightarrow> registry \<Rightarrow> log_state \<Rightarrow> registry \<times> log_state" where
  "registry_flush_on lv r w =
     (r\<lparr>rg_flush_level := lv\<rparr>, on_all (\<lambda>l. on_logger l (flush_on lv)) r w)"

definition registry_set_error_handler ::
  "string option \<Rightarrow> registry \<Rightarrow> log_state \<Rightarrow> registry \<times> log_state" where
  "registry_set_error_handler h r w =
     (r\<lparr>rg_err_handler := h\<rparr>, on_all (\<lambda>l. on_logger l (set_error_handler h)) r w)"

definition flush_all :: "registry \<Rightarrow> log_state \<Rightarrow> log_state" where
  "flush_all r w =
     on_all (\<lambda>l w. case ls_loggers w l of None \<Rightarrow> w | Some lg \<Rightarrow> logger_flush lg w) r w"

definition registry_drop :: "string \<Rightarrow> registry \<Rightarrow> log_state \<Rightarrow> registry" where
  "registry_drop name r w =
     r\<lparr>rg_loggers := map_erase name (rg_loggers r),
       rg_default := (if Option.bind (rg_default r) (\<lambda>l. logger_name l w) = Some name then None
                      else rg_default r)\<rparr>"

definition drop_all :: "registry \<Rightarrow> registry" where
  "drop_all r = r\<lparr>rg_loggers := [], rg_default := None\<rparr>"

definition set_automatic_registration :: "bool \<Rightarrow> registry \<Rightarrow> registry" where
  "set_automatic_registration b r = r\<lparr>rg_automatic := b\<rparr>"

definition set_levels ::
  "(string \<times> level_enum) list \<Rightarrow> level_enum option \<Rightarrow> registry \<Rightarrow> log_state \<Rightarrow>
   registry \<times> log_state" where
  "set_levels levels global r w =
     (r\<lparr>rg_levels := levels,
        rg_global_level := (case global of Some g \<Rightarrow> g | None \<Rightarrow> rg_global_level r)\<rparr>,
      fold (\<lambda>(name, l) w.
          case map_of levels name of
            Some lv \<Rightarrow> on_logger l (set_level lv) w
          | None \<Rightarrow> (case global of Some g \<Rightarrow> on_logger l (set_level g) w | None \<Rightarrow> w))
        (rg_loggers r) w)"

section \<open>The factory\<close>

text \<open>\<^verbatim>\<open>daily_logger_mt\<close>: the sink is made first; when its constructor or the registry throws,
  the objects made so far are destroyed again.\<close>

definition daily_logger_mt ::
  "platform \<Rightarrow> int \<Rightarrow> nat \<Rightarrow> nat \<Rightarrow> string \<Rightarrow> string \<Rightarrow> int \<Rightarrow> int \<Rightarrow> bool \<Rightarrow> u16 \<Rightarrow> registry \<Rightarrow> log_state \<Rightarrow>
   (string + nat) \<times> registry \<times> log_state" where
  "daily_logger_mt os now i l name filename h m trunc max_files r w =
     (let (res, d) = daily_sink_new os filename h m trunc max_files (io_disk (ls_io w));
          w = w\<lparr>ls_io := (ls_io w)\<lparr>io_disk := d\<rparr>\<rparr>
      in (case res of
            Inl e \<Rightarrow> (Inl e, r, w)
          | Inr s \<Rightarrow>
              let w1 = w\<lparr>ls_sinks := (ls_sinks w)(i \<mapsto> Daily s),
                         ls_loggers := (ls_loggers w)(l \<mapsto> spd_logger_new name [i])\<rparr>;
                  (e, r, w1) = initialize_logger now l r w1
              in (case e of
                    None \<Rightarrow> (Inr l, r, w1)
                  | Some err \<Rightarrow>
                      (Inl err, r,
                       w\<lparr>ls_io := (ls_io w)\<lparr>io_disk := snd (fh_close (ds_file s) d)\<rparr>\<rparr>))))"

end
