(* ===== verification/Spd_Props.thy ===== *)
theory Spd_Props
  imports Spd_Registry
begin

text \<open>
  Properties of loggers and of the registry: the backtrace, what is on disk when a call
  returns, and the invariant of the registry.
\<close>

section \<open>The backtrace\<close>

lemma bt_push_all:
  "bt_messages (fold bt_push_back ms b) = fold cq_push_back ms (bt_messages b)"
  by (induction ms arbitrary: b) (simp_all add: bt_push_back_def)

text \<open>A backtrace of \<open>n\<close> messages hands out exactly the last \<open>n\<close> messages it was given, oldest
  first, and is empty afterwards.\<close>

theorem backtrace_keeps_last:
  assumes "n < 2 ^ 64 - 1"
  shows "fst (bt_pop_all (fold bt_push_back ms (bt_enable n b))) = drop (length ms - n) ms \<and>
    cq_items (bt_messages (snd (bt_pop_all (fold bt_push_back ms (bt_enable n b))))) = []"
proof -
  note new = cq_new_inv [OF assms, of blank_msg]
  let ?q = "fold cq_push_back ms (cq_new blank_msg n)"
  have q: "cq_inv ?q" "cq_items ?q = drop (length ms - n) ms"
    using cq.push_all [OF new(1), of ms] new(2,3) by simp_all
  have m: "bt_messages (fold bt_push_back ms (bt_enable n b)) = ?q"
    by (simp add: bt_push_all bt_enable_def)
  have "length (cq_items ?q) \<le> cq_size ?q" by simp
  from cq.drain_items [OF q(1) this] q(2) show ?thesis
    by (cases "cq.drain (cq_size ?q) ?q") (simp add: bt_pop_all_def m)
qed

theorem backtrace_keeps_last_witness:
  "fst (bt_pop_all (fold bt_push_back
     [blank_msg, blank_msg\<lparr>lm_payload := ''a''\<rparr>, blank_msg\<lparr>lm_payload := ''b''\<rparr>]
     (bt_enable 2 backtracer_new))) =
   [blank_msg\<lparr>lm_payload := ''a''\<rparr>, blank_msg\<lparr>lm_payload := ''b''\<rparr>]"
  using backtrace_keeps_last [of 2 "[blank_msg, blank_msg\<lparr>lm_payload := ''a''\<rparr>,
      blank_msg\<lparr>lm_payload := ''b''\<rparr>]" backtracer_new] by simp

section \<open>On disk when the call returns\<close>

definition nothing_pending :: "log_state \<Rightarrow> nat \<Rightarrow> bool" where
  "nothing_pending w i \<longleftrightarrow>
     (case ls_sinks w i of
        Some (Daily s) \<Rightarrow> fh_open (ds_file s) \<longrightarrow> fh_pending (ds_file s) = []
      | _ \<Rightarrow> True)"

lemma sink_flush_daily:
  "sink_flush s io = (Daily s', io') \<Longrightarrow> fh_open (ds_file s') \<longrightarrow> fh_pending (ds_file s') = []"
  by (cases s) (auto simp: daily_flush_def fh_flush_def split: prod.splits if_splits)

lemma flush_one_pending:
  "nothing_pending (flush_one i w) i" "nothing_pending w j \<Longrightarrow> nothing_pending (flush_one i w) j"
  by (auto simp: nothing_pending_def flush_one_def split: option.splits prod.splits sink.splits
      dest: sink_flush_daily)

lemma flush_all_pending:
  "j \<in> set is \<or> nothing_pending w j \<Longrightarrow> nothing_pending (fold flush_one is w) j"
  by (induction "is" arbitrary: w) (auto simp: flush_one_pending)

text \<open>A message at or above the flush level is on disk when the call that logged it returns:
  no sink of the logger holds back any text, whatever went wrong on the way.\<close>

theorem logged_is_flushed:
  assumes "ls_loggers w l = Some lg" "should_log lvl lg"
    and "lo_flush_level lg \<le> lvl" "lvl \<noteq> Level_off"
    and "logger_log os tid l loc lvl payload w = Some w'"
  shows "\<forall>i \<in> set (lo_sinks lg). nothing_pending w' i"
proof
  fix i assume i: "i \<in> set (lo_sinks lg)"
  obtain now w1 where now: "ls_now w = (now, w1)" by (cases "ls_now w")
  let ?m = "log_msg now tid loc (lo_name lg) lvl payload"
  have l1: "ls_loggers w1 l = Some lg" using now assms(1) by (auto simp: ls_now_def Let_def split: prod.splits)
  obtain w2 where w2: "sink_it os lg ?m w1 = Some w2"
    "ls_sinks w' = ls_sinks w2"
    using assms(1,2,5) now l1 by (auto simp: logger_log_def log_it_def split: if_splits)
  have "should_flush ?m lg" using assms(3,4) by (simp add: should_flush_def log_msg_def)
  then obtain w3 where "w2 = logger_flush lg w3" using w2(1) by (auto simp: sink_it_def)
  then show "nothing_pending w' i"
    using flush_all_pending [of i "lo_sinks lg" w3] i w2(2)
    by (simp add: nothing_pending_def logger_flush_def)
qed

section \<open>The registry\<close>

definition registry_inv :: "registry \<Rightarrow> log_state \<Rightarrow> bool" where
  "registry_inv r w \<longleftrightarrow>
     distinct (map fst (rg_loggers r)) \<and>
     (\<forall>(name, l) \<in> set (rg_loggers r). logger_name l w = Some name) \<and>
     (\<forall>l. rg_default r = Some l \<longrightarrow> l \<in> snd ` set (rg_loggers r))"

text \<open>The operations of the registry after which its invariant is asked for; a new object takes
  a number no object has.\<close>

datatype registry_op =
  Op_make string string int int bool u16 nat nat
| Op_set_default "nat option"
| Op_drop string
| Op_drop_all
| Op_set_level level_enum
| Op_flush_on level_enum
| Op_set_levels "(string \<times> level_enum) list" "level_enum option"
| Op_set_formatter pattern_formatter
| Op_enable_backtrace nat
| Op_disable_backtrace
| Op_flush_all
| Op_automatic bool

fun registry_step :: "platform \<Rightarrow> int \<Rightarrow> registry_op \<Rightarrow> registry \<times> log_state \<Rightarrow> registry \<times> log_state" where
  "registry_step os now (Op_make name path h m tr n i l) (r, w) =
     snd (daily_logger_mt os now i l name path h m tr n r w)"
| "registry_step os now (Op_set_default l) (r, w) = (set_default_logger l r w, w)"
| "registry_step os now (Op_drop name) (r, w) = (registry_drop name r w, w)"
| "registry_step os now Op_drop_all (r, w) = (drop_all r, w)"
| "registry_step os now (Op_set_level lv) (r, w) = registry_set_level lv r w"
| "registry_step os now (Op_flush_on lv) (r, w) = registry_flush_on lv r w"
| "registry_step os now (Op_set_levels ls g) (r, w) = set_levels ls g r w"
| "registry_step os now (Op_set_formatter pf) (r, w) = registry_set_formatter now pf r w"
| "registry_step os now (Op_enable_backtrace n) (r, w) = registry_enable_backtrace n r w"
| "registry_step os now Op_disable_backtrace (r, w) = registry_disable_backtrace r w"
| "registry_step os now Op_flush_all (r, w) = (r, flush_all r w)"
| "registry_step os now (Op_automatic b) (r, w) = (set_automatic_registration b r, w)"

fun op_fresh :: "registry_op \<Rightarrow> registry \<times> log_state \<Rightarrow> bool" where
  "op_fresh (Op_make name path h m tr n i l) (r, w) \<longleftrightarrow> ls_loggers w l = None"
| "op_fresh (Op_set_default (Some l)) (r, w) \<longleftrightarrow> ls_loggers w l \<noteq> None"
| "op_fresh _ rw \<longleftrightarrow> True"

definition same_names :: "log_state \<Rightarrow> log_state \<Rightarrow> bool" where
  "same_names w w' \<longleftrightarrow> (\<forall>l. logger_name l w' = logger_name l w)"

lemma same_names_refl [simp]: "same_names w w"
  and same_names_trans: "same_names w w' \<Longrightarrow> same_names w' w'' \<Longrightarrow> same_names w w''"
  by (simp_all add: same_names_def)

lemma same_names_fold:
  "(\<And>x w. x \<in> set xs \<Longrightarrow> same_names w (f x w)) \<Longrightarrow> same_names w (fold f xs w)"
  by (induction xs arbitrary: w) (auto intro: same_names_trans)

lemma same_names_on_logger:
  "(\<And>lg. lo_name (f lg) = lo_name lg) \<Longrightarrow> same_names w (on_logger l f w)"
  by (auto simp: same_names_def on_logger_def logger_name_def option.map_comp o_def)

lemma same_names_formatter: "same_names w (set_formatter_on now pf is w)"
  by (induction "is" arbitrary: w) (simp_all add: same_names_def logger_name_def Let_def)

lemma same_names_flush: "same_names w (flush_one i w)"
  by (auto simp: same_names_def logger_name_def flush_one_def split: option.splits prod.splits)

lemma same_names_simps [simp]:
  "lo_name (set_level lv lg) = lo_name lg" "lo_name (flush_on lv lg) = lo_name lg"
  "lo_name (enable_backtrace n lg) = lo_name lg" "lo_name (disable_backtrace lg) = lo_name lg"
  "lo_name (set_error_handler h lg) = lo_name lg"
  by (simp_all add: set_level_def flush_on_def enable_backtrace_def disable_backtrace_def
      set_error_handler_def)

lemma registry_inv_names:
  "registry_inv r w \<Longrightarrow> same_names w w' \<Longrightarrow> rg_loggers r' = rg_loggers r \<Longrightarrow>
   rg_default r' = rg_default r \<Longrightarrow> registry_inv r' w'"
  by (auto simp: registry_inv_def same_names_def)

lemma same_names_on_all:
  "(\<And>l w. same_names w (f l w)) \<Longrightarrow> same_names w (on_all f r w)"
  by (auto simp: on_all_def intro: same_names_fold)

lemma set_formatter_loggers [simp]: "ls_loggers (set_formatter_on now pf is w) = ls_loggers w"
  by (induction "is" arbitrary: w) (simp_all add: Let_def)

lemma initialize_logger_names:
  assumes "initialize_logger now l r w = (e, r', w')"
  shows "same_names w w' \<and>
    (r' = r \<or> (\<exists>name. logger_name l w = Some name \<and> map_of (rg_loggers r) name = None \<and>
       r' = r\<lparr>rg_loggers := map_assign name l (rg_loggers r)\<rparr>))"
proof (cases "ls_loggers w l")
  case (Some lg)
  define lg' where "lg' =
    (let lg = (if rg_err_handler r \<noteq> None then set_error_handler (rg_err_handler r) lg else lg);
         lg = set_level (case map_of (rg_levels r) (lo_name lg) of
                           Some lv \<Rightarrow> lv | None \<Rightarrow> rg_global_level r) lg;
         lg = flush_on (rg_flush_level r) lg
     in if 0 < rg_backtrace r then enable_backtrace (rg_backtrace r) lg else lg)"
  define w1 where "w1 = (let w = set_formatter now (pf_clone now (rg_formatter r)) lg w
    in w\<lparr>ls_loggers := (ls_loggers w)(l \<mapsto> lg')\<rparr>)"
  have name: "lo_name lg' = lo_name lg" by (simp add: lg'_def Let_def)
  then have names: "logger_name k w1 = logger_name k w" for k
    using Some by (simp add: w1_def logger_name_def set_formatter_def)
  have "initialize_logger now l r w =
      (if rg_automatic r then let (e, r) = register_logger l r w1 in (e, r, w1) else (None, r, w1))"
    unfolding initialize_logger_def Some option.case lg'_def w1_def Let_def by (rule refl)
  with assms names show ?thesis
    by (auto simp: same_names_def register_logger_def throw_if_exists_def
        split: if_splits option.splits prod.splits)
qed (use assms in \<open>simp add: initialize_logger_def\<close>)

lemma inv_new_logger:
  assumes "registry_inv r w" "ls_loggers w l = None"
    and "\<And>k. k \<noteq> l \<Longrightarrow> logger_name k w' = logger_name k w"
  shows "registry_inv r w'"
proof -
  have "k \<noteq> l" if "(name, k) \<in> set (rg_loggers r)" for name k
    using assms(1,2) that by (auto simp: registry_inv_def logger_name_def)
  with assms show ?thesis by (fastforce simp: registry_inv_def)
qed

lemma inv_assign:
  assumes "registry_inv r w" "logger_name l w = Some name" "map_of (rg_loggers r) name = None"
  shows "registry_inv (r\<lparr>rg_loggers := map_assign name l (rg_loggers r)\<rparr>) w"
proof -
  have "filter (\<lambda>e. fst e \<noteq> name) (rg_loggers r) = rg_loggers r"
    using assms(3) by (auto simp: filter_id_conv map_of_eq_None_iff image_iff)
  with assms show ?thesis
    by (auto simp: registry_inv_def map_assign_def map_of_eq_None_iff)
qed

lemma inv_make:
  assumes "registry_inv r w" "ls_loggers w l = None"
    and "daily_logger_mt os now i l name path h m tr n r w = (res, r', w')"
  shows "registry_inv r' w'"
proof -
  obtain sk d where sink: "daily_sink_new os path h m tr n (io_disk (ls_io w)) = (sk, d)"
    by (cases "daily_sink_new os path h m tr n (io_disk (ls_io w))")
  show ?thesis
  proof (cases sk)
    case (Inl e)
    with assms sink show ?thesis
      by (auto simp: daily_logger_mt_def logger_name_def intro: inv_new_logger)
  next
    case (Inr s)
    let ?w = "w\<lparr>ls_io := (ls_io w)\<lparr>io_disk := d\<rparr>\<rparr>"
    let ?w1 = "?w\<lparr>ls_sinks := (ls_sinks ?w)(i \<mapsto> Daily s),
      ls_loggers := (ls_loggers ?w)(l \<mapsto> spd_logger_new name [i])\<rparr>"
    obtain e r2 w2 where init: "initialize_logger now l r ?w1 = (e, r2, w2)" by (metis prod_cases3)
    note names = initialize_logger_names [OF init]
    have inv1: "registry_inv r ?w1"
      using assms(1,2) by (rule inv_new_logger) (simp add: logger_name_def)
    have "registry_inv r2 ?w1" using names inv1 by (auto intro: inv_assign)
    moreover have "registry_inv r w3" if "\<And>k. logger_name k w3 = logger_name k w" for w3
      using assms(1) that by (auto simp: registry_inv_def)
    moreover have "e \<noteq> None \<Longrightarrow> r2 = r"
      using init by (auto simp: initialize_logger_def register_logger_def Let_def
          split: option.splits if_splits prod.splits)
    ultimately show ?thesis
      using assms(3) sink Inr init names
      by (auto simp: daily_logger_mt_def Let_def logger_name_def split: option.splits
          intro: registry_inv_names)
  qed
qed

lemma inv_erase:
  assumes "registry_inv r w"
    and "\<And>l. d = Some l \<Longrightarrow> \<exists>k. k \<noteq> name \<and> (k, l) \<in> set (rg_loggers r)"
  shows "registry_inv (r\<lparr>rg_loggers := map_erase name (rg_loggers r), rg_default := d\<rparr>) w"
  using assms by (force simp: registry_inv_def map_erase_def distinct_map_filter)

lemma inv_drop:
  assumes "registry_inv r w"
  shows "registry_inv (registry_drop name r w) w"
  unfolding registry_drop_def
proof (rule inv_erase [OF assms])
  fix l assume l: "(if Option.bind (rg_default r) (\<lambda>l. logger_name l w) = Some name then None
      else rg_default r) = Some l"
  then have d: "rg_default r = Some l" "logger_name l w \<noteq> Some name" by (auto split: if_splits)
  with assms obtain k where "(k, l) \<in> set (rg_loggers r)" by (auto simp: registry_inv_def)
  moreover from this assms have "logger_name l w = Some k" by (auto simp: registry_inv_def)
  ultimately show "\<exists>k. k \<noteq> name \<and> (k, l) \<in> set (rg_loggers r)" using d by auto
qed

lemma inv_set_default:
  assumes "registry_inv r w" "\<And>l. new = Some l \<Longrightarrow> logger_name l w \<noteq> None"
  shows "registry_inv (set_default_logger new r w) w"
proof -
  define loggers where "loggers = (case Option.bind (rg_default r) (\<lambda>l. logger_name l w) of
      None \<Rightarrow> rg_loggers r | Some name \<Rightarrow> map_erase name (rg_loggers r))"
  have base: "distinct (map fst loggers) \<and> (\<forall>(name, l) \<in> set loggers. logger_name l w = Some name)"
    using assms(1)
    by (auto simp: loggers_def registry_inv_def map_erase_def distinct_map_filter split: option.splits)
  show ?thesis
  proof (cases new)
    case None
    then have "set_default_logger new r w = r\<lparr>rg_loggers := loggers, rg_default := None\<rparr>"
      by (simp add: set_default_logger_def loggers_def)
    with base show ?thesis by (simp add: registry_inv_def)
  next
    case (Some l)
    then obtain name where name: "logger_name l w = Some name" using assms(2) by auto
    with Some have "set_default_logger new r w =
        r\<lparr>rg_loggers := map_assign name l loggers, rg_default := Some l\<rparr>"
      by (simp add: set_default_logger_def loggers_def)
    with base name show ?thesis
      by (auto simp: registry_inv_def map_assign_def distinct_map_filter)
  qed
qed

lemma same_names_set_levels:
  "same_names w (fold (\<lambda>(name, l) w.
      case map_of levels name of
        Some lv \<Rightarrow> on_logger l (set_level lv) w
      | None \<Rightarrow> (case global of Some g \<Rightarrow> on_logger l (set_level g) w | None \<Rightarrow> w)) xs w)"
  by (rule same_names_fold) (auto intro!: same_names_on_logger split: option.splits)

lemma registry_step_inv:
  assumes "registry_inv r w" "op_fresh a (r, w)" "registry_step os now a (r, w) = (r', w')"
  shows "registry_inv r' w'"
proof (cases a)
  case (Op_make name path h m tr n i l)
  with assms show ?thesis
    by (cases "daily_logger_mt os now i l name path h m tr n r w") (auto intro: inv_make)
next
  case (Op_set_default l)
  with assms show ?thesis
    by (cases l) (auto intro!: inv_set_default simp: logger_name_def)
next
  case (Op_drop name)
  with assms show ?thesis by (auto intro: inv_drop)
next
  case Op_drop_all
  with assms show ?thesis by (auto simp: drop_all_def registry_inv_def)
next
  case (Op_set_formatter pf)
  have "same_names w w'"
    using assms(3) Op_set_formatter
    by (auto simp: registry_set_formatter_def set_formatter_def intro!: same_names_on_all
        intro: same_names_formatter split: option.split)
  with assms Op_set_formatter show ?thesis
    by (auto simp: registry_set_formatter_def intro: registry_inv_names)
next
  case Op_flush_all
  have "same_names w w'"
    using assms(3) Op_flush_all
    by (auto simp: flush_all_def logger_flush_def intro!: same_names_on_all same_names_fold
        intro: same_names_flush split: option.split)
  with assms Op_flush_all show ?thesis by (auto intro: registry_inv_names)
next
  case (Op_set_levels ls g)
  with assms(3) have r': "rg_loggers r' = rg_loggers r" "rg_default r' = rg_default r"
    and w': "w' = snd (set_levels ls g r w)"
    by (auto simp: set_levels_def)
  have "same_names w w'"
    unfolding w' set_levels_def snd_conv by (rule same_names_set_levels)
  with assms(1) r' show ?thesis by (blast intro: registry_inv_names)
qed (use assms in \<open>auto simp: registry_set_level_def registry_flush_on_def
    registry_enable_backtrace_def registry_disable_backtrace_def set_automatic_registration_def
    intro!: registry_inv_names [OF assms(1)] same_names_on_all same_names_on_logger\<close>)

primrec registry_run ::
  "platform \<Rightarrow> int \<Rightarrow> registry_op list \<Rightarrow> registry \<times> log_state \<Rightarrow> registry \<times> log_state" where
  "registry_run os now [] rw = rw"
| "registry_run os now (a # as) rw = registry_run os now as (registry_step os now a rw)"

primrec ops_fresh :: "platform \<Rightarrow> int \<Rightarrow> registry_op list \<Rightarrow> registry \<times> log_state \<Rightarrow> bool" where
  "ops_fresh os now [] rw \<longleftrightarrow> True"
| "ops_fresh os now (a # as) rw \<longleftrightarrow>
     op_fresh a rw \<and> ops_fresh os now as (registry_step os now a rw)"

lemma registry_run_inv:
  "registry_inv (fst rw) (snd rw) \<Longrightarrow> ops_fresh os now as rw \<Longrightarrow>
   registry_inv (fst (registry_run os now as rw)) (snd (registry_run os now as rw))"
proof (induction as arbitrary: rw)
  case (Cons a as)
  obtain r w where rw: "rw = (r, w)" by (cases rw)
  obtain r' w' where st: "registry_step os now a (r, w) = (r', w')"
    by (cases "registry_step os now a (r, w)")
  with Cons.prems rw have "registry_inv r' w'" by (auto intro: registry_step_inv)
  with Cons rw st show ?case by simp
qed simp

text \<open>C35: From the start of the process on, whatever is made, dropped or configured: every entry
  of the registry is under the name its logger has, no name occurs twice, and the default
  logger, while there is one, is registered.\<close>

theorem registry_reachable_inv:
  assumes "registry_new os terminal i l w = rw" "ops_fresh os now as rw"
  shows "registry_inv (fst (registry_run os now as rw)) (snd (registry_run os now as rw))"
proof (rule registry_run_inv [OF _ assms(2)])
  show "registry_inv (fst rw) (snd rw)"
    using assms(1)
    by (auto simp: registry_new_def registry_inv_def logger_name_def spd_logger_new_def)
qed

end
