(* ===== verification/Logging.thy ===== *)
theory Logging
  imports Log_Files Spd_Props
begin

text \<open>
  \<^verbatim>\<open>create_logger\<close> of \<^verbatim>\<open>src/core/logger.hpp\<close> over the model of the logging library: it
  implements the summary in \<^verbatim>\<open>Core_Base\<close>, and a line logged with the result is on disk when
  the call returns.
\<close>

section \<open>Making the logger\<close>

definition configure_logger ::
  "platform \<Rightarrow> int \<Rightarrow> nat \<Rightarrow> (spd_logger \<Rightarrow> spd_logger) \<Rightarrow> log_state \<Rightarrow> log_state option" where
  "configure_logger os now l f w =
     (case ls_loggers w l of
        None \<Rightarrow> None
      | Some lg \<Rightarrow> Some (set_pattern os now logger_pattern Time_local (f lg)
                         (w\<lparr>ls_loggers := (ls_loggers w)(l \<mapsto> f lg)\<rparr>)))"

text \<open>\<^term>\<open>None\<close> is the dereference of a null pointer, \<^term>\<open>Inl e\<close> an exception, and
  \<^term>\<open>Inr None\<close> the null pointer that is returned for an unknown sink.  A new sink and a new
  logger take the numbers \<open>i\<close> and \<open>l\<close>.\<close>

definition create_logger_spd ::
  "platform \<Rightarrow> int \<Rightarrow> nat \<Rightarrow> nat \<Rightarrow> string \<Rightarrow> string \<Rightarrow> string \<Rightarrow> string \<Rightarrow> registry \<Rightarrow> log_state \<Rightarrow>
   ((string + nat option) \<times> registry \<times> log_state) option" where
  "create_logger_spd os now i l level sink name path r w =
     (if sink = ''console'' then
        (case default_logger r of
           None \<Rightarrow> None
         | Some k \<Rightarrow>
             map_option (\<lambda>w. (Inr (Some k), r, w))
               (configure_logger os now k (set_level (get_logger_level level)) w))
      else if sink = ''file'' then
        (case daily_logger_mt os now i l name path 23 59 False 0 r w of
           (Inl e, r, w) \<Rightarrow> Some (Inl e, r, w)
         | (Inr k, r, w) \<Rightarrow>
             map_option (\<lambda>w. (Inr (Some k), r, w))
               (configure_logger os now k
                 (\<lambda>lg. set_level (get_logger_level level) (flush_on (get_logger_level level) lg)) w))
      else Some (Inr None, r, w))"

section \<open>What the logger shows\<close>

definition sink_formatter :: "sink \<Rightarrow> pattern_formatter" where
  "sink_formatter s = (case s of Daily s \<Rightarrow> ds_formatter s | Color s \<Rightarrow> cs_formatter s)"

text \<open>A logger in the store is one of the summary: its name, its levels and, in every sink, the
  compiled pattern; a file logger has one sink of its own, with the path and the time of the
  rotation.\<close>

definition shows_logger :: "platform \<Rightarrow> int \<Rightarrow> nat \<Rightarrow> log_state \<Rightarrow> logger \<Rightarrow> bool" where
  "shows_logger os now l w al \<longleftrightarrow>
     (\<exists>lg. ls_loggers w l = Some lg \<and> lo_name lg = lg_name al \<and> lo_level lg = lg_level al \<and>
       (\<forall>f. lg_flush_on al = Some f \<longrightarrow> lo_flush_level lg = f) \<and>
       (\<forall>i \<in> set (lo_sinks lg). \<forall>s. ls_sinks w i = Some s \<longrightarrow>
          sink_formatter s = pattern_formatter now (lg_pattern al) Time_local (os_default_eol os)) \<and>
       (case lg_sink al of
          Sink_default \<Rightarrow> True
        | Sink_daily_file path h m \<Rightarrow>
            \<exists>i s. lo_sinks lg = [i] \<and> ls_sinks w i = Some (Daily s) \<and>
              ds_base s = path \<and> ds_hour s = int h \<and> ds_minute s = int m))"

text \<open>The default logger of the process, as the summary has it.\<close>

definition shows_default :: "nat \<Rightarrow> log_state \<Rightarrow> logger \<Rightarrow> bool" where
  "shows_default l w al \<longleftrightarrow>
     (\<exists>lg. ls_loggers w l = Some lg \<and> lo_name lg = lg_name al \<and> lg_sink al = Sink_default \<and>
       lg_flush_on al = None)"

lemma sink_formatter_set [simp]: "sink_formatter (sink_set_formatter pf s) = pf"
  by (cases s) (simp_all add: sink_formatter_def)

lemma pf_clone_fresh [simp]:
  "pf_clone now (pattern_formatter now p ty eol) = pattern_formatter now p ty eol"
  by (simp add: pf_clone_def pattern_formatter_def)

lemma set_formatter_other:
  "i \<notin> set is \<Longrightarrow> ls_sinks (set_formatter_on now pf is w) i = ls_sinks w i"
  by (induction "is" arbitrary: w) (simp_all add: Let_def)

lemma set_formatter_all:
  assumes "pf_clone now pf = pf" "i \<in> set is"
  shows "ls_sinks (set_formatter_on now pf is w) i = map_option (sink_set_formatter pf) (ls_sinks w i)"
  using assms(2)
proof (induction "is" arbitrary: w)
  case (Cons a "is")
  have same: "(if is = [] then pf else pf_clone now pf) = pf" using assms(1) by simp
  have twice: "map_option (sink_set_formatter pf) (map_option (sink_set_formatter pf) x) =
      map_option (sink_set_formatter pf) x" for x
  proof (cases x)
    case (Some s)
    then show ?thesis by (cases s) simp_all
  qed simp
  show ?case
  proof (cases "i \<in> set is")
    case True
    then show ?thesis using Cons.IH [OF True] by (cases "i = a") (simp_all add: same Let_def twice)
  next
    case False
    then show ?thesis using Cons.prems by (simp add: same Let_def set_formatter_other)
  qed
qed simp

lemma set_pattern_sinks:
  "i \<in> set (lo_sinks lg) \<Longrightarrow> ls_sinks (set_pattern os now p ty lg w) i =
    map_option (sink_set_formatter (pattern_formatter now p ty (os_default_eol os))) (ls_sinks w i)"
  by (simp add: set_pattern_def set_formatter_def set_formatter_all)

lemma set_pattern_loggers [simp]: "ls_loggers (set_pattern os now p ty lg w) = ls_loggers w"
  by (simp add: set_pattern_def set_formatter_def)

lemma set_formatter_io [simp]: "ls_io (set_formatter_on now pf is w) = ls_io w"
  by (induction "is" arbitrary: w) (simp_all add: Let_def)

lemma set_pattern_io [simp]: "ls_io (set_pattern os now p ty lg w) = ls_io w"
  by (simp add: set_pattern_def set_formatter_def)

section \<open>The factory on a fresh name\<close>

lemma initialize_fresh:
  assumes "ls_loggers w l = Some (spd_logger_new name [i])" "ls_sinks w i = Some (Daily s)"
    and "rg_automatic r \<longrightarrow> map_of (rg_loggers r) name = None"
  shows "\<exists>r' w' lg f. initialize_logger now l r w = (None, r', w') \<and>
    ls_loggers w' l = Some lg \<and> lo_name lg = name \<and> lo_sinks lg = [i] \<and>
    (bt_enabled (lo_tracer lg) \<longleftrightarrow> 0 < rg_backtrace r) \<and>
    ls_sinks w' i = Some (Daily (s\<lparr>ds_formatter := f\<rparr>)) \<and> ls_io w' = ls_io w \<and>
    (rg_automatic r \<longrightarrow> registry_get name r' = Some l)"
proof (cases "rg_automatic r")
  case True
  with assms show ?thesis
    by (simp add: initialize_logger_def set_formatter_def Let_def register_logger_def
        throw_if_exists_def logger_name_def registry_get_def map_assign_def set_level_def flush_on_def
        enable_backtrace_def bt_enable_def set_error_handler_def spd_logger_new_def
        backtracer_new_def) blast
next
  case False
  with assms show ?thesis
    by (simp add: initialize_logger_def set_formatter_def Let_def set_level_def flush_on_def
        enable_backtrace_def bt_enable_def set_error_handler_def spd_logger_new_def
        backtracer_new_def) blast
qed

lemma daily_logger_made:
  assumes "daily_sink_new os path h m False n (io_disk (ls_io w)) = (Inr s, d)"
    and "rg_automatic r \<longrightarrow> map_of (rg_loggers r) name = None"
  shows "\<exists>r' w' lg f. daily_logger_mt os now i l name path h m False n r w = (Inr l, r', w') \<and>
    ls_loggers w' l = Some lg \<and> lo_name lg = name \<and> lo_sinks lg = [i] \<and>
    (bt_enabled (lo_tracer lg) \<longleftrightarrow> 0 < rg_backtrace r) \<and>
    ls_sinks w' i = Some (Daily (s\<lparr>ds_formatter := f\<rparr>)) \<and> io_disk (ls_io w') = d \<and>
    (rg_automatic r \<longrightarrow> registry_get name r' = Some l)"
proof -
  let ?w = "w\<lparr>ls_io := (ls_io w)\<lparr>io_disk := d\<rparr>\<rparr>"
  let ?w1 = "?w\<lparr>ls_sinks := (ls_sinks ?w)(i \<mapsto> Daily s),
    ls_loggers := (ls_loggers ?w)(l \<mapsto> spd_logger_new name [i])\<rparr>"
  have w1: "ls_loggers ?w1 l = Some (spd_logger_new name [i])" "ls_sinks ?w1 i = Some (Daily s)"
    by simp_all
  obtain r' w' lg f where init: "initialize_logger now l r ?w1 = (None, r', w')"
    and res: "ls_loggers w' l = Some lg" "lo_name lg = name" "lo_sinks lg = [i]"
      "bt_enabled (lo_tracer lg) \<longleftrightarrow> 0 < rg_backtrace r"
      "ls_sinks w' i = Some (Daily (s\<lparr>ds_formatter := f\<rparr>))" "ls_io w' = ls_io ?w1"
      "rg_automatic r \<longrightarrow> registry_get name r' = Some l"
    using initialize_fresh [OF w1 assms(2), of now] by (elim exE conjE) (erule that; assumption)
  have "daily_logger_mt os now i l name path h m False n r w = (Inr l, r', w')"
    using init by (simp add: daily_logger_mt_def assms(1) Let_def)
  then show ?thesis using res by (intro exI conjI) auto
qed

section \<open>The summary is implemented\<close>

lemma configure_sinks:
  assumes "ls_loggers w k = Some lg" "lo_sinks (f lg) = lo_sinks lg"
  shows "\<exists>w'. configure_logger os now k f w = Some w' \<and> ls_loggers w' k = Some (f lg) \<and>
    ls_io w' = ls_io w \<and>
    (\<forall>i \<in> set (lo_sinks lg). ls_sinks w' i =
       map_option (sink_set_formatter (program_formatter os now)) (ls_sinks w i))"
  using assms by (auto simp: configure_logger_def set_pattern_sinks program_formatter_def)

lemma create_file_logger:
  assumes "daily_sink_new os path 23 59 False 0 (io_disk (ls_io w)) = (Inr s, d)"
    and "rg_automatic r \<longrightarrow> map_of (rg_loggers r) name = None"
  shows "\<exists>r' w' lg. create_logger_spd os now i l level ''file'' name path r w =
      Some (Inr (Some l), r', w') \<and>
    ls_loggers w' l = Some lg \<and> lo_name lg = name \<and> lo_sinks lg = [i] \<and>
    lo_level lg = get_logger_level level \<and> lo_flush_level lg = get_logger_level level \<and>
    (bt_enabled (lo_tracer lg) \<longleftrightarrow> 0 < rg_backtrace r) \<and>
    ls_sinks w' i = Some (Daily (s\<lparr>ds_formatter := program_formatter os now\<rparr>)) \<and>
    io_disk (ls_io w') = d \<and> (rg_automatic r \<longrightarrow> registry_get name r' = Some l)"
proof -
  let ?f = "\<lambda>lg. set_level (get_logger_level level) (flush_on (get_logger_level level) lg)"
  obtain r' w1 lg f where made: "daily_logger_mt os now i l name path 23 59 False 0 r w = (Inr l, r', w1)"
    and res: "ls_loggers w1 l = Some lg" "lo_name lg = name" "lo_sinks lg = [i]"
      "bt_enabled (lo_tracer lg) \<longleftrightarrow> 0 < rg_backtrace r"
      "ls_sinks w1 i = Some (Daily (s\<lparr>ds_formatter := f\<rparr>))" "io_disk (ls_io w1) = d"
      "rg_automatic r \<longrightarrow> registry_get name r' = Some l"
    using daily_logger_made [OF assms, of now i l] by (elim exE conjE) (erule that; assumption)
  obtain w' where "configure_logger os now l ?f w1 = Some w'"
    "ls_loggers w' l = Some (?f lg)" "ls_io w' = ls_io w1"
    "ls_sinks w' i = map_option (sink_set_formatter (program_formatter os now)) (ls_sinks w1 i)"
    using configure_sinks [OF res(1), of ?f os now] res(3) by (auto simp: set_level_def flush_on_def)
  then show ?thesis
    using res by (simp add: create_logger_spd_def made set_level_def flush_on_def)
qed

lemma daily_new_request:
  "daily_sink_new os path h m tr n d = (Inr s, d') \<Longrightarrow>
   ds_base s = path \<and> ds_hour s = h \<and> ds_minute s = m"
  by (auto simp: daily_sink_new_def init_filenames_q_def Let_def split: if_splits prod.splits option.splits)

text \<open>The logging library does what the summary says: the console logger is the default one
  with its level and pattern set, the file logger is a new one with all the program asked for,
  and for any other sink the result is null.\<close>

theorem create_logger_refines:
  assumes "sink = ''console'' \<longrightarrow> (\<exists>k. default_logger r = Some k \<and> shows_default k w al)"
    and "sink = ''file'' \<longrightarrow> (rg_automatic r \<longrightarrow> map_of (rg_loggers r) name = None) \<and>
      isl (fst (daily_sink_new os path 23 59 False 0 (io_disk (ls_io w)))) = False"
  shows "case create_logger al level sink name path of
      None \<Rightarrow> create_logger_spd os now i l level sink name path r w = Some (Inr None, r, w)
    | Some al' \<Rightarrow> \<exists>k r' w'. create_logger_spd os now i l level sink name path r w =
        Some (Inr (Some k), r', w') \<and> shows_logger os now k w' al'"
proof -
  consider "sink = ''console''" | "sink = ''file''" | "sink \<noteq> ''console''" "sink \<noteq> ''file''" by blast
  then show ?thesis
  proof cases
    case 1
    then obtain k lg where k: "default_logger r = Some k" "ls_loggers w k = Some lg"
      "lo_name lg = lg_name al" "lg_sink al = Sink_default" "lg_flush_on al = None"
      using assms(1) by (auto simp: shows_default_def)
    obtain w' where "configure_logger os now k (set_level (get_logger_level level)) w = Some w'"
      "ls_loggers w' k = Some (set_level (get_logger_level level) lg)"
      "\<forall>i \<in> set (lo_sinks lg). ls_sinks w' i =
         map_option (sink_set_formatter (program_formatter os now)) (ls_sinks w i)"
      using configure_sinks [OF k(2), of "set_level (get_logger_level level)" os now]
      by (auto simp: set_level_def)
    with 1 k show ?thesis
      by (auto simp: create_logger_def create_logger_spd_def shows_logger_def set_level_def
          program_formatter_def)
  next
    case 2
    then obtain s d where new: "daily_sink_new os path 23 59 False 0 (io_disk (ls_io w)) = (Inr s, d)"
      using assms(2) by (cases "fst (daily_sink_new os path 23 59 False 0 (io_disk (ls_io w)))")
        (auto simp: prod_eq_iff)
    have free: "rg_automatic r \<longrightarrow> map_of (rg_loggers r) name = None" using assms(2) 2 by blast
    show ?thesis
      using create_file_logger [OF new free, of now i l level] daily_new_request [OF new] 2
      by (auto simp: create_logger_def shows_logger_def program_formatter_def sink_formatter_def)
  next
    case 3
    then show ?thesis by (simp add: create_logger_def create_logger_spd_def)
  qed
qed

section \<open>Logging to the file\<close>

definition disk_text :: "disk \<Rightarrow> string \<Rightarrow> string" where
  "disk_text d name = (case dk_files d name of None \<Rightarrow> [] | Some x \<Rightarrow> x)"

definition lt_tick :: "log_texts \<Rightarrow> log_texts" where
  "lt_tick st = st\<lparr>lt_clock := (\<lambda>i. lt_clock st (Suc i))\<rparr>"

text \<open>What one call does to the texts: below the level of the logger nothing, otherwise it takes
  the time and routes one line.\<close>

definition log_abs ::
  "platform \<Rightarrow> int \<Rightarrow> string \<Rightarrow> string \<Rightarrow> level_enum \<Rightarrow> u64 \<Rightarrow> level_enum \<times> string \<Rightarrow> log_texts \<Rightarrow> log_texts"
  where
  "log_abs os off base name lv tid a st =
     (if lv \<le> fst a
      then route os off base 23 59 (log_msg (lt_clock st 0) tid no_source name (fst a) (snd a)) (lt_tick st)
      else st)"

primrec log_all ::
  "platform \<Rightarrow> u64 \<Rightarrow> nat \<Rightarrow> (level_enum \<times> string) list \<Rightarrow> log_state \<Rightarrow> log_state option" where
  "log_all os tid l [] w = Some w"
| "log_all os tid l (a # as) w =
     Option.bind (logger_log os tid l no_source (fst a) (snd a) w) (log_all os tid l as)"

text \<open>A file logger between two calls: nothing is held back.\<close>

definition file_logger_ok ::
  "platform \<Rightarrow> int \<Rightarrow> string \<Rightarrow> string \<Rightarrow> level_enum \<Rightarrow> nat \<Rightarrow> spd_logger \<Rightarrow> nat \<Rightarrow> daily_sink \<Rightarrow> log_state \<Rightarrow> bool"
  where
  "file_logger_ok os off base name lv l lg i s w \<longleftrightarrow>
     ls_loggers w l = Some lg \<and> lo_name lg = name \<and> lo_sinks lg = [i] \<and> lo_level lg = lv \<and>
     lo_flush_level lg = lv \<and> \<not> bt_enabled (lo_tracer lg) \<and> ls_sinks w i = Some (Daily s) \<and>
     ds_level s = Level_trace \<and> fh_pending (ds_file s) = [] \<and>
     daily_ok os off base 23 59 s (io_disk (ls_io w)) \<and>
     (\<forall>k. 10 * seconds \<le> dk_clock (io_disk (ls_io w)) k)"

lemma trace_least [simp]: "Level_trace \<le> lv"
  by (cases lv) (simp_all add: level_defs less_eq_level_enum_def)

lemma delete_old_level: "delete_old s d = (e, s', d') \<Longrightarrow> ds_level s' = ds_level s"
  by (auto simp: delete_old_def Let_def split: prod.splits if_splits)

lemma daily_write_level:
  "daily_write os r msg s d = Some (e, s', d') \<Longrightarrow> ds_level s' = ds_level s"
  by (auto simp: daily_write_def Let_def split: option.splits prod.splits if_splits
      dest!: delete_old_level)

lemma daily_sink_it_level:
  "daily_sink_it os msg s d = Some (e, s', d') \<Longrightarrow> ds_level s' = ds_level s"
  by (auto simp: daily_sink_it_def Let_def split: option.splits prod.splits if_splits
      dest: daily_write_level)

lemma route_clock:
  "lt_clock (route os off base h m msg st) k = lt_clock st k \<or>
   lt_clock (route os off base h m msg st) k = lt_clock st (Suc k)"
  by (simp add: route_def lt_append_def lt_rotate_def)

lemma daily_abs_clock [simp]: "lt_clock (daily_abs s d) = dk_clock d"
  by (simp add: daily_abs_def Let_def)

lemma daily_abs_disk: "fh_pending (ds_file s) = [] \<Longrightarrow> lt_text (daily_abs s d) = disk_text d"
  by (auto simp: daily_abs_def Let_def disk_text_def fun_eq_iff)

lemma daily_flush_abs:
  assumes "daily_ok os off base h m s d"
  shows "\<exists>s' d'. daily_flush s d = (s', d') \<and> daily_abs s' d' = daily_abs s d \<and>
    daily_ok os off base h m s' d' \<and> fh_pending (ds_file s') = [] \<and> ds_level s' = ds_level s"
proof -
  let ?h = "ds_file s"
  let ?s = "s\<lparr>ds_file := ?h\<lparr>fh_pending := []\<rparr>\<rparr>" and ?d = "dk_append (fh_filename ?h) (fh_pending ?h) d"
  obtain x where x: "fh_open ?h" "dk_files d (fh_filename ?h) = Some x"
    using assms by (auto simp: daily_ok_def)
  have "daily_flush s d = (?s, ?d)" using x by (simp add: daily_flush_def fh_flush_def)
  moreover have "daily_abs ?s ?d = daily_abs s d"
    using x(2) by (simp add: daily_abs_def Let_def dk_append_def fun_eq_iff)
  moreover have "daily_ok os off base h m ?s ?d"
    using assms x(2) by (simp add: daily_ok_def dk_append_def)
  ultimately show ?thesis by (intro exI [of _ ?s] exI [of _ ?d]) simp
qed

lemma file_log_step:
  assumes "file_logger_ok os off base name lv l lg i s w" "steady_offset os off" "fst a \<noteq> Level_off"
  shows "\<exists>s' w'. logger_log os tid l no_source (fst a) (snd a) w = Some w' \<and>
    file_logger_ok os off base name lv l lg i s' w' \<and>
    daily_abs s' (io_disk (ls_io w')) = log_abs os off base name lv tid a (daily_abs s (io_disk (ls_io w)))"
proof (cases "lv \<le> fst a")
  case False
  with assms(1) show ?thesis
    by (intro exI [of _ s] exI [of _ w])
      (auto simp: logger_log_def log_abs_def should_log_def file_logger_ok_def)
next
  case True
  let ?d = "io_disk (ls_io w)"
  let ?d1 = "?d\<lparr>dk_clock := (\<lambda>i. dk_clock ?d (Suc i))\<rparr>"
  let ?w1 = "w\<lparr>ls_io := (ls_io w)\<lparr>io_disk := ?d1\<rparr>\<rparr>"
  let ?m = "log_msg (dk_clock ?d 0) tid no_source name (fst a) (snd a)"
  note inv = assms(1) [unfolded file_logger_ok_def]
  have now: "ls_now w = (dk_clock ?d 0, ?w1)" by (simp add: ls_now_def dk_now_def)
  have "daily_ok os off base 23 59 s ?d1" "10 * seconds \<le> lm_time ?m"
    using inv by (simp_all add: daily_ok_def log_msg_def)
  from daily_step_refines [OF this(1) assms(2) this(2)] obtain s1 d2 where
    s1: "daily_sink_it os ?m s ?d1 = Some (None, s1, d2)" "daily_ok os off base 23 59 s1 d2"
      "daily_abs s1 d2 = route os off base 23 59 ?m (daily_abs s ?d1)" by blast
  obtain s2 d3 where s2: "daily_flush s1 d2 = (s2, d3)" "daily_abs s2 d3 = daily_abs s1 d2"
    "daily_ok os off base 23 59 s2 d3" "fh_pending (ds_file s2) = []" "ds_level s2 = ds_level s1"
    using daily_flush_abs [OF s1(2)] by blast
  let ?w2 = "?w1\<lparr>ls_sinks := (ls_sinks w)(i \<mapsto> Daily s1), ls_io := (ls_io w)\<lparr>io_disk := d2\<rparr>\<rparr>"
  let ?w3 = "?w2\<lparr>ls_sinks := (ls_sinks w)(i \<mapsto> Daily s2), ls_io := (ls_io w)\<lparr>io_disk := d3\<rparr>\<rparr>"
  have "sink_one os lg ?m i ?w1 = Some ?w2"
    using inv s1(1) by (simp add: sink_one_def sink_should_log_def)
  then have it: "sink_it os lg ?m ?w1 = Some ?w3"
    using inv s2(1) True assms(3)
    by (simp add: sink_it_def should_flush_def log_msg_def logger_flush_def flush_one_def)
  have log: "logger_log os tid l no_source (fst a) (snd a) w = Some ?w3"
    using inv it True by (simp add: logger_log_def log_it_def now should_log_def)
  have "dk_clock d3 k = dk_clock ?d (Suc k) \<or> dk_clock d3 k = dk_clock ?d (Suc (Suc k))" for k
    using route_clock [of os off base 23 59 ?m "daily_abs s ?d1" k] s1(3) s2(2)
      daily_abs_clock [of s2 d3] by simp
  then have "10 * seconds \<le> dk_clock d3 k" for k using inv by metis
  then have "file_logger_ok os off base name lv l lg i s2 ?w3"
    using inv s2 daily_sink_it_level [OF s1(1)] by (simp add: file_logger_ok_def)
  moreover have "daily_abs s ?d1 = lt_tick (daily_abs s ?d)"
    by (simp add: daily_abs_def lt_tick_def Let_def)
  ultimately show ?thesis
    using log s1(3) s2(2) True by (intro exI [of _ s2] exI [of _ ?w3]) (simp add: log_abs_def)
qed

lemma file_log_all:
  assumes "steady_offset os off"
  shows "file_logger_ok os off base name lv l lg i s w \<Longrightarrow> \<forall>a \<in> set as. fst a \<noteq> Level_off \<Longrightarrow>
    \<exists>w'. log_all os tid l as w = Some w' \<and> disk_text (io_disk (ls_io w')) =
      lt_text (fold (log_abs os off base name lv tid) as (daily_abs s (io_disk (ls_io w))))"
proof (induction as arbitrary: s w)
  case Nil
  then show ?case by (simp add: daily_abs_disk file_logger_ok_def)
next
  case (Cons a as)
  then obtain s' w' where step: "logger_log os tid l no_source (fst a) (snd a) w = Some w'"
    "file_logger_ok os off base name lv l lg i s' w'"
    "daily_abs s' (io_disk (ls_io w')) = log_abs os off base name lv tid a (daily_abs s (io_disk (ls_io w)))"
    using file_log_step [OF Cons.prems(1) assms, of a tid] by auto
  with Cons.IH [OF step(2)] Cons.prems(2) show ?case by auto
qed

lemma file_logger_made:
  assumes "daily_sink_new os path 23 59 False 0 (io_disk (ls_io w)) = (Inr s, d)"
    and "\<forall>k. dk_open (io_disk (ls_io w)) k \<and> dk_write (io_disk (ls_io w)) k \<and>
      10 * seconds \<le> dk_clock (io_disk (ls_io w)) k"
    and "rg_automatic r \<longrightarrow> map_of (rg_loggers r) name = None" "rg_backtrace r = 0"
  shows "\<exists>r' w1 lg. create_logger_spd os now i l level ''file'' name path r w = Some (Inr (Some l), r', w1) \<and>
    file_logger_ok os off path name (get_logger_level level) l lg i
      (s\<lparr>ds_formatter := program_formatter os now\<rparr>) w1 \<and> io_disk (ls_io w1) = d"
proof -
  let ?s = "s\<lparr>ds_formatter := program_formatter os now\<rparr>"
  obtain r' w1 lg where made: "create_logger_spd os now i l level ''file'' name path r w =
      Some (Inr (Some l), r', w1)"
    and res: "ls_loggers w1 l = Some lg" "lo_name lg = name" "lo_sinks lg = [i]"
      "lo_level lg = get_logger_level level" "lo_flush_level lg = get_logger_level level"
      "bt_enabled (lo_tracer lg) \<longleftrightarrow> 0 < rg_backtrace r" "ls_sinks w1 i = Some (Daily ?s)"
      "io_disk (ls_io w1) = d"
    using create_file_logger [OF assms(1,3), of now i l level] by (elim exE conjE) (erule that; assumption)
  have "daily_ok os off path 23 59 ?s d" using daily_new_ok [OF assms(1)] assms(2) by blast
  then have "file_logger_ok os off path name (get_logger_level level) l lg i ?s w1"
    using res assms(2,4) daily_new_fields [OF assms(1)] by (auto simp: file_logger_ok_def)
  with made res(8) show ?thesis by blast
qed


text \<open>A second logger of the same name is refused: the call throws, the registry and all loggers
  stay as they were, and nothing is written.\<close>

theorem taken_name_throws:
  assumes "daily_sink_new os path 23 59 False 0 (io_disk (ls_io w)) = (Inr s, d)"
    and "rg_automatic r" "map_of (rg_loggers r) name \<noteq> None"
  shows "\<exists>w'. create_logger_spd os now i l level ''file'' name path r w =
      Some (Inl (''logger with name '' @ [CHR 0x27] @ name @ [CHR 0x27] @ '' already exists''), r, w') \<and>
    ls_sinks w' = ls_sinks w \<and> ls_loggers w' = ls_loggers w \<and>
    io_disk (ls_io w') = snd (fh_close (ds_file s) d)"
  using assms
  by (auto simp: create_logger_spd_def daily_logger_mt_def initialize_logger_def Let_def
      set_formatter_def register_logger_def logger_name_def throw_if_exists_def spd_logger_new_def
      set_level_def flush_on_def enable_backtrace_def set_error_handler_def
      split: option.splits prod.splits)

section \<open>A concrete process\<close>

definition day_disk :: disk where
  "day_disk = calm_disk\<lparr>dk_clock := (\<lambda>_. 86400 * seconds)\<rparr>"

definition bare_state :: log_state where
  "bare_state = \<lparr>ls_sinks = Map.empty, ls_loggers = Map.empty,
     ls_io = \<lparr>io_disk = day_disk, io_console = []\<rparr>, ls_errors = [], ls_err_counter = 0,
     ls_last_report = 0\<rparr>"

definition started :: "registry \<times> log_state" where
  "started = registry_new sample_os True 0 0 bare_state"

lemma started_fields:
  "io_disk (ls_io (snd started)) = day_disk" "rg_loggers (fst started) = [([], 0)]"
  "rg_backtrace (fst started) = 0" "rg_automatic (fst started)" "default_logger (fst started) = Some 0"
  "ls_loggers (snd started) 0 = Some (spd_logger_new [] [0])"
  by (simp_all add: started_def registry_new_def bare_state_def default_logger_def)

lemma day_disk_new:
  "\<exists>s d. daily_sink_new sample_os ''/tmp/a.log'' 23 59 False 0 day_disk = (Inr s, d)"
  using daily_new_opens [of day_disk 23 59] by (simp add: day_disk_def calm_disk_def)


theorem create_logger_refines_witness:
  "\<exists>k r' w'. create_logger_spd sample_os 0 1 1 ''debug'' ''console'' [] [] (fst started) (snd started) =
      Some (Inr (Some k), r', w') \<and>
    shows_logger sample_os 0 k w' \<lparr>lg_name = [], lg_sink = Sink_default, lg_level = Level_debug,
      lg_flush_on = None, lg_pattern = logger_pattern\<rparr>"
  using create_logger_refines [where sink = "''console''" and r = "fst started" and w = "snd started"
      and al = "\<lparr>lg_name = [], lg_sink = Sink_default, lg_level = Level_info, lg_flush_on = None,
        lg_pattern = []\<rparr>"
      and level = "''debug''" and name = "[]" and path = "[]" and os = sample_os and now = 0 and i = 1 and l = 1]
  by (auto simp: started_fields shows_default_def spd_logger_new_def create_logger_def get_logger_level_known)

theorem taken_name_throws_witness:
  "\<exists>w'. create_logger_spd sample_os 0 1 1 ''info'' ''file'' [] ''/tmp/a.log'' (fst started) (snd started) =
      Some (Inl (''logger with name '' @ [CHR 0x27, CHR 0x27] @ '' already exists''), fst started, w') \<and>
    ls_loggers w' 0 = Some (spd_logger_new [] [0])"
proof -
  obtain s d where new: "daily_sink_new sample_os ''/tmp/a.log'' 23 59 False 0
      (io_disk (ls_io (snd started))) = (Inr s, d)"
    using day_disk_new by (auto simp: started_fields)
  show ?thesis
    using taken_name_throws [OF new, of "fst started" "[]" 0 1 1 "''info''"]
    by (auto simp: started_fields)
qed

section \<open>Samples for the registry\<close>

theorem registry_reachable_inv_witness:
  "registry_inv (fst (registry_run sample_os 0 [Op_set_level Level_err, Op_drop [], Op_flush_all] started))
     (snd (registry_run sample_os 0 [Op_set_level Level_err, Op_drop [], Op_flush_all] started))"
  by (rule registry_reachable_inv [OF started_def [symmetric]])
    (simp add: started_def registry_new_def registry_set_level_def)

theorem logged_is_flushed_witness:
  "\<exists>r' w1 w2. create_logger_spd sample_os 0 1 1 ''info'' ''file'' ''gologin_server'' ''/tmp/a.log''
      (fst started) (snd started) = Some (Inr (Some 1), r', w1) \<and>
    logger_log sample_os 7 1 no_source Level_err ''x'' w1 = Some w2 \<and> nothing_pending w2 1"
proof -
  obtain s d where new: "daily_sink_new sample_os ''/tmp/a.log'' 23 59 False 0
      (io_disk (ls_io (snd started))) = (Inr s, d)"
    using day_disk_new by (auto simp: started_fields)
  have "\<forall>k. dk_open (io_disk (ls_io (snd started))) k \<and> dk_write (io_disk (ls_io (snd started))) k \<and>
      10 * seconds \<le> dk_clock (io_disk (ls_io (snd started))) k"
    "rg_automatic (fst started) \<longrightarrow> map_of (rg_loggers (fst started)) ''gologin_server'' = None"
    "rg_backtrace (fst started) = 0"
    by (simp_all add: started_fields day_disk_def calm_disk_def time_units)
  from file_logger_made [OF new this, of 0 1 1 "''info''" 120] obtain r' w1 lg s' where
    made: "create_logger_spd sample_os 0 1 1 ''info'' ''file'' ''gologin_server'' ''/tmp/a.log''
      (fst started) (snd started) = Some (Inr (Some 1), r', w1)"
    and ok: "file_logger_ok sample_os 120 ''/tmp/a.log'' ''gologin_server'' Level_info 1 lg 1 s' w1"
    by (auto simp: get_logger_level_known)
  from file_log_step [OF ok sample_offset, of "(Level_err, ''x'')" 7] obtain w2 where
    log: "logger_log sample_os 7 1 no_source Level_err ''x'' w1 = Some w2" by auto
  have "nothing_pending w2 1"
    using logged_is_flushed [of w1 1 lg Level_err sample_os 7 no_source "''x''" w2] ok log
    by (auto simp: file_logger_ok_def should_log_def level_defs less_eq_level_enum_def)
  with made log show ?thesis by blast
qed

end
