(* ===== verification/Log_Robust.thy ===== *)
theory Log_Robust
  imports Logging
begin

text \<open>
  Logging survives a failing disk: whatever calls of the system fail, a call of the program's
  file logger returns, and the failure goes to the error handler of the logger.
\<close>

section \<open>Time goes on\<close>

text \<open>The clock of a later disk continues the clock of an earlier one.\<close>

definition later :: "disk \<Rightarrow> disk \<Rightarrow> bool" where
  "later d d' \<longleftrightarrow> (\<exists>n. dk_clock d' = (\<lambda>k. dk_clock d (n + k)))"

lemma later_same: "dk_clock d' = dk_clock d \<Longrightarrow> later d d'"
  by (auto simp: later_def intro: exI [of _ 0])

lemma later_refl [simp]: "later d d"
  by (rule later_same) (rule refl)

lemma later_trans: "later d d' \<Longrightarrow> later d' d'' \<Longrightarrow> later d d''"
  by (auto simp: later_def fun_eq_iff) (metis add.assoc)

lemma later_tick: "dk_clock d' = (\<lambda>k. dk_clock d (Suc k)) \<Longrightarrow> later d d'"
  by (auto simp: later_def intro: exI [of _ 1])

lemma later_bounds:
  assumes "later d d'" "mono (dk_clock d)"
  shows "mono (dk_clock d')" "dk_clock d 0 \<le> dk_clock d' k"
  using assms by (auto simp: later_def mono_def)

lemma append_clock [simp]: "dk_clock (dk_append name s d) = dk_clock d"
  by (simp add: dk_append_def)

lemma fopen_clock: "dk_fopen wb name d = (ok, d') \<Longrightarrow> dk_clock d' = dk_clock d"
  by (auto simp: dk_fopen_def Let_def)

lemma try_open_clock:
  "fh_try_open os n fname tr h d = (e, h', d') \<Longrightarrow> dk_clock d' = dk_clock d"
  by (induction n arbitrary: d)
    (auto simp: Let_def only_folders_simps dest!: fopen_clock create_dir_only_folders
      split: prod.splits if_splits)

lemma open_clock: "fh_open_file os fname tr h d = (e, h', d') \<Longrightarrow> dk_clock d' = dk_clock d"
  by (auto simp: fh_open_file_def fh_close_def Let_def dest!: try_open_clock split: prod.splits if_splits)

lemma delete_old_clock: "delete_old s d = (e, s', d') \<Longrightarrow> dk_clock d' = dk_clock d"
  by (auto simp: delete_old_def remove_if_exists_def Let_def split: prod.splits if_splits)

lemma write_clock: "fh_write buf h d = Some (e, h', d') \<Longrightarrow> dk_clock d' = dk_clock d"
  by (auto simp: fh_write_def Let_def split: if_splits)

lemma daily_write_clock: "daily_write os r msg s d = Some (e, s', d') \<Longrightarrow> dk_clock d' = dk_clock d"
  by (auto simp: daily_write_def Let_def dest!: write_clock delete_old_clock
      split: option.splits prod.splits if_splits)

lemma daily_sink_it_later:
  assumes "daily_sink_it os msg s d = Some (e, s', d')"
  shows "later d d'"
proof (cases "ds_rotation s \<le> lm_time msg")
  case False
  with assms show ?thesis by (auto simp: daily_sink_it_def Let_def intro: later_same dest: daily_write_clock)
next
  case True
  obtain e1 fl d1 where o: "fh_open_file os (calc_filename os (ds_base s) (now_tm os (lm_time msg)))
      (ds_truncate s) (ds_file s) d = (e1, fl, d1)" by (metis prod_cases3)
  note same = open_clock [OF o]
  show ?thesis
  proof (cases e1)
    case (Some err)
    with assms True o same show ?thesis by (auto simp: daily_sink_it_def intro: later_same)
  next
    case None
    with assms True o have "dk_clock d' = (\<lambda>k. dk_clock d1 (Suc k))"
      by (auto simp: daily_sink_it_def next_rotation_tp_def dk_now_def dest!: daily_write_clock)
    with same show ?thesis by (simp add: later_tick)
  qed
qed

lemma daily_flush_clock:
  "daily_flush s d = (s', d') \<Longrightarrow> dk_clock d' = dk_clock d \<and> fh_open (ds_file s') = fh_open (ds_file s) \<and>
   ds_rotation s' = ds_rotation s"
  by (auto simp: daily_flush_def fh_flush_def split: if_splits)

section \<open>A call always returns\<close>

text \<open>Between two calls: the logger has one daily sink, which is safe at the time of the last
  message, and the clock has not gone back.\<close>

definition file_logger_safe :: "nat \<Rightarrow> nat \<Rightarrow> log_state \<Rightarrow> bool" where
  "file_logger_safe l i w \<longleftrightarrow>
     (\<exists>lg s T. ls_loggers w l = Some lg \<and> lo_sinks lg = [i] \<and> ls_sinks w i = Some (Daily s) \<and>
       daily_safe T s \<and> (\<forall>k. T \<le> dk_clock (io_disk (ls_io w)) k) \<and> mono (dk_clock (io_disk (ls_io w))))"

lemma err_handler_frame:
  "ls_loggers (err_handler lg e w) = ls_loggers w \<and> ls_sinks (err_handler lg e w) = ls_sinks w \<and>
   later (io_disk (ls_io w)) (io_disk (ls_io (err_handler lg e w)))"
  by (auto simp: err_handler_def ls_now_def dk_now_def Let_def intro: later_tick split: option.splits)

lemma sink_one_safe:
  assumes "ls_sinks w i = Some (Daily s)" "daily_safe T s" "T \<le> lm_time msg"
    and "\<And>k. lm_time msg \<le> dk_clock (io_disk (ls_io w)) k"
  shows "\<exists>w' s'. sink_one os lg msg i w = Some w' \<and> ls_loggers w' = ls_loggers w \<and>
    ls_sinks w' i = Some (Daily s') \<and> daily_safe (lm_time msg) s' \<and>
    later (io_disk (ls_io w)) (io_disk (ls_io w'))"
proof (cases "sink_should_log (lm_level msg) (Daily s)")
  case False
  with assms show ?thesis by (auto simp: sink_one_def daily_safe_def)
next
  case True
  obtain e s' d' where it: "daily_sink_it os msg s (io_disk (ls_io w)) = Some (e, s', d')"
    "daily_safe (lm_time msg) s'"
    using daily_sink_it_safe [OF assms(2,3)] by blast
  let ?w = "w\<lparr>ls_sinks := (ls_sinks w)(i \<mapsto> Daily s'), ls_io := (ls_io w)\<lparr>io_disk := d'\<rparr>\<rparr>"
  have "sink_one os lg msg i w = Some (case e of None \<Rightarrow> ?w
      | Some what \<Rightarrow> err_handler lg (catch_text (lm_source msg) what) ?w)"
    using assms(1) True it(1) by (simp add: sink_one_def Let_def)
  then show ?thesis
    using it(2) daily_sink_it_later [OF it(1)] err_handler_frame [of lg _ ?w]
    by (cases e) (auto intro: later_trans)
qed

lemma logger_flush_safe:
  assumes "lo_sinks lg = [i]" "ls_sinks w i = Some (Daily s)" "daily_safe T s"
  shows "\<exists>s'. ls_sinks (logger_flush lg w) i = Some (Daily s') \<and> daily_safe T s' \<and>
    ls_loggers (logger_flush lg w) = ls_loggers w \<and>
    dk_clock (io_disk (ls_io (logger_flush lg w))) = dk_clock (io_disk (ls_io w))"
proof -
  obtain s' d' where f: "daily_flush s (io_disk (ls_io w)) = (s', d')"
    by (cases "daily_flush s (io_disk (ls_io w))")
  with assms daily_flush_clock [OF f] show ?thesis
    by (auto simp: logger_flush_def flush_one_def daily_safe_def)
qed

lemma sink_it_safe:
  assumes "lo_sinks lg = [i]" "ls_sinks w i = Some (Daily s)" "daily_safe T s" "T \<le> lm_time msg"
    and "\<And>k. lm_time msg \<le> dk_clock (io_disk (ls_io w)) k"
  shows "\<exists>w' s'. sink_it os lg msg w = Some w' \<and> ls_loggers w' = ls_loggers w \<and>
    ls_sinks w' i = Some (Daily s') \<and> daily_safe (lm_time msg) s' \<and>
    later (io_disk (ls_io w)) (io_disk (ls_io w'))"
proof -
  obtain w1 s1 where one: "sink_one os lg msg i w = Some w1" "ls_loggers w1 = ls_loggers w"
    "ls_sinks w1 i = Some (Daily s1)" "daily_safe (lm_time msg) s1"
    "later (io_disk (ls_io w)) (io_disk (ls_io w1))"
    using sink_one_safe [OF assms(2-5)] by blast
  let ?w2 = "if should_flush msg lg then logger_flush lg w1 else w1"
  have it: "sink_it os lg msg w = Some ?w2" using assms(1) one(1) by (simp add: sink_it_def)
  obtain s2 where "ls_sinks ?w2 i = Some (Daily s2)" "daily_safe (lm_time msg) s2"
    "ls_loggers ?w2 = ls_loggers w" "dk_clock (io_disk (ls_io ?w2)) = dk_clock (io_disk (ls_io w1))"
    using logger_flush_safe [OF assms(1) one(3,4)] one(2-4) by (cases "should_flush msg lg") auto
  moreover from this one(5) have "later (io_disk (ls_io w)) (io_disk (ls_io ?w2))"
    by (metis later_trans later_same)
  ultimately show ?thesis using it by blast
qed

lemma ls_now_later:
  "ls_now w = (now, w1) \<Longrightarrow> now = dk_clock (io_disk (ls_io w)) 0 \<and> ls_loggers w1 = ls_loggers w \<and>
   ls_sinks w1 = ls_sinks w \<and> later (io_disk (ls_io w)) (io_disk (ls_io w1))"
  by (auto simp: ls_now_def dk_now_def Let_def intro: later_tick)

lemma logger_log_safe:
  assumes "file_logger_safe l i w"
  shows "\<exists>w'. logger_log os tid l loc lvl payload w = Some w' \<and> file_logger_safe l i w'"
proof -
  obtain lg s T where w: "ls_loggers w l = Some lg" "lo_sinks lg = [i]" "ls_sinks w i = Some (Daily s)"
    "daily_safe T s" "\<And>k. T \<le> dk_clock (io_disk (ls_io w)) k" "mono (dk_clock (io_disk (ls_io w)))"
    using assms by (auto simp: file_logger_safe_def)
  show ?thesis
  proof (cases "should_log lvl lg \<or> bt_enabled (lo_tracer lg)")
    case False
    with w(1) assms show ?thesis by (simp add: logger_log_def)
  next
    case True
    obtain now w1 where now: "ls_now w = (now, w1)" by (cases "ls_now w")
    note w1 = ls_now_later [OF now]
    let ?m = "log_msg now tid loc (lo_name lg) lvl payload"
    have time: "lm_time ?m = dk_clock (io_disk (ls_io w)) 0" using w1 by (simp add: log_msg_def)
    have le: "T \<le> lm_time ?m" "\<And>k. lm_time ?m \<le> dk_clock (io_disk (ls_io w1)) k"
      unfolding time using w(5) later_bounds [OF _ w(6)] w1 by blast+
    have "\<exists>w2 s2. (if should_log lvl lg then sink_it os lg ?m w1 else Some w1) = Some w2 \<and>
        ls_loggers w2 = ls_loggers w \<and> ls_sinks w2 i = Some (Daily s2) \<and> daily_safe (lm_time ?m) s2 \<and>
        later (io_disk (ls_io w1)) (io_disk (ls_io w2))"
    proof (cases "should_log lvl lg")
      case True
      have "ls_sinks w1 i = Some (Daily s)" using w(3) w1 by simp
      from sink_it_safe [OF w(2) this w(4) le] True w1 show ?thesis by auto
    next
      case False
      with w w1 le(1) show ?thesis by (auto simp: daily_safe_def)
    qed
    then obtain w2 s2 where w2: "(if should_log lvl lg then sink_it os lg ?m w1 else Some w1) = Some w2"
      "ls_loggers w2 = ls_loggers w" "ls_sinks w2 i = Some (Daily s2)" "daily_safe (lm_time ?m) s2"
      "later (io_disk (ls_io w1)) (io_disk (ls_io w2))" by blast
    have "later (io_disk (ls_io w)) (io_disk (ls_io w2))" using w1 w2(5) by (blast intro: later_trans)
    note clock = later_bounds [OF this w(6)]
    let ?w3 = "if bt_enabled (lo_tracer lg)
      then w2\<lparr>ls_loggers := (ls_loggers w2)(l \<mapsto> lg\<lparr>lo_tracer := bt_push_back ?m (lo_tracer lg)\<rparr>)\<rparr> else w2"
    have "logger_log os tid l loc lvl payload w = Some ?w3"
      using True w(1) w1 w2(1) by (auto simp: logger_log_def log_it_def now)
    moreover have "file_logger_safe l i ?w3"
      using w(1,2) w2(2-4) clock unfolding file_logger_safe_def time by auto
    ultimately show ?thesis by blast
  qed
qed

lemma log_all_safe: "file_logger_safe l i w \<Longrightarrow> log_all os tid l as w \<noteq> None"
proof (induction as arbitrary: w)
  case (Cons a as)
  obtain w' where "logger_log os tid l no_source (fst a) (snd a) w = Some w'" "file_logger_safe l i w'"
    using logger_log_safe [OF Cons.prems] by blast
  with Cons.IH show ?case by simp
qed simp

lemma daily_new_later:
  "daily_sink_new os base h m tr 0 d = (Inr s, d') \<Longrightarrow> later d d'"
  by (auto simp: daily_sink_new_def dk_now_def next_rotation_tp_def Let_def later_def
      dest!: open_clock split: if_splits prod.splits option.splits intro: exI [of _ 2])

text \<open>C33: Once the file logger has been made, no call of it fails: whichever calls of \<^verbatim>\<open>fopen\<close>,
  \<^verbatim>\<open>fwrite\<close>, \<^verbatim>\<open>mkdir\<close> and \<^verbatim>\<open>remove\<close> fail from then on, and whatever is logged at whatever level,
  every call returns, as long as the clock does not go back.\<close>

theorem program_log_survives:
  assumes "daily_sink_new os path 23 59 False 0 (io_disk (ls_io w)) = (Inr s, d)"
    and "rg_automatic r \<longrightarrow> map_of (rg_loggers r) name = None"
    and "mono (dk_clock (io_disk (ls_io w)))"
  shows "\<exists>r' w1 w2. create_logger_spd os now i l level ''file'' name path r w = Some (Inr (Some l), r', w1) \<and>
    log_all os tid l as w1 = Some w2"
proof -
  obtain r' w1 lg where made: "create_logger_spd os now i l level ''file'' name path r w =
      Some (Inr (Some l), r', w1)"
    and res: "ls_loggers w1 l = Some lg" "lo_sinks lg = [i]"
      "ls_sinks w1 i = Some (Daily (s\<lparr>ds_formatter := program_formatter os now\<rparr>))"
      "io_disk (ls_io w1) = d"
    using create_file_logger [OF assms(1,2), of now i l level] by (elim exE conjE) (erule that; assumption)
  note clock = later_bounds [OF daily_new_later [OF assms(1)] assms(3)]
  have "fh_open (ds_file s)"
    using daily_sink_new_safe [OF assms(1), of "ds_rotation s - 1"] by (simp add: daily_safe_def)
  with res clock have "file_logger_safe l i w1"
    by (auto simp: file_logger_safe_def daily_safe_def)
  from log_all_safe [OF this] made show ?thesis by auto
qed

theorem program_log_survives_witness:
  "\<exists>r' w1 w2. create_logger_spd sample_os 0 1 1 ''info'' ''file'' ''gologin_server'' ''/tmp/a.log''
      (fst started) ((snd started)\<lparr>ls_io := \<lparr>io_disk = sample_disk, io_console = []\<rparr>\<rparr>) =
      Some (Inr (Some 1), r', w1) \<and>
    log_all sample_os 7 1 [(Level_err, ''a''), (Level_debug, ''b''), (Level_critical, ''c'')] w1 = Some w2"
proof -
  obtain s d where "daily_sink_new sample_os ''/tmp/a.log'' 23 59 False 0 sample_disk = (Inr s, d)"
    using daily_new_opens [of sample_disk 23 59 sample_os "''/tmp/a.log''"] by (auto simp: sample_disk_def)
  then have new: "daily_sink_new sample_os ''/tmp/a.log'' 23 59 False 0 (io_disk (ls_io
      ((snd started)\<lparr>ls_io := \<lparr>io_disk = sample_disk, io_console = []\<rparr>\<rparr>))) = (Inr s, d)" by simp
  have "mono (dk_clock sample_disk)" by (simp add: sample_disk_def mono_def)
  then show ?thesis
    using program_log_survives [OF new, where r = "fst started" and name = "''gologin_server''" and now = 0
        and i = 1 and l = 1 and level = "''info''" and tid = 7
        and as = "[(Level_err, ''a''), (Level_debug, ''b''), (Level_critical, ''c'')]"]
    by (simp add: started_fields del: log_all.simps)
qed

end
