(* ===== verification/Client_Threads.thy ===== *)
theory Client_Threads
  imports Client_Props
begin

text \<open>
  The two threads of the client application: the thread of the window, which runs the
  callbacks of \<^verbatim>\<open>src/client/app.cpp\<close>, and the thread \<^verbatim>\<open>client::connect\<close> starts
  (\<^verbatim>\<open>src/tcp/client/client.cpp\<close>), which receives and dispatches.  They share the members of
  \<^verbatim>\<open>app\<close> and of \<^verbatim>\<open>client\<close> without a lock.  A step is what one thread does between two points
  where the other can come in: \<^verbatim>\<open>connect\<close> and the greeting that follows it are two steps,
  \<^verbatim>\<open>disconnect\<close> is four (\<^verbatim>\<open>::shutdown\<close>, \<^verbatim>\<open>::closesocket\<close>, the status, the join), an iteration
  of the loop is the test, the two calls of \<^verbatim>\<open>::recv\<close> and the dispatch.

  A label carries what the system answers.  A step gives \<^term>\<open>None\<close> where the thread cannot
  make it, \<open>Inl\<close> where the process fails.  A body and a callback that does not touch the
  connection are one step each: the tearing of a \<^verbatim>\<open>std::string\<close> by an unlocked access is not
  modelled.
\<close>

section \<open>The callbacks in parts\<close>

text \<open>\<^verbatim>\<open>app::on_connect_frame_callback\<close> up to the return of \<^verbatim>\<open>connect\<close>, and after it.\<close>

definition connect_dial ::
  "('j, 'g) client_env \<Rightarrow> connect_results \<Rightarrow> 'g callback" where
  "connect_dial E r data a =
     (let (host, port) = split_colon (c_str (ce_as_char E data)) in
      (case atoi (c_str port) of
         None \<Rightarrow> Inl Ce_undefined
       | Some p \<Rightarrow>
           (case tc_connect r host (word_of_int p) (ca_tcp a) of
              None \<Rightarrow> Inl Ce_terminate
            | Some (c, calls) \<Rightarrow> Inr (a\<lparr>ca_tcp := c, ca_calls := ca_calls a @ calls\<rparr>))))"

definition connect_greet ::
  "('j, 'g) client_env \<Rightarrow> u64 \<Rightarrow> 'g client_app \<Rightarrow> client_error + 'g client_app" where
  "connect_greet E n a =
     (if cb_status (ca_tcp a) \<noteq> Cl_connected then
        Inr (output_handler On_connect Ui_failed ''Connect to server failed.'' [] a)
      else
        let a = a\<lparr>ca_id := n\<rparr>;
            request = tuple_default client_hello_request;
            request = set_string ''command'' cmd_hello request;
            request = set_u64 ''id'' (ca_id a) request
        in (case packer_to (ce_json E) request of
              Inl e \<Rightarrow> Inl (Ce_json e)
            | Inr buff \<Rightarrow>
                let (ret, a) = app_send E cmd_hello buff a in
                Inr (if ret then output_handler On_connect Ui_pending ''Connect...'' [] a
                     else output_handler On_connect Ui_failed ''Connect failed.'' [] a)))"

lemma connect_parts:
  "on_connect_frame_callback E r n data a =
    (case connect_dial E r data a of Inl e \<Rightarrow> Inl e | Inr a \<Rightarrow> connect_greet E n a)"
  by (auto simp: on_connect_frame_callback_def connect_dial_def connect_greet_def Let_def
      split: prod.split option.split sum.split)

text \<open>\<^verbatim>\<open>client::disconnect\<close> of a connected client, in its four parts, and what the callback does
  after it.\<close>

definition app_call :: "syscall \<Rightarrow> 'g client_app \<Rightarrow> 'g client_app" where
  "app_call s a = a\<lparr>ca_calls := ca_calls a @ [s]\<rparr>"

definition disc_shutdown :: "'g client_app \<Rightarrow> 'g client_app" where
  "disc_shutdown a = app_call (Sys_shutdown (cb_socket (ca_tcp a))) a"

definition disc_close :: "'g client_app \<Rightarrow> 'g client_app" where
  "disc_close a = app_call (Sys_closesocket (cb_socket (ca_tcp a))) a"

definition disc_status :: "'g client_app \<Rightarrow> 'g client_app" where
  "disc_status a = a\<lparr>ca_tcp := (ca_tcp a)\<lparr>cb_status := Cl_disconnected\<rparr>\<rparr>"

definition disc_join :: "'g client_app \<Rightarrow> client_error + 'g client_app" where
  "disc_join a =
     (case tc_join (ca_tcp a) of
        None \<Rightarrow> Inl Ce_terminate
      | Some c \<Rightarrow>
          let a = a\<lparr>ca_tcp := c\<rparr> in
          Inr (if cb_status c = Cl_disconnected
               then output_handler On_disconnect Ui_success ''Disconnected.'' [] a
               else output_handler On_disconnect Ui_failed ''Disconnection from server failed.'' [] a))"

lemma disconnect_parts:
  "cb_status (ca_tcp a) = Cl_connected \<Longrightarrow>
    on_disconnect_frame_callback E data a = disc_join (disc_status (disc_close (disc_shutdown a)))"
  by (simp add: on_disconnect_frame_callback_def disc_join_def disc_status_def disc_close_def
      disc_shutdown_def app_call_def tc_disconnect_def tc_join_def Let_def) (cases a; simp)

section \<open>State\<close>

datatype window_pc = W_idle | W_dialed | W_shut | W_closed | W_joining

datatype reader_pc =
    R_none | R_start | R_check | R_recv | R_body buffer_t | R_dispatch buffer_t buffer_t | R_end

text \<open>
  \<open>cy_cid\<close> is the local \<^verbatim>\<open>_client_id\<close> of the thread.  \<open>cy_heard\<close> is no variable of the code: it
  lists the packets handed to the dispatcher.
\<close>

record 'g client_sys =
  cy_app :: "'g client_app"
  cy_window :: window_pc
  cy_reader :: reader_pc
  cy_cid :: u64
  cy_heard :: "(buffer_t \<times> buffer_t) list"

definition cy_start :: "'g client_app \<Rightarrow> 'g client_sys" where
  "cy_start a = \<lparr>cy_app = a, cy_window = W_idle, cy_reader = R_none, cy_cid = 0, cy_heard = []\<rparr>"

section \<open>Steps of the window\<close>

datatype window_label =
    W_click connect_results u64 widget | W_greet u64 | W_close | W_status | W_join

definition win_set ::
  "window_pc \<Rightarrow> client_error + 'g client_app \<Rightarrow> 'g client_sys \<Rightarrow> (client_error + 'g client_sys) option" where
  "win_set pc r st =
     Some (case r of Inl e \<Rightarrow> Inl e | Inr a \<Rightarrow> Inr (st\<lparr>cy_app := a, cy_window := pc\<rparr>))"

text \<open>A click runs the window's handler and the callback, up to the first point of
  interference.  A thread that \<^verbatim>\<open>connect\<close> made is at its start.\<close>

definition win_click ::
  "('j, 'g) client_env \<Rightarrow> connect_results \<Rightarrow> u64 \<Rightarrow> widget \<Rightarrow> 'g client_sys \<Rightarrow>
   (client_error + 'g client_sys) option" where
  "win_click E r n w st =
     (case clicked (ce_wx E) w (ca_gui (cy_app st)) of (g, cb) \<Rightarrow>
        let a = (cy_app st)\<lparr>ca_gui := g\<rparr> in
        (case cb of
           None \<Rightarrow> win_set W_idle (Inr a) st
         | Some (act, data) \<Rightarrow>
             if act = On_connect then
               (case connect_dial E r data a of
                  Inl e \<Rightarrow> Some (Inl e)
                | Inr a' \<Rightarrow>
                    win_set W_dialed (Inr a')
                      (if tc_joinable (ca_tcp a') \<and> \<not> tc_joinable (ca_tcp a)
                       then st\<lparr>cy_reader := R_start\<rparr> else st))
             else if act = On_disconnect \<and> cb_status (ca_tcp a) = Cl_connected then
               win_set W_shut (Inr (disc_shutdown a)) st
             else
               (case input_callbacks E r n act of
                  None \<Rightarrow> win_set W_idle (Inr a) st
                | Some cb \<Rightarrow> win_set W_idle (cb data a) st)))"

fun win_exec ::
  "('j, 'g) client_env \<Rightarrow> window_label \<Rightarrow> 'g client_sys \<Rightarrow> (client_error + 'g client_sys) option" where
  "win_exec E (W_click r n w) st = (if cy_window st = W_idle then win_click E r n w st else None)"
| "win_exec E (W_greet n) st =
     (if cy_window st = W_dialed then win_set W_idle (connect_greet E n (cy_app st)) st else None)"
| "win_exec E W_close st =
     (if cy_window st = W_shut then win_set W_closed (Inr (disc_close (cy_app st))) st else None)"
| "win_exec E W_status st =
     (if cy_window st = W_closed then win_set W_joining (Inr (disc_status (cy_app st))) st else None)"
| "win_exec E W_join st =
     (if cy_window st = W_joining \<and> cy_reader st = R_end
      then win_set W_idle (disc_join (cy_app st)) (st\<lparr>cy_reader := R_none\<rparr>) else None)"

section \<open>Steps of the receiving thread\<close>

datatype reader_label =
    Rd_start | Rd_check | Rd_header buffer_t recv_result | Rd_body recv_result | Rd_dispatch

fun answer_fits :: "nat \<Rightarrow> recv_result \<Rightarrow> bool" where
  "answer_fits n (Received bs) \<longleftrightarrow> length bs \<le> n"
| "answer_fits n (Recv_error w so io) \<longleftrightarrow> True"

text \<open>
  The first \<^verbatim>\<open>::recv\<close> of \<^verbatim>\<open>client::recv\<close>, into the uninitialised header \<open>junk\<close>: the end of the
  stream and a size of zero end the iteration, an error does not.
\<close>

definition header_step :: "buffer_t \<Rightarrow> recv_result \<Rightarrow> reader_pc" where
  "header_step junk r =
     (let hdr = (case r of Received bs \<Rightarrow> blit junk 0 bs | Recv_error w so io \<Rightarrow> junk) in
      if r = Received [] \<or> unat (ph_size (header_packet hdr)) = 0 then R_check else R_body hdr)"

text \<open>The second \<^verbatim>\<open>::recv\<close>, into the buffer of the announced size.\<close>

definition body_step :: "buffer_t \<Rightarrow> recv_result \<Rightarrow> reader_pc" where
  "body_step hdr r =
     (case r of
        Received bs \<Rightarrow> R_dispatch hdr (blit (resize (unat (ph_size (header_packet hdr))) []) 0 bs)
      | Recv_error w so io \<Rightarrow> R_check)"

definition reader_goto :: "reader_pc \<Rightarrow> 'g client_sys \<Rightarrow> (client_error + 'g client_sys) option" where
  "reader_goto pc st = Some (Inr (st\<lparr>cy_reader := pc\<rparr>))"

text \<open>The dispatch, with the cookie of the thread; its result is dropped.\<close>

definition packet_step ::
  "('j, 'g) client_env \<Rightarrow> u64 \<Rightarrow> buffer_t \<Rightarrow> buffer_t \<Rightarrow> 'g client_app \<Rightarrow> client_error + 'g client_app" where
  "packet_step E cid hdr body a =
     (case c_string (ph_type (header_packet hdr)) of
        None \<Rightarrow> Inl Ce_undefined
      | Some cmd \<Rightarrow> Inr (fst (snd (client_dispatch E a cmd cid body []))))"

fun reader_exec ::
  "('j, 'g) client_env \<Rightarrow> reader_label \<Rightarrow> 'g client_sys \<Rightarrow> (client_error + 'g client_sys) option" where
  "reader_exec E Rd_start st =
     (if cy_reader st = R_start
      then reader_goto R_check (st\<lparr>cy_cid := cb_socket (ca_tcp (cy_app st))\<rparr>) else None)"
| "reader_exec E Rd_check st =
     (if cy_reader st = R_check
      then reader_goto (if cb_status (ca_tcp (cy_app st)) = Cl_connected then R_recv else R_end) st
      else None)"
| "reader_exec E (Rd_header junk r) st =
     (if cy_reader st = R_recv \<and> length junk = sizeof_header \<and> answer_fits sizeof_header r
      then reader_goto (header_step junk r) st else None)"
| "reader_exec E (Rd_body r) st =
     (case cy_reader st of
        R_body hdr \<Rightarrow>
          if answer_fits (unat (ph_size (header_packet hdr))) r
          then reader_goto (body_step hdr r) st else None
      | _ \<Rightarrow> None)"
| "reader_exec E Rd_dispatch st =
     (case cy_reader st of
        R_dispatch hdr body \<Rightarrow>
          (case packet_step E (cy_cid st) hdr body (cy_app st) of
             Inl e \<Rightarrow> Some (Inl e)
           | Inr a \<Rightarrow>
               reader_goto R_check (st\<lparr>cy_app := a, cy_heard := cy_heard st @ [(hdr, body)]\<rparr>))
      | _ \<Rightarrow> None)"

text \<open>The two calls in a row are \<^verbatim>\<open>client::recv\<close>.\<close>

lemma recv_in_steps:
  "client_recv rcv junk [] conn = (True, hdr, body, conn') \<longleftrightarrow>
    (\<exists>r1 c1 r2. rcv sizeof_header conn = (r1, c1) \<and> header_step junk r1 = R_body hdr \<and>
       rcv (unat (ph_size (header_packet hdr))) c1 = (r2, conn') \<and> body_step hdr r2 = R_dispatch hdr body)"
proof -
  obtain r1 c1 where 1: "rcv sizeof_header conn = (r1, c1)" by fastforce
  define h where "h = (case r1 of Received bs \<Rightarrow> blit junk 0 bs | Recv_error w so io \<Rightarrow> junk)"
  define n where "n = unat (ph_size (header_packet h))"
  obtain r2 c2 where 2: "rcv n c1 = (r2, c2)" by fastforce
  have body: "recv_body rcv h [] c1 = (True, body, conn') \<longleftrightarrow>
      n \<noteq> 0 \<and> conn' = c2 \<and> body_step h r2 = R_dispatch h body"
    using 2 by (cases r2) (auto simp: recv_body_def body_step_def n_def Let_def)
  have "client_recv rcv junk [] conn = (True, hdr, body, conn') \<longleftrightarrow>
      r1 \<noteq> Received [] \<and> hdr = h \<and> recv_body rcv h [] c1 = (True, body, conn')"
    using 1 by (cases r1) (auto simp: client_recv_def h_def Let_def split: prod.splits)
  moreover have "header_step junk r1 = R_body hdr \<longleftrightarrow> r1 \<noteq> Received [] \<and> n \<noteq> 0 \<and> hdr = h"
    by (auto simp: header_step_def h_def [symmetric] n_def Let_def)
  ultimately show ?thesis using 1 2 body by (auto simp: n_def)
qed

section \<open>Runs\<close>

datatype client_label = Window window_label | Reader reader_label

fun cy_exec ::
  "('j, 'g) client_env \<Rightarrow> client_label \<Rightarrow> 'g client_sys \<Rightarrow> (client_error + 'g client_sys) option" where
  "cy_exec E (Window l) st = win_exec E l st"
| "cy_exec E (Reader l) st = reader_exec E l st"

primrec cy_run ::
  "('j, 'g) client_env \<Rightarrow> client_label list \<Rightarrow> 'g client_sys \<Rightarrow> (client_error + 'g client_sys) option" where
  "cy_run E [] st = Some (Inr st)"
| "cy_run E (l # ls) st =
     (case cy_exec E l st of
        None \<Rightarrow> None
      | Some (Inl e) \<Rightarrow> if ls = [] then Some (Inl e) else None
      | Some (Inr st) \<Rightarrow> cy_run E ls st)"


section \<open>The sequential client\<close>

text \<open>
  The client with every callback and every packet in one piece: looking at the window for a
  click, a callback, a packet.
\<close>

datatype client_act =
    Ac_look widget | Ac_call connect_results u64 ui_action string | Ac_packet buffer_t buffer_t

fun act_step ::
  "('j, 'g) client_env \<Rightarrow> client_act \<Rightarrow> 'g client_app \<Rightarrow> client_error + 'g client_app" where
  "act_step E (Ac_look w) a = Inr (a\<lparr>ca_gui := fst (clicked (ce_wx E) w (ca_gui a))\<rparr>)"
| "act_step E (Ac_call r n act data) a =
     (case input_callbacks E r n act of None \<Rightarrow> Inr a | Some cb \<Rightarrow> cb data a)"
| "act_step E (Ac_packet hdr body) a = packet_step E (cb_socket (ca_tcp a)) hdr body a"

primrec client_acts ::
  "('j, 'g) client_env \<Rightarrow> client_act list \<Rightarrow> 'g client_app \<Rightarrow> client_error + 'g client_app" where
  "client_acts E [] a = Inr a"
| "client_acts E (x # xs) a =
     (case act_step E x a of Inl e \<Rightarrow> Inl e | Inr a \<Rightarrow> client_acts E xs a)"

fun act_packets :: "client_act list \<Rightarrow> (buffer_t \<times> buffer_t) list" where
  "act_packets [] = []"
| "act_packets (Ac_packet hdr body # xs) = (hdr, body) # act_packets xs"
| "act_packets (_ # xs) = act_packets xs"

lemma client_acts_append:
  "client_acts E (xs @ ys) a =
    (case client_acts E xs a of Inl e \<Rightarrow> Inl e | Inr a \<Rightarrow> client_acts E ys a)"
  by (induction xs arbitrary: a) (auto split: sum.split)

lemma act_packets_append [simp]: "act_packets (xs @ ys) = act_packets xs @ act_packets ys"
  by (induction xs rule: act_packets.induct) simp_all

section \<open>A handler does not see the connection\<close>

text \<open>
  The handlers read and write the window and the session, not the connection, the calls made
  or the client id, and none looks at its cookie.
\<close>

definition set_conn :: "tcp_client \<Rightarrow> syscall list \<Rightarrow> u64 \<Rightarrow> 'g client_app \<Rightarrow> 'g client_app" where
  "set_conn c calls n a = a\<lparr>ca_tcp := c, ca_calls := calls, ca_id := n\<rparr>"

lemma set_conn_sel [simp]:
  "ca_tcp (set_conn c calls n a) = c" "ca_calls (set_conn c calls n a) = calls"
  "ca_id (set_conn c calls n a) = n" "ca_gui (set_conn c calls n a) = ca_gui a"
  "ca_session (set_conn c calls n a) = ca_session a" "ca_login (set_conn c calls n a) = ca_login a"
  "ca_outputs (set_conn c calls n a) = ca_outputs a"
  by (simp_all add: set_conn_def)

lemma set_conn_self: "set_conn (ca_tcp a) (ca_calls a) (ca_id a) a = a"
  by (simp add: set_conn_def)

lemma output_set_conn:
  "output_handler act st m d (set_conn c calls n a) = set_conn c calls n (output_handler act st m d a)"
  by (cases a) (simp add: output_handler_def set_conn_def split: option.split)

lemma session_set_conn:
  "(set_conn c calls n a)\<lparr>ca_session := s\<rparr> = set_conn c calls n (a\<lparr>ca_session := s\<rparr>)"
  by (cases a) (simp add: set_conn_def)

definition keeps_conn :: "'g client_app wrapper \<Rightarrow> bool" where
  "keeps_conn w \<longleftrightarrow> (\<forall>a c calls n cmd ck ck' inp out.
     fst (snd (w (set_conn c calls n a) cmd ck inp out)) =
     set_conn c calls n (fst (snd (w a cmd ck' inp out))))"

lemma keeps_conn_wrapper2:
  assumes "\<And>a c calls n ck ck' req. h (set_conn c calls n a) ck req =
    (case h a ck' req of (oc, a) \<Rightarrow> (oc, set_conn c calls n a))"
  shows "keeps_conn (wrapper2 J t h)"
  unfolding keeps_conn_def
proof (intro allI)
  fix a c calls n cmd inp out and ck ck' :: u64
  show "fst (snd (wrapper2 J t h (set_conn c calls n a) cmd ck inp out)) =
    set_conn c calls n (fst (snd (wrapper2 J t h a cmd ck' inp out)))"
    by (simp add: wrapper2_def assms [of c calls n a ck _ ck'] split: sum.split prod.split)
qed

lemma keeps_conn_wrapper3:
  assumes "\<And>a c calls n ck req resp. \<exists>resp'. h (set_conn c calls n a) ck req resp =
    (Returned, set_conn c calls n (f a req), resp')"
    and "\<And>a ck req resp. \<exists>resp'. h a ck req resp = (Returned, f a req, resp')"
  shows "keeps_conn (wrapper3 J t t' h)"
  unfolding keeps_conn_def
proof (intro allI)
  fix a c calls n cmd inp out and ck ck' :: u64
  have state: "fst (snd (wrapper3 J t t' h a cmd ck inp out)) =
      (case packer_from J t inp of Inl e \<Rightarrow> a | Inr req \<Rightarrow> f a req)" for a cmd ck inp out
  proof (cases "packer_from J t inp")
    case (Inr req)
    obtain resp' where "h a ck req (tuple_default t') = (Returned, f a req, resp')"
      using assms(2) by blast
    with Inr show ?thesis by (simp add: wrapper3_def Let_def split: sum.split)
  qed (simp add: wrapper3_def)
  have "f (set_conn c calls n a) req = set_conn c calls n (f a req)" for req
    using assms(1) [of c calls n a ck req "[]"] assms(2) [of "set_conn c calls n a" ck req "[]"] by auto
  then show "fst (snd (wrapper3 J t t' h (set_conn c calls n a) cmd ck inp out)) =
    set_conn c calls n (fst (snd (wrapper3 J t t' h a cmd ck' inp out)))"
    by (simp add: state split: sum.split)
qed

lemma client_handlers_keep_conn: "w \<in> snd ` set (client_handlers E) \<Longrightarrow> keeps_conn w"
  by (auto simp: client_handlers_def Let_def server_message_reply_packet_handler_def
      server_hello_reply_packet_handler_def server_auth_reply_packet_handler_def
      server_bye_reply_packet_handler_def server_ping_reply_packet_handler_def
      server_message_packet_handler_def output_set_conn session_set_conn
      intro!: keeps_conn_wrapper2
        keeps_conn_wrapper3 [where f = "\<lambda>a req. output_handler On_recv Ui_success
          (ce_wx_string E (get_string req ''sender_login'')) (ce_wx_string E (get_string req ''body'')) a"])

lemma dispatch_set_conn:
  "fst (snd (client_dispatch E (set_conn c calls n a) cmd ck inp out)) =
    set_conn c calls n (fst (snd (client_dispatch E a cmd ck' inp out)))"
proof (cases "handler_table (ce_hash E) (client_handlers E) (ce_hash E cmd)")
  case (Some w)
  then have "w \<in> snd ` set (client_handlers E)"
    by (auto simp: handler_table_def dest!: map_of_SomeD)
  then have "keeps_conn w" by (rule client_handlers_keep_conn)
  then have "fst (snd (w (set_conn c calls n a) cmd ck inp out)) =
      set_conn c calls n (fst (snd (w a cmd ck' inp out)))"
    by (simp only: keeps_conn_def)
  moreover have "fst (snd (client_dispatch E b cmd k inp out)) = fst (snd (w b cmd k inp out))" for b k
    using Some by (simp add: client_dispatch_def dispatch_def split: prod.split outcome.split)
  ultimately show ?thesis by simp
qed (simp add: client_dispatch_def dispatch_def)

lemma packet_set_conn:
  "packet_step E cid hdr body (set_conn c calls n a) =
    map_sum id (set_conn c calls n) (packet_step E cid' hdr body a)"
  by (simp add: packet_step_def dispatch_set_conn [of E c calls n a _ cid body "[]" cid'] split: option.split)

lemma packet_keeps:
  assumes "packet_step E cid hdr body a = Inr b"
  shows "ca_tcp b = ca_tcp a" "ca_calls b = ca_calls a" "ca_id b = ca_id a"
proof -
  have "b = set_conn (ca_tcp a) (ca_calls a) (ca_id a) b"
    using packet_set_conn [of E cid hdr body "ca_tcp a" "ca_calls a" "ca_id a" a cid] assms
    by (simp add: set_conn_self)
  then show "ca_tcp b = ca_tcp a" "ca_calls b = ca_calls a" "ca_id b = ca_id a"
    by (metis set_conn_sel(1), metis set_conn_sel(2), metis set_conn_sel(3))
qed


section \<open>Simulation\<close>

text \<open>
  How the client looks while the window's thread is inside a callback, over the client \<open>b\<close> the
  callback started from, with the packets that came since.
\<close>

fun pending :: "('j, 'g) client_env \<Rightarrow> window_pc \<Rightarrow> 'g client_app \<Rightarrow> 'g client_app \<Rightarrow> bool" where
  "pending E W_idle b a \<longleftrightarrow> a = b"
| "pending E W_dialed b a \<longleftrightarrow> (\<exists>r data. connect_dial E r data b = Inr a)"
| "pending E W_shut b a \<longleftrightarrow> cb_status (ca_tcp b) = Cl_connected \<and> a = disc_shutdown b"
| "pending E W_closed b a \<longleftrightarrow>
     cb_status (ca_tcp b) = Cl_connected \<and> a = disc_close (disc_shutdown b)"
| "pending E W_joining b a \<longleftrightarrow>
     cb_status (ca_tcp b) = Cl_connected \<and> a = disc_status (disc_close (disc_shutdown b))"

definition cy_sim :: "('j, 'g) client_env \<Rightarrow> 'g client_app \<Rightarrow> 'g client_sys \<Rightarrow> bool" where
  "cy_sim E b st \<longleftrightarrow>
     pending E (cy_window st) b (cy_app st) \<and> tc_inv (ca_tcp b) \<and>
     (cy_reader st = R_none \<longleftrightarrow> \<not> tc_joinable (ca_tcp (cy_app st))) \<and>
     (cy_reader st \<notin> {R_none, R_start} \<longrightarrow> cy_cid st = cb_socket (ca_tcp (cy_app st)))"

lemmas disc_defs = disc_shutdown_def disc_close_def disc_status_def app_call_def

lemma dial_result:
  "connect_dial E r data b = Inr a \<longleftrightarrow>
    (\<exists>host port p c calls. split_colon (c_str (ce_as_char E data)) = (host, port) \<and> atoi (c_str port) = Some p \<and>
       tc_connect r host (word_of_int p) (ca_tcp b) = Some (c, calls) \<and>
       a = set_conn c (ca_calls b @ calls) (ca_id b) b)"
  by (cases b) (auto simp: connect_dial_def set_conn_def split: prod.splits option.splits)

lemma dial_set_conn:
  "connect_dial E r data (set_conn (ca_tcp b) (ca_calls b) (ca_id b) d) =
    map_sum id (\<lambda>a. set_conn (ca_tcp a) (ca_calls a) (ca_id a) d) (connect_dial E r data b)"
  by (cases d, cases b)
    (auto simp: connect_dial_def set_conn_def split: prod.splits option.splits)

lemma pending_form:
  "pending E pc b a \<Longrightarrow> a = set_conn (ca_tcp a) (ca_calls a) (ca_id a) b \<and> ca_id a = ca_id b"
  by (cases pc; cases b) (auto simp: disc_defs dial_result set_conn_def)

lemma pending_moves:
  assumes "pending E pc b a"
  shows "pending E pc (set_conn (ca_tcp b) (ca_calls b) (ca_id b) d)
    (set_conn (ca_tcp a) (ca_calls a) (ca_id a) d)"
proof (cases pc)
  case W_dialed
  with assms obtain r data where "connect_dial E r data b = Inr a" by auto
  then show ?thesis
    using W_dialed dial_set_conn [of E r data b d] by auto
qed (use assms in \<open>auto simp: disc_defs set_conn_def\<close>)

lemma pending_packet:
  assumes p: "pending E pc b a" and s: "packet_step E cid hdr body a = r"
  shows "case r of Inl e \<Rightarrow> packet_step E cid' hdr body b = Inl e
    | Inr a' \<Rightarrow> \<exists>b'. packet_step E cid' hdr body b = Inr b' \<and> pending E pc b' a' \<and>
        ca_tcp b' = ca_tcp b \<and> ca_tcp a' = ca_tcp a"
proof -
  let ?f = "set_conn (ca_tcp a) (ca_calls a) (ca_id a)"
  have r: "r = map_sum id ?f (packet_step E cid' hdr body b)"
    using conjunct1 [OF pending_form [OF p]] s
      packet_set_conn [of E cid hdr body "ca_tcp a" "ca_calls a" "ca_id a" b cid'] by metis
  show ?thesis
  proof (cases "packet_step E cid' hdr body b")
    case (Inr b')
    have "pending E pc b' (?f b')"
      using pending_moves [OF p, of b'] set_conn_self [of b'] packet_keeps [OF Inr] by metis
    then show ?thesis using r Inr packet_keeps(1) [OF Inr] by simp
  qed (simp add: r)
qed

lemma connect_keeps_joined:
  "tc_inv c \<Longrightarrow> tc_connect r host port c = Some (c', calls) \<Longrightarrow>
    tc_inv c' \<and> (tc_joinable c \<longrightarrow> c' = c)"
  by (auto simp: tc_connect_def tc_inv_def tc_start_thread_def Let_def split: if_splits)

text \<open>A callback that is one step leaves the connection alone.\<close>

lemma output_handler_conn [simp]:
  "ca_tcp (output_handler act st m d a) = ca_tcp a"
  by (simp add: output_handler_def split: option.split)

lemma app_send_conn: "app_send E cmd buff a = (ret, a') \<Longrightarrow> ca_tcp a' = ca_tcp a"
  by (auto simp: app_send_def split: prod.splits)

lemma send_tail_conn:
  "(case packer_to J req of Inl e \<Rightarrow> Inl (f e)
    | Inr buff \<Rightarrow> let (ret, a) = app_send E cmd buff a in
        Inr (if ret then output_handler k1 s1 m1 d1 a else output_handler k2 s2 m2 d2 a)) = Inr a' \<Longrightarrow>
    ca_tcp a' = ca_tcp a"
  by (auto simp: app_send_conn split: sum.splits prod.splits if_splits)

lemma greet_conn: "connect_greet E n a = Inr a' \<Longrightarrow> ca_tcp a' = ca_tcp a"
  by (auto simp: connect_greet_def Let_def app_send_conn split: sum.splits prod.splits if_splits)

lemma callback_conn:
  assumes "act \<noteq> On_connect" "act = On_disconnect \<longrightarrow> cb_status (ca_tcp a) \<noteq> Cl_connected"
    and "input_callbacks E r n act = Some cb" "cb data a = Inr a'"
  shows "ca_tcp a' = ca_tcp a"
proof (cases act)
  case On_disconnect
  then show ?thesis
    using assms by (auto simp: input_callbacks_def on_disconnect_frame_callback_def tc_disconnect_def Let_def
        split: if_splits)
qed (use assms in \<open>auto simp: input_callbacks_def on_login_frame_callback_def on_logout_frame_callback_def
    on_send_frame_callback_def Let_def app_send_conn split: sum.splits prod.splits if_splits\<close>)


text \<open>What a step of the threads is for the sequential client: nothing, or a few of its acts.\<close>

definition simulates ::
  "('j, 'g) client_env \<Rightarrow> 'g client_app \<Rightarrow> 'g client_sys \<Rightarrow> client_error + 'g client_sys \<Rightarrow> bool" where
  "simulates E b st r \<longleftrightarrow>
     (case r of
        Inl e \<Rightarrow> \<exists>xs. client_acts E xs b = Inl e
      | Inr st' \<Rightarrow> \<exists>xs b'. client_acts E xs b = Inr b' \<and> cy_sim E b' st' \<and>
          cy_heard st' = cy_heard st @ act_packets xs)"

lemma simulates_acts:
  "client_acts E xs b = Inr b' \<Longrightarrow> cy_sim E b' st' \<Longrightarrow> cy_heard st' = cy_heard st @ act_packets xs \<Longrightarrow>
    simulates E b st (Inr st')"
  by (auto simp: simulates_def)

lemma simulates_fails: "client_acts E xs b = Inl e \<Longrightarrow> simulates E b st (Inl e)"
  by (auto simp: simulates_def)

lemmas simulates_stays = simulates_acts [where xs = "[]", simplified]

lemma reader_simulates:
  assumes sim: "cy_sim E b st" and step: "reader_exec E l st = Some r"
  shows "simulates E b st r"
proof (cases l)
  case Rd_dispatch
  then obtain hdr body where pc: "cy_reader st = R_dispatch hdr body"
    using step by (cases "cy_reader st") simp_all
  have p: "pending E (cy_window st) b (cy_app st)" using sim by (simp add: cy_sim_def)
  let ?r = "packet_step E (cy_cid st) hdr body (cy_app st)"
  note moved = pending_packet [OF p refl, where cid = "cy_cid st" and hdr = hdr and body = body
      and cid' = "cb_socket (ca_tcp b)"]
  show ?thesis
  proof (cases ?r)
    case (Inl e)
    then show ?thesis
      using moved step Rd_dispatch pc simulates_fails [of E "[Ac_packet hdr body]" b e] by simp
  next
    case (Inr a')
    then obtain b' where b': "packet_step E (cb_socket (ca_tcp b)) hdr body b = Inr b'"
      "pending E (cy_window st) b' a'" "ca_tcp b' = ca_tcp b" "ca_tcp a' = ca_tcp (cy_app st)"
      using moved by auto
    then show ?thesis
      using sim step Rd_dispatch pc Inr
      by (auto simp: cy_sim_def reader_goto_def intro!: simulates_acts [of E "[Ac_packet hdr body]" b b'])
  qed
qed (use sim step in \<open>auto simp: cy_sim_def reader_goto_def header_step_def body_step_def Let_def
    split: if_splits reader_pc.splits recv_result.splits intro!: simulates_stays\<close>)

lemma click_simulates:
  assumes sim: "cy_sim E b st" and idle: "cy_window st = W_idle" and step: "win_click E rs n w st = Some r"
  shows "simulates E b st r"
proof -
  have b: "cy_app st = b" and inv: "tc_inv (ca_tcp b)" using sim idle by (simp_all add: cy_sim_def)
  obtain g cb where c: "clicked (ce_wx E) w (ca_gui b) = (g, cb)" by fastforce
  let ?b = "b\<lparr>ca_gui := g\<rparr>"
  have look: "act_step E (Ac_look w) b = Inr ?b" using c by simp
  have only_look: "simulates E b st (Inr (st'))"
    if "pending E (cy_window st') ?b (cy_app st')" "ca_tcp (cy_app st') = ca_tcp b"
      "cy_reader st' = cy_reader st" "cy_cid st' = cy_cid st" "cy_heard st' = cy_heard st" for st'
    using that sim b by (intro simulates_acts [of E "[Ac_look w]" b ?b]) (simp_all add: c cy_sim_def)
  show ?thesis
  proof (cases cb)
    case None
    then have "r = Inr (st\<lparr>cy_app := ?b, cy_window := W_idle\<rparr>)"
      using step c by (simp add: b win_click_def win_set_def)
    then show ?thesis by (auto intro!: only_look)
  next
    case (Some ad)
    then obtain act data where cb: "cb = Some (act, data)" by (cases ad) simp
    let ?call = "act_step E (Ac_call rs n act data) ?b"
    consider "act = On_connect" | "act = On_disconnect" "cb_status (ca_tcp b) = Cl_connected"
      | "act \<noteq> On_connect" "act = On_disconnect \<longrightarrow> cb_status (ca_tcp b) \<noteq> Cl_connected" by blast
    then show ?thesis
    proof cases
      case 1
      show ?thesis
      proof (cases "connect_dial E rs data ?b")
        case (Inl e)
        then have "r = Inl e" using step c cb 1 by (simp add: b win_click_def)
        then show ?thesis
          using c Inl by (auto simp: input_callbacks_def connect_parts
              intro!: simulates_fails [of E "[Ac_look w, Ac_call rs n On_connect data]"])
      next
        case (Inr a')
        then obtain host p calls where t: "tc_connect rs host p (ca_tcp b) = Some (ca_tcp a', calls)"
          by (auto simp: dial_result)
        let ?pc = "if tc_joinable (ca_tcp a') \<and> \<not> tc_joinable (ca_tcp b) then R_start else cy_reader st"
        have r: "r = Inr (st\<lparr>cy_reader := ?pc, cy_app := a', cy_window := W_dialed\<rparr>)"
          using step c cb 1 Inr by (auto simp add: b win_click_def win_set_def split: if_splits)
        have "\<exists>r data. connect_dial E r data ?b = Inr a'" using Inr by blast
        then have "cy_sim E ?b (st\<lparr>cy_reader := ?pc, cy_app := a', cy_window := W_dialed\<rparr>)"
          using sim inv connect_keeps_joined [OF inv t] by (simp add: b cy_sim_def) metis
        then show ?thesis
          unfolding r by (rule simulates_acts [of E "[Ac_look w]" b ?b, rotated]) (simp_all add: c)
      qed
    next
      case 2
      then have "r = Inr (st\<lparr>cy_app := disc_shutdown ?b, cy_window := W_shut\<rparr>)"
        using step c cb by (simp add: b win_click_def win_set_def)
      then show ?thesis using 2 by (auto simp: disc_defs intro!: only_look)
    next
      case 3
      show ?thesis
      proof (cases "input_callbacks E rs n act")
        case None
        then have "r = Inr (st\<lparr>cy_app := ?b, cy_window := W_idle\<rparr>)"
          using step c cb 3
          by (cases "act = On_disconnect") (simp_all add: b win_click_def win_set_def Let_def)
        then show ?thesis by (auto intro!: only_look)
      next
        case f: (Some f)
        show ?thesis
        proof (cases "f data ?b")
          case (Inl e)
          then have "r = Inl e" using step c cb 3 f
            by (cases "act = On_disconnect") (simp_all add: b win_click_def win_set_def Let_def)
          then show ?thesis
            using c f Inl by (auto intro!: simulates_fails [of E "[Ac_look w, Ac_call rs n act data]"])
        next
          case (Inr a')
          have "ca_tcp a' = ca_tcp b" using callback_conn [OF 3(1) _ f Inr] 3(2) by simp
          moreover have "r = Inr (st\<lparr>cy_app := a', cy_window := W_idle\<rparr>)"
            using step c cb 3 f Inr
            by (cases "act = On_disconnect") (simp_all add: b win_click_def win_set_def Let_def)
          moreover have "cy_sim E a' (st\<lparr>cy_app := a', cy_window := W_idle\<rparr>)"
            using sim calculation(1) by (simp add: b cy_sim_def)
          ultimately show ?thesis
            using c f Inr
            by (auto intro!: simulates_acts [of E "[Ac_look w, Ac_call rs n act data]" b a'])
        qed
      qed
    qed
  qed
qed

lemma window_simulates:
  assumes sim: "cy_sim E b st" and step: "win_exec E l st = Some r"
  shows "simulates E b st r"
proof (cases l)
  case (W_click rs n w)
  then show ?thesis using click_simulates [OF sim] step by (simp split: if_splits)
next
  case (W_greet n)
  then have pc: "cy_window st = W_dialed" and r: "r = (case connect_greet E n (cy_app st) of
      Inl e \<Rightarrow> Inl e | Inr a \<Rightarrow> Inr (st\<lparr>cy_app := a, cy_window := W_idle\<rparr>))"
    using step by (auto simp: win_set_def split: if_splits)
  from sim pc obtain rs data where d: "connect_dial E rs data b = Inr (cy_app st)"
    by (auto simp: cy_sim_def)
  then have inv: "tc_inv (ca_tcp (cy_app st))"
    using sim connect_keeps_joined by (auto simp: dial_result cy_sim_def)
  have act: "client_acts E [Ac_call rs n On_connect data] b = connect_greet E n (cy_app st)"
    using d by (simp add: input_callbacks_def connect_parts split: sum.split)
  show ?thesis
  proof (cases "connect_greet E n (cy_app st)")
    case (Inl e)
    then show ?thesis using r simulates_fails [OF act [unfolded Inl]] by simp
  next
    case (Inr a')
    have "cy_sim E a' (st\<lparr>cy_app := a', cy_window := W_idle\<rparr>)"
      using sim inv greet_conn [OF Inr] by (simp add: cy_sim_def)
    then show ?thesis
      using r Inr simulates_acts [OF act [unfolded Inr]] by simp
  qed
next
  case W_join
  then have pc: "cy_window st = W_joining" "cy_reader st = R_end"
    and r: "r = (case disc_join (cy_app st) of Inl e \<Rightarrow> Inl e
      | Inr a \<Rightarrow> Inr (st\<lparr>cy_reader := R_none, cy_app := a, cy_window := W_idle\<rparr>))"
    using step by (auto simp: win_set_def split: if_splits)
  have con: "cb_status (ca_tcp b) = Cl_connected"
    and app: "cy_app st = disc_status (disc_close (disc_shutdown b))" and inv: "tc_inv (ca_tcp b)"
    using sim pc by (simp_all add: cy_sim_def)
  then have "client_acts E [Ac_call undefined 0 On_disconnect []] b = disc_join (cy_app st)"
    by (simp add: input_callbacks_def disconnect_parts split: sum.split)
  moreover obtain a' where "disc_join (cy_app st) = Inr a'" "tc_inv (ca_tcp a')" "\<not> tc_joinable (ca_tcp a')"
    using con inv by (auto simp: app disc_join_def disc_defs tc_join_def tc_inv_def Let_def)
  ultimately show ?thesis
    using r by (auto simp: cy_sim_def intro!: simulates_acts [of E "[Ac_call undefined 0 On_disconnect []]"])
qed (use sim step in \<open>auto simp: cy_sim_def win_set_def disc_defs split: if_splits intro!: simulates_stays\<close>)

lemma step_simulates: "cy_sim E b st \<Longrightarrow> cy_exec E l st = Some r \<Longrightarrow> simulates E b st r"
  by (cases l) (auto intro: window_simulates reader_simulates)

lemma run_simulates: "cy_sim E b st \<Longrightarrow> cy_run E ls st = Some r \<Longrightarrow> simulates E b st r"
proof (induction ls arbitrary: b st)
  case Nil
  then show ?case by (auto intro: simulates_stays)
next
  case (Cons l ls)
  show ?case
  proof (cases "cy_exec E l st")
    case (Some q)
    note first = step_simulates [OF Cons.prems(1) Some]
    show ?thesis
    proof (cases q)
      case (Inl e)
      then show ?thesis using Cons.prems(2) Some first by (auto split: if_splits)
    next
      case (Inr st1)
      then obtain xs b1 where one: "client_acts E xs b = Inr b1" "cy_sim E b1 st1"
        "cy_heard st1 = cy_heard st @ act_packets xs"
        using first by (auto simp: simulates_def)
      have "simulates E b1 st1 r" using Cons.IH [OF one(2)] Cons.prems(2) Some Inr by simp
      then show ?thesis
        using one by (cases r; clarsimp simp: simulates_def)
          (metis client_acts_append sum.case(2), metis client_acts_append sum.case(2) act_packets_append append.assoc)
    qed
  qed (use Cons.prems(2) in simp)
qed

lemma start_sim: "tc_inv (ca_tcp a) \<Longrightarrow> \<not> tc_joinable (ca_tcp a) \<Longrightarrow> cy_sim E a (cy_start a)"
  by (simp add: cy_sim_def cy_start_def)


section \<open>The invariant of the client survives the threads\<close>

context client_env_ok
begin

lemma act_good:
  assumes "client_inv E view a"
  shows "good (act_step E x a)"
proof (cases x)
  case (Ac_look w)
  then show ?thesis
    using assms clicked_view [of w "ca_gui a"] by (cases "clicked (ce_wx E) w (ca_gui a)") (simp add: client_inv_def)
next
  case (Ac_call r n act data)
  then show ?thesis
    using assms login_good logout_good connect_good disconnect_good send_callback_good
    by (auto simp: input_callbacks_def split: option.split)
next
  case (Ac_packet hdr body)
  then show ?thesis
    using client_dispatch_inv [OF assms] by (simp add: packet_step_def split: option.split)
qed

lemma acts_good: "client_inv E view a \<Longrightarrow> good (client_acts E xs a)"
proof (induction xs arbitrary: a)
  case (Cons x xs)
  show ?case
  proof (cases "act_step E x a")
    case (Inl e)
    then show ?thesis using act_good [OF Cons.prems, of x] by simp
  next
    case (Inr a')
    then have "client_inv E view a'" using act_good [OF Cons.prems, of x] by simp
    from Cons.IH [OF this] Inr show ?thesis by simp
  qed
qed simp

lemma main_start: "client_main E g s addr n = Inr (hs, a) \<Longrightarrow> cy_sim E a (cy_start a)"
  by (rule start_sim) (auto simp: client_main_def tc_inv_new tcp_client_new_def tc_inv_def split: sum.splits prod.splits)

lemma threads_good:
  assumes "client_main E g s addr n = Inr (hs, a)" "cy_run E ls (cy_start a) = Some r"
  shows "case r of Inl e \<Rightarrow> e \<noteq> Ce_terminate
    | Inr st \<Rightarrow> \<exists>b. client_inv E view b \<and> cy_sim E b st"
proof -
  have good: "good (client_acts E xs a)" for xs
    by (rule acts_good [OF client_main_inv [OF assms(1)]])
  have "simulates E a (cy_start a) r" by (rule run_simulates [OF main_start [OF assms(1)] assms(2)])
  then obtain xs where "case r of Inl e \<Rightarrow> client_acts E xs a = Inl e
      | Inr st \<Rightarrow> \<exists>b. client_acts E xs a = Inr b \<and> cy_sim E b st"
    by (cases r) (auto simp: simulates_def)
  then show ?thesis using good [of xs] by (cases r) (auto simp: good_def)
qed

end

section \<open>Waiting for the thread\<close>

text \<open>How many steps the thread has left once the status is not \<open>connected\<close>.\<close>

fun reader_rank :: "reader_pc \<Rightarrow> nat" where
  "reader_rank R_recv = 4"
| "reader_rank (R_body hdr) = 3"
| "reader_rank (R_dispatch hdr body) = 2"
| "reader_rank R_start = 2"
| "reader_rank R_check = 1"
| "reader_rank R_end = 0"
| "reader_rank R_none = 0"

definition joins :: "'g client_sys \<Rightarrow> bool" where
  "joins st \<longleftrightarrow> cy_window st = W_joining \<and> cb_status (ca_tcp (cy_app st)) = Cl_disconnected"

lemma joining_step:
  assumes "joins st" "l \<noteq> Window W_join" "cy_exec E l st = Some (Inr st')"
  shows "joins st' \<and> reader_rank (cy_reader st') < reader_rank (cy_reader st)"
proof (cases l)
  case (Window k)
  then show ?thesis using assms by (cases k) (simp_all add: joins_def)
next
  case (Reader k)
  then show ?thesis
    using assms
    by (cases k) (auto simp: joins_def reader_goto_def header_step_def body_step_def Let_def
        dest: packet_keeps(1) split: if_splits reader_pc.splits recv_result.splits sum.splits)
qed

lemma joining_run:
  "joins st \<Longrightarrow> Window W_join \<notin> set ls \<Longrightarrow> cy_run E ls st = Some r \<Longrightarrow>
    length ls \<le> Suc (reader_rank (cy_reader st)) \<and>
    (\<forall>st'. r = Inr st' \<longrightarrow> length ls \<le> reader_rank (cy_reader st) \<and> joins st')"
proof (induction ls arbitrary: st)
  case (Cons l ls)
  show ?case
  proof (cases "cy_exec E l st")
    case (Some q)
    show ?thesis
    proof (cases q)
      case (Inr st1)
      have "joins st1 \<and> reader_rank (cy_reader st1) < reader_rank (cy_reader st)"
        using joining_step [of st l E st1] Cons.prems Some Inr by auto
      then show ?thesis using Cons.IH [of st1] Cons.prems Some Inr by fastforce
    qed (use Cons.prems Some in \<open>auto split: if_splits\<close>)
  qed (use Cons.prems in simp)
qed auto

lemma reader_can_step:
  "cy_reader st \<notin> {R_none, R_end} \<Longrightarrow> \<exists>l q. cy_exec E (Reader l) st = Some q"
proof (cases "cy_reader st")
  case R_start
  then show ?thesis by (intro exI [of _ Rd_start]) (simp add: reader_goto_def)
next
  case R_check
  then show ?thesis by (intro exI [of _ Rd_check]) (simp add: reader_goto_def)
next
  case R_recv
  then show ?thesis
    by (intro exI [of _ "Rd_header (replicate sizeof_header NUL) (Recv_error undefined E_OK False)"])
      (simp add: reader_goto_def)
next
  case (R_body hdr)
  then show ?thesis by (intro exI [of _ "Rd_body (Recv_error undefined E_OK False)"]) (simp add: reader_goto_def)
next
  case (R_dispatch hdr body)
  then show ?thesis
    by (intro exI [of _ Rd_dispatch])
      (cases "packet_step E (cy_cid st) hdr body (cy_app st)", simp_all add: reader_goto_def)
qed simp_all


lemma cy_run_append:
  "cy_run E ls st = Some (Inr st1) \<Longrightarrow> cy_run E (ls @ ls') st = cy_run E ls' st1"
  by (induction ls arbitrary: st) (auto split: option.splits sum.splits if_splits)

section \<open>A run of both threads\<close>

abbreviation sample_results :: connect_results where
  "sample_results \<equiv> \<lparr>cr_socket = 8, cr_getaddrinfo = 0, cr_connect = 0\<rparr>"

abbreviation sample_session :: "client_label list" where
  "sample_session \<equiv> [Window (W_click sample_results 77 Connect_button), Reader Rd_start,
     Window (W_greet 77), Reader Rd_check]"

abbreviation sample_leave :: "client_label list" where
  "sample_leave \<equiv> [Window (W_click sample_results 78 Disconnect_button), Window W_close, Window W_status]"

lemma sample_click:
  "connect_clicked (ce_wx sample_cenv) (ca_gui sample_capp) =
    (ca_gui sample_capp, Some (On_connect, ''localhost:10500''))"
  by (simp add: sample_cenv_def sample_capp_def connect_clicked_def load_ui_def plain_wx_def Let_def)

lemma show_nat_10500: "show_nat 10500 = ''10500''"
  by (simp add: show_nat.simps digit_def char_of_def bit_simps)

lemma sample_connected:
  "\<exists>a1 a2. connect_dial sample_cenv sample_results ''localhost:10500'' sample_capp = Inr a1 \<and>
    connect_greet sample_cenv 77 a1 = Inr a2 \<and> cb_status (ca_tcp a2) = Cl_connected \<and>
    cb_socket (ca_tcp a2) = 8 \<and> tc_joinable (ca_tcp a2) \<and> ca_tcp a1 = ca_tcp a2"
proof -
  obtain buff c a where b: "cb_status c = Cl_connected" "cb_socket c = 8" "tc_joinable c"
    "on_connect_frame_callback sample_cenv sample_results 77 ''localhost:10500'' sample_capp =
      Inr (if sends sample_cenv cmd_hello buff a
           then output_handler On_connect Ui_pending ''Connect...'' [] (sent cmd_hello buff a)
           else output_handler On_connect Ui_failed ''Connect failed.'' [] (sent cmd_hello buff a))"
    and a: "a = sample_capp\<lparr>ca_tcp := c, ca_calls := ca_calls sample_capp @
      [Sys_socket, Sys_getaddrinfo ''localhost'' (show_nat (10500 mod 65536)), Sys_connect 8], ca_id := 77\<rparr>"
    using connect_button_connects_aux [OF csample.client_env_ok_axioms, of "''localhost:10500''" "''localhost''"
        10500 sample_capp sample_results 77]
    by (auto simp: show_nat_10500 c_str_def sample_cenv_def sample_capp_def tc_inv_new
        tcp_client_new_def INVALID_SOCKET_def tc_inv_def)
  let ?a2 = "if sends sample_cenv cmd_hello buff a
           then output_handler On_connect Ui_pending ''Connect...'' [] (sent cmd_hello buff a)
           else output_handler On_connect Ui_failed ''Connect failed.'' [] (sent cmd_hello buff a)"
  obtain a1 where d: "connect_dial sample_cenv sample_results ''localhost:10500'' sample_capp = Inr a1"
    "connect_greet sample_cenv 77 a1 = Inr ?a2"
    using b(4) by (auto simp: connect_parts split: sum.splits)
  have "ca_tcp ?a2 = c" by (simp add: sent_def a)
  with d b(1-3) greet_conn [OF d(2)] show ?thesis by auto
qed

lemma sample_run:
  "\<exists>a. cb_status (ca_tcp a) = Cl_connected \<and> cb_socket (ca_tcp a) = 8 \<and> tc_joinable (ca_tcp a) \<and>
    cy_run sample_cenv sample_session (cy_start sample_capp) =
      Some (Inr \<lparr>cy_app = a, cy_window = W_idle, cy_reader = R_recv, cy_cid = 8, cy_heard = []\<rparr>)"
proof -
  obtain a1 a2 where a: "connect_dial sample_cenv sample_results ''localhost:10500'' sample_capp = Inr a1"
    "connect_greet sample_cenv 77 a1 = Inr a2" "cb_status (ca_tcp a2) = Cl_connected"
    "cb_socket (ca_tcp a2) = 8" "tc_joinable (ca_tcp a2)" "ca_tcp a1 = ca_tcp a2"
    using sample_connected by blast
  moreover have "\<not> tc_joinable (ca_tcp sample_capp)" "sample_capp\<lparr>ca_gui := ca_gui sample_capp\<rparr> = sample_capp"
    by (simp_all add: sample_capp_def tcp_client_new_def)
  ultimately show ?thesis
    by (intro exI [of _ a2]) (simp add: cy_start_def win_click_def sample_click win_set_def reader_goto_def Let_def)
qed

lemma sample_leaving:
  "\<exists>a. cb_status (ca_tcp a) = Cl_disconnected \<and> tc_joinable (ca_tcp a) \<and>
    cy_run sample_cenv (sample_session @ sample_leave) (cy_start sample_capp) =
      Some (Inr \<lparr>cy_app = a, cy_window = W_joining, cy_reader = R_recv, cy_cid = 8, cy_heard = []\<rparr>)"
proof -
  obtain a where "cb_status (ca_tcp a) = Cl_connected" "tc_joinable (ca_tcp a)"
    and r: "cy_run sample_cenv sample_session (cy_start sample_capp) =
      Some (Inr \<lparr>cy_app = a, cy_window = W_idle, cy_reader = R_recv, cy_cid = 8, cy_heard = []\<rparr>)"
    using sample_run by blast
  then show ?thesis
    unfolding cy_run_append [OF r]
    by (simp add: win_click_def win_set_def disconnect_clicked_def disc_defs)
qed

lemma sample_fresh: "tc_inv (ca_tcp sample_capp)" "\<not> tc_joinable (ca_tcp sample_capp)"
  by (simp_all add: sample_capp_def tc_inv_new) (simp add: tcp_client_new_def)

section \<open>Properties\<close>



text \<open>C11: from the start of the client on, in every interleaving: the process is never ended by
  the thread object, the thread object holds a thread exactly as long as the receiving thread
  exists, the thread reads and reports only the socket it was started for, the widgets show a
  screen, and outside its callbacks the client satisfies the invariant, so that a client that
  is not connected has no receiving thread left.\<close>

theorem client_threads_safe:
  assumes "client_env_ok E view" "client_main E g s addr n = Inr (hs, a)"
    and "cy_run E ls (cy_start a) = Some r"
  shows "case r of
      Inl e \<Rightarrow> e \<noteq> Ce_terminate
    | Inr st \<Rightarrow>
        (cy_reader st = R_none \<longleftrightarrow> \<not> tc_joinable (ca_tcp (cy_app st))) \<and>
        (cy_reader st \<notin> {R_none, R_start} \<longrightarrow> cy_cid st = cb_socket (ca_tcp (cy_app st))) \<and>
        frame_inv (view (ca_gui (cy_app st))) \<and>
        (cy_window st = W_idle \<longrightarrow> client_inv E view (cy_app st) \<and>
           (cb_status (ca_tcp (cy_app st)) \<noteq> Cl_connected \<longrightarrow> cy_reader st = R_none))"
proof (cases r)
  case (Inl e)
  then show ?thesis using client_env_ok.threads_good [OF assms] by simp
next
  case (Inr st)
  then obtain b where inv: "client_inv E view b" and sim: "cy_sim E b st"
    using client_env_ok.threads_good [OF assms] by auto
  then have p: "pending E (cy_window st) b (cy_app st)" by (simp add: cy_sim_def)
  have "ca_gui (cy_app st) = ca_gui b"
    using conjunct1 [OF pending_form [OF p]] set_conn_sel(4) by metis
  moreover have "cy_window st = W_idle \<longrightarrow> cy_app st = b" using p by auto
  ultimately show ?thesis
    using Inr inv sim by (auto simp: cy_sim_def client_inv_def tc_inv_def)
qed

theorem client_threads_safe_witness:
  "\<exists>st. cy_run sample_cenv (sample_session @ sample_leave) (cy_start sample_capp) = Some (Inr st) \<and>
    cy_cid st = cb_socket (ca_tcp (cy_app st)) \<and> frame_inv (ca_gui (cy_app st))"
proof -
  obtain a where r: "cy_run sample_cenv (sample_session @ sample_leave) (cy_start sample_capp) =
      Some (Inr \<lparr>cy_app = a, cy_window = W_joining, cy_reader = R_recv, cy_cid = 8, cy_heard = []\<rparr>)"
    using sample_leaving by blast
  show ?thesis using client_threads_safe [OF csample.client_env_ok_axioms sample_main r] r by auto
qed

text \<open>\<^verbatim>\<open>disconnect\<close> returns: once its thread waits in the join, the receiving thread can
  always make a step until it has ended, makes at most four of them whatever the system and
  the server answer, and when it has ended the join takes the client to a state without a
  connection, a thread or an open callback.\<close>

theorem client_join_returns:
  assumes "tc_inv (ca_tcp a)" "\<not> tc_joinable (ca_tcp a)"
    and "cy_run E ls (cy_start a) = Some (Inr st)" "cy_window st = W_joining"
  shows "(cy_reader st \<noteq> R_end \<longrightarrow> (\<exists>l q. cy_exec E (Reader l) st = Some q)) \<and>
    (\<forall>ls' st'. Window W_join \<notin> set ls' \<and> cy_run E ls' st = Some (Inr st') \<longrightarrow> length ls' \<le> 4) \<and>
    (cy_reader st = R_end \<longrightarrow> (\<exists>st'. cy_exec E (Window W_join) st = Some (Inr st') \<and>
       cy_window st' = W_idle \<and> cy_reader st' = R_none \<and>
       cb_status (ca_tcp (cy_app st')) = Cl_disconnected \<and> \<not> tc_joinable (ca_tcp (cy_app st'))))"
proof -
  obtain b where sim: "cy_sim E b st"
    using run_simulates [OF start_sim [OF assms(1,2)] assms(3)] by (auto simp: simulates_def)
  with assms(4) have con: "cb_status (ca_tcp b) = Cl_connected" "tc_inv (ca_tcp b)"
    and app: "cy_app st = disc_status (disc_close (disc_shutdown b))" by (simp_all add: cy_sim_def)
  then have tcp: "ca_tcp (cy_app st) = (ca_tcp b)\<lparr>cb_status := Cl_disconnected\<rparr>" "tc_joinable (ca_tcp b)"
    by (simp_all add: disc_defs tc_inv_def)
  then have "joins st" "cy_reader st \<noteq> R_none"
    using assms(4) sim by (simp_all add: joins_def cy_sim_def)
  moreover have "reader_rank (cy_reader st) \<le> 4" by (cases "cy_reader st") simp_all
  moreover have "cy_reader st = R_end \<Longrightarrow> \<exists>st'. cy_exec E (Window W_join) st = Some (Inr st') \<and>
       cy_window st' = W_idle \<and> cy_reader st' = R_none \<and>
       cb_status (ca_tcp (cy_app st')) = Cl_disconnected \<and> \<not> tc_joinable (ca_tcp (cy_app st'))"
    using assms(4) tcp by (simp add: win_set_def disc_join_def tc_join_def Let_def)
  ultimately show ?thesis
    using reader_can_step [of st E] joining_run [of st _ E] by fastforce
qed

theorem client_join_returns_witness:
  "\<exists>st l q. cy_run sample_cenv (sample_session @ sample_leave) (cy_start sample_capp) = Some (Inr st) \<and>
    cy_window st = W_joining \<and> cy_exec sample_cenv (Reader l) st = Some q"
proof -
  obtain a where r: "cy_run sample_cenv (sample_session @ sample_leave) (cy_start sample_capp) =
      Some (Inr \<lparr>cy_app = a, cy_window = W_joining, cy_reader = R_recv, cy_cid = 8, cy_heard = []\<rparr>)"
    using sample_leaving by blast
  show ?thesis using client_join_returns [OF sample_fresh r] r by auto
qed

text \<open>The window's thread closes the socket before it changes the status, so the receiving
  thread can go on to read a socket that is closed; the failed call is taken for a received
  header.\<close>

lemma reader_reads_closed_socket:
  assumes "cy_window st = W_idle" "cy_reader st = R_recv" "cb_status (ca_tcp (cy_app st)) = Cl_connected"
    and "length junk = sizeof_header"
  shows "\<exists>st'. cy_run E [Window (W_click rs n Disconnect_button), Window W_close,
      Reader (Rd_header junk (Recv_error w so io))] st = Some (Inr st') \<and>
    Sys_closesocket (cb_socket (ca_tcp (cy_app st'))) \<in> set (ca_calls (cy_app st')) \<and>
    cy_reader st' = (if unat (ph_size (header_packet junk)) = 0 then R_check else R_body junk)"
  using assms
  by (simp add: win_click_def win_set_def disconnect_clicked_def disc_defs reader_goto_def header_step_def Let_def)

end
