(* ===== verification/Spd_Async.thy ===== *)
theory Spd_Async
  imports Spd_Registry
begin

text \<open>
  Asynchronous loggers (\<^verbatim>\<open>async_logger-inl.h\<close>, \<^verbatim>\<open>details/thread_pool-inl.h\<close>,
  \<^verbatim>\<open>details/mpmc_blocking_q.h\<close>, \<^verbatim>\<open>async.h\<close> of \<^verbatim>\<open>contrib/spdlog/include/spdlog\<close>): a logger
  posts its messages to a queue, and the threads of a pool take them out and hand them to the
  sinks.

  The pool is a transition system.  A step is what one thread does between two points where
  others can come in: a critical section of the queue, the \<^verbatim>\<open>notify_one\<close> after it, the handling
  of a message.  A thread that waits on a condition variable is asleep; a notification wakes
  one of those asleep, any one, and is lost when none is.  A step that a thread cannot make is
  \<^term>\<open>None\<close>.
\<close>

section \<open>Messages\<close>

datatype async_policy = Block | Overrun_oldest

datatype async_type = Am_log | Am_flush | Am_terminate

record async_msg =
  am_type :: async_type
  am_logger :: "nat option"
  am_msg :: log_msg

definition am_log_msg :: "nat \<Rightarrow> log_msg \<Rightarrow> async_msg" where
  "am_log_msg l msg = \<lparr>am_type = Am_log, am_logger = Some l, am_msg = msg\<rparr>"

definition am_flush_msg :: "nat \<Rightarrow> async_msg" where
  "am_flush_msg l = \<lparr>am_type = Am_flush, am_logger = Some l, am_msg = blank_msg\<rparr>"

definition am_terminate_msg :: async_msg where
  "am_terminate_msg = \<lparr>am_type = Am_terminate, am_logger = None, am_msg = blank_msg\<rparr>"

definition is_terminate :: "async_msg \<Rightarrow> bool" where
  "is_terminate m \<longleftrightarrow> am_type m = Am_terminate"

section \<open>The logger\<close>

text \<open>
  \<^verbatim>\<open>sink_it_\<close> and \<^verbatim>\<open>flush_\<close> of an asynchronous logger: with a pool they post a message, without
  one they throw.
\<close>

definition async_sink_it :: "bool \<Rightarrow> nat \<Rightarrow> log_msg \<Rightarrow> string + async_msg" where
  "async_sink_it pool l msg =
     (if pool then Inr (am_log_msg l msg) else Inl ''async log: thread pool doesn't exist anymore'')"

definition async_flush :: "bool \<Rightarrow> nat \<Rightarrow> string + async_msg" where
  "async_flush pool l =
     (if pool then Inr (am_flush_msg l) else Inl ''async flush: thread pool doesn't exist anymore'')"

text \<open>\<^verbatim>\<open>logger::log\<close> of such a logger: the message to post, if any.  The exception skips the
  backtrace and ends in the error handler.\<close>

definition async_log ::
  "bool \<Rightarrow> u64 \<Rightarrow> nat \<Rightarrow> source_loc \<Rightarrow> level_enum \<Rightarrow> string \<Rightarrow> log_state \<Rightarrow>
   (async_msg option \<times> log_state) option" where
  "async_log pool tid l loc lvl payload w =
     (case ls_loggers w l of
        None \<Rightarrow> None
      | Some lg \<Rightarrow>
          let log_enabled = should_log lvl lg;
              traceback_enabled = bt_enabled (lo_tracer lg)
          in if \<not> log_enabled \<and> \<not> traceback_enabled then Some (None, w)
             else
               let (now, w) = ls_now w;
                   msg = log_msg now tid loc (lo_name lg) lvl payload;
                   traced = (if traceback_enabled
                             then w\<lparr>ls_loggers := (ls_loggers w)
                                    (l \<mapsto> lg\<lparr>lo_tracer := bt_push_back msg (lo_tracer lg)\<rparr>)\<rparr>
                             else w)
               in if log_enabled then
                    (case async_sink_it pool l msg of
                       Inr m \<Rightarrow> Some (Some m, traced)
                     | Inl what \<Rightarrow> Some (None, err_handler lg (catch_text loc what) w))
                  else Some (None, traced))"

text \<open>The backend, which the threads of the pool call: the loops over the sinks are those of the
  synchronous logger.\<close>

definition backend_sink_it :: "platform \<Rightarrow> nat \<Rightarrow> log_msg \<Rightarrow> log_state \<Rightarrow> log_state option" where
  "backend_sink_it os l msg w =
     (case ls_loggers w l of None \<Rightarrow> None | Some lg \<Rightarrow> sink_it os lg msg w)"

definition backend_flush :: "nat \<Rightarrow> log_state \<Rightarrow> log_state option" where
  "backend_flush l w =
     (case ls_loggers w l of None \<Rightarrow> None | Some lg \<Rightarrow> Some (logger_flush lg w))"

text \<open>\<^verbatim>\<open>process_next_msg_\<close> after the message was taken: the state, and whether the thread goes
  on.\<close>

definition process_msg :: "platform \<Rightarrow> async_msg \<Rightarrow> log_state option \<Rightarrow> log_state option" where
  "process_msg os m w =
     Option.bind w (\<lambda>w.
       case am_type m of
         Am_log \<Rightarrow> Option.bind (am_logger m) (\<lambda>l. backend_sink_it os l (am_msg m) w)
       | Am_flush \<Rightarrow> Option.bind (am_logger m) (\<lambda>l. backend_flush l w)
       | Am_terminate \<Rightarrow> Some w)"

section \<open>The pool\<close>

text \<open>
  A caller is a thread that posts.  \<open>Enqueue\<close> is before the critical section, \<open>Waiting\<close> is
  asleep on \<^verbatim>\<open>pop_cv_\<close>, \<open>Notify\<close> is after the push.  A worker in \<open>Loop\<close> is about to look at the
  queue, \<open>Asleep\<close> on \<^verbatim>\<open>push_cv_\<close>, \<open>Expired\<close> about to look a last time after ten seconds, \<open>Took\<close>
  before the notification of a waiting caller.
\<close>

datatype caller_pc = Away | Enqueue async_msg async_policy | Waiting async_msg | Notify

datatype worker_pc = Loop | Asleep | Expired | Took async_msg | Process async_msg | Done

datatype pool_pc = Alive | Terminating nat | Joined

text \<open>
  \<open>tp_posted\<close>, \<open>tp_taken\<close> and \<open>tp_handled\<close> are no variables of the code: they list the messages in
  the order of pushing, taking out and handling.  The world is \<^term>\<open>None\<close> after undefined
  behaviour.
\<close>

record thread_pool =
  tp_q :: "async_msg circular_q"
  tp_callers :: "caller_pc list"
  tp_workers :: "worker_pc list"
  tp_pc :: pool_pc
  tp_world :: "log_state option"
  tp_posted :: "async_msg list"
  tp_taken :: "async_msg list"
  tp_handled :: "async_msg list"

text \<open>The constructor, for \<open>c\<close> threads that may call it; the first of them destroys the pool.\<close>

definition thread_pool_new ::
  "nat \<Rightarrow> nat \<Rightarrow> nat \<Rightarrow> log_state \<Rightarrow> string + thread_pool" where
  "thread_pool_new q_max_items threads_n c w =
     (if threads_n = 0 \<or> 1000 < threads_n then
        Inl ''spdlog::thread_pool(): invalid threads_n param (valid range is 1-1000)''
      else
        Inr \<lparr>tp_q = cq_new am_terminate_msg q_max_items, tp_callers = replicate c Away,
             tp_workers = replicate threads_n Loop, tp_pc = Alive, tp_world = Some w,
             tp_posted = [], tp_taken = [], tp_handled = []\<rparr>)"

datatype pool_label =
    Post nat async_msg async_policy | Try nat | Signal nat nat
  | Take nat | Signal_room nat nat | Handle nat | Expire nat
  | Wake_worker nat | Wake_caller nat
  | Destroy | Terminate | Join

definition caller_at :: "thread_pool \<Rightarrow> nat \<Rightarrow> caller_pc \<Rightarrow> bool" where
  "caller_at st t pc \<longleftrightarrow> t < length (tp_callers st) \<and> tp_callers st ! t = pc"

definition worker_at :: "thread_pool \<Rightarrow> nat \<Rightarrow> worker_pc \<Rightarrow> bool" where
  "worker_at st k pc \<longleftrightarrow> k < length (tp_workers st) \<and> tp_workers st ! k = pc"

definition set_caller :: "nat \<Rightarrow> caller_pc \<Rightarrow> thread_pool \<Rightarrow> thread_pool" where
  "set_caller t pc st = st\<lparr>tp_callers := (tp_callers st)[t := pc]\<rparr>"

definition set_worker :: "nat \<Rightarrow> worker_pc \<Rightarrow> thread_pool \<Rightarrow> thread_pool" where
  "set_worker k pc st = st\<lparr>tp_workers := (tp_workers st)[k := pc]\<rparr>"

text \<open>The critical sections of \<^verbatim>\<open>enqueue\<close> and \<^verbatim>\<open>enqueue_nowait\<close> after their conditions, and of
  \<^verbatim>\<open>dequeue_for\<close>.\<close>

definition mq_push :: "async_msg \<Rightarrow> thread_pool \<Rightarrow> thread_pool" where
  "mq_push m st = st\<lparr>tp_q := cq_push_back m (tp_q st), tp_posted := tp_posted st @ [m]\<rparr>"

definition mq_take :: "nat \<Rightarrow> thread_pool \<Rightarrow> thread_pool" where
  "mq_take k st =
     (let m = cq_front (tp_q st)
      in set_worker k (Took m)
           (st\<lparr>tp_q := cq_pop_front (tp_q st), tp_taken := tp_taken st @ [m]\<rparr>))"

text \<open>The waits: \<open>enqueue\<close> sleeps while the queue is full, \<open>enqueue_nowait\<close> never, a worker sleeps
  while it is empty.\<close>

fun mq_try :: "nat \<Rightarrow> async_msg \<Rightarrow> async_policy \<Rightarrow> thread_pool \<Rightarrow> thread_pool" where
  "mq_try t m Block st =
     (if cq_full (tp_q st) then set_caller t (Waiting m) st
      else set_caller t Notify (mq_push m st))"
| "mq_try t m Overrun_oldest st = set_caller t Notify (mq_push m st)"

fun pool_exec :: "platform \<Rightarrow> pool_label \<Rightarrow> thread_pool \<Rightarrow> thread_pool option" where
  "pool_exec os (Post t m policy) st =
     (if caller_at st t Away \<and> tp_pc st = Alive \<and> \<not> is_terminate m
      then Some (set_caller t (Enqueue m policy) st) else None)"
| "pool_exec os (Try t) st =
     (if t < length (tp_callers st) then
        (case tp_callers st ! t of
           Enqueue m policy \<Rightarrow> Some (mq_try t m policy st)
         | _ \<Rightarrow> None)
      else None)"
| "pool_exec os (Signal t k) st =
     (if caller_at st t Notify then
        if Asleep \<notin> set (tp_workers st) then Some (set_caller t Away st)
        else if worker_at st k Asleep then Some (set_worker k Loop (set_caller t Away st))
        else None
      else None)"
| "pool_exec os (Take k) st =
     (if worker_at st k Loop then
        Some (if cq_empty (tp_q st) then set_worker k Asleep st else mq_take k st)
      else if worker_at st k Expired then
        Some (if cq_empty (tp_q st) then set_worker k Loop st else mq_take k st)
      else None)"
| "pool_exec os (Signal_room k t) st =
     (if k < length (tp_workers st) then
        (case tp_workers st ! k of
           Took m \<Rightarrow>
             if \<forall>pc \<in> set (tp_callers st). \<forall>m. pc \<noteq> Waiting m then
               Some (set_worker k (Process m) st)
             else if t < length (tp_callers st) then
               (case tp_callers st ! t of
                  Waiting m' \<Rightarrow> Some (set_caller t (Enqueue m' Block) (set_worker k (Process m) st))
                | _ \<Rightarrow> None)
             else None
         | _ \<Rightarrow> None)
      else None)"
| "pool_exec os (Handle k) st =
     (if k < length (tp_workers st) then
        (case tp_workers st ! k of
           Process m \<Rightarrow>
             Some (set_worker k (if is_terminate m then Done else Loop)
               (st\<lparr>tp_world := process_msg os m (tp_world st), tp_handled := tp_handled st @ [m]\<rparr>))
         | _ \<Rightarrow> None)
      else None)"
| "pool_exec os (Expire k) st =
     (if worker_at st k Asleep then Some (set_worker k Expired st) else None)"
| "pool_exec os (Wake_worker k) st =
     (if worker_at st k Asleep then Some (set_worker k Loop st) else None)"
| "pool_exec os (Wake_caller t) st =
     (if t < length (tp_callers st) then
        (case tp_callers st ! t of
           Waiting m \<Rightarrow> Some (set_caller t (Enqueue m Block) st)
         | _ \<Rightarrow> None)
      else None)"
| "pool_exec os Destroy st =
     (if tp_pc st = Alive \<and> (\<forall>pc \<in> set (tp_callers st). pc = Away)
      then Some (st\<lparr>tp_pc := Terminating (length (tp_workers st))\<rparr>) else None)"
| "pool_exec os Terminate st =
     (case tp_pc st of
        Terminating (Suc n) \<Rightarrow>
          if caller_at st 0 Away
          then Some (set_caller 0 (Enqueue am_terminate_msg Block) (st\<lparr>tp_pc := Terminating n\<rparr>))
          else None
      | _ \<Rightarrow> None)"
| "pool_exec os Join st =
     (if tp_pc st = Terminating 0 \<and> caller_at st 0 Away \<and> (\<forall>pc \<in> set (tp_workers st). pc = Done)
      then Some (st\<lparr>tp_pc := Joined\<rparr>) else None)"

primrec pool_run :: "platform \<Rightarrow> pool_label list \<Rightarrow> thread_pool \<Rightarrow> thread_pool option" where
  "pool_run os [] st = Some st"
| "pool_run os (l # ls) st =
     (case pool_exec os l st of None \<Rightarrow> None | Some st \<Rightarrow> pool_run os ls st)"

text \<open>The states of a pool whose callers post with the policies in \<open>ps\<close>.\<close>

fun uses_policy :: "async_policy set \<Rightarrow> pool_label \<Rightarrow> bool" where
  "uses_policy ps (Post t m policy) = (policy \<in> ps)"
| "uses_policy ps _ = True"

inductive pool_reach ::
  "platform \<Rightarrow> async_policy set \<Rightarrow> nat \<Rightarrow> nat \<Rightarrow> nat \<Rightarrow> log_state \<Rightarrow> thread_pool \<Rightarrow> bool"
  for os ps q_max_items threads_n c w where
  pool_new: "thread_pool_new q_max_items threads_n c w = Inr st \<Longrightarrow>
    pool_reach os ps q_max_items threads_n c w st"
| pool_step: "pool_reach os ps q_max_items threads_n c w st \<Longrightarrow> uses_policy ps l \<Longrightarrow>
    pool_exec os l st = Some st' \<Longrightarrow> pool_reach os ps q_max_items threads_n c w st'"

text \<open>The steps the threads make of themselves: no new message, no timeout, no wake-up without a
  reason, no start of the destructor.\<close>

fun own_step :: "pool_label \<Rightarrow> bool" where
  "own_step (Post t m policy) = False"
| "own_step (Expire k) = False"
| "own_step (Wake_worker k) = False"
| "own_step (Wake_caller t) = False"
| "own_step Destroy = False"
| "own_step _ = True"

section \<open>The factory\<close>

text \<open>\<^verbatim>\<open>async_factory_impl::create\<close>: when the registry has no pool, one with a queue of 8192 and
  one thread is to be made (the second result: the arguments of its constructor); the logger is
  put into the store and registered.\<close>

definition default_async_q_size :: nat where "default_async_q_size = 8192"

definition create_async ::
  "int \<Rightarrow> nat \<Rightarrow> nat \<Rightarrow> string \<Rightarrow> sink \<Rightarrow> bool \<Rightarrow> registry \<Rightarrow> log_state \<Rightarrow>
   string option \<times> (nat \<times> nat) option \<times> registry \<times> log_state" where
  "create_async now i l name sink pool r w =
     (let new_pool = (if pool then None else Some (default_async_q_size, 1));
          w = w\<lparr>ls_sinks := (ls_sinks w)(i \<mapsto> sink),
                ls_loggers := (ls_loggers w)(l \<mapsto> spd_logger_new name [i])\<rparr>;
          (e, r, w) = initialize_logger now l r w
      in (e, new_pool, r, w))"

end
