(* ===== verification/Spd_Async_Props.thy ===== *)
theory Spd_Async_Props
  imports Spd_Async Spd_Files_Props "HOL-Library.Sublist" "HOL-Library.Multiset"
begin

text \<open>
  The pool of the asynchronous loggers: what the queue keeps of what was posted, that no wake-up
  is lost, that the destructor ends, and that one thread writes the log a synchronous logger
  writes.
\<close>

section \<open>Sums over the threads\<close>

definition tally :: "('a \<Rightarrow> nat) \<Rightarrow> 'a list \<Rightarrow> int" where
  "tally f xs = sum_list (map (\<lambda>x. int (f x)) xs)"

lemma tally_Cons [simp]: "tally f (x # xs) = int (f x) + tally f xs"
  by (simp add: tally_def)

lemma tally_Nil [simp]: "tally f [] = 0"
  by (simp add: tally_def)

lemma tally_append [simp]: "tally f (xs @ ys) = tally f xs + tally f ys"
  by (induction xs) simp_all

lemma tally_upd [simp]:
  "i < length xs \<Longrightarrow> tally f (xs[i := y]) = tally f xs - int (f (xs ! i)) + int (f y)"
proof (induction xs arbitrary: i)
  case (Cons x xs)
  then show ?case by (cases i) auto
qed simp

lemma tally_nonneg [simp]: "0 \<le> tally f xs"
  by (induction xs) simp_all

lemma tally_zero: "tally f xs = 0 \<longleftrightarrow> (\<forall>x \<in> set xs. f x = 0)"
  by (induction xs) (auto simp: add_nonneg_eq_0_iff)

lemma tally_replicate [simp]: "tally f (replicate n x) = int n * int (f x)"
  by (induction n) (simp_all add: algebra_simps)

lemma tally_all: "\<forall>x \<in> set xs. x = y \<Longrightarrow> tally f xs = int (length xs) * int (f y)"
  by (induction xs) (auto simp: algebra_simps)

lemma tally_member: "x \<in> set xs \<Longrightarrow> int (f x) \<le> tally f xs"
  by (induction xs) (auto simp: add_increasing add_increasing2)

section \<open>What is counted\<close>

fun notifies :: "caller_pc \<Rightarrow> nat" where
  "notifies Notify = 1"
| "notifies _ = 0"

fun looks :: "worker_pc \<Rightarrow> nat" where
  "looks Loop = 1"
| "looks Expired = 1"
| "looks _ = 0"

fun signals_room :: "worker_pc \<Rightarrow> nat" where
  "signals_room (Took m) = 1"
| "signals_room _ = 0"

fun tries :: "caller_pc \<Rightarrow> nat" where
  "tries (Enqueue m Block) = 1"
| "tries _ = 0"

fun caller_terms :: "caller_pc \<Rightarrow> nat" where
  "caller_terms (Enqueue m policy) = of_bool (is_terminate m)"
| "caller_terms (Waiting m) = of_bool (is_terminate m)"
| "caller_terms _ = 0"

fun worker_terms :: "worker_pc \<Rightarrow> nat" where
  "worker_terms (Took m) = of_bool (is_terminate m)"
| "worker_terms (Process m) = of_bool (is_terminate m)"
| "worker_terms Done = 1"
| "worker_terms _ = 0"

abbreviation waits :: "caller_pc \<Rightarrow> bool" where
  "waits pc \<equiv> \<exists>m. pc = Waiting m"

abbreviation queued :: "thread_pool \<Rightarrow> async_msg list" where
  "queued st \<equiv> cq_items (tp_q st)"

section \<open>The critical sections\<close>

lemma push_facts:
  assumes "cq_inv q"
  shows "cq_inv (cq_push_back x q)" "cq_capacity (cq_push_back x q) = cq_capacity q"
    "cq_items (cq_push_back x q) =
      (if length (cq_items q) < cq_capacity q then cq_items q @ [x] else tl (cq_items q @ [x]))"
  by (rule cq.inv_push [OF assms], rule cq.capacity_push [OF assms], rule cq.items_push [OF assms])

lemma pop_facts:
  assumes "cq_inv q" "\<not> cq_empty q"
  shows "cq_inv (cq_pop_front q)" "cq_capacity (cq_pop_front q) = cq_capacity q"
    "cq_items q = cq_front q # cq_items (cq_pop_front q)"
proof -
  have ne: "cq_items q \<noteq> []" using assms cq.empty_items by blast
  show "cq_inv (cq_pop_front q)" "cq_capacity (cq_pop_front q) = cq_capacity q"
    by (rule cq.inv_pop [OF assms(1) ne], rule cq.capacity_pop [OF assms(1)])
  show "cq_items q = cq_front q # cq_items (cq_pop_front q)"
    using cq.front_items [OF assms(1) ne] cq.items_pop [OF assms(1) ne] ne by simp
qed

section \<open>The outcomes of the steps\<close>

lemmas pool_defs = caller_at_def worker_at_def set_caller_def set_worker_def mq_push_def mq_take_def Let_def

inductive pool_move :: "platform \<Rightarrow> thread_pool \<Rightarrow> pool_label \<Rightarrow> thread_pool \<Rightarrow> bool" for os st where
  mv_post: "caller_at st t Away \<Longrightarrow> tp_pc st = Alive \<Longrightarrow> \<not> is_terminate m \<Longrightarrow>
    pool_move os st (Post t m policy) (set_caller t (Enqueue m policy) st)"
| mv_sleep: "caller_at st t (Enqueue m Block) \<Longrightarrow> cq_full (tp_q st) \<Longrightarrow>
    pool_move os st (Try t) (set_caller t (Waiting m) st)"
| mv_push: "caller_at st t (Enqueue m policy) \<Longrightarrow> policy = Block \<longrightarrow> \<not> cq_full (tp_q st) \<Longrightarrow>
    pool_move os st (Try t) (set_caller t Notify (mq_push m st))"
| mv_unheard: "caller_at st t Notify \<Longrightarrow> Asleep \<notin> set (tp_workers st) \<Longrightarrow>
    pool_move os st (Signal t k) (set_caller t Away st)"
| mv_wake: "caller_at st t Notify \<Longrightarrow> worker_at st k Asleep \<Longrightarrow>
    pool_move os st (Signal t k) (set_worker k Loop (set_caller t Away st))"
| mv_idle: "worker_at st k Loop \<Longrightarrow> cq_empty (tp_q st) \<Longrightarrow>
    pool_move os st (Take k) (set_worker k Asleep st)"
| mv_again: "worker_at st k Expired \<Longrightarrow> cq_empty (tp_q st) \<Longrightarrow>
    pool_move os st (Take k) (set_worker k Loop st)"
| mv_take: "worker_at st k Loop \<or> worker_at st k Expired \<Longrightarrow> \<not> cq_empty (tp_q st) \<Longrightarrow>
    pool_move os st (Take k) (mq_take k st)"
| mv_no_room: "worker_at st k (Took m) \<Longrightarrow> \<forall>pc \<in> set (tp_callers st). \<not> waits pc \<Longrightarrow>
    pool_move os st (Signal_room k t) (set_worker k (Process m) st)"
| mv_room: "worker_at st k (Took m) \<Longrightarrow> caller_at st t (Waiting m') \<Longrightarrow>
    pool_move os st (Signal_room k t) (set_caller t (Enqueue m' Block) (set_worker k (Process m) st))"
| mv_handle: "worker_at st k (Process m) \<Longrightarrow>
    pool_move os st (Handle k) (set_worker k (if is_terminate m then Done else Loop)
      (st\<lparr>tp_world := process_msg os m (tp_world st), tp_handled := tp_handled st @ [m]\<rparr>))"
| mv_expire: "worker_at st k Asleep \<Longrightarrow> pool_move os st (Expire k) (set_worker k Expired st)"
| mv_wake_worker: "worker_at st k Asleep \<Longrightarrow> pool_move os st (Wake_worker k) (set_worker k Loop st)"
| mv_wake_caller: "caller_at st t (Waiting m) \<Longrightarrow>
    pool_move os st (Wake_caller t) (set_caller t (Enqueue m Block) st)"
| mv_destroy: "tp_pc st = Alive \<Longrightarrow> \<forall>pc \<in> set (tp_callers st). pc = Away \<Longrightarrow>
    pool_move os st Destroy (st\<lparr>tp_pc := Terminating (length (tp_workers st))\<rparr>)"
| mv_terminate: "tp_pc st = Terminating (Suc n) \<Longrightarrow> caller_at st 0 Away \<Longrightarrow>
    pool_move os st Terminate (set_caller 0 (Enqueue am_terminate_msg Block) (st\<lparr>tp_pc := Terminating n\<rparr>))"
| mv_join: "tp_pc st = Terminating 0 \<Longrightarrow> caller_at st 0 Away \<Longrightarrow> \<forall>pc \<in> set (tp_workers st). pc = Done \<Longrightarrow>
    pool_move os st Join (st\<lparr>tp_pc := Joined\<rparr>)"

lemma exec_move: "pool_exec os l st = Some st' \<Longrightarrow> pool_move os st l st'"
proof (cases l)
  case (Try t)
  assume "pool_exec os l st = Some st'"
  then obtain m policy where c: "caller_at st t (Enqueue m policy)" and st': "st' = mq_try t m policy st"
    using Try by (auto simp: caller_at_def split: if_splits caller_pc.splits)
  show ?thesis
    using c Try mv_sleep [OF _, of st t m os] mv_push [OF c, of os]
    by (cases policy) (simp_all add: st')
next
  case (Take k)
  assume "pool_exec os l st = Some st'"
  with Take show ?thesis
    using mv_idle [of st k os] mv_again [of st k os] mv_take [of st k os] by (auto split: if_splits)
next
  case (Signal t k)
  assume "pool_exec os l st = Some st'"
  with Signal show ?thesis
    using mv_unheard [of st t os k] mv_wake [of st t k os] by (auto split: if_splits)
next
  case (Signal_room k t)
  assume e: "pool_exec os l st = Some st'"
  then obtain m where w: "worker_at st k (Took m)"
    using Signal_room by (auto simp: worker_at_def split: if_splits worker_pc.splits)
  show ?thesis
  proof (cases "\<forall>pc \<in> set (tp_callers st). \<not> waits pc")
    case True
    then show ?thesis using e w Signal_room mv_no_room [OF w True] by (auto simp: worker_at_def)
  next
    case False
    then obtain m' where "caller_at st t (Waiting m')"
        "st' = set_caller t (Enqueue m' Block) (set_worker k (Process m) st)"
      using e w Signal_room
      by (auto simp: worker_at_def caller_at_def split: if_splits caller_pc.splits)
    then show ?thesis using mv_room [OF w] Signal_room by simp
  qed
next
  case (Handle k)
  assume e: "pool_exec os l st = Some st'"
  then obtain m where w: "worker_at st k (Process m)"
    using Handle by (auto simp: worker_at_def split: if_splits worker_pc.splits)
  show ?thesis using e Handle mv_handle [OF w, of os] w by (auto simp: worker_at_def)
next
  case (Wake_caller t)
  assume e: "pool_exec os l st = Some st'"
  then obtain m where w: "caller_at st t (Waiting m)"
    using Wake_caller by (auto simp: caller_at_def split: if_splits caller_pc.splits)
  show ?thesis using e Wake_caller mv_wake_caller [OF w, of os] w by (auto simp: caller_at_def)
next
  case Terminate
  assume e: "pool_exec os l st = Some st'"
  then show ?thesis
    using Terminate mv_terminate [of st _ os] by (auto split: if_splits pool_pc.splits nat.splits)
qed (auto intro: pool_move.intros split: if_splits)


section \<open>The invariant\<close>

text \<open>No wake-up is lost: when a worker sleeps, there are no more messages in the queue than
  notifications on their way and workers about to look; when a caller sleeps, there is no more
  room than workers about to signal it and callers about to try.\<close>

definition queue_inv :: "nat \<Rightarrow> nat \<Rightarrow> thread_pool \<Rightarrow> bool" where
  "queue_inv cap n st \<longleftrightarrow>
     cq_inv (tp_q st) \<and> cq_capacity (tp_q st) = cap \<and> length (tp_workers st) = n"

definition wake_inv :: "thread_pool \<Rightarrow> bool" where
  "wake_inv st \<longleftrightarrow> (Asleep \<in> set (tp_workers st) \<longrightarrow>
     int (length (queued st)) \<le> tally notifies (tp_callers st) + tally looks (tp_workers st))"

definition room_inv :: "nat \<Rightarrow> thread_pool \<Rightarrow> bool" where
  "room_inv cap st \<longleftrightarrow> ((\<exists>pc \<in> set (tp_callers st). waits pc) \<longrightarrow>
     int cap \<le> int (length (queued st)) + tally signals_room (tp_workers st) + tally tries (tp_callers st))"

lemma queue_inv_move:
  "queue_inv cap n st \<Longrightarrow> pool_move os st l st' \<Longrightarrow> queue_inv cap n st'"
  by (erule pool_move.cases)
    (simp_all add: queue_inv_def pool_defs push_facts pop_facts)

lemma length_queued_push:
  "queue_inv cap n st \<Longrightarrow> length (cq_items (cq_push_back x (tp_q st))) =
    (if length (queued st) < cap then Suc (length (queued st)) else length (queued st))"
  by (simp add: queue_inv_def push_facts del: length_cq_items)

lemma length_queued_pop:
  "queue_inv cap n st \<Longrightarrow> \<not> cq_empty (tp_q st) \<Longrightarrow>
    length (queued st) = Suc (length (cq_items (cq_pop_front (tp_q st))))"
  using pop_facts(3) by (fastforce simp: queue_inv_def simp del: length_cq_items)

lemma empty_queued: "queue_inv cap n st \<Longrightarrow> cq_empty (tp_q st) \<Longrightarrow> queued st = []"
  using cq.empty_items by (auto simp: queue_inv_def)

lemma full_queued: "queue_inv cap n st \<Longrightarrow> 0 < cap \<Longrightarrow> cq_full (tp_q st) \<longleftrightarrow> length (queued st) = cap"
  using cq.full_items [of "tp_q st"] by (simp add: queue_inv_def del: length_cq_items)

lemma queued_bound: "queue_inv cap n st \<Longrightarrow> length (queued st) \<le> cap"
  using cq.length_items [of "tp_q st"] by (auto simp: queue_inv_def simp del: length_cq_items)

lemma set_upd: "x \<in> set (xs[i := y]) \<Longrightarrow> x = y \<or> x \<in> set xs"
  using set_update_subset_insert by fastforce

lemma wake_inv_move:
  assumes "queue_inv cap n st" "wake_inv st" "pool_move os st l st'"
  shows "wake_inv st'"
  using assms(3)
proof cases
  case (mv_push t m policy)
  then show ?thesis
    using assms(2) length_queued_push [OF assms(1), of m]
    by (auto simp: wake_inv_def pool_defs simp del: length_cq_items)
next
  case (mv_take k)
  then show ?thesis
    using assms(2) length_queued_pop [OF assms(1)]
    by (auto simp: wake_inv_def pool_defs simp del: length_cq_items dest!: set_upd)
next
  case (mv_idle k)
  then show ?thesis
    using empty_queued [OF assms(1)] tally_member [OF nth_mem, of k "tp_workers st" looks]
    by (auto simp: wake_inv_def pool_defs simp del: length_cq_items)
qed (use assms(2) in \<open>auto simp: wake_inv_def pool_defs simp del: length_cq_items dest!: set_upd\<close>)

lemma room_inv_move:
  assumes "queue_inv cap n st" "0 < cap" "room_inv cap st" "pool_move os st l st'"
  shows "room_inv cap st'"
  using assms(4)
proof cases
  case (mv_push t m policy)
  then show ?thesis
    using assms(3) length_queued_push [OF assms(1), of m] full_queued [OF assms(1,2)] queued_bound [OF assms(1)]
    by (cases policy) (auto simp: room_inv_def pool_defs simp del: length_cq_items dest!: set_upd)
next
  case (mv_take k)
  then show ?thesis
    using assms(3) length_queued_pop [OF assms(1)]
    by (auto simp: room_inv_def pool_defs simp del: length_cq_items dest!: set_upd)
next
  case (mv_sleep t m)
  then show ?thesis
    using full_queued [OF assms(1,2)] tally_member [OF nth_mem, of t "tp_callers st" tries]
    by (auto simp: room_inv_def pool_defs simp del: length_cq_items)
next
  case (mv_post t m policy)
  then show ?thesis using assms(3)
    by (cases policy) (auto simp: room_inv_def pool_defs simp del: length_cq_items dest!: set_upd)
qed (use assms(3) in \<open>auto simp: room_inv_def pool_defs simp del: length_cq_items dest!: set_upd\<close>)


section \<open>What becomes of the messages\<close>

text \<open>
  \<open>order_inv\<close>: what was taken and what is in the queue is what was posted, less the messages that
  were overrun, which are counted; in the queue are the last messages posted.  With the blocking policy alone nothing is lost.
\<close>

definition order_inv :: "thread_pool \<Rightarrow> bool" where
  "order_inv st \<longleftrightarrow> subseq (tp_taken st @ queued st) (tp_posted st) \<and>
     suffix (queued st) (tp_posted st) \<and>
     cq_overrun (tp_q st) = (length (tp_posted st) - length (tp_taken st @ queued st)) mod 2 ^ 64"

lemma push_overrun:
  assumes "cq_inv q"
  shows "cq_overrun (cq_push_back x q) =
    (if length (cq_items q) < cq_capacity q then cq_overrun q else (cq_overrun q + 1) mod 2 ^ 64)"
proof -
  have "cq_max q > 0" "cq_tail q = (cq_head q + cq_size q) mod cq_max q" "cq_size q < cq_max q"
    "cq_head q < cq_max q"
    using assms cq_tail_size [OF assms] by (auto simp: cq_inv_def)
  moreover from this have "(cq_tail q + 1) mod cq_max q = cq_head q \<longleftrightarrow> Suc (cq_size q) = cq_max q"
    by (auto simp: mod_if)
  ultimately show ?thesis by (auto simp: cq_push_back_def Let_def cq_capacity_def)
qed

lemma pop_overrun [simp]: "cq_overrun (cq_pop_front q) = cq_overrun q"
  by (simp add: cq_pop_front_def)

lemma subseq_drop_old: "subseq (xs @ y # ys) zs \<Longrightarrow> subseq (xs @ ys) zs"
  by (meson list_emb_append_mono subseq_Cons' subseq_order.dual_order.refl subseq_order.order_trans)

lemma suffix_snoc_same: "suffix xs ys \<Longrightarrow> suffix (xs @ [x]) (ys @ [x])"
  by simp

lemma suffix_tl_same: "suffix xs ys \<Longrightarrow> suffix (tl xs) ys"
  by (cases xs) (auto simp: suffix_def)

lemma order_inv_push:
  assumes "queue_inv cap n st" "order_inv st"
  shows "order_inv (mq_push m st)"
proof (cases "length (queued st) < cap")
  case True
  then show ?thesis
    using assms push_facts(3) [of "tp_q st" m] push_overrun [of "tp_q st" m]
    by (simp add: order_inv_def queue_inv_def mq_push_def list_emb_append_mono flip: append_assoc
        del: length_cq_items)
next
  case False
  let ?q = "queued st"
  have full: "length ?q = cap" using False queued_bound [OF assms(1)] by simp
  have items: "cq_items (cq_push_back m (tp_q st)) = tl (?q @ [m])"
    and ov: "cq_overrun (cq_push_back m (tp_q st)) = (cq_overrun (tp_q st) + 1) mod 2 ^ 64"
    using assms(1) False push_facts(3) [of "tp_q st" m] push_overrun [of "tp_q st" m]
    by (auto simp: queue_inv_def simp del: length_cq_items)
  have sub: "subseq (tp_taken st @ ?q @ [m]) (tp_posted st @ [m])"
    using assms(2) list_emb_append_mono [of "(=)" "tp_taken st @ ?q" "tp_posted st" "[m]" "[m]"]
    by (simp add: order_inv_def)
  then have "subseq (tp_taken st @ tl (?q @ [m])) (tp_posted st @ [m])"
    by (cases "?q") (auto dest: subseq_drop_old)
  moreover have "length (tp_taken st @ ?q) \<le> length (tp_posted st)"
    using assms(2) list_emb_length by (auto simp: order_inv_def simp del: length_cq_items length_append)
  moreover have "suffix (tl (?q @ [m])) (tp_posted st @ [m])"
    using assms(2) by (intro suffix_tl_same) (simp add: order_inv_def)
  ultimately show ?thesis
    using assms(2) full
    by (auto simp: order_inv_def mq_push_def items ov mod_simps Suc_diff_le suffix_tl_same
        simp del: length_cq_items)
qed


lemma order_inv_move:
  assumes "queue_inv cap n st" "order_inv st" "pool_move os st l st'"
  shows "order_inv st'"
  using assms(3)
proof cases
  case (mv_push t m policy)
  then show ?thesis
    using order_inv_push [OF assms(1,2)] by (simp add: order_inv_def set_caller_def del: length_cq_items)
next
  case (mv_take k)
  then show ?thesis
    using assms(1,2) pop_facts(3) [of "tp_q st"] suffix_tl_same [of "queued st" "tp_posted st"]
    by (simp add: order_inv_def mq_take_def set_worker_def Let_def queue_inv_def del: length_cq_items)
qed (use assms(2) in \<open>auto simp: order_inv_def pool_defs simp del: length_cq_items\<close>)

text \<open>With the blocking policy alone.\<close>

definition block_inv :: "thread_pool \<Rightarrow> bool" where
  "block_inv st \<longleftrightarrow> (\<forall>m. Enqueue m Overrun_oldest \<notin> set (tp_callers st)) \<and>
     tp_taken st @ queued st = tp_posted st \<and> cq_overrun (tp_q st) = 0"

lemma block_inv_move:
  assumes "queue_inv cap n st" "0 < cap" "block_inv st" "uses_policy {Block} l" "pool_move os st l st'"
  shows "block_inv st'"
  using assms(5)
proof cases
  case (mv_push t m policy)
  then have "policy = Block"
    using assms(3) nth_mem [of t "tp_callers st"] by (cases policy) (auto simp: block_inv_def caller_at_def)
  moreover from this mv_push have "length (queued st) < cap"
    using full_queued [OF assms(1,2)] queued_bound [OF assms(1)] by auto
  ultimately show ?thesis
    using mv_push assms(1,3) push_facts(3) [of "tp_q st" m] push_overrun [of "tp_q st" m]
    by (auto simp: block_inv_def queue_inv_def pool_defs simp del: length_cq_items dest!: set_upd
        simp flip: append_assoc)
next
  case (mv_take k)
  then show ?thesis
    using assms(1,3) pop_facts(3) [of "tp_q st"]
    by (simp add: block_inv_def mq_take_def set_worker_def Let_def queue_inv_def del: length_cq_items)
qed (use assms(3,4) in \<open>auto simp: block_inv_def pool_defs simp del: length_cq_items dest!: set_upd\<close>)

section \<open>The messages that end the threads\<close>

definition terms :: "async_msg list \<Rightarrow> nat" where
  "terms ms = length (filter is_terminate ms)"

lemma terms_simps [simp]:
  "terms [] = 0" "terms (m # ms) = of_bool (is_terminate m) + terms ms"
  "terms (xs @ ys) = terms xs + terms ys"
  by (simp_all add: terms_def)

lemma terms_zero: "terms ms = 0 \<longleftrightarrow> (\<forall>m \<in> set ms. \<not> is_terminate m)"
  by (simp add: terms_def filter_empty_conv)

text \<open>The messages that end the threads come last.\<close>

fun terms_last :: "async_msg list \<Rightarrow> bool" where
  "terms_last [] = True"
| "terms_last (m # ms) = ((is_terminate m \<longrightarrow> (\<forall>m' \<in> set ms. is_terminate m')) \<and> terms_last ms)"

lemma terms_last_snoc: "is_terminate m \<Longrightarrow> terms_last ms \<Longrightarrow> terms_last (ms @ [m])"
  by (induction ms) auto

lemma terms_last_none: "terms ms = 0 \<Longrightarrow> terms_last ms"
  by (induction ms) (auto simp: terms_zero)

lemma terms_last_append:
  "terms_last (xs @ ys) \<Longrightarrow> 0 < terms xs \<Longrightarrow> terms ys = length ys"
proof (induction xs)
  case (Cons x xs)
  show ?case
  proof (cases "is_terminate x")
    case True
    then show ?thesis using Cons.prems by (simp add: terms_def)
  qed (use Cons in simp)
qed simp

fun posts_term :: "caller_pc \<Rightarrow> bool" where
  "posts_term (Enqueue m policy) = (is_terminate m \<and> policy = Block)"
| "posts_term (Waiting m) = is_terminate m"
| "posts_term _ = True"

definition term_inv :: "thread_pool \<Rightarrow> bool" where
  "term_inv st \<longleftrightarrow>
     tally worker_terms (tp_workers st) = int (terms (tp_taken st)) \<and>
     terms_last (tp_taken st @ queued st) \<and>
     (case tp_pc st of
        Alive \<Rightarrow> tally caller_terms (tp_callers st) = 0 \<and> terms (tp_taken st @ queued st) = 0
      | Terminating k \<Rightarrow>
          int (k + terms (tp_taken st @ queued st)) + tally caller_terms (tp_callers st) =
            int (length (tp_workers st)) \<and>
          (\<forall>t < length (tp_callers st). posts_term (tp_callers st ! t) \<and> (t \<noteq> 0 \<longrightarrow> tp_callers st ! t = Away))
      | Joined \<Rightarrow>
          (\<forall>pc \<in> set (tp_callers st). pc = Away) \<and> (\<forall>pc \<in> set (tp_workers st). pc = Done) \<and>
          terms (tp_taken st @ queued st) = length (tp_workers st))"

lemma joined_idle:
  assumes "term_inv st" "tp_pc st = Joined"
  shows "worker_at st k pc \<Longrightarrow> pc = Done" "caller_at st t pc' \<Longrightarrow> pc' = Away"
  using assms nth_mem by (fastforce simp: term_inv_def worker_at_def caller_at_def)+

lemma joined_stays: "term_inv st \<Longrightarrow> pool_move os st l st' \<Longrightarrow> tp_pc st \<noteq> Joined"
  by (erule pool_move.cases) (auto dest: joined_idle)

lemma term_inv_push:
  assumes q: "queue_inv cap n st" "0 < cap" and inv: "term_inv st"
    and c: "caller_at st t (Enqueue m policy)" "policy = Block \<longrightarrow> \<not> cq_full (tp_q st)"
  shows "term_inv (set_caller t Notify (mq_push m st))"
proof (cases "tp_pc st")
  case Alive
  have nt: "\<not> is_terminate m"
    using inv Alive c nth_mem [of t "tp_callers st"]
    by (auto simp: term_inv_def caller_at_def tally_zero)
  moreover have "set (cq_items (cq_push_back m (tp_q st))) \<subseteq> insert m (set (queued st))"
    using q push_facts(3) [of "tp_q st" m] by (cases "queued st") (auto simp: queue_inv_def simp del: length_cq_items)
  ultimately have "terms (tp_taken st @ cq_items (cq_push_back m (tp_q st))) = 0"
    using inv Alive by (auto simp: term_inv_def terms_zero)
  then show ?thesis
    using inv Alive c nt by (auto simp: term_inv_def pool_defs intro!: terms_last_none)
next
  case (Terminating k)
  then have "is_terminate m" "policy = Block"
    using inv c by (auto simp: term_inv_def caller_at_def)
  moreover from this c(2) have "length (queued st) < cap"
    using full_queued [OF q] queued_bound [OF q(1)] by auto
  then have "cq_items (cq_push_back m (tp_q st)) = queued st @ [m]"
    using q push_facts(3) [of "tp_q st" m] by (simp add: queue_inv_def del: length_cq_items)
  ultimately show ?thesis
    using inv Terminating c terms_last_snoc [of m "tp_taken st @ queued st"]
    by (auto simp: term_inv_def pool_defs nth_list_update)
next
  case Joined
  then show ?thesis using inv c nth_mem [of t "tp_callers st"] by (auto simp: term_inv_def caller_at_def)
qed

lemma term_inv_move:
  assumes "queue_inv cap n st" "0 < cap" "term_inv st" "pool_move os st l st'"
  shows "term_inv st'"
  using assms(4)
proof cases
  case (mv_push t m policy)
  then show ?thesis using term_inv_push [OF assms(1-3)] by simp
next
  case (mv_take k)
  have "queued st = cq_front (tp_q st) # cq_items (cq_pop_front (tp_q st))"
    using assms(1) mv_take pop_facts(3) by (auto simp: queue_inv_def)
  then show ?thesis
    using assms(3) mv_take joined_stays [OF assms(3,4)]
    by (cases "tp_pc st") (auto simp: term_inv_def pool_defs)
next
  case mv_destroy
  then have "\<forall>t < length (tp_callers st). posts_term (tp_callers st ! t) \<and> tp_callers st ! t = Away"
    by (metis nth_mem posts_term.simps(3))
  then show ?thesis
    using mv_destroy assms(3) by (auto simp: term_inv_def)
next
  case mv_join
  have away: "\<forall>pc \<in> set (tp_callers st). pc = Away"
  proof
    fix pc assume "pc \<in> set (tp_callers st)"
    then obtain t where "t < length (tp_callers st)" "pc = tp_callers st ! t"
      by (auto simp: in_set_conv_nth)
    then show "pc = Away" using assms(3) mv_join by (cases "t = 0") (auto simp: term_inv_def caller_at_def)
  qed
  have "tally caller_terms (tp_callers st) = 0" using tally_all [OF away, of caller_terms] by simp
  then show ?thesis
    using assms(3) mv_join away by (simp add: term_inv_def)
qed (insert assms(3) joined_stays [OF assms(3,4)], (cases "tp_pc st";
    auto simp: term_inv_def pool_defs am_terminate_msg_def is_terminate_def nth_list_update)+)


section \<open>What was handled\<close>

fun in_hand :: "worker_pc \<Rightarrow> async_msg list" where
  "in_hand (Took m) = [m]"
| "in_hand (Process m) = [m]"
| "in_hand _ = []"

definition handled_inv :: "platform \<Rightarrow> log_state \<Rightarrow> thread_pool \<Rightarrow> bool" where
  "handled_inv os w st \<longleftrightarrow>
     (\<forall>m. int (count_list (tp_taken st) m) =
        int (count_list (tp_handled st) m) + tally (\<lambda>pc. count_list (in_hand pc) m) (tp_workers st)) \<and>
     (\<forall>pc. tp_workers st = [pc] \<longrightarrow> tp_taken st = tp_handled st @ in_hand pc) \<and>
     tp_world st = fold (process_msg os) (tp_handled st) (Some w)"

lemma handled_upd:
  assumes "handled_inv os w st" "worker_at st k pc0" "in_hand pc0 @ a = b @ in_hand y"
    and "tp_workers st' = (tp_workers st)[k := y]" "tp_taken st' = tp_taken st @ a"
    and "tp_handled st' = tp_handled st @ b"
    and "tp_world st' = fold (process_msg os) b (tp_world st)"
  shows "handled_inv os w st'"
proof -
  have k: "k < length (tp_workers st)" "tp_workers st ! k = pc0"
    using assms(2) by (simp_all add: worker_at_def)
  have "count_list (in_hand pc0) m + count_list a m = count_list b m + count_list (in_hand y) m" for m
    using arg_cong [OF assms(3), of "\<lambda>xs. count_list xs m"] by simp
  then have "int (count_list (tp_taken st') m) =
      int (count_list (tp_handled st') m) + tally (\<lambda>pc. count_list (in_hand pc) m) (tp_workers st')" for m
    using assms(1,4-6) k by (simp add: handled_inv_def) (smt (verit) of_nat_add)
  moreover have "tp_taken st' = tp_handled st' @ in_hand pc" if "tp_workers st' = [pc]" for pc
  proof -
    have "length (tp_workers st) = 1" using that assms(4) by (metis length_list_update length_Cons list.size(3) One_nat_def)
    then have "tp_workers st = [pc0]" "k = 0" using k by (auto simp: length_Suc_conv)
    then show ?thesis using assms(1,3-6) that by (simp add: handled_inv_def)
  qed
  ultimately show ?thesis using assms(1,6,7) by (simp add: handled_inv_def)
qed

lemma handled_same:
  "handled_inv os w st \<Longrightarrow> tp_workers st' = tp_workers st \<Longrightarrow> tp_taken st' = tp_taken st \<Longrightarrow>
    tp_handled st' = tp_handled st \<Longrightarrow> tp_world st' = tp_world st \<Longrightarrow> handled_inv os w st'"
  by (simp add: handled_inv_def)

lemma handled_inv_move:
  assumes "handled_inv os w st" "pool_move os st l st'"
  shows "handled_inv os w st'"
  using assms(2)
proof cases
  case (mv_wake t k)
  then show ?thesis using handled_upd [OF assms(1) mv_wake(4), of "[]" "[]" Loop st'] by (simp add: pool_defs)
next
  case (mv_idle k)
  then show ?thesis using handled_upd [OF assms(1) mv_idle(3), of "[]" "[]" Asleep st'] by (simp add: pool_defs)
next
  case (mv_again k)
  then show ?thesis using handled_upd [OF assms(1) mv_again(3), of "[]" "[]" Loop st'] by (simp add: pool_defs)
next
  case (mv_take k)
  then obtain pc0 where "worker_at st k pc0" "in_hand pc0 = []" by auto
  then show ?thesis
    using handled_upd [OF assms(1), of k pc0 "[cq_front (tp_q st)]" "[]" "Took (cq_front (tp_q st))" st'] mv_take
    by (simp add: pool_defs)
next
  case (mv_no_room k m)
  then show ?thesis using handled_upd [OF assms(1) mv_no_room(3), of "[]" "[]" "Process m" st'] by (simp add: pool_defs)
next
  case (mv_room k m t m')
  then show ?thesis using handled_upd [OF assms(1) mv_room(3), of "[]" "[]" "Process m" st'] by (simp add: pool_defs)
next
  case (mv_handle k m)
  then show ?thesis
    using handled_upd [OF assms(1) mv_handle(3), of "[]" "[m]" "if is_terminate m then Done else Loop" st']
    by (simp add: pool_defs)
next
  case (mv_expire k)
  then show ?thesis using handled_upd [OF assms(1) mv_expire(3), of "[]" "[]" Expired st'] by (simp add: pool_defs)
next
  case (mv_wake_worker k)
  then show ?thesis using handled_upd [OF assms(1) mv_wake_worker(3), of "[]" "[]" Loop st'] by (simp add: pool_defs)
qed (rule handled_same [OF assms(1)]; simp add: pool_defs)+

section \<open>Progress\<close>

text \<open>A bound on the steps the threads can make of themselves.\<close>

fun caller_weight :: "caller_pc \<Rightarrow> nat" where
  "caller_weight Away = 0"
| "caller_weight (Enqueue m policy) = 7"
| "caller_weight (Waiting m) = 6"
| "caller_weight Notify = 2"

fun worker_weight :: "worker_pc \<Rightarrow> nat" where
  "worker_weight Loop = 1"
| "worker_weight Asleep = 0"
| "worker_weight Expired = 2"
| "worker_weight (Took m) = 4"
| "worker_weight (Process m) = 2"
| "worker_weight Done = 0"

fun pc_weight :: "pool_pc \<Rightarrow> nat" where
  "pc_weight Alive = 0"
| "pc_weight (Terminating k) = 8 * k + 1"
| "pc_weight Joined = 0"

definition potential :: "thread_pool \<Rightarrow> nat" where
  "potential st = nat (tally caller_weight (tp_callers st) + tally worker_weight (tp_workers st)) +
     4 * length (queued st) + pc_weight (tp_pc st)"

lemma int_potential:
  "int (potential st) = tally caller_weight (tp_callers st) + tally worker_weight (tp_workers st) +
     4 * int (length (queued st)) + int (pc_weight (tp_pc st))"
  by (simp add: potential_def del: length_cq_items)

lemma own_step_decreases:
  assumes "queue_inv cap n st" "pool_move os st l st'" "own_step l"
  shows "potential st' < potential st"
proof -
  have "int (potential st') < int (potential st)"
    unfolding int_potential
    using assms(2,3)
  proof cases
    case (mv_push t m policy)
    then show "tally caller_weight (tp_callers st') + tally worker_weight (tp_workers st') +
        4 * int (length (queued st')) + int (pc_weight (tp_pc st')) <
      tally caller_weight (tp_callers st) + tally worker_weight (tp_workers st) +
        4 * int (length (queued st)) + int (pc_weight (tp_pc st))"
      using length_queued_push [OF assms(1), of m] by (simp add: pool_defs del: length_cq_items split: if_splits)
  next
    case (mv_take k)
    then show "tally caller_weight (tp_callers st') + tally worker_weight (tp_workers st') +
        4 * int (length (queued st')) + int (pc_weight (tp_pc st')) <
      tally caller_weight (tp_callers st) + tally worker_weight (tp_workers st) +
        4 * int (length (queued st)) + int (pc_weight (tp_pc st))"
      using length_queued_pop [OF assms(1)] by (auto simp: pool_defs simp del: length_cq_items)
  qed (auto simp: pool_defs nth_list_update simp del: length_cq_items)
  then show ?thesis by simp
qed

lemma caller_steps:
  assumes "t < length (tp_callers st)" "tp_callers st ! t \<noteq> Away" "\<not> waits (tp_callers st ! t)"
  shows "\<exists>l st'. own_step l \<and> pool_exec os l st = Some st'"
proof (cases "tp_callers st ! t")
  case (Enqueue m policy)
  then show ?thesis using assms by (intro exI [of _ "Try t"]) simp
next
  case Notify
  show ?thesis
  proof (cases "Asleep \<in> set (tp_workers st)")
    case True
    then obtain k where "worker_at st k Asleep" by (auto simp: in_set_conv_nth worker_at_def)
    then show ?thesis using True Notify assms by (intro exI [of _ "Signal t k"]) (simp add: caller_at_def)
  next
    case False
    then show ?thesis using Notify assms by (intro exI [of _ "Signal t 0"]) (simp add: caller_at_def)
  qed
qed (use assms in simp_all)

lemma worker_steps:
  assumes "k < length (tp_workers st)" "tp_workers st ! k \<notin> {Asleep, Done}"
  shows "\<exists>l st'. own_step l \<and> pool_exec os l st = Some st'"
proof (cases "tp_workers st ! k")
  case (Took m)
  show ?thesis
  proof (cases "\<exists>pc \<in> set (tp_callers st). waits pc")
    case True
    then obtain t m' where "t < length (tp_callers st)" "tp_callers st ! t = Waiting m'"
      by (auto simp: in_set_conv_nth)
    then show ?thesis
      using Took assms True by (intro exI [of _ "Signal_room k t"]) auto
  next
    case False
    then show ?thesis using Took assms by (intro exI [of _ "Signal_room k 0"]) auto
  qed
next
  case (Process m)
  then show ?thesis using assms by (intro exI [of _ "Handle k"]) simp
qed (use assms in \<open>auto simp: worker_at_def intro!: exI [of _ "Take k"]\<close>)


section \<open>Reachable pools\<close>

definition pool_inv :: "platform \<Rightarrow> nat \<Rightarrow> nat \<Rightarrow> nat \<Rightarrow> log_state \<Rightarrow> thread_pool \<Rightarrow> bool" where
  "pool_inv os cap n c w st \<longleftrightarrow>
     queue_inv cap n st \<and> wake_inv st \<and> room_inv cap st \<and> order_inv st \<and> term_inv st \<and>
     handled_inv os w st \<and> length (tp_callers st) = c \<and> 0 < n"

lemma replicate_single: "replicate n x = [y] \<longleftrightarrow> n = 1 \<and> y = x"
  by (cases n) auto

lemma pool_inv_new:
  assumes "thread_pool_new cap n c w = Inr st" "cap < 2 ^ 64 - 1"
  shows "pool_inv os cap n c w st" "block_inv st"
  using assms cq_new_inv [OF assms(2), of am_terminate_msg]
  by (auto simp: thread_pool_new_def pool_inv_def queue_inv_def wake_inv_def room_inv_def order_inv_def
      term_inv_def handled_inv_def block_inv_def cq_new_def Let_def length_Suc_conv
      replicate_single simp del: length_cq_items split: if_splits)

lemma move_callers: "pool_move os st l st' \<Longrightarrow> length (tp_callers st') = length (tp_callers st)"
  by (erule pool_move.cases) (simp_all add: pool_defs)

lemma pool_inv_move:
  assumes "pool_inv os cap n c w st" "0 < cap" "pool_move os st l st'"
  shows "pool_inv os cap n c w st'"
  using assms queue_inv_move wake_inv_move room_inv_move order_inv_move term_inv_move
    handled_inv_move move_callers
  unfolding pool_inv_def by metis

lemma reach_inv:
  assumes "pool_reach os ps cap n c w st" "0 < cap" "cap < 2 ^ 64 - 1"
  shows "pool_inv os cap n c w st"
  using assms(1)
proof induction
  case (pool_new st)
  then show ?case using pool_inv_new(1) assms(3) by blast
next
  case (pool_step st l st')
  then show ?case using pool_inv_move assms(2) exec_move by blast
qed

lemma reach_block:
  assumes "pool_reach os {Block} cap n c w st" "0 < cap" "cap < 2 ^ 64 - 1"
  shows "block_inv st"
  using assms(1)
proof induction
  case (pool_new st)
  then show ?case using pool_inv_new(2) assms(3) by blast
next
  case (pool_step st l st')
  then have "queue_inv cap n st" using reach_inv assms(2,3) by (auto simp: pool_inv_def)
  with pool_step show ?case using block_inv_move assms(2) exec_move by blast
qed

lemma tally_full:
  "(\<And>x. x \<in> set xs \<Longrightarrow> f x \<le> 1) \<Longrightarrow> tally f xs = int (length xs) \<Longrightarrow> x \<in> set xs \<Longrightarrow> f x = 1"
proof (induction xs)
  case (Cons y ys)
  have "tally f zs \<le> int (length zs)" if "\<And>x. x \<in> set zs \<Longrightarrow> f x \<le> 1" for zs
    using that by (induction zs) force+
  from this [of ys] Cons.prems(1) have le: "tally f ys \<le> int (length ys)" "f y \<le> 1" by simp_all
  have "int (f y) + tally f ys = int (length ys) + 1" using Cons.prems(2) by simp
  with le have "f y = 1" "tally f ys = int (length ys)" by linarith+
  then show ?case using Cons.IH Cons.prems(1,3) by auto
qed simp

lemma worker_terms_le: "worker_terms pc \<le> 1"
  by (cases pc) simp_all

lemma joined_drained:
  assumes "pool_inv os cap n c w st" "tp_pc st = Joined"
  shows "queued st = []" "\<forall>m. count_list (tp_handled st) m = count_list (tp_taken st) m"
proof -
  have t: "term_inv st" and n: "0 < length (tp_workers st)"
    and fin: "\<forall>pc \<in> set (tp_workers st). pc = Done"
    using assms by (auto simp: pool_inv_def queue_inv_def term_inv_def)
  have "tally worker_terms (tp_workers st) = int (length (tp_workers st))"
    using tally_all [OF fin, of worker_terms] by simp
  then have "terms (tp_taken st) = length (tp_workers st)" "terms (queued st) = 0"
    using t assms(2) by (auto simp: term_inv_def)
  then show "queued st = []"
    using t n terms_last_append [of "tp_taken st" "queued st"]
    by (metis length_0_conv term_inv_def)
  have "tally (\<lambda>pc. count_list (in_hand pc) m) (tp_workers st) = 0" for m
    using fin by (auto simp: tally_zero)
  then show "\<forall>m. count_list (tp_handled st) m = count_list (tp_taken st) m"
    using assms(1) by (auto simp: pool_inv_def handled_inv_def)
qed

lemma stuck_is_idle:
  assumes inv: "pool_inv os cap n c w st" and pos: "0 < cap" "0 < c"
    and stuck: "\<And>l st'. own_step l \<Longrightarrow> pool_exec os l st \<noteq> Some st'"
  shows "queued st = [] \<and> (\<forall>pc \<in> set (tp_callers st). pc = Away) \<and> (\<forall>k. tp_pc st \<noteq> Terminating k)"
proof -
  have q: "queue_inv cap n st" and t: "term_inv st" and len: "length (tp_workers st) = n" "0 < n"
    "length (tp_callers st) = c"
    using inv by (simp_all add: pool_inv_def queue_inv_def)
  have callers: "pc = Away \<or> waits pc" if "pc \<in> set (tp_callers st)" for pc
    using that caller_steps stuck by (metis in_set_conv_nth)
  have workers: "pc \<in> {Asleep, Done}" if "pc \<in> set (tp_workers st)" for pc
    using that worker_steps stuck by (metis in_set_conv_nth)
  have "tally notifies (tp_callers st) = 0" "tally tries (tp_callers st) = 0"
    "tally looks (tp_workers st) = 0" "tally signals_room (tp_workers st) = 0"
    using callers workers by (fastforce simp: tally_zero)+
  then have asleep: "Asleep \<in> set (tp_workers st) \<Longrightarrow> queued st = []"
    and room: "\<exists>pc \<in> set (tp_callers st). waits pc \<Longrightarrow> cap \<le> length (queued st)"
    using inv by (auto simp: pool_inv_def wake_inv_def room_inv_def simp del: length_cq_items)
  have away: "\<forall>pc \<in> set (tp_callers st). pc = Away" if "queued st = []"
    using callers room pos(1) that by fastforce
  show ?thesis
  proof (cases "tp_pc st")
    case Alive
    then have "tally worker_terms (tp_workers st) = 0" using t by (simp add: term_inv_def)
    then have "Done \<notin> set (tp_workers st)" by (auto simp: tally_zero)
    then have "Asleep \<in> set (tp_workers st)" using workers len by (metis insertE length_0_conv
          list.set_sel(1) not_gr_zero singletonD)
    then show ?thesis using asleep away Alive by simp
  next
    case (Terminating k)
    have False
    proof (cases "Asleep \<in> set (tp_workers st)")
      case True
      then have e: "queued st = []" "\<forall>pc \<in> set (tp_callers st). pc = Away" using asleep away by simp_all
      then have c0: "caller_at st 0 Away" using pos(2) len by (simp add: caller_at_def)
      then have "k = 0" using stuck [of Terminate] Terminating by (cases k) auto
      moreover have "tally caller_terms (tp_callers st) = 0" using tally_all [OF e(2), of caller_terms] by simp
      ultimately have "tally worker_terms (tp_workers st) = int (length (tp_workers st))"
        using t Terminating e by (simp add: term_inv_def)
      then have "worker_terms Asleep = 1" using tally_full [of "tp_workers st" worker_terms Asleep] worker_terms_le True by blast
      then show False by simp
    next
      case False
      then have all: "\<forall>pc \<in> set (tp_workers st). pc = Done" using workers by blast
      then have "tally worker_terms (tp_workers st) = int (length (tp_workers st))"
        using tally_all [OF all, of worker_terms] by simp
      then have "int k + int (terms (queued st)) + tally caller_terms (tp_callers st) = 0"
        using t Terminating by (auto simp: term_inv_def)
      then have z: "k = 0" "tally caller_terms (tp_callers st) = 0"
        using tally_nonneg [of caller_terms "tp_callers st"] by linarith+
      have "\<forall>pc \<in> set (tp_callers st). posts_term pc"
        using t Terminating by (auto simp: term_inv_def in_set_conv_nth)
      then have "\<forall>pc \<in> set (tp_callers st). pc = Away"
        using callers z(2) by (fastforce simp: tally_zero)
      then have "caller_at st 0 Away" using pos(2) len by (simp add: caller_at_def)
      then show False using stuck [of Join "st\<lparr>tp_pc := Joined\<rparr>"] Terminating all z by simp
    qed
    then show ?thesis ..
  next
    case Joined
    then show ?thesis using joined_drained(1) [OF inv] t by (simp add: term_inv_def)
  qed
qed


section \<open>Runs of the threads themselves\<close>

lemma own_step_policy: "own_step l \<Longrightarrow> uses_policy ps l"
  by (cases l) simp_all

lemma leaves_alive: "pool_move os st l st' \<Longrightarrow> tp_pc st \<noteq> Alive \<Longrightarrow> tp_pc st' \<noteq> Alive"
  by (erule pool_move.cases) (simp_all add: pool_defs)

lemma own_run:
  assumes "0 < cap" "cap < 2 ^ 64 - 1"
  shows "pool_reach os ps cap n c w st \<Longrightarrow> \<forall>l \<in> set ls. own_step l \<Longrightarrow> pool_run os ls st = Some st' \<Longrightarrow>
    pool_reach os ps cap n c w st' \<and> potential st' + length ls \<le> potential st \<and>
    (tp_pc st \<noteq> Alive \<longrightarrow> tp_pc st' \<noteq> Alive)"
proof (induction ls arbitrary: st)
  case (Cons l ls)
  then obtain st1 where e: "pool_exec os l st = Some st1" "pool_run os ls st1 = Some st'"
    by (auto split: option.splits)
  have r: "pool_reach os ps cap n c w st1"
    using Cons.prems e(1) own_step_policy by (auto intro: pool_step)
  have "queue_inv cap n st" using reach_inv [OF Cons.prems(1) assms] by (simp add: pool_inv_def)
  then have "potential st1 < potential st"
    using own_step_decreases exec_move [OF e(1)] Cons.prems(2) by simp
  with Cons.IH [OF r _ e(2)] Cons.prems(2) leaves_alive [OF exec_move [OF e(1)]] show ?case by auto
qed simp

section \<open>A small pool\<close>

lemma pool_reach_run:
  "pool_reach os ps cap n c w st \<Longrightarrow> \<forall>l \<in> set ls. uses_policy ps l \<Longrightarrow> pool_run os ls st = Some st' \<Longrightarrow>
    pool_reach os ps cap n c w st'"
  by (induction ls arbitrary: st) (auto split: option.splits intro: pool_step)

definition sample_log :: log_state where
  "sample_log = \<lparr>ls_sinks = Map.empty, ls_loggers = [0 \<mapsto> spd_logger_new ''a'' []],
     ls_io = \<lparr>io_disk = sample_disk, io_console = []\<rparr>, ls_errors = [], ls_err_counter = 0,
     ls_last_report = 0\<rparr>"

definition sample_pool :: thread_pool where
  "sample_pool = \<lparr>tp_q = cq_new am_terminate_msg 1, tp_callers = [Away], tp_workers = [Loop],
     tp_pc = Alive, tp_world = Some sample_log, tp_posted = [], tp_taken = [], tp_handled = []\<rparr>"

lemma sample_pool_reach: "pool_reach os ps 1 1 1 sample_log sample_pool"
  by (rule pool_new) (simp add: thread_pool_new_def sample_pool_def)

abbreviation sample_post :: "nat \<Rightarrow> pool_label list" where
  "sample_post l \<equiv> [Post 0 (am_flush_msg l) Block, Try 0, Signal 0 0]"

abbreviation sample_end :: "pool_label list" where
  "sample_end \<equiv> [Terminate, Take 0, Signal_room 0 0, Handle 0, Try 0, Signal 0 0, Take 0,
     Signal_room 0 0, Handle 0, Join]"

lemmas sample_exec = sample_pool_def mq_push_def mq_take_def cq_new_def cq_defs am_flush_msg_def
  am_terminate_msg_def is_terminate_def caller_at_def worker_at_def set_caller_def set_worker_def Let_def

lemma sample_posted: "\<exists>st. pool_run os (sample_post 0) sample_pool = Some st \<and>
    queued st = [am_flush_msg 0] \<and> tp_callers st = [Away] \<and> tp_pc st = Alive"
  by (simp add: sample_exec cq_items_def)

lemma sample_destroyed: "\<exists>st. pool_run os (sample_post 0 @ [Destroy]) sample_pool = Some st \<and>
    tp_pc st = Terminating 1 \<and> (\<exists>st'. pool_run os sample_end st = Some st' \<and> tp_pc st' = Joined \<and>
      tp_posted st' = [am_flush_msg 0, am_terminate_msg])"
  by (simp add: sample_exec)

section \<open>Properties\<close>





text \<open>C20: with the blocking policy and one worker, which is what the factory makes, an asynchronous
  logger writes the log of a synchronous one: at every moment the sinks are in the state that
  the first messages posted lead to when they are handled one after the other, in the order of
  posting, and once the pool is destroyed these are all messages posted.\<close>

theorem async_logs_in_order:
  assumes "pool_reach os {Block} cap 1 c w st" "0 < cap" "cap < 2 ^ 64 - 1"
  shows "prefix (tp_handled st) (tp_posted st) \<and>
    tp_world st = fold (process_msg os) (tp_handled st) (Some w) \<and>
    (tp_pc st = Joined \<longrightarrow> tp_handled st = tp_posted st)"
proof -
  note inv = reach_inv [OF assms]
  then have h: "handled_inv os w st" and "length (tp_workers st) = 1"
    by (simp_all add: pool_inv_def queue_inv_def)
  then obtain pc where pc: "tp_workers st = [pc]" by (auto simp: length_Suc_conv)
  then have "tp_taken st = tp_handled st @ in_hand pc" using h by (simp add: handled_inv_def)
  moreover have posted: "tp_taken st @ queued st = tp_posted st"
    using reach_block [OF assms] by (simp add: block_inv_def)
  ultimately have "tp_posted st = tp_handled st @ in_hand pc @ queued st" by simp
  moreover have "in_hand pc = [] \<and> queued st = []" if "tp_pc st = Joined"
    using inv that pc joined_drained(1) [OF inv that] by (auto simp: pool_inv_def term_inv_def)
  ultimately show ?thesis using h by (auto simp: handled_inv_def)
qed

theorem async_logs_in_order_witness:
  "\<exists>st st'. pool_run sample_os (sample_post 0 @ [Destroy]) sample_pool = Some st \<and>
    pool_run sample_os sample_end st = Some st' \<and>
    tp_handled st' = [am_flush_msg 0, am_terminate_msg]"
proof -
  obtain st st' where st: "pool_run sample_os (sample_post 0 @ [Destroy]) sample_pool = Some st"
    "pool_run sample_os sample_end st = Some st'" "tp_pc st' = Joined"
    "tp_posted st' = [am_flush_msg 0, am_terminate_msg]"
    using sample_destroyed by blast
  have "pool_reach sample_os {Block} 1 1 1 sample_log st"
    by (rule pool_reach_run [OF sample_pool_reach _ st(1)]) simp
  then have "pool_reach sample_os {Block} 1 1 1 sample_log st'"
    by (rule pool_reach_run [OF _ _ st(2)]) simp
  from async_logs_in_order [OF this] st show ?thesis by auto
qed

text \<open>Whatever the policies, the queue holds the last messages posted, at most as many as it
  was made for; what was taken out and what it holds is what was posted in the same order, less
  the messages overrun, and the counter tells their number.\<close>

theorem overrun_loses_oldest:
  assumes "pool_reach os ps cap n c w st" "0 < cap" "cap < 2 ^ 64 - 1"
  shows "suffix (queued st) (tp_posted st) \<and> length (queued st) \<le> cap \<and>
    subseq (tp_taken st @ queued st) (tp_posted st) \<and>
    cq_overrun (tp_q st) = (length (tp_posted st) - length (tp_taken st @ queued st)) mod 2 ^ 64"
proof -
  have "queue_inv cap n st" "order_inv st" using reach_inv [OF assms] by (simp_all add: pool_inv_def)
  then show ?thesis using queued_bound by (auto simp: order_inv_def simp del: length_cq_items)
qed

theorem overrun_loses_oldest_witness:
  "\<exists>st. pool_run sample_os [Post 0 (am_flush_msg 5) Overrun_oldest, Try 0, Signal 0 0,
      Post 0 (am_flush_msg 6) Overrun_oldest, Try 0] sample_pool = Some st \<and>
    queued st = [am_flush_msg 6] \<and> suffix (queued st) (tp_posted st) \<and> cq_overrun (tp_q st) = 1"
proof -
  let ?ls = "[Post 0 (am_flush_msg 5) Overrun_oldest, Try 0, Signal 0 0,
      Post 0 (am_flush_msg 6) Overrun_oldest, Try 0]"
  obtain st where st: "pool_run sample_os ?ls sample_pool = Some st"
    "queued st = [am_flush_msg 6]" "cq_overrun (tp_q st) = 1"
    by (simp add: sample_exec cq_items_def)
  have "pool_reach sample_os {Overrun_oldest} 1 1 1 sample_log st"
    by (rule pool_reach_run [OF sample_pool_reach _ st(1)]) simp
  from overrun_loses_oldest [OF this] st show ?thesis by auto
qed

text \<open>Logging with an asynchronous logger and handling the message it posts does what the same
  call of a synchronous logger does; without a pool the message is lost and the error handler
  is told.\<close>

theorem async_log_is_post:
  assumes "ls_loggers w l = Some lg" "\<not> bt_enabled (lo_tracer lg)"
  shows "(case async_log True tid l loc lvl payload w of
      None \<Rightarrow> False
    | Some (None, w') \<Rightarrow> logger_log os tid l loc lvl payload w = Some w'
    | Some (Some m, w') \<Rightarrow> process_msg os m (Some w') = logger_log os tid l loc lvl payload w) \<and>
    (should_log lvl lg \<longrightarrow> async_log False tid l loc lvl payload w = Some (None, err_handler lg
      (catch_text loc ''async log: thread pool doesn't exist anymore'') (snd (ls_now w))))"
proof -
  obtain now w1 where now: "ls_now w = (now, w1)" by fastforce
  have "ls_loggers w1 = ls_loggers w" using now by (auto simp: ls_now_def Let_def split: prod.splits)
  then show ?thesis
    using assms now
    by (auto simp: async_log_def logger_log_def log_it_def async_sink_it_def process_msg_def am_log_msg_def
        backend_sink_it_def Let_def option.map_ident)
qed

theorem async_log_is_post_witness:
  "async_log False 7 0 no_source Level_critical ''x'' sample_log = Some (None,
     err_handler (spd_logger_new ''a'' [])
       (catch_text no_source ''async log: thread pool doesn't exist anymore'') (snd (ls_now sample_log)))"
proof -
  have "ls_loggers sample_log 0 = Some (spd_logger_new ''a'' [])"
    "\<not> bt_enabled (lo_tracer (spd_logger_new ''a'' []))"
    "should_log Level_critical (spd_logger_new ''a'' [])"
    by (simp_all add: sample_log_def spd_logger_new_def backtracer_new_def should_log_def less_eq_level_enum_def)
  from async_log_is_post [OF this(1,2)] this(3) show ?thesis by blast
qed

end
