(* ===== verification/Spd_Sinks.thy ===== *)
theory Spd_Sinks
  imports Spd_Logger
begin

text \<open>
  The sinks the program does not use (\<^verbatim>\<open>sinks/rotating_file_sink-inl.h\<close>,
  \<^verbatim>\<open>sinks/hourly_file_sink.h\<close>, \<^verbatim>\<open>sinks/basic_file_sink-inl.h\<close>, \<^verbatim>\<open>sinks/dist_sink.h\<close>,
  \<^verbatim>\<open>sinks/dup_filter_sink.h\<close>, \<^verbatim>\<open>sinks/ringbuffer_sink.h\<close>, \<^verbatim>\<open>sinks/ostream_sink.h\<close>,
  \<^verbatim>\<open>sinks/null_sink.h\<close> of \<^verbatim>\<open>contrib/spdlog/include/spdlog\<close>).  As for the daily sink, an operation
  returns the text of its exception or \<^term>\<open>None\<close>, and the result as a whole is \<^term>\<open>None\<close> where
  the behaviour is undefined.
\<close>

section \<open>Format and write\<close>

text \<open>The formatter and the file a sink writes with.\<close>

record sink_base =
  sb_formatter :: pattern_formatter
  sb_level :: level_enum

definition sink_base_new :: "platform \<Rightarrow> sink_base" where
  "sink_base_new os =
     \<lparr>sb_formatter = default_formatter Time_local (os_default_eol os), sb_level = Level_trace\<rparr>"

section \<open>One file\<close>

record basic_sink = sink_base +
  bs_file :: file_helper

definition basic_sink_new :: "platform \<Rightarrow> string \<Rightarrow> bool \<Rightarrow> disk \<Rightarrow> (string + basic_sink) \<times> disk" where
  "basic_sink_new os filename trunc d =
     (case fh_open_file os filename trunc fh_new d of
        (Some e, file, d) \<Rightarrow> (Inl e, d)
      | (None, file, d) \<Rightarrow>
          (Inr (sink_base.extend (sink_base_new os) \<lparr>bs_file = file\<rparr>), d))"

definition basic_sink_it ::
  "platform \<Rightarrow> log_msg \<Rightarrow> basic_sink \<Rightarrow> disk \<Rightarrow> (string option \<times> basic_sink \<times> disk) option" where
  "basic_sink_it os msg s d =
     (case pf_format os (sb_formatter s) msg [] of
        None \<Rightarrow> Some (Some ''formatter'', s, d)
      | Some (pf, msg, formatted) \<Rightarrow>
          map_option (\<lambda>(e, file, d). (e, s\<lparr>sb_formatter := pf, bs_file := file\<rparr>, d))
            (fh_write formatted (bs_file s) d))"

definition basic_flush :: "basic_sink \<Rightarrow> disk \<Rightarrow> basic_sink \<times> disk" where
  "basic_flush s d = (let (file, d) = fh_flush (bs_file s) d in (s\<lparr>bs_file := file\<rparr>, d))"

section \<open>Files of a bounded size\<close>

record rotating_sink = sink_base +
  rt_base :: string
  rt_max_size :: nat
  rt_max_files :: nat
  rt_size :: nat
  rt_file :: file_helper

definition rt_filename :: "platform \<Rightarrow> string \<Rightarrow> nat \<Rightarrow> string" where
  "rt_filename os filename index =
     (if index = 0 then filename
      else let (basename, ext) = split_by_extension os filename
           in basename @ ''.'' @ show_nat index @ ext)"

definition rename_file :: "string \<Rightarrow> string \<Rightarrow> disk \<Rightarrow> bool \<times> disk" where
  "rename_file src target d = (let (_, d) = os_remove target d in os_rename src target d)"

text \<open>The loop of \<^verbatim>\<open>rotate_\<close>, from \<open>n\<close> down; the first result is the pair whose renaming failed
  twice.\<close>

primrec rt_shift :: "platform \<Rightarrow> string \<Rightarrow> nat \<Rightarrow> disk \<Rightarrow> (string \<times> string) option \<times> disk" where
  "rt_shift os base 0 d = (None, d)"
| "rt_shift os base (Suc i) d =
     (let src = rt_filename os base i in
      if \<not> path_exists src d then rt_shift os base i d
      else
        let target = rt_filename os base (Suc i);
            (ok, d) = rename_file src target d;
            (ok, d) = (if ok then (True, d) else rename_file src target d)
        in if ok then rt_shift os base i d else (Some (src, target), d))"

definition rt_rotate :: "platform \<Rightarrow> rotating_sink \<Rightarrow> disk \<Rightarrow> string option \<times> rotating_sink \<times> disk" where
  "rt_rotate os s d =
     (let (file, d) = fh_close (rt_file s) d;
          (failed, d) = rt_shift os (rt_base s) (rt_max_files s) d;
          (e, file, d) = fh_reopen os True file d;
          s = s\<lparr>rt_file := file\<rparr>
      in (case failed of
            None \<Rightarrow> (e, s, d)
          | Some (src, target) \<Rightarrow>
              (case e of
                 Some err \<Rightarrow> (Some err, s, d)
               | None \<Rightarrow>
                   (Some (''rotating_file_sink: failed renaming '' @ src @ '' to '' @ target),
                    s\<lparr>rt_size := 0\<rparr>, d))))"

text \<open>The constructor; a rotation at the start leaves \<^verbatim>\<open>current_size_\<close> as it is.  A file of
  \<open>2 ^ 64\<close> bytes is out of reach, so sizes are natural numbers.\<close>

definition rotating_sink_new ::
  "platform \<Rightarrow> string \<Rightarrow> nat \<Rightarrow> nat \<Rightarrow> bool \<Rightarrow> disk \<Rightarrow> (string + rotating_sink) \<times> disk" where
  "rotating_sink_new os base max_size max_files rotate_on_open d =
     (case fh_open_file os (rt_filename os base 0) False fh_new d of
        (Some e, file, d) \<Rightarrow> (Inl e, d)
      | (None, file, d) \<Rightarrow>
          (case fh_size file d of
             Inl e \<Rightarrow> (Inl e, d)
           | Inr current_size \<Rightarrow>
               let s = sink_base.extend (sink_base_new os)
                     \<lparr>rt_base = base, rt_max_size = max_size, rt_max_files = max_files,
                      rt_size = current_size, rt_file = file\<rparr>
               in if rotate_on_open \<and> 0 < current_size then
                    (case rt_rotate os s d of
                       (Some e, s, d) \<Rightarrow> (Inl e, d)
                     | (None, s, d) \<Rightarrow> (Inr s, d))
                  else (Inr s, d)))"

definition rotating_sink_it ::
  "platform \<Rightarrow> log_msg \<Rightarrow> rotating_sink \<Rightarrow> disk \<Rightarrow> (string option \<times> rotating_sink \<times> disk) option" where
  "rotating_sink_it os msg s d =
     (case pf_format os (sb_formatter s) msg [] of
        None \<Rightarrow> Some (Some ''formatter'', s, d)
      | Some (pf, msg, formatted) \<Rightarrow>
          let s = s\<lparr>sb_formatter := pf, rt_size := rt_size s + length formatted\<rparr>;
              (e, s, d) = (if rt_max_size s < rt_size s then
                             case rt_rotate os s d of
                               (Some err, s, d) \<Rightarrow> (Some err, s, d)
                             | (None, s, d) \<Rightarrow> (None, s\<lparr>rt_size := length formatted\<rparr>, d)
                           else (None, s, d))
          in (case e of
                Some err \<Rightarrow> Some (Some err, s, d)
              | None \<Rightarrow>
                  map_option (\<lambda>(e, file, d). (e, s\<lparr>rt_file := file\<rparr>, d))
                    (fh_write formatted (rt_file s) d)))"

definition rotating_flush :: "rotating_sink \<Rightarrow> disk \<Rightarrow> rotating_sink \<times> disk" where
  "rotating_flush s d = (let (file, d) = fh_flush (rt_file s) d in (s\<lparr>rt_file := file\<rparr>, d))"

section \<open>Files of an hour\<close>

record hourly_sink = sink_base +
  hs_base :: string
  hs_rotation :: int
  hs_file :: file_helper
  hs_truncate :: bool
  hs_max_files :: u16
  hs_names :: "string circular_q"

definition hourly_filename :: "platform \<Rightarrow> string \<Rightarrow> tm \<Rightarrow> string" where
  "hourly_filename os filename t =
     (let (basename, ext) = split_by_extension os filename
      in basename @ ''_'' @ zero_pad 4 (tm_year t + 1900) @ ''-'' @ zero_pad 2 (tm_mon t + 1) @
         ''-'' @ zero_pad 2 (tm_mday t) @ ''_'' @ zero_pad 2 (tm_hour t) @ ext)"

definition hour1 :: int where
  "hour1 = 3600 * seconds"

definition hourly_rotation_after :: "platform \<Rightarrow> int \<Rightarrow> int" where
  "hourly_rotation_after os now =
     (let date = (now_tm os now)\<lparr>tm_min := 0, tm_sec := 0\<rparr>;
          rotation_time = os_mktime os date * seconds
      in if now < rotation_time then rotation_time else rotation_time + hour1)"

definition hourly_next_rotation :: "platform \<Rightarrow> disk \<Rightarrow> int \<times> disk" where
  "hourly_next_rotation os d = (let (now, d) = dk_now d in (hourly_rotation_after os now, d))"

primrec hourly_names :: "platform \<Rightarrow> string \<Rightarrow> disk \<Rightarrow> nat \<Rightarrow> int \<Rightarrow> string list" where
  "hourly_names os base d 0 now = []"
| "hourly_names os base d (Suc n) now =
     (let filename = hourly_filename os base (now_tm os now) in
      if path_exists filename d then filename # hourly_names os base d n (now - hour1) else [])"

definition hourly_init_names :: "platform \<Rightarrow> hourly_sink \<Rightarrow> disk \<Rightarrow> hourly_sink \<times> disk" where
  "hourly_init_names os s d =
     (let (now, d) = dk_now d;
          names = hourly_names os (hs_base s) d (unat (hs_max_files s)) now
      in (s\<lparr>hs_names := fold cq_push_back (rev names) (cq_new [] (unat (hs_max_files s)))\<rparr>, d))"

definition hourly_sink_new ::
  "platform \<Rightarrow> string \<Rightarrow> bool \<Rightarrow> u16 \<Rightarrow> disk \<Rightarrow> (string + hourly_sink) \<times> disk" where
  "hourly_sink_new os base trunc max_files d =
     (let (now, d) = dk_now d in
      case fh_open_file os (hourly_filename os base (now_tm os now)) trunc fh_new d of
        (Some e, file, d) \<Rightarrow> (Inl e, d)
      | (None, file, d) \<Rightarrow>
          let (tp, d) = hourly_next_rotation os d;
              s = sink_base.extend (sink_base_new os)
                \<lparr>hs_base = base, hs_rotation = tp, hs_file = file, hs_truncate = trunc,
                 hs_max_files = max_files, hs_names = cq_disabled\<rparr>;
              (s, d) = (if 0 < max_files then hourly_init_names os s d else (s, d))
          in (Inr s, d))"

definition hourly_delete_old :: "hourly_sink \<Rightarrow> disk \<Rightarrow> string option \<times> hourly_sink \<times> disk" where
  "hourly_delete_old s d =
     (let current_file = fh_filename (hs_file s);
          push = (\<lambda>s. s\<lparr>hs_names := cq_push_back current_file (hs_names s)\<rparr>)
      in if cq_full (hs_names s) then
           let old_filename = cq_front (hs_names s);
               s = s\<lparr>hs_names := cq_pop_front (hs_names s)\<rparr>;
               (ok, d) = remove_if_exists old_filename d
           in if ok then (None, push s, d)
              else (Some (''Failed removing hourly file '' @ old_filename), push s, d)
         else (None, push s, d))"

definition hourly_write ::
  "platform \<Rightarrow> bool \<Rightarrow> log_msg \<Rightarrow> hourly_sink \<Rightarrow> disk \<Rightarrow>
   (string option \<times> hourly_sink \<times> disk) option" where
  "hourly_write os should_rotate msg s d =
     (case pf_format os (sb_formatter s) msg [] of
        None \<Rightarrow> Some (Some ''formatter'', s, d)
      | Some (pf, msg, formatted) \<Rightarrow>
          (case fh_write formatted (hs_file s) d of
             None \<Rightarrow> None
           | Some (e, file, d) \<Rightarrow>
               let s = s\<lparr>sb_formatter := pf, hs_file := file\<rparr> in
               (case e of
                  Some err \<Rightarrow> Some (Some err, s, d)
                | None \<Rightarrow>
                    if should_rotate \<and> 0 < hs_max_files s then Some (hourly_delete_old s d)
                    else Some (None, s, d))))"

definition hourly_sink_it ::
  "platform \<Rightarrow> log_msg \<Rightarrow> hourly_sink \<Rightarrow> disk \<Rightarrow> (string option \<times> hourly_sink \<times> disk) option" where
  "hourly_sink_it os msg s d =
     (let should_rotate = hs_rotation s \<le> lm_time msg in
      if should_rotate then
        let (e, file, d) =
              fh_open_file os (hourly_filename os (hs_base s) (now_tm os (lm_time msg)))
                (hs_truncate s) (hs_file s) d;
            s = s\<lparr>hs_file := file\<rparr>
        in (case e of
              Some err \<Rightarrow> Some (Some err, s, d)
            | None \<Rightarrow>
                let (tp, d) = hourly_next_rotation os d
                in hourly_write os True msg (s\<lparr>hs_rotation := tp\<rparr>) d)
      else hourly_write os False msg s d)"

definition hourly_flush :: "hourly_sink \<Rightarrow> disk \<Rightarrow> hourly_sink \<times> disk" where
  "hourly_flush s d = (let (file, d) = fh_flush (hs_file s) d in (s\<lparr>hs_file := file\<rparr>, d))"

section \<open>The last messages\<close>

record ring_sink = sink_base +
  rb_q :: "log_msg circular_q"

definition ring_sink_new :: "platform \<Rightarrow> nat \<Rightarrow> ring_sink" where
  "ring_sink_new os n_items =
     sink_base.extend (sink_base_new os) \<lparr>rb_q = cq_new blank_msg n_items\<rparr>"

definition ring_sink_it :: "log_msg \<Rightarrow> ring_sink \<Rightarrow> ring_sink" where
  "ring_sink_it msg s = s\<lparr>rb_q := cq_push_back msg (rb_q s)\<rparr>"

definition last_raw :: "nat \<Rightarrow> ring_sink \<Rightarrow> log_msg list" where
  "last_raw lim s =
     (let items_available = cq_size (rb_q s);
          n_items = (if 0 < lim then min lim items_available else items_available)
      in map (cq_at (rb_q s)) [items_available - n_items..<items_available])"

text \<open>The formatter and the messages of the queue change with the formatting.\<close>

primrec format_all ::
  "platform \<Rightarrow> log_msg list \<Rightarrow> pattern_formatter \<Rightarrow> (string list \<times> pattern_formatter) option" where
  "format_all os [] pf = Some ([], pf)"
| "format_all os (m # ms) pf =
     (case pf_format os pf m [] of
        None \<Rightarrow> None
      | Some (pf, m, formatted) \<Rightarrow>
          map_option (\<lambda>(texts, pf). (formatted # texts, pf)) (format_all os ms pf))"

definition last_formatted :: "platform \<Rightarrow> nat \<Rightarrow> ring_sink \<Rightarrow> (string list \<times> ring_sink) option" where
  "last_formatted os lim s =
     map_option (\<lambda>(texts, pf). (texts, s\<lparr>sb_formatter := pf\<rparr>))
       (format_all os (last_raw lim s) (sb_formatter s))"

section \<open>Streams and nothing\<close>

text \<open>What was written to the stream and how often it was flushed.\<close>

record ostream_sink = sink_base +
  ox_out :: string
  ox_flushes :: nat
  ox_force_flush :: bool

definition ostream_flush :: "ostream_sink \<Rightarrow> ostream_sink" where
  "ostream_flush s = s\<lparr>ox_flushes := ox_flushes s + 1\<rparr>"

definition ostream_sink_it :: "platform \<Rightarrow> log_msg \<Rightarrow> ostream_sink \<Rightarrow> string option \<times> ostream_sink" where
  "ostream_sink_it os msg s =
     (case pf_format os (sb_formatter s) msg [] of
        None \<Rightarrow> (Some ''formatter'', s)
      | Some (pf, msg, formatted) \<Rightarrow>
          let s = s\<lparr>sb_formatter := pf, ox_out := ox_out s @ formatted\<rparr>
          in (None, if ox_force_flush s then ostream_flush s else s))"

definition null_sink_it :: "log_msg \<Rightarrow> sink_base \<Rightarrow> sink_base" where
  "null_sink_it msg s = s"

section \<open>Several sinks behind one\<close>

text \<open>
  A distributing sink holds pointers to sinks of the store.  Unlike the logger it does not
  catch: an exception of one sink leaves the loop.
\<close>

record dist_sink = sink_base +
  di_sinks :: "nat list"

definition add_sink :: "nat \<Rightarrow> dist_sink \<Rightarrow> dist_sink" where
  "add_sink i s = s\<lparr>di_sinks := di_sinks s @ [i]\<rparr>"

definition remove_sink :: "nat \<Rightarrow> dist_sink \<Rightarrow> dist_sink" where
  "remove_sink i s = s\<lparr>di_sinks := filter (\<lambda>j. j \<noteq> i) (di_sinks s)\<rparr>"

definition set_sinks :: "nat list \<Rightarrow> dist_sink \<Rightarrow> dist_sink" where
  "set_sinks is s = s\<lparr>di_sinks := is\<rparr>"

primrec dist_each ::
  "platform \<Rightarrow> log_msg \<Rightarrow> nat list \<Rightarrow> log_state \<Rightarrow> (string option \<times> log_state) option" where
  "dist_each os msg [] w = Some (None, w)"
| "dist_each os msg (i # is) w =
     (case ls_sinks w i of
        None \<Rightarrow> None
      | Some s \<Rightarrow>
          if sink_should_log (lm_level msg) s then
            (case sink_log os msg s (ls_io w) of
               None \<Rightarrow> None
             | Some (e, s, io) \<Rightarrow>
                 let w = w\<lparr>ls_sinks := (ls_sinks w)(i \<mapsto> s), ls_io := io\<rparr>
                 in (case e of Some what \<Rightarrow> Some (Some what, w) | None \<Rightarrow> dist_each os msg is w))
          else dist_each os msg is w)"

definition dist_sink_it ::
  "platform \<Rightarrow> log_msg \<Rightarrow> dist_sink \<Rightarrow> log_state \<Rightarrow> (string option \<times> log_state) option" where
  "dist_sink_it os msg s w = dist_each os msg (di_sinks s) w"

definition dist_flush :: "dist_sink \<Rightarrow> log_state \<Rightarrow> log_state" where
  "dist_flush s w = fold flush_one (di_sinks s) w"

definition dist_set_formatter ::
  "int \<Rightarrow> pattern_formatter \<Rightarrow> dist_sink \<Rightarrow> log_state \<Rightarrow> dist_sink \<times> log_state" where
  "dist_set_formatter now pf s w =
     (s\<lparr>sb_formatter := pf\<rparr>,
      fold (\<lambda>i w. w\<lparr>ls_sinks := (ls_sinks w)
             (i := map_option (sink_set_formatter (pf_clone now pf)) (ls_sinks w i))\<rparr>) (di_sinks s) w)"

section \<open>Dropping repeated messages\<close>

record dup_filter = dist_sink +
  df_max_skip :: int
  df_last_time :: int
  df_last_payload :: string
  df_skipped :: nat

definition dup_filter_new :: "platform \<Rightarrow> int \<Rightarrow> dup_filter" where
  "dup_filter_new os max_skip =
     \<lparr>sb_formatter = default_formatter Time_local (os_default_eol os), sb_level = Level_trace,
      di_sinks = [], df_max_skip = max_skip, df_last_time = 0, df_last_payload = [], df_skipped = 0\<rparr>"

text \<open>Durations are in nanoseconds, the unit of the clock.\<close>

definition dup_passes :: "log_msg \<Rightarrow> dup_filter \<Rightarrow> bool" where
  "dup_passes msg s \<longleftrightarrow>
     df_max_skip s < lm_time msg - df_last_time s \<or> lm_payload msg \<noteq> df_last_payload s"

definition skipped_text :: "nat \<Rightarrow> string" where
  "skipped_text n = ''Skipped '' @ show_nat (n mod 2 ^ 32) @ '' duplicate messages..''"

text \<open>The text is shorter than the buffer of 64, so it is always logged.  An exception of a sink
  leaves the state of the filter as it was.\<close>

definition dup_sink_it ::
  "platform \<Rightarrow> u64 \<Rightarrow> log_msg \<Rightarrow> dup_filter \<Rightarrow> log_state \<Rightarrow>
   (string option \<times> dup_filter \<times> log_state) option" where
  "dup_sink_it os tid msg s w =
     (if \<not> dup_passes msg s then
        Some (None, s\<lparr>df_skipped := (df_skipped s + 1) mod 2 ^ 64\<rparr>, w)
      else
        let first = (if 0 < df_skipped s then
                       let (now, w) = ls_now w in
                       dist_each os (log_msg now tid no_source (lm_logger_name msg) Level_info
                         (skipped_text (df_skipped s))) (di_sinks s) w
                     else Some (None, w))
        in (case first of
              None \<Rightarrow> None
            | Some (Some e, w) \<Rightarrow> Some (Some e, s, w)
            | Some (None, w) \<Rightarrow>
                (case dist_each os msg (di_sinks s) w of
                   None \<Rightarrow> None
                 | Some (Some e, w) \<Rightarrow> Some (Some e, s, w)
                 | Some (None, w) \<Rightarrow>
                     Some (None, s\<lparr>df_last_time := lm_time msg, df_skipped := 0,
                       df_last_payload := lm_payload msg\<rparr>, w))))"

end
