(* ===== verification/Spd_Sinks_Props.thy ===== *)
theory Spd_Sinks_Props
  imports Spd_Sinks Spd_Files_Props
begin

text \<open>
  Properties of the rotating sink: the size of its file and its safety under any failures of the
  system, and what a rotation does to the files.
\<close>

section \<open>Opening a file anew\<close>

lemma fopen_files:
  "dk_fopen wb name d = (ok, d') \<Longrightarrow> dk_files d' =
    (if ok \<and> (wb \<or> dk_files d name = None) then (dk_files d)(name := Some []) else dk_files d)"
  by (auto simp: dk_fopen_def Let_def split: if_splits)

lemma try_open_content:
  "fh_try_open os n fname tr h d = (None, h', d') \<Longrightarrow>
    dk_files d' fname = Some (if tr then [] else case dk_files d fname of None \<Rightarrow> [] | Some x \<Rightarrow> x)"
proof (induction n arbitrary: d)
  case (Suc n)
  obtain b d1 where c: "create_dir os (dir_name os fname) d = (b, d1)" by fastforce
  note d1 = only_folders_simps(1) [OF create_dir_only_folders [OF c]]
  obtain ok d2 where t: "(if tr then dk_fopen True fname d1 else (True, d1)) = (ok, d2)" by fastforce
  have d2: "dk_files d2 = (if tr \<and> ok then (dk_files d)(fname := Some []) else dk_files d)"
    using t d1 fopen_files by (fastforce split: if_splits)
  show ?case
  proof (cases ok)
    case False
    then have "fh_try_open os n fname tr h d2 = (None, h', d')"
      using Suc.prems c t by (simp add: Let_def)
    with Suc.IH [of d2] d2 False show ?thesis by simp
  next
    case True
    obtain ok' d3 where f: "dk_fopen False fname d2 = (ok', d3)" by fastforce
    note d3 = fopen_files [OF f]
    show ?thesis
    proof (cases ok')
      case False
      then have "fh_try_open os n fname tr h d3 = (None, h', d')"
        using Suc.prems c t True f by (simp add: Let_def)
      with Suc.IH [of d3] d2 d3 True False show ?thesis by (auto split: if_splits)
    next
      case True
      then have "d' = d3" using Suc.prems c t \<open>ok\<close> f by (simp add: Let_def)
      with d2 d3 True \<open>ok\<close> show ?thesis by (auto split: if_splits option.splits)
    qed
  qed
qed simp

lemma open_content:
  "fh_open_file os fname tr h d = (None, h', d') \<Longrightarrow> \<exists>c. dk_files d' fname = Some c \<and> (tr \<longrightarrow> c = []) \<and>
    fh_pending h' = []"
proof -
  assume o: "fh_open_file os fname tr h d = (None, h', d')"
  obtain h1 d1 where "fh_close h d = (h1, d1)" by fastforce
  with o have t: "fh_try_open os open_tries fname tr (h1\<lparr>fh_filename := fname\<rparr>) d1 = (None, h', d')"
    by (simp add: fh_open_file_def)
  show ?thesis using try_open_content [OF t] fh_try_open_result [OF t] by auto
qed

section \<open>The size of the file\<close>

definition file_length :: "file_helper \<Rightarrow> disk \<Rightarrow> nat" where
  "file_length h d =
     (case dk_files d (fh_filename h) of None \<Rightarrow> 0 | Some c \<Rightarrow> length c) + length (fh_pending h)"

definition rotating_inv :: "rotating_sink \<Rightarrow> disk \<Rightarrow> bool" where
  "rotating_inv s d \<longleftrightarrow> fh_filename (rt_file s) = rt_base s \<and> rt_base s \<noteq> [] \<and>
     (if fh_open (rt_file s) then file_length (rt_file s) d \<le> rt_size s else rt_max_size s < rt_size s)"

lemma close_name: "fh_close h d = (h', d') \<Longrightarrow> fh_filename h' = fh_filename h"
  by (auto simp: fh_close_def split: if_splits)

lemma rotate_result:
  assumes "rt_rotate os s d = (e, s', d')" "fh_filename (rt_file s) = rt_base s" "rt_base s \<noteq> []"
  shows "s' = s\<lparr>rt_file := rt_file s', rt_size := rt_size s'\<rparr>" "fh_filename (rt_file s') = rt_base s"
    "e = None \<Longrightarrow> fh_open (rt_file s') \<and> file_length (rt_file s') d' = 0 \<and> rt_size s' = rt_size s"
    "e \<noteq> None \<Longrightarrow> (if fh_open (rt_file s') then file_length (rt_file s') d' = 0 \<and> rt_size s' = 0
       else rt_size s' = rt_size s)"
proof -
  obtain f1 d1 where c: "fh_close (rt_file s) d = (f1, d1)" by fastforce
  obtain failed d2 where sh: "rt_shift os (rt_base s) (rt_max_files s) d1 = (failed, d2)" by fastforce
  obtain e1 f2 d3 where o: "fh_open_file os (rt_base s) True f1 d2 = (e1, f2, d3)" by (metis prod_cases3)
  have "fh_reopen os True f1 d2 = (e1, f2, d3)"
    using o close_name [OF c] assms(2,3) by (simp add: fh_reopen_def)
  then have r: "rt_rotate os s d = (case failed of None \<Rightarrow> (e1, s\<lparr>rt_file := f2\<rparr>, d3)
      | Some (src, target) \<Rightarrow> (case e1 of Some err \<Rightarrow> (Some err, s\<lparr>rt_file := f2\<rparr>, d3)
          | None \<Rightarrow> (Some (''rotating_file_sink: failed renaming '' @ src @ '' to '' @ target),
               s\<lparr>rt_file := f2, rt_size := 0\<rparr>, d3)))"
    by (simp add: rt_rotate_def c sh Let_def)
  have f2: "fh_filename f2 = rt_base s" "fh_open f2 \<longleftrightarrow> e1 = None"
    using fh_open_file_result [OF o] by simp_all
  have len: "e1 = None \<Longrightarrow> file_length f2 d3 = 0"
    using open_content [of os "rt_base s" True f1 d2 f2 d3] o f2(1) by (auto simp: file_length_def)
  show "s' = s\<lparr>rt_file := rt_file s', rt_size := rt_size s'\<rparr>" "fh_filename (rt_file s') = rt_base s"
    "e = None \<Longrightarrow> fh_open (rt_file s') \<and> file_length (rt_file s') d' = 0 \<and> rt_size s' = rt_size s"
    "e \<noteq> None \<Longrightarrow> (if fh_open (rt_file s') then file_length (rt_file s') d' = 0 \<and> rt_size s' = 0
       else rt_size s' = rt_size s)"
    using assms(1) f2 len unfolding r by (auto split: option.splits)
qed

lemma write_length:
  assumes "fh_open h"
  shows "\<exists>e h' d'. fh_write buf h d = Some (e, h', d') \<and> fh_open h' \<and> fh_filename h' = fh_filename h \<and>
    file_length h' d' \<le> file_length h d + length buf"
  using assms by (auto simp: fh_write_def Let_def file_length_def)

text \<open>How many characters a message is for a sink.\<close>

definition text_length :: "platform \<Rightarrow> log_msg \<Rightarrow> 'a sink_base_scheme \<Rightarrow> nat option" where
  "text_length os msg s = map_option (\<lambda>(pf, msg, t). length t) (pf_format os (sb_formatter s) msg [])"

lemma rotating_step:
  assumes "rotating_inv s d"
  shows "\<exists>e s' d'. rotating_sink_it os msg s d = Some (e, s', d') \<and> rotating_inv s' d' \<and>
    rt_max_size s' = rt_max_size s \<and>
    (case text_length os msg s of
       None \<Rightarrow> rt_file s' = rt_file s \<and> rt_size s' = rt_size s \<and> d' = d
     | Some n \<Rightarrow> fh_open (rt_file s') \<longrightarrow> rt_size s' \<le> max (rt_max_size s) n)"
proof (cases "pf_format os (sb_formatter s) msg []")
  case None
  then show ?thesis using assms by (auto simp: rotating_sink_it_def text_length_def)
next
  case (Some p)
  obtain pf m t where p: "p = (pf, m, t)" by (cases p)
  let ?s = "s\<lparr>sb_formatter := pf, rt_size := rt_size s + length t\<rparr>"
  have tl: "text_length os msg s = Some (length t)" using Some p by (simp add: text_length_def)
  show ?thesis
  proof (cases "rt_max_size s < rt_size s + length t")
    case False
    then have o: "fh_open (rt_file s)" using assms by (auto simp: rotating_inv_def split: if_splits)
    obtain e h' d' where w: "fh_write t (rt_file s) d = Some (e, h', d')" "fh_open h'"
      "fh_filename h' = fh_filename (rt_file s)" "file_length h' d' \<le> file_length (rt_file s) d + length t"
      using write_length [OF o] by blast
    have "rotating_sink_it os msg s d = Some (e, ?s\<lparr>rt_file := h'\<rparr>, d')"
      using False Some p w by (simp add: rotating_sink_it_def Let_def)
    then show ?thesis using False w assms o tl by (auto simp: rotating_inv_def)
  next
    case True
    obtain e1 s1 d1 where r: "rt_rotate os ?s d = (e1, s1, d1)" by (metis prod_cases3)
    have name: "fh_filename (rt_file ?s) = rt_base ?s" "rt_base ?s \<noteq> []"
      using assms by (simp_all add: rotating_inv_def)
    note res = rotate_result [OF r name]
    have s1: "rt_base s1 = rt_base s" "rt_max_size s1 = rt_max_size s"
      by (subst res(1); simp)+
    show ?thesis
    proof (cases e1)
      case (Some err)
      have "rotating_sink_it os msg s d = Some (Some err, s1, d1)"
        using True \<open>pf_format os _ msg [] = Some p\<close> p r Some by (simp add: rotating_sink_it_def Let_def)
      then show ?thesis
        using res(2,4) Some s1 True tl name by (auto simp: rotating_inv_def split: if_splits)
    next
      case None
      have o: "fh_open (rt_file s1)" "file_length (rt_file s1) d1 = 0" using res(3) None by simp_all
      obtain e h' d' where w: "fh_write t (rt_file s1) d1 = Some (e, h', d')" "fh_open h'"
        "fh_filename h' = fh_filename (rt_file s1)" "file_length h' d' \<le> length t"
        using write_length [OF o(1), of t d1] o(2) by auto
      have "rotating_sink_it os msg s d = Some (e, s1\<lparr>rt_size := length t, rt_file := h'\<rparr>, d')"
        using True \<open>pf_format os _ msg [] = Some p\<close> p r None w by (simp add: rotating_sink_it_def Let_def)
      then show ?thesis using w res(2) s1 name tl by (auto simp: rotating_inv_def)
    qed
  qed
qed


text \<open>A run of messages, with the length of each text, \<^term>\<open>None\<close> where it cannot be formatted.\<close>

primrec rotating_run ::
  "platform \<Rightarrow> log_msg list \<Rightarrow> rotating_sink \<Rightarrow> disk \<Rightarrow> (nat option list \<times> rotating_sink \<times> disk) option" where
  "rotating_run os [] s d = Some ([], s, d)"
| "rotating_run os (m # ms) s d =
     (case rotating_sink_it os m s d of
        None \<Rightarrow> None
      | Some (e, s', d') \<Rightarrow>
          map_option (\<lambda>(ns, r). (text_length os m s # ns, r)) (rotating_run os ms s' d'))"

definition lengths :: "nat option list \<Rightarrow> nat list" where
  "lengths ns = map the (filter (\<lambda>n. n \<noteq> None) ns)"

lemma lengths_simps [simp]:
  "lengths [] = []" "lengths (None # ns) = lengths ns" "lengths (Some n # ns) = n # lengths ns"
  by (simp_all add: lengths_def)

lemma rotating_run_inv:
  assumes "rotating_inv s d" "b \<longrightarrow> fh_open (rt_file s) \<longrightarrow> rt_size s \<le> B" "rt_max_size s \<le> B"
  shows "\<exists>ns s' d'. rotating_run os ms s d = Some (ns, s', d') \<and> rotating_inv s' d' \<and>
    ((b \<or> lengths ns \<noteq> []) \<and> (\<forall>n \<in> set (lengths ns). n \<le> B) \<and> fh_open (rt_file s') \<longrightarrow> rt_size s' \<le> B)"
  using assms
proof (induction ms arbitrary: s d b)
  case (Cons m ms)
  obtain e s1 d1 where 1: "rotating_sink_it os m s d = Some (e, s1, d1)" "rotating_inv s1 d1"
    "rt_max_size s1 = rt_max_size s"
    "case text_length os m s of
       None \<Rightarrow> rt_file s1 = rt_file s \<and> rt_size s1 = rt_size s \<and> d1 = d
     | Some n \<Rightarrow> fh_open (rt_file s1) \<longrightarrow> rt_size s1 \<le> max (rt_max_size s) n"
    using rotating_step [OF Cons.prems(1), of os m] by blast
  let ?b = "if text_length os m s = None then b else the (text_length os m s) \<le> B"
  have small: "?b \<longrightarrow> fh_open (rt_file s1) \<longrightarrow> rt_size s1 \<le> B"
    using 1(4) Cons.prems(2,3) by (auto split: option.splits if_splits)
  have "rt_max_size s1 \<le> B" using 1(3) Cons.prems(3) by simp
  from Cons.IH [OF 1(2) small this] obtain ns s' d' where r: "rotating_run os ms s1 d1 = Some (ns, s', d')"
    "rotating_inv s' d'" "(?b \<or> lengths ns \<noteq> []) \<and> (\<forall>n \<in> set (lengths ns). n \<le> B) \<and> fh_open (rt_file s') \<longrightarrow>
      rt_size s' \<le> B" by blast
  have "rotating_run os (m # ms) s d = Some (text_length os m s # ns, s', d')" using 1(1) r(1) by simp
  then show ?case
    using r(2,3) by (cases "text_length os m s") auto
qed simp

lemma rotating_new_inv:
  assumes "rotating_sink_new os base max_size max_files rot d = (Inr s, d')" "base \<noteq> []"
  shows "rotating_inv s d' \<and> rt_max_size s = max_size \<and>
    (rot \<and> rt_size s \<noteq> 0 \<longrightarrow> file_length (rt_file s) d' = 0)"
proof -
  obtain e f d1 where o: "fh_open_file os base False fh_new d = (e, f, d1)" by (metis prod_cases3)
  then have e: "e = None" using assms(1) by (cases e) (auto simp: rotating_sink_new_def rt_filename_def)
  have f: "fh_filename f = base" "fh_open f" using fh_open_file_result [OF o] e by simp_all
  obtain c where c: "dk_files d1 base = Some c" "fh_pending f = []" using open_content o e by blast
  have size: "fh_size f d1 = Inr (length c)" using f c by (simp add: fh_size_def)
  let ?s = "sink_base.extend (sink_base_new os) \<lparr>rt_base = base, rt_max_size = max_size,
    rt_max_files = max_files, rt_size = length c, rt_file = f\<rparr>"
  have new: "(if rot \<and> 0 < length c then (case rt_rotate os ?s d1 of
      (Some e, s, d) \<Rightarrow> (Inl e, d) | (None, s, d) \<Rightarrow> (Inr s, d)) else (Inr ?s, d1)) = (Inr s, d')"
    using assms(1) unfolding rotating_sink_new_def Let_def
    by (simp add: rt_filename_def o e size) 
  show ?thesis
  proof (cases "rot \<and> 0 < length c")
    case False
    then have "s = ?s" "d' = d1" using new by auto
    then show ?thesis
      using f c assms(2) False by (simp add: rotating_inv_def sink_base.defs file_length_def)
  next
    case True
    obtain e2 s2 d2 where r: "rt_rotate os ?s d1 = (e2, s2, d2)" by (metis prod_cases3)
    then have e2: "e2 = None" "s = s2" "d' = d2" using new True by (auto split: option.splits)
    have name: "fh_filename (rt_file ?s) = rt_base ?s" "rt_base ?s \<noteq> []"
      using f assms(2) by (simp_all add: sink_base.defs)
    note res = rotate_result [OF r name]
    have "rt_base s2 = base" "rt_max_size s2 = max_size" by (subst res(1); simp add: sink_base.defs)+
    with res(2,3) e2 assms(2) name show ?thesis by (simp add: rotating_inv_def sink_base.defs)
  qed
qed

text \<open>After a rotation in the constructor the file is empty, and the size the sink counts with is
  still that of the old file.\<close>

lemma rotated_on_open_keeps_size:
  assumes "rotating_sink_new os base max_size max_files True d = (Inr s, d')" "base \<noteq> []" "rt_size s \<noteq> 0"
  shows "file_length (rt_file s) d' = 0"
  using rotating_new_inv [OF assms(1,2)] assms(3) by simp

section \<open>What a rotation does to the files\<close>

lemma show_nat_inject: "show_nat m = show_nat n \<longleftrightarrow> m = n"
  by (metis fst_read_show append.right_neutral)

lemma rt_filename_inject: "rt_filename os base i = rt_filename os base j \<longleftrightarrow> i = j"
proof -
  obtain b x where sp: "split_by_extension os base = (b, x)" by fastforce
  have "b @ x = base" using sp by (auto simp: split_by_extension_def split: option.splits if_splits)
  then show ?thesis by (auto simp: rt_filename_def sp show_nat_inject)
qed


text \<open>The files as one step of the loop leaves them, and as the whole loop does.\<close>

definition healthy :: "platform \<Rightarrow> string \<Rightarrow> disk \<Rightarrow> bool" where
  "healthy os base d \<longleftrightarrow> (\<forall>i. dk_rename d i) \<and> (\<forall>i. dk_remove d i) \<and>
     (\<forall>i. \<not> dk_dirs d (rt_filename os base i))"

definition shifted ::
  "platform \<Rightarrow> string \<Rightarrow> nat \<Rightarrow> (string \<Rightarrow> string option) \<Rightarrow> (string \<Rightarrow> string option) \<Rightarrow> bool" where
  "shifted os base n fs fs' \<longleftrightarrow>
     (\<forall>i \<le> n. fs' (rt_filename os base i) =
        (if n = 0 then fs (rt_filename os base i)
         else if i = 0 then None
         else if i = n \<and> fs (rt_filename os base (n - 1)) = None then fs (rt_filename os base i)
         else fs (rt_filename os base (i - 1)))) \<and>
     (\<forall>f. (\<forall>i \<le> n. f \<noteq> rt_filename os base i) \<longrightarrow> fs' f = fs f)"

lemma shifted_skip:
  assumes "shifted os base n fs fs'" "fs (rt_filename os base n) = None"
  shows "shifted os base (Suc n) fs fs'"
proof -
  have "fs' (rt_filename os base (Suc n)) = fs (rt_filename os base (Suc n))"
    using assms(1) by (simp add: shifted_def rt_filename_inject)
  then show ?thesis using assms by (auto simp: shifted_def le_Suc_eq)
qed

lemma shifted_move:
  assumes "shifted os base n fs1 fs'" "fs (rt_filename os base n) \<noteq> None"
    and fs1: "fs1 = fs(rt_filename os base n := None, rt_filename os base (Suc n) := fs (rt_filename os base n))"
  shows "shifted os base (Suc n) fs fs'"
proof -
  have "fs' (rt_filename os base (Suc n)) = fs (rt_filename os base n)"
    using assms(1) by (simp add: shifted_def rt_filename_inject fs1)
  moreover have "fs' (rt_filename os base i) =
      (if i = 0 then None else fs (rt_filename os base (i - 1)))" if "i \<le> n" for i
  proof -
    have keep: "fs1 (rt_filename os base j) = (if j = n then None else fs (rt_filename os base j))"
      if "j \<le> n" for j
      using that by (simp add: fs1 rt_filename_inject)
    have "fs' (rt_filename os base i) =
        (if n = 0 then fs1 (rt_filename os base i) else if i = 0 then None
         else if i = n \<and> fs1 (rt_filename os base (n - 1)) = None then fs1 (rt_filename os base i)
         else fs1 (rt_filename os base (i - 1)))"
      using assms(1) that unfolding shifted_def by blast
    then show ?thesis using that keep [of i] keep [of "i - 1"] keep [of "n - 1"] by (auto split: if_splits)
  qed
  moreover have "fs' f = fs f" if "\<forall>i \<le> Suc n. f \<noteq> rt_filename os base i" for f
  proof -
    have "fs' f = fs1 f" using assms(1) that unfolding shifted_def by (metis le_SucI)
    then show ?thesis using that by (simp add: fs1)
  qed
  ultimately show ?thesis using assms(2) by (auto simp: shifted_def le_Suc_eq)
qed

lemma rename_healthy:
  assumes "healthy os base d" "dk_files d (rt_filename os base i) \<noteq> None"
  shows "\<exists>d'. rename_file (rt_filename os base i) (rt_filename os base (Suc i)) d = (True, d') \<and>
    healthy os base d' \<and> dk_files d' = (dk_files d)(rt_filename os base i := None,
      rt_filename os base (Suc i) := dk_files d (rt_filename os base i))"
  using assms
  by (auto simp: rename_file_def os_remove_def os_rename_def remove_if_exists_def path_exists_def healthy_def
      Let_def rt_filename_inject fun_eq_iff)

lemma shift_healthy:
  "healthy os base d \<Longrightarrow> \<exists>d'. rt_shift os base n d = (None, d') \<and> healthy os base d' \<and>
    shifted os base n (dk_files d) (dk_files d')"
proof (induction n arbitrary: d)
  case 0
  then show ?case by (simp add: shifted_def)
next
  case (Suc n)
  let ?f = "rt_filename os base"
  show ?case
  proof (cases "dk_files d (?f n)")
    case None
    then have "\<not> path_exists (?f n) d" using Suc.prems by (simp add: path_exists_def healthy_def)
    then show ?thesis using Suc.IH [OF Suc.prems] shifted_skip [of os base n "dk_files d"] None by auto
  next
    case (Some x)
    then obtain d1 where d1: "rename_file (?f n) (?f (Suc n)) d = (True, d1)" "healthy os base d1"
      "dk_files d1 = (dk_files d)(?f n := None, ?f (Suc n) := dk_files d (?f n))"
      using rename_healthy [OF Suc.prems, of n] by auto
    have "path_exists (?f n) d" using Some by (simp add: path_exists_def)
    then have "rt_shift os base (Suc n) d = rt_shift os base n d1" using d1(1) by (simp add: Let_def)
    moreover obtain d' where "rt_shift os base n d1 = (None, d')" "healthy os base d'"
      and sh: "shifted os base n (dk_files d1) (dk_files d')"
      using Suc.IH [OF d1(2)] by blast
    moreover have "shifted os base (Suc n) (dk_files d) (dk_files d')"
      by (rule shifted_move [OF sh _ d1(3)]) (simp add: Some)
    ultimately show ?thesis by auto
  qed
qed

lemma rename_open: "dk_open (snd (rename_file a b d)) = dk_open d"
  by (simp add: rename_file_def os_remove_def os_rename_def remove_if_exists_def Let_def)

lemma shift_open: "dk_open (snd (rt_shift os base n d)) = dk_open d"
proof (induction n arbitrary: d)
  case (Suc n)
  let ?f = "rt_filename os base n" and ?g = "rt_filename os base (Suc n)"
  obtain ok1 d1 where r1: "rename_file ?f ?g d = (ok1, d1)" by fastforce
  obtain ok2 d2 where r2: "rename_file ?f ?g d1 = (ok2, d2)" by fastforce
  have d1: "dk_open d1 = dk_open d" using rename_open [of ?f ?g d] r1 by simp
  have d2: "dk_open d2 = dk_open d" using rename_open [of ?f ?g d1] r2 d1 by simp
  show ?case by (cases "path_exists ?f d"; cases ok1; cases ok2) (simp_all add: r1 r2 d1 d2 Suc.IH Let_def)
qed simp

lemma close_facts:
  "fh_filename (fst (fh_close h d)) = fh_filename h" "\<not> fh_open (fst (fh_close h d))"
  "dk_open (snd (fh_close h d)) = dk_open d"
  by (simp_all add: fh_close_def dk_append_def)

lemma truncate_healthy:
  assumes "\<forall>i. dk_open d i" "\<not> fh_open h"
  shows "\<exists>h' d'. fh_open_file os name True h d = (None, h', d') \<and> dk_files d' = (dk_files d)(name := Some [])"
proof -
  obtain ok d1 where dir: "create_dir os (dir_name os name) d = (ok, d1)" by fastforce
  note folders = only_folders_simps [OF create_dir_only_folders [OF dir]]
  show ?thesis
    using assms
    by (simp add: fh_open_file_def fh_close_def dir open_tries_def numeral_eq_Suc dk_fopen_def Let_def folders)
qed

section \<open>Properties\<close>

text \<open>C36: a rotating file sink keeps its file small and never writes to a closed file, whatever
  calls of \<^verbatim>\<open>fopen\<close>, \<^verbatim>\<open>fwrite\<close>, \<^verbatim>\<open>remove\<close>, \<^verbatim>\<open>rename\<close> and \<^verbatim>\<open>mkdir\<close> fail: after any messages, one
  of which could be formatted, an open file (with what is still in the buffer) has at most
  \<^verbatim>\<open>max_size\<close> characters, or as many as the longest message.\<close>

theorem rotating_file_bounded:
  assumes "rotating_sink_new os base max_size max_files rot d = (Inr s, d')" "base \<noteq> []"
  shows "\<exists>ns s' d''. rotating_run os ms s d' = Some (ns, s', d'') \<and>
    (lengths ns \<noteq> [] \<and> fh_open (rt_file s') \<longrightarrow>
      file_length (rt_file s') d'' \<le> Max (set (max_size # lengths ns)))"
proof -
  have inv: "rotating_inv s d'" and m: "rt_max_size s = max_size"
    using rotating_new_inv [OF assms] by simp_all
  obtain ns s' d'' where r: "rotating_run os ms s d' = Some (ns, s', d'')"
    using rotating_run_inv [OF inv, of False "rt_max_size s" os ms] by auto
  let ?B = "Max (set (max_size # lengths ns))"
  have "rt_max_size s \<le> ?B" by (simp add: m)
  from rotating_run_inv [OF inv _ this, of False os ms] r
  have "rotating_inv s' d''" "lengths ns \<noteq> [] \<and> (\<forall>n \<in> set (lengths ns). n \<le> ?B) \<and> fh_open (rt_file s') \<longrightarrow>
      rt_size s' \<le> ?B" by auto
  then show ?thesis using r by (auto simp: rotating_inv_def)
qed

text \<open>A disk on which everything works, with no file yet.\<close>

definition fresh_disk :: disk where
  "fresh_disk = sample_disk\<lparr>dk_open := (\<lambda>_. True)\<rparr>"

lemma fresh_healthy: "healthy os base fresh_disk" "\<forall>i. dk_open fresh_disk i"
  by (simp_all add: healthy_def fresh_disk_def sample_disk_def)

lemma rotating_new_opens:
  assumes "base \<noteq> []"
  shows "\<exists>s d'. rotating_sink_new os base max_size max_files False fresh_disk = (Inr s, d')"
proof -
  from fresh_healthy(2) have "dk_open fresh_disk 0" by simp
  from open_healthy [OF this, of os base fh_new] obtain d1 where
    "fh_open_file os base False fh_new fresh_disk =
      (None, \<lparr>fh_open = True, fh_filename = base, fh_pending = []\<rparr>, d1)" by blast
  then show ?thesis
    by (simp add: rotating_sink_new_def rt_filename_def fh_size_def Let_def)
qed

theorem rotating_file_bounded_witness:
  "\<exists>s d ns s' d'. rotating_sink_new sample_os ''/tmp/a.log'' 30 2 False fresh_disk = (Inr s, d) \<and>
     rotating_run sample_os [sample_msg, sample_msg] s d = Some (ns, s', d')"
proof -
  obtain s d where new: "rotating_sink_new sample_os ''/tmp/a.log'' 30 2 False fresh_disk = (Inr s, d)"
    using rotating_new_opens [of "''/tmp/a.log''"] by blast
  with rotating_file_bounded [OF new, of "[sample_msg, sample_msg]"] show ?thesis by auto
qed

text \<open>When the system does what it is asked, a rotation moves every file one number up: the
  file numbered \<open>i\<close> gets the content of number \<open>i - 1\<close>, number 0 becomes the new, empty file,
  the oldest content is gone, and no other file changes.\<close>

theorem rotation_shifts_files:
  assumes "healthy os (rt_base s) (snd (fh_close (rt_file s) d))" "0 < rt_max_files s"
    and "rt_base s \<noteq> []" "fh_filename (rt_file s) = rt_base s" "\<forall>i. dk_open d i"
  shows "\<exists>s' d'. rt_rotate os s d = (None, s', d') \<and>
    dk_files d' (rt_base s) = Some [] \<and>
    (let fs = dk_files (snd (fh_close (rt_file s) d)) in
     (\<forall>i. 0 < i \<and> i < rt_max_files s \<longrightarrow>
        dk_files d' (rt_filename os (rt_base s) i) = fs (rt_filename os (rt_base s) (i - 1))) \<and>
     (\<forall>x. fs (rt_filename os (rt_base s) (rt_max_files s - 1)) = Some x \<longrightarrow>
        dk_files d' (rt_filename os (rt_base s) (rt_max_files s)) = Some x) \<and>
     (\<forall>f. (\<forall>i \<le> rt_max_files s. f \<noteq> rt_filename os (rt_base s) i) \<longrightarrow> dk_files d' f = fs f))"
proof -
  let ?n = "rt_max_files s" and ?b = "rt_base s"
  obtain f1 d1 where c: "fh_close (rt_file s) d = (f1, d1)" by fastforce
  obtain d2 where sh: "rt_shift os ?b ?n d1 = (None, d2)" "shifted os ?b ?n (dk_files d1) (dk_files d2)"
    using shift_healthy [of os ?b d1 ?n] assms(1) c by auto
  have h: "fh_filename f1 = ?b" "\<not> fh_open f1" "dk_open d1 = dk_open d"
    using close_facts [of "rt_file s" d] c assms(4) by simp_all
  have "\<forall>i. dk_open d2 i" using shift_open [of os ?b ?n d1] sh(1) h(3) assms(5) by simp
  from truncate_healthy [OF this h(2), of os ?b] obtain f3 d3 where
    o: "fh_open_file os ?b True f1 d2 = (None, f3, d3)" "dk_files d3 = (dk_files d2)(?b := Some [])" by blast
  then have "rt_rotate os s d = (None, s\<lparr>rt_file := f3\<rparr>, d3)"
    using c sh(1) h(1) assms(3) by (simp add: rt_rotate_def fh_reopen_def Let_def)
  moreover have zero: "rt_filename os ?b i = ?b \<longleftrightarrow> i = 0" for i
    using rt_filename_inject [of os ?b i 0] by (simp add: rt_filename_def)
  have other: "dk_files d3 f = dk_files d2 f" if "f \<noteq> ?b" for f using o(2) that by simp
  have "dk_files d3 (rt_filename os ?b i) = dk_files d1 (rt_filename os ?b (i - 1))"
    if "0 < i" "i < ?n" for i
    using sh(2) that other [of "rt_filename os ?b i"] zero [of i] unfolding shifted_def by auto
  moreover have "dk_files d3 (rt_filename os ?b ?n) = Some x"
    if "dk_files d1 (rt_filename os ?b (?n - 1)) = Some x" for x
    using sh(2) that assms(2) other [of "rt_filename os ?b ?n"] zero [of ?n] unfolding shifted_def by auto
  moreover have "dk_files d3 f = dk_files d1 f" if "\<forall>i \<le> ?n. f \<noteq> rt_filename os ?b i" for f
  proof -
    have "f \<noteq> ?b" using that zero [of 0] by auto
    then show ?thesis using sh(2) that other unfolding shifted_def by auto
  qed
  ultimately show ?thesis using o(2) c by (simp add: Let_def)
qed

theorem rotation_shifts_files_witness:
  "let d = fresh_disk\<lparr>dk_files := [''/a'' \<mapsto> ''new'']\<rparr>;
       s = sink_base.extend (sink_base_new sample_os)
         \<lparr>rt_base = ''/a'', rt_max_size = 3, rt_max_files = 2, rt_size = 3,
          rt_file = \<lparr>fh_open = True, fh_filename = ''/a'', fh_pending = ''er''\<rparr>\<rparr>
   in \<exists>s' d'. rt_rotate sample_os s d = (None, s', d') \<and> dk_files d' ''/a'' = Some [] \<and>
        dk_files d' (rt_filename sample_os ''/a'' 1) = Some ''newer''"
proof -
  define d where "d = fresh_disk\<lparr>dk_files := [''/a'' \<mapsto> ''new'']\<rparr>"
  define s where "s = sink_base.extend (sink_base_new sample_os)
    \<lparr>rt_base = ''/a'', rt_max_size = 3, rt_max_files = 2, rt_size = 3,
     rt_file = \<lparr>fh_open = True, fh_filename = ''/a'', fh_pending = ''er''\<rparr>\<rparr>"
  have s: "rt_base s = ''/a''" "rt_max_files s = 2" "fh_filename (rt_file s) = ''/a''"
    by (simp_all add: s_def sink_base.defs)
  have d: "healthy sample_os ''/a'' (snd (fh_close (rt_file s) d))" "\<forall>i. dk_open d i"
    "dk_files (snd (fh_close (rt_file s) d)) ''/a'' = Some ''newer''"
    by (simp_all add: s_def d_def sink_base.defs fh_close_def dk_append_def healthy_def fresh_disk_def
        sample_disk_def)
  have "rt_filename sample_os ''/a'' 0 = ''/a''" by (simp add: rt_filename_def)
  then show ?thesis
    using rotation_shifts_files [of sample_os s d] s d unfolding d_def [symmetric] s_def [symmetric]
    by (auto simp: Let_def)
qed

end
