(* ===== verification/Spd_Sinks_More.thy ===== *)
theory Spd_Sinks_More
  imports Spd_Sinks Spd_Files_Props
begin

text \<open>
  Properties of three more sinks: the hourly sink never writes to a closed file, the ring buffer
  gives back the last messages, and what the filter of duplicates lets through tells the whole
  sequence of texts.
\<close>

section \<open>The hourly sink under failures\<close>

lemma hourly_delete_file: "hourly_delete_old s d = (e, s', d') \<Longrightarrow> hs_file s' = hs_file s"
  by (auto simp: hourly_delete_old_def Let_def split: if_splits prod.splits)

lemma hourly_write_result:
  assumes "fh_open (hs_file s)"
  shows "\<exists>e s' d'. hourly_write os r msg s d = Some (e, s', d') \<and> fh_open (hs_file s')"
proof (cases "pf_format os (sb_formatter s) msg []")
  case None
  then show ?thesis using assms by (simp add: hourly_write_def)
next
  case (Some p)
  obtain pf m formatted where p: "p = (pf, m, formatted)" by (cases p)
  have "fh_write formatted (hs_file s) d \<noteq> None" using assms by (simp add: fh_write_def Let_def)
  then obtain e fl d1 where w: "fh_write formatted (hs_file s) d = Some (e, fl, d1)" by auto
  let ?s = "s\<lparr>sb_formatter := pf, hs_file := fl\<rparr>"
  obtain e2 s2 d2 where del: "hourly_delete_old ?s d1 = (e2, s2, d2)" by (metis prod_cases3)
  from fh_write_result [OF w] hourly_delete_file [OF del] show ?thesis
    using Some p w del
    by (cases e; cases "r \<and> 0 < hs_max_files s") (auto simp: hourly_write_def Let_def)
qed

lemma hourly_it_open:
  assumes "fh_open (hs_file s)" "lm_time msg < hs_rotation s"
  shows "\<exists>e s' d'. hourly_sink_it os msg s d = Some (e, s', d') \<and> fh_open (hs_file s')"
  using hourly_write_result [OF assms(1), of os False msg d] assms(2) by (auto simp: hourly_sink_it_def)

lemma hourly_it_rotates:
  assumes "hs_rotation s \<le> lm_time msg"
  shows "\<exists>e s' d'. hourly_sink_it os msg s d = Some (e, s', d') \<and>
    (fh_open (hs_file s') \<or> hs_rotation s' \<le> lm_time msg)"
proof -
  obtain e fl d1 where o: "fh_open_file os (hourly_filename os (hs_base s) (now_tm os (lm_time msg)))
      (hs_truncate s) (hs_file s) d = (e, fl, d1)" by (metis prod_cases3)
  show ?thesis
  proof (cases e)
    case (Some err)
    with assms o show ?thesis by (auto simp: hourly_sink_it_def)
  next
    case None
    obtain tp d2 where n: "hourly_next_rotation os d1 = (tp, d2)" by fastforce
    have "fh_open (hs_file (s\<lparr>hs_file := fl, hs_rotation := tp\<rparr>))"
      using fh_open_file_result [OF o] None by simp
    from hourly_write_result [OF this, of os True msg d2] assms o n None show ?thesis
      by (auto simp: hourly_sink_it_def)
  qed
qed

interpretation hourly: timed_sink "hourly_sink_it os" "\<lambda>s. fh_open (hs_file s)" hs_rotation for os
  using hourly_it_open hourly_it_rotates by unfold_locales

lemma hourly_new_open:
  "hourly_sink_new os base tr n d = (Inr s, d') \<Longrightarrow> fh_open (hs_file s)"
  by (auto simp: hourly_sink_new_def hourly_init_names_def sink_base.defs Let_def dest!: fh_open_file_result
      split: if_splits prod.splits option.splits)

text \<open>As the daily sink, the hourly one never writes through a null \<^verbatim>\<open>FILE\<close> pointer.\<close>

theorem hourly_sink_safe:
  assumes "hourly_sink_new os base tr n d = (Inr s, d')" "sorted (map lm_time ms)"
  shows "sink_run (hourly_sink_it os) ms s d' \<noteq> None"
  using hourly_new_open [OF assms(1)] assms(2) by (rule hourly.open_run_safe)

text \<open>The next rotation lies in the future, at most an hour away, where the clock of the system
  counts the hours as it should: the time of the full hour is not after \<open>now\<close>.\<close>

lemma hourly_rotation_future:
  fixes os :: platform and now :: int
  defines "r \<equiv> os_mktime os ((now_tm os now)\<lparr>tm_min := 0, tm_sec := 0\<rparr>) * seconds"
  assumes "r \<le> now" "now < r + hour1"
  shows "now < hourly_rotation_after os now \<and> hourly_rotation_after os now \<le> now + hour1"
  using assms by (simp add: hourly_rotation_after_def Let_def)

section \<open>The ring buffer\<close>

lemma ring_fold: "rb_q (fold ring_sink_it ms s) = fold cq_push_back ms (rb_q s)"
  by (induction ms arbitrary: s) (simp_all add: ring_sink_it_def)

lemma last_raw_items:
  "last_raw lim s = (let xs = cq_items (rb_q s) in drop (if 0 < lim then length xs - lim else 0) xs)"
  by (auto simp: last_raw_def cq_items_def Let_def drop_map min_def)

text \<open>A ring buffer gives back the last messages it got, as many as it holds and as were asked
  for, the oldest first.\<close>

theorem ring_sink_last:
  assumes "n < 2 ^ 64 - 1"
  shows "last_raw lim (fold ring_sink_it ms (ring_sink_new os n)) =
    (let kept = (if 0 < lim then min lim n else n) in drop (length ms - kept) ms)"
proof -
  have "rb_q (ring_sink_new os n) = cq_new blank_msg n"
    by (simp add: ring_sink_new_def sink_base.defs)
  then have items: "cq_items (rb_q (fold ring_sink_it ms (ring_sink_new os n))) = drop (length ms - n) ms"
    using cq.push_all [OF cq_new_inv(1) [OF assms, of blank_msg], of ms] cq_new_inv(2,3) [OF assms, of blank_msg]
    by (simp add: ring_fold)
  show ?thesis
    unfolding last_raw_items Let_def items
    by (cases "length ms \<le> n"; cases "lim \<le> n") (auto simp: min_def)
qed

section \<open>The filter of duplicates\<close>

text \<open>What the filter lets through: a note on how many messages it left out, made with the name of
  the logger of the next message, or a message.\<close>

datatype dup_event = Skipped nat string | Shown log_msg

fun dup_spec :: "int \<Rightarrow> int \<Rightarrow> string \<Rightarrow> nat \<Rightarrow> log_msg list \<Rightarrow> dup_event list \<times> nat" where
  "dup_spec max_skip t p n [] = ([], n)"
| "dup_spec max_skip t p n (m # ms) =
     (if lm_payload m = p \<and> lm_time m - t \<le> max_skip then dup_spec max_skip t p (n + 1) ms
      else
        let (evs, r) = dup_spec max_skip (lm_time m) (lm_payload m) 0 ms
        in ((if 0 < n then [Skipped n (lm_logger_name m)] else []) @ Shown m # evs, r))"

text \<open>The events as the sinks behind the filter get them.\<close>

fun dup_emit :: "platform \<Rightarrow> u64 \<Rightarrow> nat list \<Rightarrow> dup_event list \<Rightarrow> log_state \<Rightarrow> log_state option" where
  "dup_emit os tid is [] w = Some w"
| "dup_emit os tid is (ev # evs) w =
     (let (m, w) = (case ev of
            Shown m \<Rightarrow> (m, w)
          | Skipped n name \<Rightarrow>
              let (now, w) = ls_now w in (log_msg now tid no_source name Level_info (skipped_text n), w))
      in case dist_each os m is w of Some (None, w) \<Rightarrow> dup_emit os tid is evs w | _ \<Rightarrow> None)"

text \<open>The texts that were logged, from the events and the count at the end.\<close>

fun restore :: "string \<Rightarrow> dup_event list \<Rightarrow> nat \<Rightarrow> string list" where
  "restore p [] n = replicate n p"
| "restore p (Skipped k name # evs) n = replicate k p @ restore p evs n"
| "restore p (Shown m # evs) n = lm_payload m # restore (lm_payload m) evs n"

lemma dup_spec_restore:
  "dup_spec max_skip t p n ms = (evs, r) \<Longrightarrow> restore p evs r = replicate n p @ map lm_payload ms"
proof (induction max_skip t p n ms arbitrary: evs r rule: dup_spec.induct)
  case (2 max_skip t p n m ms)
  show ?case
  proof (cases "lm_payload m = p \<and> lm_time m - t \<le> max_skip")
    case True
    with 2 show ?thesis by (simp add: replicate_append_same [symmetric])
  next
    case False
    with 2 show ?thesis by (auto split: prod.splits)
  qed
qed simp

lemma dup_step:
  assumes "dup_sink_it os tid m s w = Some (None, s', w')" "df_skipped s + 1 < 2 ^ 64"
  shows "di_sinks s' = di_sinks s \<and> df_max_skip s' = df_max_skip s \<and>
    (if lm_payload m = df_last_payload s \<and> lm_time m - df_last_time s \<le> df_max_skip s
     then w' = w \<and> s' = s\<lparr>df_skipped := df_skipped s + 1\<rparr>
     else df_skipped s' = 0 \<and> df_last_time s' = lm_time m \<and> df_last_payload s' = lm_payload m \<and>
       dup_emit os tid (di_sinks s)
         ((if 0 < df_skipped s then [Skipped (df_skipped s) (lm_logger_name m)] else []) @ [Shown m]) w = Some w')"
proof (cases "dup_passes m s")
  case False
  with assms show ?thesis by (auto simp: dup_sink_it_def dup_passes_def)
next
  case True
  then have "\<not> (lm_payload m = df_last_payload s \<and> lm_time m - df_last_time s \<le> df_max_skip s)"
    by (auto simp: dup_passes_def)
  with True assms show ?thesis
    by (auto simp: dup_sink_it_def Let_def split: prod.splits option.splits if_splits)
qed

lemma dup_emit_append:
  "dup_emit os tid is (xs @ ys) w = Option.bind (dup_emit os tid is xs w) (dup_emit os tid is ys)"
  by (induction xs arbitrary: w) (auto simp: Let_def split: option.splits prod.splits)

lemma dup_run_spec:
  assumes "sink_run (dup_sink_it os tid) ms s w = Some (es, s', w')" "set es \<subseteq> {None}"
    and "df_skipped s + length ms < 2 ^ 64"
  shows "\<exists>evs. dup_spec (df_max_skip s) (df_last_time s) (df_last_payload s) (df_skipped s) ms =
      (evs, df_skipped s') \<and> dup_emit os tid (di_sinks s) evs w = Some w'"
  using assms
proof (induction ms arbitrary: s w es)
  case (Cons m ms)
  obtain e s1 w1 es1 where step: "dup_sink_it os tid m s w = Some (e, s1, w1)" "es = e # es1"
    "sink_run (dup_sink_it os tid) ms s1 w1 = Some (es1, s', w')"
    using Cons.prems(1) by (auto split: option.splits prod.splits)
  then have "e = None" "set es1 \<subseteq> {None}" using Cons.prems(2) by auto
  with step have d: "dup_sink_it os tid m s w = Some (None, s1, w1)" by simp
  have "df_skipped s + 1 < 2 ^ 64" using Cons.prems(3) by simp
  note res = dup_step [OF d this]
  have "df_skipped s1 + length ms < 2 ^ 64"
    using res Cons.prems(3) by (auto split: if_splits)
  from Cons.IH [OF step(3) \<open>set es1 \<subseteq> {None}\<close> this] obtain evs where
    evs: "dup_spec (df_max_skip s1) (df_last_time s1) (df_last_payload s1) (df_skipped s1) ms =
      (evs, df_skipped s')" "dup_emit os tid (di_sinks s1) evs w1 = Some w'" by blast
  show ?case
  proof (cases "lm_payload m = df_last_payload s \<and> lm_time m - df_last_time s \<le> df_max_skip s")
    case True
    with res evs show ?thesis by simp
  next
    case False
    let ?new = "(if 0 < df_skipped s then [Skipped (df_skipped s) (lm_logger_name m)] else []) @ [Shown m]"
    have "dup_emit os tid (di_sinks s) ?new w = Some w1" using res False by simp
    with res evs(2) False have "dup_emit os tid (di_sinks s) (?new @ evs) w = Some w'"
      by (simp only: dup_emit_append) simp
    moreover have "dup_spec (df_max_skip s) (df_last_time s) (df_last_payload s) (df_skipped s) (m # ms) =
        (?new @ evs, df_skipped s')"
      using res evs(1) False by auto
    ultimately show ?thesis by blast
  qed
qed simp

text \<open>The filter of duplicates loses nothing but repetitions: while the sinks behind it do not
  throw, they get exactly the events of the abstract filter, and the texts of all messages, in
  their order, can be read back from these events and the counter.\<close>

theorem dup_filter_lossless:
  assumes "sink_run (dup_sink_it os tid) ms s w = Some (es, s', w')" "set es \<subseteq> {None}"
    and "df_skipped s + length ms < 2 ^ 64"
  shows "\<exists>evs. dup_emit os tid (di_sinks s) evs w = Some w' \<and>
    restore (df_last_payload s) evs (df_skipped s') =
      replicate (df_skipped s) (df_last_payload s) @ map lm_payload ms"
  using dup_run_spec [OF assms] dup_spec_restore by blast

end
