(* ===== verification/Spd_Worker.thy ===== *)
theory Spd_Worker
  imports Spd_Registry
begin

text \<open>
  The thread that calls a function at intervals (\<^verbatim>\<open>details/periodic_worker-inl.h\<close> of
  \<^verbatim>\<open>contrib/spdlog/include/spdlog\<close>), and the members of the registry that hold threads:
  the flusher and the pool of \<^verbatim>\<open>details/registry-inl.h\<close>.  Shown is that the destructor ends and
  that the function is not called once it has begun to stop the thread.
\<close>

section \<open>The periodic worker\<close>

text \<open>
  The thread in \<open>Locks\<close> is about to lock the mutex at the start of its loop, in \<open>Waits\<close> in
  \<^verbatim>\<open>wait_for\<close> with the mutex released, in \<open>Woken\<close> or \<open>Timed_out\<close> about to lock it again, and in
  \<open>Calls\<close> before the call, with the mutex held.  All other critical sections are one step.  The
  owner in \<open>Stops\<close> is in the destructor before its critical section, in \<open>Notifies\<close> after it.
\<close>

datatype ticker_pc = No_thread | Locks | Waits | Woken | Timed_out | Calls | Ended

datatype owner_pc = Lives | Stops | Notifies | Joins | Gone

text \<open>\<open>pw_calls\<close> is no variable of the code: it counts the calls.\<close>

record 'w periodic_worker =
  pw_active :: bool
  pw_thread :: ticker_pc
  pw_owner :: owner_pc
  pw_world :: 'w
  pw_calls :: nat

definition periodic_worker_new :: "int \<Rightarrow> 'w \<Rightarrow> 'w periodic_worker" where
  "periodic_worker_new interval w =
     \<lparr>pw_active = (0 < interval), pw_thread = (if 0 < interval then Locks else No_thread),
      pw_owner = Lives, pw_world = w, pw_calls = 0\<rparr>"

datatype ticker_label =
    Lock_loop | Wake_up | Time_out | Look_again | Look_last | Call_back
  | Destroy_worker | Stop_worker | Notify_worker | Join_worker

fun ticker_exec ::
  "('w \<Rightarrow> 'w) \<Rightarrow> ticker_label \<Rightarrow> 'w periodic_worker \<Rightarrow> 'w periodic_worker option" where
  "ticker_exec call Lock_loop st =
     (if pw_thread st = Locks
      then Some (st\<lparr>pw_thread := (if pw_active st then Waits else Ended)\<rparr>) else None)"
| "ticker_exec call Wake_up st =
     (if pw_thread st = Waits then Some (st\<lparr>pw_thread := Woken\<rparr>) else None)"
| "ticker_exec call Time_out st =
     (if pw_thread st = Waits then Some (st\<lparr>pw_thread := Timed_out\<rparr>) else None)"
| "ticker_exec call Look_again st =
     (if pw_thread st = Woken
      then Some (st\<lparr>pw_thread := (if pw_active st then Waits else Ended)\<rparr>) else None)"
| "ticker_exec call Look_last st =
     (if pw_thread st = Timed_out
      then Some (st\<lparr>pw_thread := (if pw_active st then Calls else Ended)\<rparr>) else None)"
| "ticker_exec call Call_back st =
     (if pw_thread st = Calls
      then Some (st\<lparr>pw_thread := Locks, pw_world := call (pw_world st), pw_calls := pw_calls st + 1\<rparr>)
      else None)"
| "ticker_exec call Destroy_worker st =
     (if pw_owner st = Lives
      then Some (st\<lparr>pw_owner := (if pw_thread st = No_thread then Gone else Stops)\<rparr>) else None)"
| "ticker_exec call Stop_worker st =
     (if pw_owner st = Stops \<and> pw_thread st \<noteq> Calls
      then Some (st\<lparr>pw_owner := Notifies, pw_active := False\<rparr>) else None)"
| "ticker_exec call Notify_worker st =
     (if pw_owner st = Notifies
      then Some (st\<lparr>pw_owner := Joins, pw_thread := (if pw_thread st = Waits then Woken else pw_thread st)\<rparr>)
      else None)"
| "ticker_exec call Join_worker st =
     (if pw_owner st = Joins \<and> pw_thread st = Ended then Some (st\<lparr>pw_owner := Gone\<rparr>) else None)"

primrec ticker_run ::
  "('w \<Rightarrow> 'w) \<Rightarrow> ticker_label list \<Rightarrow> 'w periodic_worker \<Rightarrow> 'w periodic_worker option" where
  "ticker_run call [] st = Some st"
| "ticker_run call (l # ls) st = Option.bind (ticker_exec call l st) (ticker_run call ls)"

section \<open>The members of the registry\<close>

text \<open>Resetting the pointer to the flusher runs its destructor; the pool is shared with the loggers
  and only given up.\<close>

record registry_threads = registry +
  rg_flusher :: "log_state periodic_worker option"
  rg_tp :: "nat option"

definition set_tp :: "nat option \<Rightarrow> registry_threads \<Rightarrow> registry_threads" where
  "set_tp tp r = r\<lparr>rg_tp := tp\<rparr>"

definition get_tp :: "registry_threads \<Rightarrow> nat option" where
  "get_tp r = rg_tp r"

definition flush_every :: "int \<Rightarrow> log_state \<Rightarrow> registry_threads \<Rightarrow> registry_threads" where
  "flush_every interval w r = r\<lparr>rg_flusher := Some (periodic_worker_new interval w)\<rparr>"

definition flusher_callback :: "registry \<Rightarrow> log_state \<Rightarrow> log_state" where
  "flusher_callback r w = flush_all r w"

definition registry_shutdown :: "registry_threads \<Rightarrow> registry_threads" where
  "registry_shutdown r =
     (let r = r\<lparr>rg_flusher := None\<rparr>;
          r = r\<lparr>rg_loggers := [], rg_default := None\<rparr>
      in r\<lparr>rg_tp := None\<rparr>)"

definition apply_all :: "(nat \<Rightarrow> log_state \<Rightarrow> log_state) \<Rightarrow> registry \<Rightarrow> log_state \<Rightarrow> log_state" where
  "apply_all f r w = fold f (map snd (rg_loggers r)) w"

section \<open>The invariant\<close>

text \<open>The flag is cleared in the critical section of the destructor, which the thread cannot be in
  the middle of a call during, and after the notification the thread is awake.\<close>

fun ticker_ok :: "bool \<Rightarrow> ticker_pc \<Rightarrow> owner_pc \<Rightarrow> bool" where
  "ticker_ok a No_thread ow \<longleftrightarrow> \<not> a \<and> (ow = Lives \<or> ow = Gone)"
| "ticker_ok a th Lives \<longleftrightarrow> a \<and> th \<noteq> Ended"
| "ticker_ok a th Stops \<longleftrightarrow> a \<and> th \<noteq> Ended"
| "ticker_ok a th Notifies \<longleftrightarrow> \<not> a \<and> th \<noteq> Calls"
| "ticker_ok a th Joins \<longleftrightarrow> \<not> a \<and> th \<noteq> Calls \<and> th \<noteq> Waits"
| "ticker_ok a th Gone \<longleftrightarrow> \<not> a \<and> th = Ended"

definition ticker_inv :: "'w periodic_worker \<Rightarrow> bool" where
  "ticker_inv st \<longleftrightarrow> ticker_ok (pw_active st) (pw_thread st) (pw_owner st)"

lemma ticker_new_inv: "ticker_inv (periodic_worker_new interval w)"
  by (simp add: periodic_worker_new_def ticker_inv_def)

lemma ticker_exec_inv: "ticker_inv st \<Longrightarrow> ticker_exec call l st = Some st' \<Longrightarrow> ticker_inv st'"
  by (cases l; cases "pw_thread st"; cases "pw_owner st"; cases "pw_active st")
    (simp_all add: ticker_inv_def, auto)

lemma ticker_run_inv: "ticker_inv st \<Longrightarrow> ticker_run call ls st = Some st' \<Longrightarrow> ticker_inv st'"
proof (induction ls arbitrary: st)
  case (Cons l ls)
  then show ?case using ticker_exec_inv [of st call l] by (auto split: bind_splits)
qed simp

section \<open>Nothing is called after the stop\<close>

lemma stopped_exec:
  assumes "ticker_inv st" "pw_owner st \<in> {Notifies, Joins, Gone}" "ticker_exec call l st = Some st'"
  shows "pw_owner st' \<in> {Notifies, Joins, Gone}" "pw_world st' = pw_world st" "pw_calls st' = pw_calls st"
  using assms
  by (cases l; cases "pw_thread st"; cases "pw_owner st"; simp add: ticker_inv_def; auto)+

lemma stopped_run:
  "ticker_inv st \<Longrightarrow> pw_owner st \<in> {Notifies, Joins, Gone} \<Longrightarrow> ticker_run call ls st = Some st' \<Longrightarrow>
    pw_world st' = pw_world st \<and> pw_calls st' = pw_calls st"
proof (induction ls arbitrary: st)
  case (Cons l ls)
  then obtain st1 where st1: "ticker_exec call l st = Some st1" "ticker_run call ls st1 = Some st'"
    by (auto split: bind_splits)
  note res = stopped_exec [OF Cons.prems(1,2) st1(1)]
  show ?case using Cons.IH [OF ticker_exec_inv [OF Cons.prems(1) st1(1)] res(1) st1(2)] res by simp
qed simp

section \<open>The destructor ends\<close>

text \<open>The steps that need no passing of time and no wake-up without a reason.\<close>

fun ticker_own :: "ticker_label \<Rightarrow> bool" where
  "ticker_own Wake_up = False"
| "ticker_own Time_out = False"
| "ticker_own Destroy_worker = False"
| "ticker_own _ = True"

fun thread_left :: "ticker_pc \<Rightarrow> nat" where
  "thread_left Timed_out = 6"
| "thread_left Calls = 5"
| "thread_left Locks = 4"
| "thread_left Woken = 4"
| "thread_left Waits = 3"
| "thread_left _ = 0"

fun owner_left :: "owner_pc \<Rightarrow> nat" where
  "owner_left Lives = 8"
| "owner_left Stops = 5"
| "owner_left Notifies = 3"
| "owner_left Joins = 1"
| "owner_left Gone = 0"

definition worker_left :: "'w periodic_worker \<Rightarrow> nat" where
  "worker_left st = thread_left (pw_thread st) + owner_left (pw_owner st)"

lemma ticker_own_less:
  "ticker_own l \<Longrightarrow> ticker_exec call l st = Some st' \<Longrightarrow> worker_left st' < worker_left st"
  by (cases l) (auto simp: worker_left_def split: if_splits)

lemma ticker_progress:
  assumes "ticker_inv st" "pw_owner st \<in> {Stops, Notifies, Joins}"
  shows "\<exists>l st'. ticker_own l \<and> ticker_exec call l st = Some st'"
proof -
  have "ticker_exec call Call_back st \<noteq> None \<or> ticker_exec call Stop_worker st \<noteq> None \<or>
      ticker_exec call Notify_worker st \<noteq> None \<or> ticker_exec call Join_worker st \<noteq> None \<or>
      ticker_exec call Lock_loop st \<noteq> None \<or> ticker_exec call Look_again st \<noteq> None \<or>
      ticker_exec call Look_last st \<noteq> None"
    using assms by (cases "pw_thread st"; cases "pw_owner st") (simp_all add: ticker_inv_def)
  then show ?thesis by (metis not_None_eq ticker_own.simps(4-10))
qed

lemma ticker_own_run_bound:
  "ticker_run call ls st = Some st' \<Longrightarrow> list_all ticker_own ls \<Longrightarrow> length ls + worker_left st' \<le> worker_left st"
proof (induction ls arbitrary: st)
  case (Cons l ls)
  then obtain st1 where st1: "ticker_exec call l st = Some st1" "ticker_run call ls st1 = Some st'"
    by (auto split: bind_splits)
  then show ?case using Cons.IH [OF st1(2)] ticker_own_less [OF _ st1(1)] Cons.prems(2) by auto
qed simp

lemma worker_left_bound: "pw_owner st \<noteq> Lives \<Longrightarrow> worker_left st \<le> 11"
  by (cases "pw_thread st"; cases "pw_owner st") (simp_all add: worker_left_def)

text \<open>C39: the destructor of a periodic worker always ends: once it was called, in whatever state the
  thread is, every run of the two threads by themselves has at most eleven steps, and while the
  destructor is not done there is a next step.  And it is a barrier: from its critical section
  on, the function is not called any more, whatever happens.\<close>

theorem periodic_worker_stops:
  assumes "ticker_run call before (periodic_worker_new interval w) = Some st"
  shows "(pw_owner st \<noteq> Lives \<longrightarrow>
      (\<forall>ls st'. list_all ticker_own ls \<and> ticker_run call ls st = Some st' \<longrightarrow> length ls \<le> 11 \<and>
        (pw_owner st' \<noteq> Gone \<longrightarrow> (\<exists>l. ticker_own l \<and> ticker_exec call l st' \<noteq> None)))) \<and>
    (pw_owner st \<in> {Notifies, Joins, Gone} \<longrightarrow>
      (\<forall>ls st'. ticker_run call ls st = Some st' \<longrightarrow>
        pw_calls st' = pw_calls st \<and> pw_world st' = pw_world st))"
proof -
  have inv: "ticker_inv st" by (rule ticker_run_inv [OF ticker_new_inv assms])
  have own: "pw_owner st' \<noteq> Lives" if "ticker_run call ls st = Some st'" "pw_owner st \<noteq> Lives" for ls st'
    using that
  proof (induction ls arbitrary: st)
    case (Cons l ls)
    then obtain st1 where st1: "ticker_exec call l st = Some st1" "ticker_run call ls st1 = Some st'"
      by (auto split: bind_splits)
    then have "pw_owner st1 \<noteq> Lives" using Cons.prems(2) by (cases l) (auto split: if_splits)
    with st1(2) show ?case by (rule Cons.IH)
  qed simp
  have "length ls \<le> 11 \<and> (pw_owner st' \<noteq> Gone \<longrightarrow> (\<exists>l. ticker_own l \<and> ticker_exec call l st' \<noteq> None))"
    if o: "pw_owner st \<noteq> Lives" and ls: "list_all ticker_own ls" "ticker_run call ls st = Some st'" for ls st'
  proof -
    have "ticker_inv st'" by (rule ticker_run_inv [OF inv ls(2)])
    moreover have "pw_owner st' \<in> {Stops, Notifies, Joins}" if "pw_owner st' \<noteq> Gone"
      using own [OF ls(2) o] that by (cases "pw_owner st'") auto
    ultimately show ?thesis
      using ticker_progress [of st' call] ticker_own_run_bound [OF ls(2,1)] worker_left_bound [OF o] by fastforce
  qed
  then show ?thesis using stopped_run [OF inv] by blast
qed

text \<open>A worker in the middle of its wait when the destructor is called.\<close>

theorem periodic_worker_stops_witness:
  "ticker_run Suc [Lock_loop, Time_out, Look_last, Call_back, Lock_loop, Destroy_worker]
     (periodic_worker_new 3 0) =
     Some \<lparr>pw_active = True, pw_thread = Waits, pw_owner = Stops, pw_world = 1, pw_calls = 1\<rparr> \<and>
   (\<exists>l. ticker_own l \<and> ticker_exec Suc l
      \<lparr>pw_active = True, pw_thread = Waits, pw_owner = Stops, pw_world = 1, pw_calls = 1\<rparr> \<noteq> None)"
proof -
  let ?st = "\<lparr>pw_active = True, pw_thread = Waits, pw_owner = Stops, pw_world = 1, pw_calls = 1\<rparr>"
  have run: "ticker_run Suc [Lock_loop, Time_out, Look_last, Call_back, Lock_loop, Destroy_worker]
     (periodic_worker_new 3 0) = Some ?st"
    by (simp add: periodic_worker_new_def)
  have "list_all ticker_own []" "ticker_run Suc [] ?st = Some ?st" "pw_owner ?st \<noteq> Lives" "pw_owner ?st \<noteq> Gone"
    by simp_all
  then have "\<exists>l. ticker_own l \<and> ticker_exec Suc l ?st \<noteq> None"
    using periodic_worker_stops [OF run] by blast
  with run show ?thesis by blast
qed

text \<open>A worker with no interval has no thread and never calls.\<close>

lemma no_interval_no_call:
  assumes "interval \<le> 0" "ticker_run call ls (periodic_worker_new interval w) = Some st"
  shows "pw_calls st = 0"
proof -
  have "pw_calls st' = pw_calls st0 \<and> pw_thread st' = No_thread"
    if "pw_thread st0 = No_thread" "ticker_run call ks st0 = Some st'" for ks st0 and st' :: "'a periodic_worker"
    using that
  proof (induction ks arbitrary: st0)
    case (Cons l ks)
    then obtain st1 where st1: "ticker_exec call l st0 = Some st1" "ticker_run call ks st1 = Some st'"
      by (auto split: bind_splits)
    then have "pw_thread st1 = No_thread \<and> pw_calls st1 = pw_calls st0"
      using Cons.prems(1) by (cases l) (auto split: if_splits)
    with Cons.IH st1(2) show ?case by metis
  qed simp
  from this [of "periodic_worker_new interval w"] assms show ?thesis by (auto simp: periodic_worker_new_def)
qed

section \<open>Shutting down\<close>

lemma shutdown_clears:
  "registry_get name (registry.truncate (registry_shutdown r)) = None \<and> get_tp (registry_shutdown r) = None \<and>
    rg_flusher (registry_shutdown r) = None"
  by (simp add: registry_shutdown_def registry_get_def get_tp_def registry.defs)

end
