(* ===== verification/Spd_Config.thy ===== *)
theory Spd_Config
  imports Spd_Registry Spd_Files_Props
begin

text \<open>
  The levels of the loggers from a text such as \<^verbatim>\<open>off,logger1=debug\<close> (\<^verbatim>\<open>cfg/helpers-inl.h\<close>,
  \<^verbatim>\<open>cfg/argv.h\<close>, \<^verbatim>\<open>cfg/env.h\<close> of \<^verbatim>\<open>contrib/spdlog/include/spdlog\<close>), and what a text sets.
\<close>

section \<open>Reading the text\<close>

definition to_lower :: "string \<Rightarrow> string" where
  "to_lower s = map (\<lambda>ch. if (of_char ch :: nat) \<in> {65..90} then char_of (of_char ch + 32 :: nat) else ch) s"

definition is_blank :: "char \<Rightarrow> bool" where
  "is_blank c \<longleftrightarrow> c \<in> {CHR '' '', CHR 0x0A, CHR 0x0D, CHR 0x09}"

definition trim :: "string \<Rightarrow> string" where
  "trim s = dropWhile is_blank (rev (dropWhile is_blank (rev s)))"

definition extract_kv :: "char \<Rightarrow> string \<Rightarrow> string \<times> string" where
  "extract_kv sep s =
     (if sep \<notin> set s then ([], trim s)
      else (trim (takeWhile (\<lambda>c. c \<noteq> sep) s), trim (tl (dropWhile (\<lambda>c. c \<noteq> sep) s))))"

text \<open>The lines \<^verbatim>\<open>std::getline\<close> reads with a delimiter: none is left after a last delimiter.\<close>

function getlines :: "char \<Rightarrow> string \<Rightarrow> string list" where
  "getlines sep s =
     (if s = [] then []
      else takeWhile (\<lambda>c. c \<noteq> sep) s #
        (case dropWhile (\<lambda>c. c \<noteq> sep) s of [] \<Rightarrow> [] | _ # rest \<Rightarrow> getlines sep rest))"
  by auto

termination
proof (relation "measure (\<lambda>(sep, s). length s)", goal_cases)
  case (2 sep s c rest)
  then show ?case using length_dropWhile_le [of "\<lambda>c. c \<noteq> sep" s] by simp
qed simp

declare getlines.simps [simp del]

definition extract_key_vals :: "string \<Rightarrow> (string \<times> string) list" where
  "extract_key_vals s =
     fold (\<lambda>token rv. if token = [] then rv
         else let (k, v) = extract_kv (CHR ''='') token in map_assign k v rv)
       (getlines (CHR '','') s) []"

section \<open>Setting the levels\<close>

definition level_named :: "string \<Rightarrow> level_enum option" where
  "level_named v =
     (let level_name = to_lower v; level = from_str level_name
      in if level = Level_off \<and> level_name \<noteq> ''off'' then None else Some level)"

text \<open>The keys of the hash map are distinct, so the order of its elements does not matter.\<close>

definition load_levels :: "string \<Rightarrow> registry \<Rightarrow> log_state \<Rightarrow> registry \<times> log_state" where
  "load_levels input r w =
     (if input = [] \<or> 512 < length input then (r, w)
      else
        let (levels, global) =
              fold (\<lambda>(name, value) (levels, global).
                  case level_named value of
                    None \<Rightarrow> (levels, global)
                  | Some lv \<Rightarrow>
                      if name = [] then (levels, Some lv) else (map_assign name lv levels, global))
                (extract_key_vals input) ([], None)
        in set_levels levels global r w)"

definition level_prefix :: string where
  "level_prefix = ''SPDLOG_LEVEL=''"

definition load_argv_levels :: "string list \<Rightarrow> registry \<Rightarrow> log_state \<Rightarrow> registry \<times> log_state" where
  "load_argv_levels argv r w =
     fold (\<lambda>arg (r, w).
         if take (length level_prefix) arg = level_prefix
         then load_levels (drop (length level_prefix) arg) r w else (r, w)) (tl argv) (r, w)"

definition load_env_levels :: "string option \<Rightarrow> registry \<Rightarrow> log_state \<Rightarrow> registry \<times> log_state" where
  "load_env_levels env r w =
     (case env of None \<Rightarrow> (r, w) | Some s \<Rightarrow> if s = [] then (r, w) else load_levels s r w)"

section \<open>Maps and lines\<close>

lemma map_of_assign [simp]: "map_of (map_assign k v xs) = (map_of xs)(k \<mapsto> v)"
  by (simp add: map_assign_def map_of_filter_keys fun_eq_iff)

lemma distinct_assign: "distinct (map fst xs) \<Longrightarrow> distinct (map fst (map_assign k v xs))"
  by (auto simp: map_assign_def distinct_map_filter)

lemma getlines_end: "t \<noteq> [] \<Longrightarrow> sep \<notin> set t \<Longrightarrow> getlines sep t = [t]"
proof -
  assume t: "t \<noteq> []" "sep \<notin> set t"
  then have "takeWhile (\<lambda>c. c \<noteq> sep) t = t" "dropWhile (\<lambda>c. c \<noteq> sep) t = []"
    by (auto simp: takeWhile_eq_all_conv dropWhile_eq_Nil_conv)
  with t(1) show ?thesis by (subst getlines.simps) (simp del: dropWhile_eq_Nil_conv takeWhile_eq_all_conv)
qed

lemma getlines_next: "sep \<notin> set t \<Longrightarrow> getlines sep (t @ sep # s) = t # getlines sep s"
proof -
  assume t: "sep \<notin> set t"
  then have "takeWhile (\<lambda>c. c \<noteq> sep) (t @ sep # s) = t" "dropWhile (\<lambda>c. c \<noteq> sep) (t @ sep # s) = sep # s"
    by (subst takeWhile_append2 dropWhile_append2; auto)+
  then show ?thesis by (subst getlines.simps) simp
qed

primrec join_with :: "char \<Rightarrow> string list \<Rightarrow> string" where
  "join_with sep [] = []"
| "join_with sep (t # ts) = (if ts = [] then t else t @ sep # join_with sep ts)"

lemma getlines_join:
  "\<forall>t \<in> set ts. t \<noteq> [] \<and> sep \<notin> set t \<Longrightarrow> getlines sep (join_with sep ts) = ts"
proof (induction ts)
  case Nil
  then show ?case by (simp add: getlines.simps)
next
  case (Cons t ts)
  then show ?case by (cases "ts = []") (simp_all add: getlines_end getlines_next)
qed

section \<open>What a text sets\<close>

text \<open>A word has no comma and no blanks around it.\<close>

definition clean :: "string \<Rightarrow> bool" where
  "clean s \<longleftrightarrow> CHR '','' \<notin> set s \<and> (s \<noteq> [] \<longrightarrow> \<not> is_blank (hd s) \<and> \<not> is_blank (last s))"

definition blanks :: "string \<Rightarrow> bool" where
  "blanks s \<longleftrightarrow> (\<forall>c \<in> set s. is_blank c)"

text \<open>The text of a setting, for a logger or, without a name, for all.\<close>

inductive writes :: "string \<Rightarrow> string \<times> string \<Rightarrow> bool" where
  writes_all: "blanks a \<Longrightarrow> blanks b \<Longrightarrow> clean v \<Longrightarrow> v \<noteq> [] \<Longrightarrow> CHR ''='' \<notin> set v \<Longrightarrow>
    writes (a @ v @ b) ([], v)"
| writes_one: "blanks a \<Longrightarrow> blanks b \<Longrightarrow> blanks c \<Longrightarrow> blanks d \<Longrightarrow> clean k \<Longrightarrow> clean v \<Longrightarrow> CHR ''='' \<notin> set k \<Longrightarrow>
    writes (a @ k @ b @ CHR ''='' # c @ v @ d) (k, v)"

lemma drop_blanks: "blanks a \<Longrightarrow> s \<noteq> [] \<longrightarrow> \<not> is_blank (hd s) \<Longrightarrow> dropWhile is_blank (a @ s) = s"
  by (cases s) (auto simp: blanks_def dropWhile_append2 dropWhile_eq_Nil_conv [THEN iffD2])

lemma trim_word:
  assumes "blanks a" "blanks b" "clean s"
  shows "trim (a @ s @ b) = s"
proof (cases "s = []")
  case True
  have "\<forall>c \<in> set (rev (a @ b)). is_blank c" using assms by (auto simp: blanks_def)
  then show ?thesis using True by (simp add: trim_def dropWhile_eq_Nil_conv [THEN iffD2] del: rev_append)
next
  case False
  have "blanks (rev b)" using assms(2) by (simp add: blanks_def)
  then have "dropWhile is_blank (rev b @ rev (a @ s)) = rev (a @ s)"
    by (rule drop_blanks) (use assms(3) False in \<open>simp add: clean_def hd_rev\<close>)
  then show ?thesis
    using drop_blanks [OF assms(1), of s] assms(3) by (simp add: trim_def clean_def)
qed

lemma blanks_no: "blanks s \<Longrightarrow> CHR ''='' \<notin> set s \<and> CHR '','' \<notin> set s"
proof -
  assume b: "blanks s"
  have "\<not> is_blank (CHR ''='')" "\<not> is_blank (CHR '','')" by (simp_all add: is_blank_def)
  with b show ?thesis unfolding blanks_def by blast
qed

lemma writes_kv: "writes t e \<Longrightarrow> extract_kv (CHR ''='') t = e"
proof (induction rule: writes.induct)
  case (writes_all a b v)
  then show ?case using blanks_no by (auto simp: extract_kv_def trim_word)
next
  case (writes_one a b c d k v)
  have no: "CHR ''='' \<notin> set (a @ k @ b)" using writes_one blanks_no by auto
  then have "takeWhile (\<lambda>c. c \<noteq> CHR ''='') ((a @ k @ b) @ CHR ''='' # c @ v @ d) = a @ k @ b"
    "dropWhile (\<lambda>c. c \<noteq> CHR ''='') ((a @ k @ b) @ CHR ''='' # c @ v @ d) = CHR ''='' # c @ v @ d"
    by (subst takeWhile_append2 dropWhile_append2; auto)+
  then show ?case using writes_one by (simp add: extract_kv_def trim_word)
qed

lemma writes_token: "writes t e \<Longrightarrow> t \<noteq> [] \<and> CHR '','' \<notin> set t"
  by (induction rule: writes.induct) (auto simp: clean_def dest: blanks_no)

lemma key_vals_fold:
  assumes "list_all2 writes ts es"
  shows "map_of (fold (\<lambda>token rv. if token = [] then rv
      else let (k, v) = extract_kv (CHR ''='') token in map_assign k v rv) ts rv) = map_of rv ++ map_of (rev es) \<and>
    (distinct (map fst rv) \<longrightarrow> distinct (map fst (fold (\<lambda>token rv. if token = [] then rv
      else let (k, v) = extract_kv (CHR ''='') token in map_assign k v rv) ts rv)))"
  using assms
proof (induction ts es arbitrary: rv rule: list_all2_induct)
  case (Cons t ts e es)
  obtain k v where e: "e = (k, v)" by fastforce
  have s: "t \<noteq> []" "extract_kv (CHR ''='') t = (k, v)"
    using writes_token writes_kv Cons(1) e by auto
  show ?case using Cons.IH [of "map_assign k v rv"] s e distinct_assign [of rv k v]
    by (auto simp: fun_eq_iff map_add_def split: option.splits)
qed simp

lemma extract_writes:
  assumes "list_all2 writes ts es"
  shows "map_of (extract_key_vals (join_with (CHR '','') ts)) = map_of (rev es)"
    "distinct (map fst (extract_key_vals (join_with (CHR '','') ts)))"
proof -
  have "\<forall>t \<in> set ts. t \<noteq> [] \<and> CHR '','' \<notin> set t"
    using assms by (induction rule: list_all2_induct) (auto dest: writes_token)
  from getlines_join [OF this] key_vals_fold [OF assms, of "[]"]
  show "map_of (extract_key_vals (join_with (CHR '','') ts)) = map_of (rev es)"
    "distinct (map fst (extract_key_vals (join_with (CHR '','') ts)))"
    by (simp_all add: extract_key_vals_def)
qed

text \<open>What the loop of \<^verbatim>\<open>load_levels\<close> makes of the pairs.\<close>

definition read_levels ::
  "(string \<times> string) list \<Rightarrow> (string \<times> level_enum) list \<times> level_enum option \<Rightarrow>
   (string \<times> level_enum) list \<times> level_enum option" where
  "read_levels = fold (\<lambda>(name, value) (levels, global).
     case level_named value of None \<Rightarrow> (levels, global)
     | Some lv \<Rightarrow> if name = [] then (levels, Some lv) else (map_assign name lv levels, global))"

definition or_else :: "'a option \<Rightarrow> 'a option \<Rightarrow> 'a option" where
  "or_else a b = (case a of None \<Rightarrow> b | Some x \<Rightarrow> Some x)"

lemma or_else_simps [simp]: "or_else None b = b" "or_else (Some x) b = Some x" "or_else a None = a"
  by (simp_all add: or_else_def split: option.split)

lemma read_levels_lookup:
  assumes "distinct (map fst kvs)"
  shows "map_of (fst (read_levels kvs (ls0, g0))) n =
      (if n = [] then map_of ls0 n else or_else (Option.bind (map_of kvs n) level_named) (map_of ls0 n)) \<and>
    snd (read_levels kvs (ls0, g0)) = or_else (Option.bind (map_of kvs []) level_named) g0"
  using assms
proof (induction kvs arbitrary: ls0 g0)
  case (Cons e kvs)
  obtain k v where e: "e = (k, v)" by fastforce
  have k: "map_of kvs k = None" using Cons.prems e by (simp add: map_of_eq_None_iff)
  have d: "distinct (map fst kvs)" using Cons.prems by simp
  show ?case
  proof (cases "level_named v")
    case None
    then have "read_levels (e # kvs) (ls0, g0) = read_levels kvs (ls0, g0)"
      by (simp add: read_levels_def e)
    then show ?thesis using Cons.IH [OF d, of ls0 g0] k None by (cases "k = []") (simp_all add: e)
  next
    case (Some lv)
    then have "read_levels (e # kvs) (ls0, g0) =
        read_levels kvs (if k = [] then (ls0, Some lv) else (map_assign k lv ls0, g0))"
      by (simp add: read_levels_def e)
    then show ?thesis
      using Cons.IH [OF d, of ls0 "Some lv"] Cons.IH [OF d, of "map_assign k lv ls0" g0] k Some
      by (cases "k = []"; cases "n = k") (simp_all add: e)
  qed
qed (simp add: read_levels_def)

section \<open>What the registry does with it\<close>

lemma fold_on_loggers:
  assumes "distinct (map snd xs)"
  shows "ls_loggers (fold (\<lambda>(n, l). on_logger l (g n)) xs w) l =
    (case map_of (map prod.swap xs) l of None \<Rightarrow> ls_loggers w l | Some n \<Rightarrow> map_option (g n) (ls_loggers w l))"
  using assms
proof (induction xs arbitrary: w)
  case (Cons x xs)
  obtain n l' where x: "x = (n, l')" by fastforce
  have "map_of (map prod.swap xs) l' = None"
    using Cons.prems x by (force simp: map_of_eq_None_iff)
  then show ?case using Cons x by (auto simp: on_logger_def split: option.splits)
qed simp

lemma on_logger_id: "on_logger l (\<lambda>x. x) w = w"
  by (simp add: on_logger_def option.map_ident)

lemma set_levels_logger:
  assumes "set_levels levels global r w = (r', w')" "distinct (map snd (rg_loggers r))"
    and "(n, l) \<in> set (rg_loggers r)" "ls_loggers w l = Some lg"
  shows "ls_loggers w' l = Some (case map_of levels n of Some lv \<Rightarrow> set_level lv lg
    | None \<Rightarrow> (case global of Some g \<Rightarrow> set_level g lg | None \<Rightarrow> lg))"
proof -
  define g where "g = (\<lambda>n. case map_of levels n of Some lv \<Rightarrow> set_level lv
    | None \<Rightarrow> (case global of Some g \<Rightarrow> set_level g | None \<Rightarrow> (\<lambda>x. x)))"
  have step: "(\<lambda>(name, l) w. case map_of levels name of Some lv \<Rightarrow> on_logger l (set_level lv) w
      | None \<Rightarrow> (case global of Some g \<Rightarrow> on_logger l (set_level g) w | None \<Rightarrow> w)) =
    (\<lambda>(n, l). on_logger l (g n))"
    by (auto simp: fun_eq_iff g_def on_logger_id split: option.splits)
  have "map_of (map prod.swap (rg_loggers r)) l = Some n"
    using assms(2,3) by (intro map_of_is_SomeI) (force simp: comp_def)+
  then have "ls_loggers w' l = Some (g n lg)"
    using assms(1,4) fold_on_loggers [OF assms(2), of g w l] by (auto simp: set_levels_def step)
  then show ?thesis by (simp add: g_def split: option.splits)
qed

text \<open>A text of settings \<^verbatim>\<open>name=level\<close> or \<^verbatim>\<open>level\<close>, with blanks anywhere around the words and
  upper or lower case levels, sets every registered logger to the level of the last setting of
  its name, without one (or when its level is not known) to that of the last setting without a
  name, and else leaves it as it was.\<close>

theorem load_levels_sets:
  assumes "list_all2 writes ts es" "es \<noteq> []" "length (join_with (CHR '','') ts) \<le> 512"
    and "distinct (map snd (rg_loggers r))" "(n, l) \<in> set (rg_loggers r)" "ls_loggers w l = Some lg"
  shows "let setting = (\<lambda>k. Option.bind (map_of (rev es) k) level_named) in
    ls_loggers (snd (load_levels (join_with (CHR '','') ts) r w)) l =
      Some (case setting n of Some lv \<Rightarrow> set_level lv lg
        | None \<Rightarrow> (case setting [] of Some g \<Rightarrow> set_level g lg | None \<Rightarrow> lg))"
proof -
  let ?in = "join_with (CHR '','') ts"
  obtain t ts' where ts: "ts = t # ts'" using assms(1,2) by (cases ts; cases es) auto
  have "t \<noteq> []" using assms(1) ts writes_token by (auto simp: list_all2_Cons1)
  then have ne: "?in \<noteq> []" by (simp add: ts)
  obtain levels global where f: "read_levels (extract_key_vals ?in) ([], None) = (levels, global)"
    by fastforce
  have lv: "global = Option.bind (map_of (rev es) []) level_named"
    "map_of levels n = (if n = [] then None else Option.bind (map_of (rev es) n) level_named)" for n
    using read_levels_lookup [OF extract_writes(2) [OF assms(1)], of "[]" None n] f
    by (simp_all add: extract_writes(1) [OF assms(1)])
  obtain r' w' where s: "set_levels levels global r w = (r', w')" by fastforce
  have "load_levels ?in r w = (r', w')"
    using ne assms(3) f s by (simp add: load_levels_def read_levels_def)
  then show ?thesis
    using set_levels_logger [OF s assms(4-6)] lv by (cases "n = []") (auto split: option.splits)
qed

text \<open>Two loggers; the second is set by its name, the first with all others.\<close>

definition two_loggers :: "registry \<times> log_state" where
  "two_loggers =
     (\<lparr>rg_loggers = [(''a'', 0), (''srv'', 1)], rg_levels = [],
       rg_formatter = default_formatter Time_local [CHR 0x0A], rg_global_level = Level_info,
       rg_flush_level = Level_off, rg_err_handler = None, rg_default = None, rg_automatic = True,
       rg_backtrace = 0\<rparr>,
      \<lparr>ls_sinks = Map.empty,
       ls_loggers = [0 \<mapsto> spd_logger_new ''a'' [], 1 \<mapsto> spd_logger_new ''srv'' []],
       ls_io = \<lparr>io_disk = sample_disk, io_console = []\<rparr>, ls_errors = [], ls_err_counter = 0,
       ls_last_report = 0\<rparr>)"

theorem load_levels_sets_witness:
  "ls_loggers (snd (load_levels ''OFF, srv = Debug'' (fst two_loggers) (snd two_loggers))) 1 =
     Some (set_level Level_debug (spd_logger_new ''srv'' []))"
proof -
  have 1: "writes ''OFF'' ([], ''OFF'')"
    using writes_all [of "[]" "[]" "''OFF''"] by (simp add: blanks_def clean_def is_blank_def)
  have 2: "writes '' srv = Debug'' (''srv'', ''Debug'')"
    using writes_one [of "'' ''" "'' ''" "'' ''" "[]" "''srv''" "''Debug''"]
    by (simp add: blanks_def clean_def is_blank_def)
  have es: "list_all2 writes [''OFF'', '' srv = Debug''] [([], ''OFF''), (''srv'', ''Debug'')]"
    using 1 2 by simp
  have lv: "level_named ''Debug'' = Some Level_debug" by code_simp
  show ?thesis
    using load_levels_sets [OF es, of "fst two_loggers" "''srv''" 1 "snd two_loggers" "spd_logger_new ''srv'' []"] lv
    by (simp add: two_loggers_def Let_def)
qed

text \<open>The comment of \<^verbatim>\<open>cfg/env.h\<close> turns off all loggers with \<^verbatim>\<open>*=off\<close>; the star is read as the name
  of a logger.  An unknown level is ignored and does not fall back to \<^verbatim>\<open>info\<close>.\<close>

lemma star_is_a_name:
  "extract_key_vals ''*=off,logger1=debug'' = [(''logger1'', ''debug''), (''*'', ''off'')]"
  by code_simp

lemma star_sets_one:
  "load_levels ''*=off,logger1=debug'' r w =
     set_levels [(''*'', Level_off), (''logger1'', Level_debug)] None r w"
proof -
  have lv: "level_named ''debug'' = Some Level_debug" "level_named ''off'' = Some Level_off" by code_simp+
  show ?thesis by (simp add: load_levels_def star_is_a_name lv map_assign_def)
qed

lemma unknown_level_ignored: "level_named ''verbose'' = None"
  by code_simp

end
