(* ===== verification/Spd_Hex.thy ===== *)
theory Spd_Hex
  imports Spd_Common
begin

text \<open>
  Bytes as a hex dump (\<^verbatim>\<open>fmt/bin_to_hex.h\<close> of \<^verbatim>\<open>contrib/spdlog/include/spdlog\<close>): the flags, the
  lines with positions and with the printable characters, and a reader that shows that the dump
  tells every byte whatever the flags are.
\<close>

section \<open>The flags\<close>

record hex_flags =
  hx_newlines :: bool
  hx_delimiters :: bool
  hx_uppercase :: bool
  hx_positions :: bool
  hx_ascii :: bool

definition hex_default :: hex_flags where
  "hex_default = \<lparr>hx_newlines = True, hx_delimiters = True, hx_uppercase = False, hx_positions = True,
     hx_ascii = False\<rparr>"

definition hex_flag :: "char \<Rightarrow> hex_flags \<Rightarrow> hex_flags" where
  "hex_flag c F =
     (if c = CHR ''X'' then F\<lparr>hx_uppercase := True\<rparr>
      else if c = CHR ''s'' then F\<lparr>hx_delimiters := False\<rparr>
      else if c = CHR ''p'' then F\<lparr>hx_positions := False\<rparr>
      else if c = CHR ''n'' then F\<lparr>hx_newlines := False, hx_ascii := False\<rparr>
      else if c = CHR ''a'' then (if hx_newlines F then F\<lparr>hx_ascii := True\<rparr> else F)
      else F)"

text \<open>\<^verbatim>\<open>parse\<close>: the flags, and what is left from the closing brace on.\<close>

primrec hex_parse :: "string \<Rightarrow> hex_flags \<Rightarrow> hex_flags \<times> string" where
  "hex_parse [] F = (F, [])"
| "hex_parse (c # s) F = (if c = CHR ''}'' then (F, c # s) else hex_parse s (hex_flag c F))"

section \<open>The dump\<close>

definition hex_char :: "bool \<Rightarrow> nat \<Rightarrow> char" where
  "hex_char up d = (if up then ''0123456789ABCDEF'' else ''0123456789abcdef'') ! d"

definition hex_byte :: "bool \<Rightarrow> char \<Rightarrow> string" where
  "hex_byte up ch = [hex_char up ((of_char ch div 16) mod 16), hex_char up (of_char ch mod 16)]"

definition printable :: "char \<Rightarrow> char" where
  "printable ch = (if (of_char ch :: nat) \<in> {32..126} then ch else CHR ''.'')"

text \<open>\<^verbatim>\<open>{:04X}\<close>.\<close>

fun hex_number :: "nat \<Rightarrow> string" where
  "hex_number n = (if n < 16 then [] else hex_number (n div 16)) @ [hex_char True (n mod 16)]"

declare hex_number.simps [simp del]

definition hex_position :: "nat \<Rightarrow> string" where
  "hex_position n = replicate (4 - length (hex_number n)) CHR ''0'' @ hex_number n"

definition put_newline :: "hex_flags \<Rightarrow> string \<Rightarrow> nat \<Rightarrow> string" where
  "put_newline F eol pos = eol @ (if hx_positions F then hex_position pos @ '': '' else [])"

text \<open>The loop: the number of bytes before, those since \<^verbatim>\<open>start_of_line\<close>, and those to come; the
  results are the text and the bytes since the last start of a line.\<close>

fun hex_loop :: "hex_flags \<Rightarrow> string \<Rightarrow> int \<Rightarrow> nat \<Rightarrow> string \<Rightarrow> string \<Rightarrow> string \<times> string" where
  "hex_loop F eol size_per_line pos line [] = ([], line)"
| "hex_loop F eol size_per_line pos line (ch # rest) =
     (if hx_newlines F \<and> (pos = 0 \<or> size_per_line \<le> int (length line)) then
        let (text, last_line) = hex_loop F eol size_per_line (pos + 1) [ch] rest
        in ((if hx_ascii F \<and> pos \<noteq> 0 then ''  '' @ map printable line else []) @
              put_newline F eol pos @ hex_byte (hx_uppercase F) ch @ text, last_line)
      else
        let (text, last_line) = hex_loop F eol size_per_line (pos + 1) (line @ [ch]) rest
        in ((if hx_delimiters F then '' '' else []) @ hex_byte (hx_uppercase F) ch @ text, last_line))"

definition hex_ending :: "hex_flags \<Rightarrow> int \<Rightarrow> nat \<Rightarrow> string \<Rightarrow> string" where
  "hex_ending F size_per_line total_bytes line =
     (if hx_ascii F then
        (if size_per_line < int total_bytes then
           concat (replicate (nat (size_per_line - int (length line)))
             (''  '' @ (if hx_delimiters F then '' '' else [])))
         else []) @ ''  '' @ map printable line
      else [])"

text \<open>The size of a line is a \<^verbatim>\<open>size_t\<close> and cut to an \<^verbatim>\<open>int\<close>.\<close>

definition to_hex :: "hex_flags \<Rightarrow> string \<Rightarrow> nat \<Rightarrow> string \<Rightarrow> string" where
  "to_hex F eol size_per_line bytes =
     (let n = sint (of_nat size_per_line :: 32 word);
          (text, line) = hex_loop F eol n 0 [] bytes
      in text @ hex_ending F n (length bytes) line)"

section \<open>A reader\<close>

text \<open>Two blanks begin the printable characters, which go to the end of the line.\<close>

definition hex_value :: "char \<Rightarrow> nat" where
  "hex_value c =
     (let n = of_char c in if n < 58 then n - 48 else if n < 97 then n - 55 else n - 87)"

function read_hex :: "bool \<Rightarrow> string \<Rightarrow> string" where
  "read_hex ps [] = []"
| "read_hex ps (c # s) =
     (if c = CHR 0x0A then
        read_hex ps (if ps then drop 1 (dropWhile (\<lambda>c. c \<noteq> CHR '':'') s) else s)
      else if c = CHR 0x0D then read_hex ps s
      else if c = CHR '' '' then
        read_hex ps (if take 1 s = '' '' then dropWhile (\<lambda>c. c \<noteq> CHR 0x0A) s else s)
      else
        (case s of [] \<Rightarrow> []
         | d # s \<Rightarrow> char_of (16 * hex_value c + hex_value d) # read_hex ps s))"
  by pat_completeness auto

termination
proof (relation "measure (\<lambda>(ps, s). length s)", goal_cases)
  case (2 ps c s)
  have "length (dropWhile (\<lambda>c. c \<noteq> CHR '':'') s) \<le> length s" by (rule length_dropWhile_le)
  then show ?case by (auto intro: le_imp_less_Suc)
next
  case (4 ps c s)
  then show ?case using length_dropWhile_le [of "\<lambda>c. c \<noteq> CHR 0x0A" s] by auto
qed simp_all

declare read_hex.simps(2) [simp del]

section \<open>Digits\<close>

lemma hex_char_facts:
  assumes "d < 16"
  shows "hex_value (hex_char up d) = d" "hex_char up d \<noteq> CHR 0x0A" "hex_char up d \<noteq> CHR 0x0D"
    "hex_char up d \<noteq> CHR '' ''" "hex_char up d \<noteq> CHR '':''"
proof -
  have "\<forall>d \<in> set [0..<16]. \<forall>up \<in> set [False, True]. hex_value (hex_char up d) = d \<and>
      hex_char up d \<noteq> CHR 0x0A \<and> hex_char up d \<noteq> CHR 0x0D \<and> hex_char up d \<noteq> CHR '' '' \<and>
      hex_char up d \<noteq> CHR '':''" by code_simp
  moreover have "d \<in> set [0..<16]" "up \<in> set [False, True]" using assms by auto
  ultimately show "hex_value (hex_char up d) = d" "hex_char up d \<noteq> CHR 0x0A" "hex_char up d \<noteq> CHR 0x0D"
    "hex_char up d \<noteq> CHR '' ''" "hex_char up d \<noteq> CHR '':''" by blast+
qed

lemma hex_number_no_colon: "CHR '':'' \<notin> set (hex_number n)"
proof (induction n rule: hex_number.induct)
  case (1 n)
  then show ?case using hex_char_facts(5) [of "n mod 16" True]
    by (subst hex_number.simps) (auto simp: eq_commute)
qed

lemma read_byte:
  "read_hex ps (hex_byte up ch @ s) = ch # read_hex ps s"
proof -
  have lt: "(of_char ch :: nat) div 16 < 16" using of_char_less [of ch] by (simp add: less_mult_imp_div_less)
  have m: "16 * (of_char ch div 16 :: nat) + of_char ch mod 16 = of_char ch" by simp
  show ?thesis
    using hex_char_facts [of "of_char ch div 16" up] hex_char_facts [of "of_char ch mod 16" up] lt m
    by (simp add: hex_byte_def read_hex.simps(2))
qed

lemma read_delimiter: "read_hex ps ('' '' @ hex_byte up ch @ s) = ch # read_hex ps s"
proof -
  have "(of_char ch :: nat) div 16 < 16" using of_char_less [of ch] by (simp add: less_mult_imp_div_less)
  then have "hex_char up ((of_char ch :: nat) div 16 mod 16) \<noteq> CHR '' ''" using hex_char_facts(4) by simp
  then have "read_hex ps ('' '' @ hex_byte up ch @ s) = read_hex ps (hex_byte up ch @ s)"
    by (simp add: hex_byte_def read_hex.simps(2) [of ps "CHR '' ''"])
  then show ?thesis by (simp only: read_byte)
qed

lemma read_newline:
  assumes "eol = [CHR 0x0A] \<or> eol = [CHR 0x0D, CHR 0x0A]"
  shows "read_hex (hx_positions F) (put_newline F eol pos @ hex_byte up ch @ s) =
    ch # read_hex (hx_positions F) s"
proof -
  have colon: "dropWhile (\<lambda>c. c \<noteq> CHR '':'') (hex_position pos @ CHR '':'' # t) = CHR '':'' # t" for t
    by (subst dropWhile_append2) (use hex_number_no_colon [of pos] in \<open>auto simp: hex_position_def\<close>)
  have "read_hex (hx_positions F) (CHR 0x0A # (if hx_positions F then hex_position pos @ '': '' else []) @
      hex_byte up ch @ s) = ch # read_hex (hx_positions F) s"
    using read_delimiter [of True up ch s] read_byte [of False up ch s]
    by (cases "hx_positions F") (simp_all add: read_hex.simps(2) [of _ "CHR 0x0A"] colon)
  then show ?thesis
    using assms by (auto simp: put_newline_def read_hex.simps(2) [of _ "CHR 0x0D"])
qed

text \<open>The printable characters hide no line end.\<close>

lemma printable_no_newline: "CHR 0x0A \<notin> set (map printable line)"
  by (auto simp: printable_def)

lemma skip_line: "CHR 0x0A \<notin> set x \<Longrightarrow>
    dropWhile (\<lambda>c. c \<noteq> CHR 0x0A) (x @ s) = dropWhile (\<lambda>c. c \<noteq> CHR 0x0A) s"
  by (induction x) auto

lemma read_ascii:
  assumes "CHR 0x0A \<notin> set x" "eol = [CHR 0x0A] \<or> eol = [CHR 0x0D, CHR 0x0A]"
  shows "read_hex ps (''  '' @ x @ eol @ s) = read_hex ps (CHR 0x0A # s)"
  using assms(2) skip_line [OF assms(1)] by (auto simp: read_hex.simps(2) [of ps "CHR '' ''"])

lemma read_ascii_end: "CHR 0x0A \<notin> set x \<Longrightarrow> read_hex ps (''  '' @ x) = []"
proof -
  assume "CHR 0x0A \<notin> set x"
  then have "dropWhile (\<lambda>c. c \<noteq> CHR 0x0A) x = []" by (induction x) auto
  then show ?thesis
    by (simp add: read_hex.simps(2) [of ps "CHR '' ''"] del: dropWhile_eq_Nil_conv)
qed

section \<open>Every byte is told\<close>

lemma read_loop:
  assumes "eol = [CHR 0x0A] \<or> eol = [CHR 0x0D, CHR 0x0A]" "read_hex (hx_positions F) T = []"
  shows "read_hex (hx_positions F) (fst (hex_loop F eol n pos line bytes) @ T) = bytes"
proof (induction bytes arbitrary: pos line)
  case (Cons ch rest)
  obtain t l where loop: "hex_loop F eol n (pos + 1) [ch] rest = (t, l)" by fastforce
  obtain t' l' where loop': "hex_loop F eol n (pos + 1) (line @ [ch]) rest = (t', l')" by fastforce
  have ih: "read_hex (hx_positions F) (t @ T) = rest" "read_hex (hx_positions F) (t' @ T) = rest"
    using Cons.IH [of "pos + 1" "[ch]"] Cons.IH [of "pos + 1" "line @ [ch]"] loop loop' by simp_all
  let ?hex = "hex_byte (hx_uppercase F) ch"
  show ?case
  proof (cases "hx_newlines F \<and> (pos = 0 \<or> n \<le> int (length line))")
    case False
    then have "fst (hex_loop F eol n pos line (ch # rest)) =
        (if hx_delimiters F then '' '' else []) @ ?hex @ t'"
      using loop' by auto
    then show ?thesis using ih(2) read_byte read_delimiter by (cases "hx_delimiters F") simp_all
  next
    case True
    have nl: "read_hex (hx_positions F) (put_newline F eol pos @ ?hex @ t @ T) = ch # rest"
      using read_newline [OF assms(1)] ih(1) by simp
    have "read_hex (hx_positions F) (''  '' @ map printable line @ put_newline F eol pos @ ?hex @ t @ T) =
        ch # rest"
      using read_ascii [OF printable_no_newline assms(1)] read_newline [of "[CHR 0x0A]" F] ih(1)
      by (simp add: put_newline_def)
    with True nl loop show ?thesis by (cases "hx_ascii F \<and> pos \<noteq> 0") auto
  qed
qed (simp add: assms(2))

lemma read_ending: "read_hex ps (hex_ending F n k line) = []"
proof -
  let ?pad = "concat (replicate (nat (n - int (length line))) (''  '' @ (if hx_delimiters F then '' '' else [])))"
  have pad: "CHR 0x0A \<notin> set ?pad" by (auto split: if_splits)
  have "read_hex ps (?pad @ ''  '' @ map printable line) = []"
  proof (cases "nat (n - int (length line))")
    case 0
    then show ?thesis using read_ascii_end [OF printable_no_newline, of ps line] by simp
  next
    case (Suc m)
    then obtain x where "?pad = ''  '' @ x" by simp
    then have "set x \<subseteq> set ?pad" by (simp only: set_append) blast
    with pad printable_no_newline [of line] have "CHR 0x0A \<notin> set (x @ ''  '' @ map printable line)"
      by (simp only: set_append list.set) auto
    then have "read_hex ps (''  '' @ x @ ''  '' @ map printable line) = []" by (rule read_ascii_end)
    then show ?thesis unfolding \<open>?pad = _\<close> by simp
  qed
  moreover have "read_hex ps (''  '' @ map printable line) = []"
    using read_ascii_end [OF printable_no_newline] by blast
  ultimately show ?thesis by (auto simp: hex_ending_def)
qed

text \<open>C40: whatever flags are set, with any size of the lines and either kind of line end, a hex dump
  tells its bytes: a reader that skips the positions and the printable characters gets them
  back.\<close>

theorem to_hex_readable:
  assumes "eol = [CHR 0x0A] \<or> eol = [CHR 0x0D, CHR 0x0A]"
  shows "read_hex (hx_positions F) (to_hex F eol size_per_line bytes) = bytes"
proof -
  obtain t line where l: "hex_loop F eol (sint (of_nat size_per_line :: 32 word)) 0 [] bytes = (t, line)"
    by fastforce
  with read_loop [OF assms read_ending, of F "sint (of_nat size_per_line :: 32 word)" 0 "[]" bytes] show ?thesis
    by (simp add: to_hex_def Let_def)
qed

theorem to_hex_readable_witness:
  "read_hex True (to_hex (fst (hex_parse ''Xa}'' hex_default)) [CHR 0x0A] 4 ''GoLogin!'') = ''GoLogin!''"
  using to_hex_readable [of "[CHR 0x0A]" "fst (hex_parse ''Xa}'' hex_default)" 4 "''GoLogin!''"]
  by (simp add: hex_flag_def hex_default_def)

end
