(* ===== verification/Spd_Buffer.thy ===== *)
theory Spd_Buffer
  imports Prelude "HOL-Library.Monad_Syntax"
begin

text \<open>
  The messages that own their texts (\<^verbatim>\<open>details/log_msg_buffer-inl.h\<close> of
  \<^verbatim>\<open>contrib/spdlog/include/spdlog\<close>, on the buffer of \<^verbatim>\<open>fmt/bundled/format.h\<close>).  A message has two
  views into a buffer that may be in the object or on the heap; copies and moves must point the
  views to the new buffer.  The memory is explicit, so that a view that dangles, a read of what was
  never written and a write past the end are the value \<^term>\<open>None\<close>.
\<close>

section \<open>Memory\<close>

text \<open>The storage inside an object, a block of the heap, or memory of the caller.\<close>

datatype place = Inline nat | Heap nat | Foreign nat

text \<open>A block has room for a number of characters; the first ones are written.\<close>

record memory =
  me_blocks :: "place \<Rightarrow> (nat \<times> string) option"
  me_next :: nat

definition set_block :: "place \<Rightarrow> (nat \<times> string) option \<Rightarrow> memory \<Rightarrow> memory" where
  "set_block p c m = m\<lparr>me_blocks := (me_blocks m)(p := c)\<rparr>"

definition mem_read :: "place \<Rightarrow> nat \<Rightarrow> nat \<Rightarrow> memory \<Rightarrow> string option" where
  "mem_read p off n m =
     (if n = 0 then Some []
      else case me_blocks m p of
        None \<Rightarrow> None
      | Some (room, t) \<Rightarrow> if off + n \<le> length t then Some (take n (drop off t)) else None)"

definition mem_write :: "place \<Rightarrow> nat \<Rightarrow> string \<Rightarrow> memory \<Rightarrow> memory option" where
  "mem_write p off s m =
     (case me_blocks m p of
        None \<Rightarrow> None
      | Some (room, t) \<Rightarrow>
          if off \<le> length t \<and> off + length s \<le> room
          then Some (set_block p (Some (room, take off t @ s @ drop (off + length s) t)) m) else None)"

section \<open>The buffer\<close>

text \<open>\<^verbatim>\<open>memory_buf_t\<close>, with room for 250 characters inside the object.\<close>

definition inline_size :: nat where "inline_size = 250"

record mbuf =
  mb_ptr :: place
  mb_size :: nat
  mb_cap :: nat

definition mb_new :: "nat \<Rightarrow> memory \<Rightarrow> mbuf \<times> memory" where
  "mb_new o' m =
     (\<lparr>mb_ptr = Inline o', mb_size = 0, mb_cap = inline_size\<rparr>,
      set_block (Inline o') (Some (inline_size, [])) m)"

definition mb_deallocate :: "nat \<Rightarrow> mbuf \<Rightarrow> memory \<Rightarrow> memory" where
  "mb_deallocate o' b m = (if mb_ptr b = Inline o' then m else set_block (mb_ptr b) None m)"

definition mb_grow :: "nat \<Rightarrow> nat \<Rightarrow> mbuf \<Rightarrow> memory \<Rightarrow> (mbuf \<times> memory) option" where
  "mb_grow o' n b m = do {
     s \<leftarrow> mem_read (mb_ptr b) 0 (mb_size b) m;
     let new_capacity = max n (mb_cap b + mb_cap b div 2);
     let p = Heap (me_next m);
     let m = set_block p (Some (new_capacity, s)) (m\<lparr>me_next := me_next m + 1\<rparr>);
     Some (b\<lparr>mb_ptr := p, mb_cap := new_capacity\<rparr>, mb_deallocate o' b m)
   }"

definition mb_reserve :: "nat \<Rightarrow> nat \<Rightarrow> mbuf \<Rightarrow> memory \<Rightarrow> (mbuf \<times> memory) option" where
  "mb_reserve o' n b m = (if mb_cap b < n then mb_grow o' n b m else Some (b, m))"

definition mb_resize :: "nat \<Rightarrow> nat \<Rightarrow> mbuf \<Rightarrow> memory \<Rightarrow> (mbuf \<times> memory) option" where
  "mb_resize o' n b m = do {
     (b, m) \<leftarrow> mb_reserve o' n b m;
     Some (b\<lparr>mb_size := min n (mb_cap b)\<rparr>, m)
   }"

text \<open>After the reservation there is room for all, so the loop of \<^verbatim>\<open>append\<close> runs once at most.\<close>

definition mb_append :: "nat \<Rightarrow> string \<Rightarrow> mbuf \<Rightarrow> memory \<Rightarrow> (mbuf \<times> memory) option" where
  "mb_append o' s b m =
     (if s = [] then Some (b, m)
      else do {
        (b, m) \<leftarrow> mb_reserve o' (mb_size b + length s) b m;
        m \<leftarrow> mem_write (mb_ptr b) (mb_size b) s m;
        Some (b\<lparr>mb_size := mb_size b + length s\<rparr>, m)
      })"

text \<open>\<^verbatim>\<open>move\<close>: the new buffer, what is left of the old one, and the memory.  The size of the old one
  stays.\<close>

definition mb_move :: "nat \<Rightarrow> nat \<Rightarrow> mbuf \<Rightarrow> mbuf \<Rightarrow> memory \<Rightarrow> (mbuf \<times> mbuf \<times> memory) option" where
  "mb_move o' src b other m =
     (if mb_ptr other = Inline src then do {
        s \<leftarrow> mem_read (Inline src) 0 (mb_size other) m;
        m \<leftarrow> mem_write (Inline o') 0 s m;
        (b, m) \<leftarrow> mb_resize o' (mb_size other) (b\<lparr>mb_ptr := Inline o', mb_cap := mb_cap other\<rparr>) m;
        Some (b, other, m)
      }
      else do {
        (b, m) \<leftarrow> mb_resize o' (mb_size other) (b\<lparr>mb_ptr := mb_ptr other, mb_cap := mb_cap other\<rparr>) m;
        Some (b, other\<lparr>mb_ptr := Inline src, mb_cap := 0\<rparr>, m)
      })"

section \<open>Messages\<close>

record view =
  vw_place :: place
  vw_off :: nat
  vw_len :: nat

definition view_read :: "view \<Rightarrow> memory \<Rightarrow> string option" where
  "view_read v m = mem_read (vw_place v) (vw_off v) (vw_len v) m"

text \<open>The members that hold no text are left out.\<close>

record msg_buffer =
  mg_name :: view
  mg_payload :: view
  mg_buffer :: mbuf

definition update_string_views :: "msg_buffer \<Rightarrow> msg_buffer" where
  "update_string_views x =
     (let p = mb_ptr (mg_buffer x)
      in x\<lparr>mg_name := \<lparr>vw_place = p, vw_off = 0, vw_len = vw_len (mg_name x)\<rparr>,
           mg_payload := \<lparr>vw_place = p, vw_off = vw_len (mg_name x), vw_len = vw_len (mg_payload x)\<rparr>\<rparr>)"

text \<open>The constructors from a message and from another buffer do the same: copy the views, append
  what they show, update them.\<close>

definition mg_construct :: "nat \<Rightarrow> view \<Rightarrow> view \<Rightarrow> memory \<Rightarrow> (msg_buffer \<times> memory) option" where
  "mg_construct o' name payload m = do {
     let (b, m) = mb_new o' m;
     s \<leftarrow> view_read name m;
     (b, m) \<leftarrow> mb_append o' s b m;
     s \<leftarrow> view_read payload m;
     (b, m) \<leftarrow> mb_append o' s b m;
     Some (update_string_views \<lparr>mg_name = name, mg_payload = payload, mg_buffer = b\<rparr>, m)
   }"

definition mg_move_construct ::
  "nat \<Rightarrow> nat \<Rightarrow> msg_buffer \<Rightarrow> memory \<Rightarrow> (msg_buffer \<times> msg_buffer \<times> memory) option" where
  "mg_move_construct o' src other m = do {
     let (b, m) = mb_new o' m;
     (b, b', m) \<leftarrow> mb_move o' src b (mg_buffer other) m;
     Some (update_string_views \<lparr>mg_name = mg_name other, mg_payload = mg_payload other, mg_buffer = b\<rparr>,
       other\<lparr>mg_buffer := b'\<rparr>, m)
   }"

text \<open>The buffer is cleared first, which clears the other one too when it is the same.\<close>

definition mg_assign ::
  "nat \<Rightarrow> nat \<Rightarrow> msg_buffer \<Rightarrow> msg_buffer \<Rightarrow> memory \<Rightarrow> (msg_buffer \<times> memory) option" where
  "mg_assign o' src x other m = do {
     s \<leftarrow> mem_read (mb_ptr (mg_buffer other)) 0 (if src = o' then 0 else mb_size (mg_buffer other)) m;
     (b, m) \<leftarrow> mb_append o' s ((mg_buffer x)\<lparr>mb_size := 0\<rparr>) m;
     Some (update_string_views \<lparr>mg_name = mg_name other, mg_payload = mg_payload other, mg_buffer = b\<rparr>, m)
   }"

definition mg_move_assign ::
  "nat \<Rightarrow> nat \<Rightarrow> msg_buffer \<Rightarrow> msg_buffer \<Rightarrow> memory \<Rightarrow> (msg_buffer \<times> msg_buffer \<times> memory) option" where
  "mg_move_assign o' src x other m = do {
     let m = mb_deallocate o' (mg_buffer x) m;
     (b, b', m) \<leftarrow> mb_move o' src (mg_buffer x) (mg_buffer other) m;
     Some (update_string_views \<lparr>mg_name = mg_name other, mg_payload = mg_payload other, mg_buffer = b\<rparr>,
       other\<lparr>mg_buffer := b'\<rparr>, m)
   }"

definition mg_destroy :: "nat \<Rightarrow> msg_buffer \<Rightarrow> memory \<Rightarrow> memory" where
  "mg_destroy o' x m = set_block (Inline o') None (mb_deallocate o' (mg_buffer x) m)"

section \<open>A program over messages\<close>

text \<open>\<open>New\<close> makes a message from two texts of the caller, which are gone after the call.\<close>

datatype msg_op =
    New nat string string | Copy nat nat | Move nat nat | Assign nat nat | Move_assign nat nat
  | Destroy nat

type_synonym msg_store = "(nat \<Rightarrow> msg_buffer option) \<times> memory"

fun msg_exec :: "msg_op \<Rightarrow> msg_store \<Rightarrow> msg_store option" where
  "msg_exec (New o' n p) (xs, m) = do {
     let m = set_block (Foreign 1) (Some (length p, p)) (set_block (Foreign 0) (Some (length n, n)) m);
     (x, m) \<leftarrow> mg_construct o' \<lparr>vw_place = Foreign 0, vw_off = 0, vw_len = length n\<rparr>
        \<lparr>vw_place = Foreign 1, vw_off = 0, vw_len = length p\<rparr> m;
     Some (xs(o' \<mapsto> x), set_block (Foreign 1) None (set_block (Foreign 0) None m))
   }"
| "msg_exec (Copy o' src) (xs, m) = do {
     other \<leftarrow> xs src;
     (x, m) \<leftarrow> mg_construct o' (mg_name other) (mg_payload other) m;
     Some (xs(o' \<mapsto> x), m)
   }"
| "msg_exec (Move o' src) (xs, m) = do {
     other \<leftarrow> xs src;
     (x, other, m) \<leftarrow> mg_move_construct o' src other m;
     Some (xs(o' \<mapsto> x, src \<mapsto> other), m)
   }"
| "msg_exec (Assign o' src) (xs, m) = do {
     x \<leftarrow> xs o';
     other \<leftarrow> xs src;
     (x, m) \<leftarrow> mg_assign o' src x other m;
     Some (xs(o' \<mapsto> x), m)
   }"
| "msg_exec (Move_assign o' src) (xs, m) = do {
     x \<leftarrow> xs o';
     other \<leftarrow> xs src;
     (x, other, m) \<leftarrow> mg_move_assign o' src x other m;
     Some (xs(o' \<mapsto> x, src \<mapsto> other), m)
   }"
| "msg_exec (Destroy o') (xs, m) = do {
     x \<leftarrow> xs o';
     Some (xs(o' := None), mg_destroy o' x m)
   }"

primrec msg_run :: "msg_op list \<Rightarrow> msg_store \<Rightarrow> msg_store option" where
  "msg_run [] S = Some S"
| "msg_run (op # ops) S = Option.bind (msg_exec op S) (msg_run ops)"

definition no_messages :: msg_store where
  "no_messages = (Map.empty, \<lparr>me_blocks = Map.empty, me_next = 0\<rparr>)"

definition msg_texts :: "msg_store \<Rightarrow> nat \<Rightarrow> (string \<times> string) option" where
  "msg_texts S o' = do {
     x \<leftarrow> fst S o';
     n \<leftarrow> view_read (mg_name x) (snd S);
     p \<leftarrow> view_read (mg_payload x) (snd S);
     Some (n, p)
   }"

text \<open>The same with messages as values; \<^term>\<open>None\<close> where an object does not exist or must not be
  used, \<open>Inr ()\<close> is a message that was moved from.\<close>

type_synonym value_store = "nat \<Rightarrow> (string \<times> string + unit) option"

fun value_exec :: "msg_op \<Rightarrow> value_store \<Rightarrow> value_store option" where
  "value_exec (New o' n p) A = (if A o' = None then Some (A(o' \<mapsto> Inl (n, p))) else None)"
| "value_exec (Copy o' src) A =
     (case A src of Some (Inl v) \<Rightarrow> if A o' = None then Some (A(o' \<mapsto> Inl v)) else None | _ \<Rightarrow> None)"
| "value_exec (Move o' src) A =
     (case A src of Some (Inl v) \<Rightarrow> if A o' = None then Some (A(o' \<mapsto> Inl v, src \<mapsto> Inr ())) else None
      | _ \<Rightarrow> None)"
| "value_exec (Assign o' src) A =
     (case A src of Some (Inl v) \<Rightarrow> if A o' \<noteq> None \<and> o' \<noteq> src then Some (A(o' \<mapsto> Inl v)) else None
      | _ \<Rightarrow> None)"
| "value_exec (Move_assign o' src) A =
     (case A src of Some (Inl v) \<Rightarrow>
        if A o' \<noteq> None \<and> o' \<noteq> src then Some (A(o' \<mapsto> Inl v, src \<mapsto> Inr ())) else None
      | _ \<Rightarrow> None)"
| "value_exec (Destroy o') A = (if A o' \<noteq> None then Some (A(o' := None)) else None)"

primrec value_run :: "msg_op list \<Rightarrow> value_store \<Rightarrow> value_store option" where
  "value_run [] A = Some A"
| "value_run (op # ops) A = Option.bind (value_exec op A) (value_run ops)"

end
