(* ===== verification/Spd_Buffer_Props.thy ===== *)
theory Spd_Buffer_Props
  imports Spd_Buffer
begin

text \<open>
  Messages that own their texts behave as values: the invariant of a buffer and of all messages,
  that every operation keeps it, and that the two conditions on their use are needed.
\<close>

section \<open>What holds of a buffer\<close>

text \<open>A buffer is in its object or owns a block of the heap, with the room its capacity says.\<close>

fun own_place :: "nat \<Rightarrow> place \<Rightarrow> bool" where
  "own_place o' (Inline i) = (i = o')"
| "own_place o' (Heap h) = True"
| "own_place o' (Foreign i) = False"

definition buf_ok :: "nat \<Rightarrow> mbuf \<Rightarrow> memory \<Rightarrow> bool" where
  "buf_ok o' b m \<longleftrightarrow> own_place o' (mb_ptr b) \<and>
     (\<exists>t. me_blocks m (Inline o') = Some (inline_size, t)) \<and>
     (\<exists>room t. me_blocks m (mb_ptr b) = Some (room, t) \<and> mb_cap b \<le> room)"

definition holds :: "mbuf \<Rightarrow> memory \<Rightarrow> string \<Rightarrow> bool" where
  "holds b m s \<longleftrightarrow> mb_size b = length s \<and> length s \<le> mb_cap b \<and>
     (\<exists>room t. me_blocks m (mb_ptr b) = Some (room, s @ t))"

definition fresh :: "memory \<Rightarrow> bool" where
  "fresh m \<longleftrightarrow> (\<forall>h. me_next m \<le> h \<longrightarrow> me_blocks m (Heap h) = None)"

text \<open>Nothing changes but the blocks in \<open>P\<close> and new ones.\<close>

definition frame :: "place set \<Rightarrow> memory \<Rightarrow> memory \<Rightarrow> bool" where
  "frame P m m' \<longleftrightarrow> me_next m \<le> me_next m' \<and>
     (\<forall>p. p \<notin> P \<and> me_blocks m p \<noteq> None \<longrightarrow> me_blocks m' p = me_blocks m p)"

text \<open>The place of a buffer after a step that may move it to a new block.\<close>

definition moves_to :: "memory \<Rightarrow> place \<Rightarrow> place \<Rightarrow> bool" where
  "moves_to m p p' \<longleftrightarrow> p' = p \<or> (\<exists>h. p' = Heap h \<and> me_next m \<le> h)"

lemma frame_refl [simp]: "frame P m m"
  by (simp add: frame_def)

lemma frame_trans: "frame P m1 m2 \<Longrightarrow> frame P m2 m3 \<Longrightarrow> frame P m1 m3"
  unfolding frame_def by fastforce

lemma frame_set: "p \<in> P \<or> me_blocks m p = None \<Longrightarrow> frame P m (set_block p c m)"
  by (auto simp: frame_def set_block_def)

lemma mem_read_block:
  "me_blocks m p = Some (room, s @ t @ u) \<Longrightarrow> mem_read p (length s) (length t) m = Some t"
  by (simp add: mem_read_def)

lemma holds_read: "holds b m s \<Longrightarrow> mem_read (mb_ptr b) 0 (mb_size b) m = Some s"
  using mem_read_block [of m _ _ "[]" s] by (auto simp: holds_def)

lemma mem_read_frame:
  assumes "frame P m m'" "p \<notin> P" "mem_read p off n m = Some s"
  shows "mem_read p off n m' = Some s"
proof (cases "n = 0")
  case False
  then have "me_blocks m p \<noteq> None" using assms(3) by (auto simp: mem_read_def split: option.splits)
  then have "me_blocks m' p = me_blocks m p" using assms(1,2) by (auto simp: frame_def)
  then show ?thesis using assms(3) False by (simp add: mem_read_def)
qed (use assms(3) in \<open>simp add: mem_read_def\<close>)

section \<open>Growing and appending\<close>

lemma reserve_ok:
  assumes "buf_ok o' b m" "fresh m" "mb_size b = length s" "me_blocks m (mb_ptr b) = Some (room0, s @ t0)"
  shows "\<exists>b' m' room t. mb_reserve o' n b m = Some (b', m') \<and> buf_ok o' b' m' \<and> fresh m' \<and>
    n \<le> mb_cap b' \<and> mb_size b' = length s \<and> me_blocks m' (mb_ptr b') = Some (room, s @ t) \<and>
    frame {mb_ptr b} m m' \<and> moves_to m (mb_ptr b) (mb_ptr b')"
proof (cases "mb_cap b < n")
  case False
  then show ?thesis using assms by (simp add: mb_reserve_def moves_to_def)
next
  case True
  let ?h = "Heap (me_next m)" and ?c = "max n (mb_cap b + mb_cap b div 2)"
  let ?m = "set_block ?h (Some (?c, s)) (m\<lparr>me_next := me_next m + 1\<rparr>)"
  let ?b = "b\<lparr>mb_ptr := ?h, mb_cap := ?c\<rparr>"
  have none: "me_blocks m ?h = None" using assms(2) by (simp add: fresh_def)
  then have ne: "mb_ptr b \<noteq> ?h" using assms(4) by auto
  have read: "mem_read (mb_ptr b) 0 (mb_size b) m = Some s"
    using mem_read_block [of m "mb_ptr b" room0 "[]" s t0] assms(3,4) by simp
  have g: "mb_reserve o' n b m = Some (?b, mb_deallocate o' b ?m)"
    using True read by (simp add: mb_reserve_def mb_grow_def Let_def)
  have "buf_ok o' ?b (mb_deallocate o' b ?m)" "fresh (mb_deallocate o' b ?m)"
    using assms(1,2) ne by (auto simp: buf_ok_def mb_deallocate_def set_block_def fresh_def)
  moreover have "me_blocks (mb_deallocate o' b ?m) ?h = Some (?c, s @ [])"
    using ne by (simp add: mb_deallocate_def set_block_def)
  moreover have "frame {mb_ptr b} m (mb_deallocate o' b ?m)"
    using none by (auto simp: frame_def mb_deallocate_def set_block_def)
  ultimately show ?thesis using g assms(3) by (fastforce simp: moves_to_def)
qed

lemma moves_to_trans:
  "moves_to m p p' \<Longrightarrow> moves_to m' p' p'' \<Longrightarrow> me_next m \<le> me_next m' \<Longrightarrow> moves_to m p p''"
  by (auto simp: moves_to_def)

text \<open>Appending moves the text to a new block when it does not fit.\<close>

lemma append_ok:
  assumes "buf_ok o' b m" "fresh m" "holds b m s"
  shows "\<exists>b' m'. mb_append o' u b m = Some (b', m') \<and> buf_ok o' b' m' \<and> fresh m' \<and> holds b' m' (s @ u) \<and>
    frame {mb_ptr b} m m' \<and> moves_to m (mb_ptr b) (mb_ptr b')"
proof (cases "u = []")
  case True
  with assms show ?thesis by (auto simp: mb_append_def moves_to_def)
next
  case False
  obtain room0 t0 where h: "mb_size b = length s" "me_blocks m (mb_ptr b) = Some (room0, s @ t0)"
    using assms(3) by (auto simp: holds_def)
  obtain b1 m1 room t where r: "mb_reserve o' (mb_size b + length u) b m = Some (b1, m1)"
    "buf_ok o' b1 m1" "fresh m1" "mb_size b + length u \<le> mb_cap b1" "mb_size b1 = length s"
    "me_blocks m1 (mb_ptr b1) = Some (room, s @ t)" "frame {mb_ptr b} m m1"
    "moves_to m (mb_ptr b) (mb_ptr b1)"
    using reserve_ok [OF assms(1,2) h] by blast
  have room: "length s + length u \<le> room" using r(2,4,6) h(1) by (auto simp: buf_ok_def)
  let ?m = "set_block (mb_ptr b1) (Some (room, s @ u @ drop (length u) t)) m1"
  have w: "mem_write (mb_ptr b1) (length s) u m1 = Some ?m"
    using r(6) room by (simp add: mem_write_def)
  let ?b = "b1\<lparr>mb_size := length s + length u\<rparr>"
  have "mb_append o' u b m = Some (?b, ?m)" using False r(1,5) w h(1) by (simp add: mb_append_def)
  moreover have "holds ?b ?m (s @ u)" using r(4) h(1) by (simp add: holds_def set_block_def)
  moreover have "buf_ok o' ?b ?m" using r(2,6) by (auto simp: buf_ok_def set_block_def)
  moreover have "fresh ?m" using r(3,6) by (auto simp: fresh_def set_block_def)
  moreover have "frame {mb_ptr b} m ?m"
  proof -
    have "mb_ptr b1 = mb_ptr b \<or> me_blocks m (mb_ptr b1) = None"
      using r(8) assms(2) by (auto simp: moves_to_def fresh_def)
    with r(7) show ?thesis by (auto simp: frame_def set_block_def)
  qed
  ultimately show ?thesis using r(8) by (fastforce simp del: mbuf.simps)
qed

text \<open>Moving takes the text along; an inline text is copied, a block changes its owner.\<close>

lemma move_ok:
  assumes "own_place o' (Inline o')" "me_blocks m (Inline o') = Some (inline_size, t0)"
    and "buf_ok src c m" "holds c m s" "o' \<noteq> src" "fresh m"
  shows "\<exists>b' c' m'. mb_move o' src b c m = Some (b', c', m') \<and> buf_ok o' b' m' \<and> buf_ok src c' m' \<and>
    holds b' m' s \<and> fresh m' \<and> frame {Inline o'} m m' \<and> mb_ptr c' = Inline src \<and>
    (mb_ptr b' = Inline o' \<or> mb_ptr b' = mb_ptr c \<and> mb_ptr c \<noteq> Inline src)"
proof (cases "mb_ptr c = Inline src")
  case True
  obtain t where c: "me_blocks m (Inline src) = Some (inline_size, s @ t)" "mb_cap c \<le> inline_size"
    using assms(3,4) True by (auto simp: buf_ok_def holds_def)
  have size: "mb_size c = length s" "length s \<le> mb_cap c" using assms(4) by (simp_all add: holds_def)
  let ?m = "set_block (Inline o') (Some (inline_size, s @ drop (length s) t0)) m"
  have "mem_write (Inline o') 0 s m = Some ?m" using assms(2) c(2) size by (simp add: mem_write_def)
  moreover have "mem_read (Inline src) 0 (mb_size c) m = Some s"
    using mem_read_block [of m "Inline src" _ "[]" s t] c(1) size(1) by simp
  ultimately have "mb_move o' src b c m =
      Some (b\<lparr>mb_ptr := Inline o', mb_cap := mb_cap c, mb_size := length s\<rparr>, c, ?m)"
    using True size by (simp add: mb_move_def mb_resize_def mb_reserve_def min_def)
  then show ?thesis
    using assms(3,5,6) c size True
    by (auto simp: buf_ok_def holds_def fresh_def frame_def set_block_def)
next
  case False
  have size: "mb_size c = length s" "length s \<le> mb_cap c" using assms(4) by (simp_all add: holds_def)
  have "mb_move o' src b c m =
      Some (b\<lparr>mb_ptr := mb_ptr c, mb_cap := mb_cap c, mb_size := length s\<rparr>,
        c\<lparr>mb_ptr := Inline src, mb_cap := 0\<rparr>, m)"
    using False size by (simp add: mb_move_def mb_resize_def mb_reserve_def min_def)
  moreover have "own_place o' (mb_ptr c)" using assms(3) False by (cases "mb_ptr c") (auto simp: buf_ok_def)
  ultimately show ?thesis
    using assms False size by (auto simp: buf_ok_def holds_def)
qed

section \<open>What holds of a message\<close>

definition msg_ok :: "msg_buffer \<Rightarrow> memory \<Rightarrow> string \<Rightarrow> string \<Rightarrow> bool" where
  "msg_ok x m n p \<longleftrightarrow> holds (mg_buffer x) m (n @ p) \<and>
     mg_name x = \<lparr>vw_place = mb_ptr (mg_buffer x), vw_off = 0, vw_len = length n\<rparr> \<and>
     mg_payload x = \<lparr>vw_place = mb_ptr (mg_buffer x), vw_off = length n, vw_len = length p\<rparr>"

lemma msg_ok_read:
  assumes "msg_ok x m n p"
  shows "view_read (mg_name x) m = Some n" "view_read (mg_payload x) m = Some p"
proof -
  obtain room t where b: "me_blocks m (mb_ptr (mg_buffer x)) = Some (room, n @ p @ t)"
    using assms by (auto simp: msg_ok_def holds_def)
  show "view_read (mg_name x) m = Some n" "view_read (mg_payload x) m = Some p"
    using assms mem_read_block [of m _ room "[]" n "p @ t"] mem_read_block [of m _ room n p t] b
    by (simp_all add: msg_ok_def view_read_def)
qed

lemma msg_ok_updated:
  assumes "holds b m (n @ p)" "vw_len nv = length n" "vw_len pv = length p"
  shows "msg_ok (update_string_views \<lparr>mg_name = nv, mg_payload = pv, mg_buffer = b\<rparr>) m n p"
  using assms by (simp add: msg_ok_def update_string_views_def Let_def)

lemma msg_ok_like:
  assumes "holds b m' (n @ p)" "msg_ok other m n p"
  shows "msg_ok (update_string_views \<lparr>mg_name = mg_name other, mg_payload = mg_payload other, mg_buffer = b\<rparr>)
    m' n p"
  by (rule msg_ok_updated [OF assms(1)]) (use assms(2) in \<open>simp_all add: msg_ok_def\<close>)

lemma updated_buffer [simp]: "mg_buffer (update_string_views x) = mg_buffer x"
  by (simp add: update_string_views_def Let_def)

lemma mem_read_length: "mem_read p off n m = Some s \<Longrightarrow> length s = n"
  by (auto simp: mem_read_def split: if_splits option.splits)

lemma frame_moved:
  assumes "fresh m" "frame P m m1" "moves_to m p p'" "p \<in> P" "frame {p'} m1 m2"
  shows "frame P m m2"
proof -
  have "p' \<in> P \<or> me_blocks m p' = None" using assms(1,3,4) by (auto simp: moves_to_def fresh_def)
  then have "me_blocks m2 q = me_blocks m q" if "q \<notin> P" "me_blocks m q \<noteq> None" for q
    using that assms(2,5) unfolding frame_def by (metis singletonD)
  moreover have "me_next m \<le> me_next m2" using assms(2,5) by (simp add: frame_def)
  ultimately show ?thesis by (simp add: frame_def)
qed

lemma new_ok:
  assumes "fresh m" "mb_new o' m = (b, m1)"
  shows "buf_ok o' b m1" "holds b m1 []" "fresh m1" "frame {Inline o'} m m1" "mb_ptr b = Inline o'"
    "me_blocks m1 (Inline o') = Some (inline_size, [])"
proof -
  have eq: "b = \<lparr>mb_ptr = Inline o', mb_size = 0, mb_cap = inline_size\<rparr>"
    "m1 = set_block (Inline o') (Some (inline_size, [])) m"
    using assms(2) by (simp_all add: mb_new_def)
  show "buf_ok o' b m1" "holds b m1 []" "mb_ptr b = Inline o'"
    "me_blocks m1 (Inline o') = Some (inline_size, [])"
    by (simp_all add: eq buf_ok_def holds_def set_block_def)
  show "fresh m1" using assms(1) by (simp add: eq fresh_def set_block_def)
  show "frame {Inline o'} m m1" unfolding eq(2) by (rule frame_set) simp
qed

lemma construct_ok:
  assumes "fresh m" "view_read nv m = Some n" "view_read pv m = Some p"
    and "vw_place nv \<noteq> Inline o'" "vw_place pv \<noteq> Inline o'"
  shows "\<exists>x m'. mg_construct o' nv pv m = Some (x, m') \<and> buf_ok o' (mg_buffer x) m' \<and> msg_ok x m' n p \<and>
    fresh m' \<and> frame {Inline o'} m m' \<and> moves_to m (Inline o') (mb_ptr (mg_buffer x))"
proof -
  obtain b0 m0 where new: "mb_new o' m = (b0, m0)" by fastforce
  note n0 = new_ok [OF assms(1) new]
  obtain b1 m1 where a1: "mb_append o' n b0 m0 = Some (b1, m1)" "buf_ok o' b1 m1" "fresh m1"
    "holds b1 m1 n" "frame {mb_ptr b0} m0 m1" "moves_to m0 (mb_ptr b0) (mb_ptr b1)"
    using append_ok [OF n0(1,3,2), of n] by auto
  obtain b2 m2 where a2: "mb_append o' p b1 m1 = Some (b2, m2)" "buf_ok o' b2 m2" "fresh m2"
    "holds b2 m2 (n @ p)" "frame {mb_ptr b1} m1 m2" "moves_to m1 (mb_ptr b1) (mb_ptr b2)"
    using append_ok [OF a1(2,3,4), of p] by auto
  have next0: "me_next m0 = me_next m" using new by (auto simp: mb_new_def set_block_def)
  have f1: "frame {Inline o'} m m1" using frame_trans [OF n0(4)] a1(5) n0(5) by simp
  have mv1: "moves_to m (Inline o') (mb_ptr b1)" using a1(6) n0(5) next0 by (simp add: moves_to_def)
  have f2: "frame {Inline o'} m m2" by (rule frame_moved [OF assms(1) f1 mv1 _ a2(5)]) simp
  have mv2: "moves_to m (Inline o') (mb_ptr b2)"
    by (rule moves_to_trans [OF mv1 a2(6)]) (use f1 in \<open>simp add: frame_def\<close>)
  have "view_read nv m0 = Some n" "view_read pv m1 = Some p"
    using mem_read_frame [OF n0(4)] mem_read_frame [OF f1] assms(2-5) by (simp_all add: view_read_def)
  then have "mg_construct o' nv pv m =
      Some (update_string_views \<lparr>mg_name = nv, mg_payload = pv, mg_buffer = b2\<rparr>, m2)"
    using new a1(1) a2(1) by (simp add: mg_construct_def)
  moreover have "msg_ok (update_string_views \<lparr>mg_name = nv, mg_payload = pv, mg_buffer = b2\<rparr>) m2 n p"
    using msg_ok_updated [OF a2(4)] mem_read_length assms(2,3) by (simp add: view_read_def)
  ultimately show ?thesis using a2(2,3) f2 mv2 by simp
qed

section \<open>What holds of all messages\<close>

definition store_ok :: "value_store \<Rightarrow> msg_store \<Rightarrow> bool" where
  "store_ok A S \<longleftrightarrow>
     fresh (snd S) \<and> (\<forall>i. A i = None \<longleftrightarrow> fst S i = None) \<and>
     (\<forall>i x. fst S i = Some x \<longrightarrow> buf_ok i (mg_buffer x) (snd S)) \<and>
     (\<forall>i j x y. fst S i = Some x \<and> fst S j = Some y \<and> mb_ptr (mg_buffer x) = mb_ptr (mg_buffer y) \<longrightarrow> i = j) \<and>
     (\<forall>i x n p. fst S i = Some x \<and> A i = Some (Inl (n, p)) \<longrightarrow> msg_ok x (snd S) n p)"

lemma buf_ok_frame:
  assumes "buf_ok i b m" "frame P m m'" "Inline i \<notin> P" "mb_ptr b \<notin> P"
  shows "buf_ok i b m'" "holds b m s \<Longrightarrow> holds b m' s"
proof -
  have "me_blocks m' (Inline i) = me_blocks m (Inline i)" "me_blocks m' (mb_ptr b) = me_blocks m (mb_ptr b)"
    using assms by (auto simp: buf_ok_def frame_def)
  then show "buf_ok i b m'" "holds b m s \<Longrightarrow> holds b m' s" using assms(1) by (simp_all add: buf_ok_def holds_def)
qed

text \<open>A step that touches the objects in \<open>U\<close> and their storage in \<open>P\<close>.\<close>

lemma store_update:
  assumes "store_ok A (xs, m)" "frame P m m'" "fresh m'"
    and same: "\<And>i. i \<notin> U \<Longrightarrow> A' i = A i \<and> xs' i = xs i"
    and apart: "\<And>i x. i \<notin> U \<Longrightarrow> xs i = Some x \<Longrightarrow> Inline i \<notin> P \<and> mb_ptr (mg_buffer x) \<notin> P"
    and dom: "\<And>i. i \<in> U \<Longrightarrow> A' i = None \<longleftrightarrow> xs' i = None"
    and ok: "\<And>i x. i \<in> U \<Longrightarrow> xs' i = Some x \<Longrightarrow> buf_ok i (mg_buffer x) m'"
    and val: "\<And>i x n p. i \<in> U \<Longrightarrow> xs' i = Some x \<Longrightarrow> A' i = Some (Inl (n, p)) \<Longrightarrow> msg_ok x m' n p"
    and uniq: "\<And>i j x y. i \<in> U \<Longrightarrow> xs' i = Some x \<Longrightarrow> xs' j = Some y \<Longrightarrow>
      mb_ptr (mg_buffer x) = mb_ptr (mg_buffer y) \<Longrightarrow> i = j"
  shows "store_ok A' (xs', m')"
proof -
  have old: "buf_ok i (mg_buffer x) m" "\<And>n p. A i = Some (Inl (n, p)) \<Longrightarrow> msg_ok x m n p"
    if "xs i = Some x" for i x using assms(1) that by (auto simp: store_ok_def)
  have kept: "buf_ok i (mg_buffer x) m'" "\<And>n p. A i = Some (Inl (n, p)) \<Longrightarrow> msg_ok x m' n p"
    if "i \<notin> U" "xs i = Some x" for i x
    using buf_ok_frame [OF old(1) [OF that(2)] assms(2)] old(2) [OF that(2)] apart [OF that]
    by (auto simp: msg_ok_def)
  have u: "i = j" if "xs' i = Some x" "xs' j = Some y" "mb_ptr (mg_buffer x) = mb_ptr (mg_buffer y)" for i j x y
  proof (cases "i \<in> U \<or> j \<in> U")
    case True
    then show ?thesis using uniq that by metis
  next
    case False
    then have "xs i = Some x" "xs j = Some y" using same that by auto
    then show ?thesis using assms(1) that(3) unfolding store_ok_def by auto
  qed
  have "A' i = None \<longleftrightarrow> xs' i = None" for i
    using same [of i] dom [of i] assms(1) by (cases "i \<in> U") (auto simp: store_ok_def)
  moreover have "buf_ok i (mg_buffer x) m'" if "xs' i = Some x" for i x
    using that ok kept(1) same by (cases "i \<in> U") auto
  moreover have "msg_ok x m' n p" if "xs' i = Some x" "A' i = Some (Inl (n, p))" for i x n p
    using that val kept(2) same by (cases "i \<in> U") auto
  ultimately show ?thesis using assms(3) u unfolding store_ok_def by auto
qed

text \<open>The storage of two objects is apart, and no block of an object is still to be allocated.\<close>

lemma store_apart:
  assumes "store_ok A (xs, m)" "xs j = Some y" "i \<noteq> j"
  shows "mb_ptr (mg_buffer y) \<noteq> Inline i" "xs i = Some x \<Longrightarrow> mb_ptr (mg_buffer y) \<noteq> mb_ptr (mg_buffer x)"
    "me_next m \<le> h \<Longrightarrow> mb_ptr (mg_buffer y) \<noteq> Heap h" "mb_ptr (mg_buffer y) \<noteq> Foreign k"
proof -
  have b: "buf_ok j (mg_buffer y) m" and f: "fresh m" using assms(1,2) by (auto simp: store_ok_def)
  show "mb_ptr (mg_buffer y) \<noteq> Inline i" "mb_ptr (mg_buffer y) \<noteq> Foreign k"
    using b assms(3) by (auto simp: buf_ok_def)
  show "xs i = Some x \<Longrightarrow> mb_ptr (mg_buffer y) \<noteq> mb_ptr (mg_buffer x)"
    using assms unfolding store_ok_def by (metis fst_conv)
  show "me_next m \<le> h \<Longrightarrow> mb_ptr (mg_buffer y) \<noteq> Heap h"
    using b f by (auto simp: buf_ok_def fresh_def)
qed

lemma store_get:
  assumes "store_ok A (xs, m)" "A i = Some (Inl (n, p))"
  shows "\<exists>x. xs i = Some x \<and> buf_ok i (mg_buffer x) m \<and> msg_ok x m n p \<and> fresh m"
proof -
  have "A i \<noteq> None \<longleftrightarrow> xs i \<noteq> None" using assms(1) by (simp add: store_ok_def)
  then obtain x where "xs i = Some x" using assms(2) by auto
  then show ?thesis using assms by (auto simp: store_ok_def)
qed

lemma store_dom: "store_ok A (xs, m) \<Longrightarrow> A i \<noteq> None \<Longrightarrow> \<exists>x. xs i = Some x"
  by (auto simp: store_ok_def)

lemma store_fresh: "store_ok A (xs, m) \<Longrightarrow> fresh m"
  by (simp add: store_ok_def)

text \<open>One object gets a value.\<close>

lemma store_set:
  assumes S: "store_ok A (xs, m)" and x: "buf_ok i (mg_buffer x) m'" "msg_ok x m' n p"
    and m': "fresh m'" "frame {q} m m'" "moves_to m q (mg_ptr)" "mg_ptr = mb_ptr (mg_buffer x)"
    and q: "q = Inline i \<or> (\<exists>y. xs i = Some y \<and> q = mb_ptr (mg_buffer y))"
  shows "store_ok (A(i \<mapsto> Inl (n, p))) (xs(i \<mapsto> x), m')"
proof (rule store_update [OF S m'(2,1), where U = "{i}"])
  fix j y
  assume "j \<notin> {i}" "xs j = Some y"
  then have j: "i \<noteq> j" "xs j = Some y" by auto
  show "Inline j \<notin> {q} \<and> mb_ptr (mg_buffer y) \<notin> {q}"
    using q j store_apart(1) [OF S, of i _ j] store_apart(1,2) [OF S j(2,1)] by auto
next
  fix k j v y
  assume k: "k \<in> {i}" "(xs(i \<mapsto> x)) k = Some v" "(xs(i \<mapsto> x)) j = Some y"
    "mb_ptr (mg_buffer v) = mb_ptr (mg_buffer y)"
  show "k = j"
  proof (rule ccontr)
    assume "k \<noteq> j"
    with k have j: "i \<noteq> j" "xs j = Some y" "mb_ptr (mg_buffer x) = mb_ptr (mg_buffer y)" by auto
    show False
      using m'(3,4) q j(3) store_apart [OF S j(2,1)] unfolding moves_to_def by metis
  qed
qed (use x in auto)

text \<open>The value of one object goes to another.\<close>

lemma store_move:
  assumes S: "store_ok A (xs, m)" and src: "A src = Some (Inl (n, p))" "xs src = Some other" "i \<noteq> src"
    and m1: "fresh m1" "frame P m m1" "me_blocks m1 (Inline i) = Some (inline_size, t0)"
    and P: "\<And>q. q \<in> P \<Longrightarrow> q = Inline i \<or> (\<exists>y. xs i = Some y \<and> q = mb_ptr (mg_buffer y))"
  shows "\<exists>b' c' m'. mb_move i src b (mg_buffer other) m1 = Some (b', c', m') \<and>
    store_ok (A(i \<mapsto> Inl (n, p), src \<mapsto> Inr ()))
      (xs(i \<mapsto> update_string_views \<lparr>mg_name = mg_name other, mg_payload = mg_payload other, mg_buffer = b'\<rparr>,
          src \<mapsto> other\<lparr>mg_buffer := c'\<rparr>), m')"
proof -
  have apart: "Inline j \<notin> insert (Inline i) P \<and> mb_ptr (mg_buffer y) \<notin> insert (Inline i) P"
    if "i \<noteq> j" "xs j = Some y" for j y
    using that P [of "Inline j"] P [of "mb_ptr (mg_buffer y)"] store_apart(1) [OF S, of i _ j]
      store_apart(1,2) [OF S that(2,1)] by auto
  have o: "buf_ok src (mg_buffer other) m" "msg_ok other m n p"
    using store_get [OF S src(1)] src(2) by auto
  have c: "buf_ok src (mg_buffer other) m1" "holds (mg_buffer other) m1 (n @ p)"
    using buf_ok_frame [OF o(1) m1(2)] apart [OF src(3,2)] o(2) by (auto simp: msg_ok_def)
  obtain b' c' m' where mv: "mb_move i src b (mg_buffer other) m1 = Some (b', c', m')" "buf_ok i b' m'"
    "buf_ok src c' m'" "holds b' m' (n @ p)" "fresh m'" "frame {Inline i} m1 m'" "mb_ptr c' = Inline src"
    "mb_ptr b' = Inline i \<or> mb_ptr b' = mb_ptr (mg_buffer other) \<and> mb_ptr (mg_buffer other) \<noteq> Inline src"
    using move_ok [OF _ m1(3) c src(3) m1(1), of b] by auto
  let ?x = "update_string_views \<lparr>mg_name = mg_name other, mg_payload = mg_payload other, mg_buffer = b'\<rparr>"
  let ?y = "other\<lparr>mg_buffer := c'\<rparr>"
  have f: "frame (insert (Inline i) P) m m'"
    using frame_trans [of "insert (Inline i) P" m m1 m'] m1(2) mv(6) by (auto simp: frame_def)
  have "store_ok (A(i \<mapsto> Inl (n, p), src \<mapsto> Inr ())) (xs(i \<mapsto> ?x, src \<mapsto> ?y), m')"
  proof (rule store_update [OF S f mv(5), where U = "{i, src}"])
    fix j y
    assume "j \<notin> {i, src}" "xs j = Some y"
    then show "Inline j \<notin> insert (Inline i) P \<and> mb_ptr (mg_buffer y) \<notin> insert (Inline i) P"
      using apart [of j y] by auto
  next
    fix k j v y
    assume k: "k \<in> {i, src}" "(xs(i \<mapsto> ?x, src \<mapsto> ?y)) k = Some v" "(xs(i \<mapsto> ?x, src \<mapsto> ?y)) j = Some y"
      "mb_ptr (mg_buffer v) = mb_ptr (mg_buffer y)"
    have ij: "mb_ptr b' \<noteq> Inline src" using mv(8) src(3) by auto
    show "k = j"
    proof (cases "j \<in> {i, src}")
      case True
      then show ?thesis using k ij mv(7) src(3) by (auto split: if_splits)
    next
      case False
      then have j: "xs j = Some y" "i \<noteq> j" "src \<noteq> j" using k(3) by auto
      have "mb_ptr (mg_buffer y) \<noteq> Inline src" "mb_ptr (mg_buffer y) \<noteq> Inline i"
        "mb_ptr (mg_buffer y) \<noteq> mb_ptr (mg_buffer other)"
        using store_apart(1) [OF S j(1,3)] store_apart(1) [OF S j(1,2)] store_apart(2) [OF S j(1,3) src(2)] .
      then show ?thesis using k mv(7,8) src(3) by (auto split: if_splits)
    qed
  next
    fix k v n' p'
    assume "k \<in> {i, src}" "(xs(i \<mapsto> ?x, src \<mapsto> ?y)) k = Some v"
      "(A(i \<mapsto> Inl (n, p), src \<mapsto> Inr ())) k = Some (Inl (n', p'))"
    then have "v = ?x" "n' = n" "p' = p" using src(3) by (auto split: if_splits)
    then show "msg_ok v m' n' p'" using msg_ok_like [OF mv(4) o(2)] by simp
  qed (use mv(2,3) src(3) in \<open>auto split: if_splits\<close>)
  with mv(1) show ?thesis by blast
qed

section \<open>Every operation keeps the texts\<close>

lemma foreign_ok:
  assumes "store_ok A (xs, m)"
  shows "store_ok A (xs, set_block (Foreign k) c m)"
proof (rule store_update [OF assms frame_set [of "Foreign k" "{Foreign k}"], where U = "{}"])
  show "fresh (set_block (Foreign k) c m)"
    using store_fresh [OF assms] by (simp add: fresh_def set_block_def)
  fix i x
  assume "xs i = Some x"
  then show "Inline i \<notin> {Foreign k} \<and> mb_ptr (mg_buffer x) \<notin> {Foreign k}"
    using store_apart(4) [OF assms, of i x "i + 1" k] by simp
qed simp_all

lemma create_ok:
  assumes S: "store_ok A (xs, m)" and v: "view_read nv m = Some n" "view_read pv m = Some p"
    and pl: "vw_place nv \<noteq> Inline i" "vw_place pv \<noteq> Inline i"
  shows "\<exists>x m'. mg_construct i nv pv m = Some (x, m') \<and> store_ok (A(i \<mapsto> Inl (n, p))) (xs(i \<mapsto> x), m')"
proof -
  obtain x m' where c: "mg_construct i nv pv m = Some (x, m')" "buf_ok i (mg_buffer x) m'" "msg_ok x m' n p"
    "fresh m'" "frame {Inline i} m m'" "moves_to m (Inline i) (mb_ptr (mg_buffer x))"
    using construct_ok [OF store_fresh [OF S] v pl] by blast
  from store_set [OF S c(2-6)] c(1) show ?thesis by blast
qed

lemma assign_ok:
  assumes S: "store_ok A (xs, m)" and src: "A src = Some (Inl (n, p))" "xs src = Some other"
    and i: "xs i = Some x" "i \<noteq> src"
  shows "\<exists>x' m'. mg_assign i src x other m = Some (x', m') \<and> store_ok (A(i \<mapsto> Inl (n, p))) (xs(i \<mapsto> x'), m')"
proof -
  have o: "msg_ok other m n p" "fresh m" using store_get [OF S src(1)] src(2) by auto
  have b: "buf_ok i (mg_buffer x) m" using S i(1) by (auto simp: store_ok_def)
  let ?b = "(mg_buffer x)\<lparr>mb_size := 0\<rparr>"
  have "buf_ok i ?b m" "holds ?b m []" using b by (auto simp: buf_ok_def holds_def)
  from append_ok [OF this(1) o(2) this(2), of "n @ p"] obtain b' m' where a:
    "mb_append i (n @ p) ?b m = Some (b', m')" "buf_ok i b' m'" "fresh m'" "holds b' m' (n @ p)"
    "frame {mb_ptr (mg_buffer x)} m m'" "moves_to m (mb_ptr (mg_buffer x)) (mb_ptr b')" by auto
  let ?x = "update_string_views \<lparr>mg_name = mg_name other, mg_payload = mg_payload other, mg_buffer = b'\<rparr>"
  have "mg_assign i src x other m = Some (?x, m')"
    using a(1) o(1) i(2) holds_read [of "mg_buffer other" m "n @ p"] by (simp add: mg_assign_def msg_ok_def)
  moreover have "msg_ok ?x m' n p" by (rule msg_ok_like [OF a(4) o(1)])
  ultimately show ?thesis
    using store_set [OF S, of i ?x m' n p "mb_ptr (mg_buffer x)"] a(2,3,5,6) i(1) by auto
qed

lemma move_construct_ok:
  assumes S: "store_ok A (xs, m)" and src: "A src = Some (Inl (n, p))" "xs src = Some other" "i \<noteq> src"
  shows "\<exists>x y m'. mg_move_construct i src other m = Some (x, y, m') \<and>
    store_ok (A(i \<mapsto> Inl (n, p), src \<mapsto> Inr ())) (xs(i \<mapsto> x, src \<mapsto> y), m')"
proof -
  obtain b m1 where new: "mb_new i m = (b, m1)" by fastforce
  note n = new_ok [OF store_fresh [OF S] new]
  from store_move [OF S src n(3,4,6), of b] obtain b' c' m' where
    "mb_move i src b (mg_buffer other) m1 = Some (b', c', m')"
    "store_ok (A(i \<mapsto> Inl (n, p), src \<mapsto> Inr ()))
      (xs(i \<mapsto> update_string_views \<lparr>mg_name = mg_name other, mg_payload = mg_payload other, mg_buffer = b'\<rparr>,
          src \<mapsto> other\<lparr>mg_buffer := c'\<rparr>), m')" by auto
  then show ?thesis using new by (simp add: mg_move_construct_def)
qed

lemma move_assign_ok:
  assumes S: "store_ok A (xs, m)" and src: "A src = Some (Inl (n, p))" "xs src = Some other" "i \<noteq> src"
    and i: "xs i = Some x"
  shows "\<exists>x' y m'. mg_move_assign i src x other m = Some (x', y, m') \<and>
    store_ok (A(i \<mapsto> Inl (n, p), src \<mapsto> Inr ())) (xs(i \<mapsto> x', src \<mapsto> y), m')"
proof -
  let ?m = "mb_deallocate i (mg_buffer x) m"
  have b: "buf_ok i (mg_buffer x) m" using S i by (auto simp: store_ok_def)
  have "fresh ?m" using store_fresh [OF S] by (auto simp: fresh_def mb_deallocate_def set_block_def)
  moreover have "frame {mb_ptr (mg_buffer x)} m ?m" by (simp add: mb_deallocate_def frame_set)
  moreover obtain t where "me_blocks ?m (Inline i) = Some (inline_size, t)"
    using b by (auto simp: buf_ok_def mb_deallocate_def set_block_def)
  ultimately obtain b' c' m' where
    "mb_move i src (mg_buffer x) (mg_buffer other) ?m = Some (b', c', m')"
    "store_ok (A(i \<mapsto> Inl (n, p), src \<mapsto> Inr ()))
      (xs(i \<mapsto> update_string_views \<lparr>mg_name = mg_name other, mg_payload = mg_payload other, mg_buffer = b'\<rparr>,
          src \<mapsto> other\<lparr>mg_buffer := c'\<rparr>), m')"
    using store_move [OF S src, of ?m "{mb_ptr (mg_buffer x)}" t "mg_buffer x"] i by auto
  then show ?thesis by (simp add: mg_move_assign_def)
qed

lemma destroy_ok:
  assumes S: "store_ok A (xs, m)" and i: "xs i = Some x"
  shows "store_ok (A(i := None)) (xs(i := None), mg_destroy i x m)"
proof (rule store_update [OF S, where U = "{i}"])
  let ?P = "{Inline i, mb_ptr (mg_buffer x)}"
  show "frame ?P m (mg_destroy i x m)"
    by (auto simp: mg_destroy_def mb_deallocate_def frame_def set_block_def)
  show "fresh (mg_destroy i x m)"
    using store_fresh [OF S] by (auto simp: mg_destroy_def mb_deallocate_def fresh_def set_block_def)
  fix j y
  assume "j \<notin> {i}" "xs j = Some y"
  then have j: "i \<noteq> j" "xs j = Some y" by auto
  show "Inline j \<notin> ?P \<and> mb_ptr (mg_buffer y) \<notin> ?P"
    using j store_apart(1) [OF S i, of j] store_apart(1,2) [OF S j(2,1)] i by auto
qed auto

lemma exec_ok:
  assumes S: "store_ok A (xs, m)" and v: "value_exec op A = Some A'"
  shows "\<exists>S'. msg_exec op (xs, m) = Some S' \<and> store_ok A' S'"
proof (cases op)
  case (New i n p)
  let ?m = "set_block (Foreign 1) (Some (length p, p)) (set_block (Foreign 0) (Some (length n, n)) m)"
  let ?nv = "\<lparr>vw_place = Foreign 0, vw_off = 0, vw_len = length n\<rparr>"
  let ?pv = "\<lparr>vw_place = Foreign 1, vw_off = 0, vw_len = length p\<rparr>"
  have "view_read ?nv ?m = Some n" "view_read ?pv ?m = Some p"
    by (auto simp: view_read_def mem_read_def set_block_def)
  from create_ok [OF foreign_ok [OF foreign_ok [OF S]] this, of i] obtain x m' where
    "mg_construct i ?nv ?pv ?m = Some (x, m')" "store_ok (A(i \<mapsto> Inl (n, p))) (xs(i \<mapsto> x), m')" by auto
  then show ?thesis using New v foreign_ok by (auto simp: Let_def split: if_splits)
next
  case (Copy i src)
  then obtain n p where a: "A src = Some (Inl (n, p))" "A' = A(i \<mapsto> Inl (n, p))" "A i = None"
    using v by (auto split: option.splits sum.splits if_splits)
  then have ne: "i \<noteq> src" by auto
  obtain x where x: "xs src = Some x" "buf_ok src (mg_buffer x) m" "msg_ok x m n p"
    using store_get [OF S a(1)] by blast
  have "mb_ptr (mg_buffer x) \<noteq> Inline i" using x(2) ne by (auto simp: buf_ok_def)
  then have "vw_place (mg_name x) \<noteq> Inline i" "vw_place (mg_payload x) \<noteq> Inline i"
    using x(3) by (simp_all add: msg_ok_def)
  from create_ok [OF S msg_ok_read [OF x(3)] this] show ?thesis using Copy x(1) a(2) by auto
next
  case (Move i src)
  then obtain n p where a: "A src = Some (Inl (n, p))" "A' = A(i \<mapsto> Inl (n, p), src \<mapsto> Inr ())" "A i = None"
    using v by (auto split: option.splits sum.splits if_splits)
  then have ne: "i \<noteq> src" by auto
  obtain x where x: "xs src = Some x" using store_get [OF S a(1)] by blast
  from move_construct_ok [OF S a(1) x ne] show ?thesis using Move x a(2) by auto
next
  case (Assign i src)
  then obtain n p where a: "A src = Some (Inl (n, p))" "A' = A(i \<mapsto> Inl (n, p))" "i \<noteq> src" "A i \<noteq> None"
    using v by (auto split: option.splits sum.splits if_splits)
  obtain x y where x: "xs src = Some x" "xs i = Some y"
    using store_get [OF S a(1)] store_dom [OF S a(4)] by blast
  from assign_ok [OF S a(1) x a(3)] show ?thesis using Assign x a(2) by auto
next
  case (Move_assign i src)
  then obtain n p where a: "A src = Some (Inl (n, p))" "A' = A(i \<mapsto> Inl (n, p), src \<mapsto> Inr ())" "i \<noteq> src"
    "A i \<noteq> None"
    using v by (auto split: option.splits sum.splits if_splits)
  obtain x y where x: "xs src = Some x" "xs i = Some y"
    using store_get [OF S a(1)] store_dom [OF S a(4)] by blast
  from move_assign_ok [OF S a(1) x(1) a(3) x(2)] show ?thesis using Move_assign x a(2) by auto
next
  case (Destroy i)
  then have a: "A i \<noteq> None" "A' = A(i := None)" using v by (auto split: if_splits)
  then obtain x where x: "xs i = Some x" using store_dom [OF S] by blast
  from destroy_ok [OF S x] show ?thesis using Destroy x a(2) by simp
qed

lemma run_ok:
  "store_ok A S \<Longrightarrow> value_run ops A = Some A' \<Longrightarrow> \<exists>S'. msg_run ops S = Some S' \<and> store_ok A' S'"
proof (induction ops arbitrary: A S)
  case (Cons op ops)
  obtain xs m where S: "S = (xs, m)" by fastforce
  obtain A1 where A1: "value_exec op A = Some A1" "value_run ops A1 = Some A'"
    using Cons.prems(2) by (auto split: bind_splits)
  obtain S1 where "msg_exec op S = Some S1" "store_ok A1 S1"
    using exec_ok [OF Cons.prems(1) [unfolded S] A1(1)] S by blast
  then show ?case using Cons.IH A1(2) by auto
qed simp

text \<open>C23: messages that own their texts behave as values: whatever messages a program makes, copies,
  moves, assigns and destroys, without using one that was moved from or assigning one to itself,
  nothing is read that was not written or not there any more, nothing is written past the end of
  a buffer, and every message shows the texts it was made or assigned from.\<close>

theorem msg_buffers_are_values:
  assumes "value_run ops Map.empty = Some A"
  shows "\<exists>S. msg_run ops no_messages = Some S \<and>
    (\<forall>i n p. A i = Some (Inl (n, p)) \<longrightarrow> msg_texts S i = Some (n, p))"
proof -
  have "store_ok Map.empty no_messages" by (simp add: store_ok_def no_messages_def fresh_def)
  from run_ok [OF this assms] obtain S where S: "msg_run ops no_messages = Some S" "store_ok A S" by blast
  obtain xs m where xs: "S = (xs, m)" by fastforce
  have "msg_texts S i = Some (n, p)" if A: "A i = Some (Inl (n, p))" for i n p
  proof -
    obtain x where "xs i = Some x" "msg_ok x m n p" using store_get [OF S(2) [unfolded xs] A] by blast
    then show ?thesis using msg_ok_read by (simp add: msg_texts_def xs)
  qed
  with S(1) show ?thesis by blast
qed

theorem msg_buffers_are_values_witness:
  "\<exists>S. msg_run [New 0 ''srv'' ''ready'', New 1 ''srv'' (replicate 300 (CHR ''x'')), Move 2 1, Copy 3 2,
        Assign 1 0, Move_assign 0 2, Destroy 2] no_messages = Some S \<and>
     msg_texts S 0 = Some (''srv'', replicate 300 (CHR ''x'')) \<and> msg_texts S 1 = Some (''srv'', ''ready'')"
proof -
  let ?x = "replicate 300 (CHR ''x'')"
  let ?ops = "[New 0 ''srv'' ''ready'', New 1 ''srv'' ?x, Move 2 1, Copy 3 2, Assign 1 0, Move_assign 0 2, Destroy 2]"
  have "value_run ?ops Map.empty =
      Some [0 \<mapsto> Inl (''srv'', ?x), 1 \<mapsto> Inl (''srv'', ''ready''), 3 \<mapsto> Inl (''srv'', ?x)]"
    by (simp add: fun_eq_iff)
  from msg_buffers_are_values [OF this] obtain S where S: "msg_run ?ops no_messages = Some S"
    "\<And>i n p. ([0 \<mapsto> Inl (''srv'', ?x), 1 \<mapsto> Inl (''srv'', ''ready''), 3 \<mapsto> Inl (''srv'', ?x)] ::
      value_store) i = Some (Inl (n, p)) \<Longrightarrow> msg_texts S i = Some (n, p)" by blast
  show ?thesis by (rule exI [of _ S]) (use S in simp)
qed

text \<open>The two conditions are needed.  A message of more than 250 characters that was moved from must
  not be moved again: the size of its buffer stays, and the inline storage is read past its end.\<close>

lemmas msg_defs = mg_construct_def mg_move_construct_def mg_assign_def mb_new_def mb_append_def mb_reserve_def
  mb_grow_def mb_resize_def mb_move_def mb_deallocate_def mem_read_def mem_write_def set_block_def view_read_def
  update_string_views_def no_messages_def

lemma moved_twice_overflows:
  assumes "inline_size < length p"
  shows "msg_run [New 0 [] p, Move 1 0, Move 2 0] no_messages = None"
proof -
  have "p \<noteq> []" using assms by auto
  with assms show ?thesis by (simp add: msg_defs Let_def)
qed

text \<open>A message assigned to itself still shows its texts, but its buffer is empty, and a message that
  is then moved from it shows what was never written.\<close>

lemma self_assigned_is_empty:
  assumes "p \<noteq> []" "length p \<le> inline_size"
  shows "\<exists>S. msg_run [New 0 [] p, Assign 0 0] no_messages = Some S \<and> msg_texts S 0 = Some ([], p) \<and>
    (\<exists>S'. msg_run [Move 1 0] S = Some S' \<and> msg_texts S' 1 = None)"
  using assms by (simp add: msg_defs msg_texts_def Let_def)

end
