(* ===== verification/Spd_Services.thy ===== *)
theory Spd_Services
  imports Spd_Sinks "HOL-Library.Sublist" "HOL-Library.Multiset"
begin

text \<open>
  Sinks that hand a message to the system (\<^verbatim>\<open>sinks/tcp_sink.h\<close> with \<^verbatim>\<open>details/tcp_client.h\<close>,
  \<^verbatim>\<open>sinks/stdout_sinks-inl.h\<close>, \<^verbatim>\<open>sinks/syslog_sink.h\<close>, \<^verbatim>\<open>sinks/systemd_sink.h\<close> of
  \<^verbatim>\<open>contrib/spdlog/include/spdlog\<close>): what they pass on, and for the TCP sink that no socket leaks and
  how the texts lie in the streams.
\<close>

section \<open>A client that sends\<close>

text \<open>
  The answers of the system are streams: the addresses of a name, each with the results of
  \<^verbatim>\<open>::socket\<close> and \<^verbatim>\<open>::connect\<close>, or the error of \<^verbatim>\<open>::getaddrinfo\<close>, and the results of \<^verbatim>\<open>::send\<close>.
  \<open>tn_opened\<close>, \<open>tn_closed\<close> and \<open>tn_streams\<close> are no variables of the code: the sockets that were made
  and closed, and what was sent over each connection, the last one first.
\<close>

record tcp_net =
  tn_resolve :: "nat \<Rightarrow> string + (int \<times> int) list"
  tn_answers :: "nat \<Rightarrow> int"
  tn_opened :: "int list"
  tn_closed :: "int list"
  tn_streams :: "string list"

record tcp_log_client =
  tl_socket :: int

definition tl_is_connected :: "tcp_log_client \<Rightarrow> bool" where
  "tl_is_connected c \<longleftrightarrow> tl_socket c \<noteq> -1"

definition tl_close :: "tcp_log_client \<Rightarrow> tcp_net \<Rightarrow> tcp_log_client \<times> tcp_net" where
  "tl_close c net =
     (if tl_is_connected c then (c\<lparr>tl_socket := -1\<rparr>, net\<lparr>tn_closed := tl_socket c # tn_closed net\<rparr>)
      else (c, net))"

text \<open>The loop over the addresses.\<close>

primrec tl_try :: "(int \<times> int) list \<Rightarrow> tcp_log_client \<Rightarrow> tcp_net \<Rightarrow> tcp_log_client \<times> tcp_net" where
  "tl_try [] c net = (c, net)"
| "tl_try (a # as) c net =
     (case a of (sock, rv) \<Rightarrow>
        let c = c\<lparr>tl_socket := sock\<rparr> in
        if sock = -1 then tl_try as c net
        else
          let net = net\<lparr>tn_opened := sock # tn_opened net\<rparr> in
          if rv = 0 then (c, net)
          else tl_try as (c\<lparr>tl_socket := -1\<rparr>) (net\<lparr>tn_closed := sock # tn_closed net\<rparr>))"

definition tl_connect :: "tcp_log_client \<Rightarrow> tcp_net \<Rightarrow> string option \<times> tcp_log_client \<times> tcp_net" where
  "tl_connect c net =
     (let (c, net) = tl_close c net;
          answer = tn_resolve net 0;
          net = net\<lparr>tn_resolve := (\<lambda>i. tn_resolve net (Suc i))\<rparr>
      in (case answer of
            Inl e \<Rightarrow> (Some (''::getaddrinfo failed: '' @ e), c, net)
          | Inr addrs \<Rightarrow>
              let (c, net) = tl_try addrs c net in
              if tl_socket c = -1 then (Some ''::connect failed'', c, net)
              else (None, c, net\<lparr>tn_streams := [] # tn_streams net\<rparr>)))"

text \<open>\<^verbatim>\<open>send\<close>: a result of zero ends the loop without an error.\<close>

function tl_send :: "string \<Rightarrow> tcp_log_client \<Rightarrow> tcp_net \<Rightarrow> string option \<times> tcp_log_client \<times> tcp_net" where
  "tl_send data c net =
     (if data = [] then (None, c, net)
      else
        let r = tn_answers net 0;
            net = net\<lparr>tn_answers := (\<lambda>i. tn_answers net (Suc i))\<rparr>
        in if r < 0 then (case tl_close c net of (c, net) \<Rightarrow> (Some ''write(2) failed'', c, net))
           else if r = 0 then (None, c, net)
           else tl_send (drop (nat r) data) c
             (net\<lparr>tn_streams := (case tn_streams net of
                [] \<Rightarrow> [] | s # ss \<Rightarrow> (s @ take (nat r) data) # ss)\<rparr>))"
  by auto

termination
  by (relation "measure (\<lambda>(data, c, net). length data)") auto

declare tl_send.simps [simp del]

section \<open>The TCP sink\<close>

record tcp_sink = sink_base +
  ts_client :: tcp_log_client

definition tcp_sink_new :: "platform \<Rightarrow> bool \<Rightarrow> tcp_net \<Rightarrow> (string + tcp_sink) \<times> tcp_net" where
  "tcp_sink_new os lazy_connect net =
     (let c = \<lparr>tl_socket = -1\<rparr>;
          s = sink_base.extend (sink_base_new os) \<lparr>ts_client = c\<rparr>
      in if lazy_connect then (Inr s, net)
         else (case tl_connect c net of
                 (Some e, c, net) \<Rightarrow> (Inl e, snd (tl_close c net))
               | (None, c, net) \<Rightarrow> (Inr (s\<lparr>ts_client := c\<rparr>), net)))"

definition tl_deliver :: "string \<Rightarrow> tcp_log_client \<Rightarrow> tcp_net \<Rightarrow> string option \<times> tcp_log_client \<times> tcp_net" where
  "tl_deliver data c net =
     (let (e, c, net) = (if tl_is_connected c then (None, c, net) else tl_connect c net)
      in (case e of Some err \<Rightarrow> (Some err, c, net) | None \<Rightarrow> tl_send data c net))"

definition tcp_sink_it :: "platform \<Rightarrow> log_msg \<Rightarrow> tcp_sink \<Rightarrow> tcp_net \<Rightarrow> string option \<times> tcp_sink \<times> tcp_net" where
  "tcp_sink_it os msg s net =
     (case pf_format os (sb_formatter s) msg [] of
        None \<Rightarrow> (Some ''formatter'', s, net)
      | Some (pf, msg, formatted) \<Rightarrow>
          let (e, c, net) = tl_deliver formatted (ts_client s) net
          in (e, s\<lparr>sb_formatter := pf, ts_client := c\<rparr>, net))"

section \<open>The console and the journals\<close>

text \<open>The result of \<^verbatim>\<open>fwrite\<close> is not looked at; the second result is what the console shows.\<close>

definition stdout_sink_log ::
  "platform \<Rightarrow> log_msg \<Rightarrow> sink_base \<Rightarrow> string \<Rightarrow> string option \<times> sink_base \<times> string" where
  "stdout_sink_log os msg s console =
     (case pf_format os (sb_formatter s) msg [] of
        None \<Rightarrow> (Some ''formatter'', s, console)
      | Some (pf, msg, formatted) \<Rightarrow> (None, s\<lparr>sb_formatter := pf\<rparr>, console @ formatted))"

text \<open>The numbers of \<^verbatim>\<open>syslog.h\<close>.\<close>

definition syslog_levels :: "int list" where
  "syslog_levels = [7, 7, 6, 4, 3, 2, 6]"

definition syslog_prio :: "level_enum \<Rightarrow> int" where
  "syslog_prio l = syslog_levels ! level_value l"

text \<open>What \<^verbatim>\<open>%.*s\<close> prints: at most the precision, and not past a NUL.\<close>

definition print_text :: "string \<Rightarrow> string" where
  "print_text s = takeWhile (\<lambda>c. c \<noteq> NUL) (take (2 ^ 31 - 1) s)"

record syslog_sink = sink_base +
  sy_enable_formatting :: bool

definition syslog_sink_it ::
  "platform \<Rightarrow> log_msg \<Rightarrow> syslog_sink \<Rightarrow> (int \<times> string) list \<Rightarrow>
   string option \<times> syslog_sink \<times> (int \<times> string) list" where
  "syslog_sink_it os msg s journal =
     (if sy_enable_formatting s then
        (case pf_format os (sb_formatter s) msg [] of
           None \<Rightarrow> (Some ''formatter'', s, journal)
         | Some (pf, msg, formatted) \<Rightarrow>
             (None, s\<lparr>sb_formatter := pf\<rparr>, journal @ [(syslog_prio (lm_level msg), print_text formatted)]))
      else (None, s, journal @ [(syslog_prio (lm_level msg), print_text (lm_payload msg))]))"

text \<open>The fields for the journal; the argument is the result of \<^verbatim>\<open>sd_journal_send\<close>.\<close>

definition systemd_fields :: "log_msg \<Rightarrow> string list" where
  "systemd_fields msg =
     [''MESSAGE='' @ print_text (lm_payload msg),
      ''PRIORITY='' @ show_nat (nat (syslog_prio (lm_level msg))),
      ''SYSLOG_IDENTIFIER='' @ print_text (lm_logger_name msg)] @
     (if source_empty (lm_source msg) then []
      else [''CODE_FILE='' @ sl_filename (lm_source msg),
            ''CODE_LINE='' @ append_int (sint (sl_line (lm_source msg))),
            ''CODE_FUNC='' @ sl_funcname (lm_source msg)])"

definition systemd_sink_it :: "int \<Rightarrow> log_msg \<Rightarrow> string list list \<Rightarrow> string option \<times> string list list" where
  "systemd_sink_it err msg journal =
     (if err \<noteq> 0 then (Some ''Failed writing to systemd'', journal)
      else (None, journal @ [systemd_fields msg]))"

section \<open>No socket leaks\<close>

text \<open>Every socket that was made is closed or is the one of the client.\<close>

definition no_leak :: "tcp_log_client \<Rightarrow> tcp_net \<Rightarrow> bool" where
  "no_leak c net \<longleftrightarrow>
     mset (tn_opened net) = mset (tn_closed net) + (if tl_socket c = -1 then {#} else {#tl_socket c#})"

lemma no_leak_close: "no_leak c net \<Longrightarrow> tl_close c net = (c', net') \<Longrightarrow> no_leak c' net' \<and> tl_socket c' = -1"
  by (auto simp: no_leak_def tl_close_def tl_is_connected_def split: if_splits)

lemma no_leak_try:
  "no_leak c net \<Longrightarrow> tl_socket c = -1 \<Longrightarrow> tl_try as c net = (c', net') \<Longrightarrow> no_leak c' net'"
proof (induction as arbitrary: c net)
  case (Cons a as)
  obtain sock rv where a: "a = (sock, rv)" by fastforce
  show ?case
  proof (cases "sock = -1 \<or> rv \<noteq> 0")
    case True
    let ?net = "if sock = -1 then net else net\<lparr>tn_opened := sock # tn_opened net, tn_closed := sock # tn_closed net\<rparr>"
    have "tl_try as (c\<lparr>tl_socket := -1\<rparr>) ?net = (c', net')"
      using True Cons.prems(3) by (auto simp: a Let_def split: if_splits)
    moreover have "no_leak (c\<lparr>tl_socket := -1\<rparr>) ?net" using Cons.prems(1,2) by (simp add: no_leak_def)
    ultimately show ?thesis using Cons.IH by simp
  next
    case False
    then show ?thesis using Cons.prems by (auto simp: a no_leak_def Let_def)
  qed
qed simp

lemma no_leak_connect:
  assumes "no_leak c net" "tl_connect c net = (e, c', net')"
  shows "no_leak c' net' \<and> (e = None \<longleftrightarrow> tl_is_connected c')"
proof -
  obtain c1 net1 where c1: "tl_close c net = (c1, net1)" by fastforce
  note n1 = no_leak_close [OF assms(1) c1]
  let ?net = "net1\<lparr>tn_resolve := (\<lambda>i. tn_resolve net1 (Suc i))\<rparr>"
  have n2: "no_leak c1 ?net" using n1 by (simp add: no_leak_def)
  show ?thesis
  proof (cases "tn_resolve net1 0")
    case (Inl err)
    then show ?thesis using assms(2) c1 n1 n2 by (auto simp: tl_connect_def tl_is_connected_def Let_def)
  next
    case (Inr addrs)
    obtain c2 net2 where t: "tl_try addrs c1 ?net = (c2, net2)" by fastforce
    have "no_leak c2 net2" using no_leak_try [OF n2 _ t] n1 by simp
    then show ?thesis using assms(2) c1 t Inr
      by (auto simp: tl_connect_def tl_is_connected_def no_leak_def Let_def split: if_splits)
  qed
qed

lemma no_leak_send:
  "no_leak c net \<Longrightarrow> tl_send data c net = (e, c', net') \<Longrightarrow> no_leak c' net'"
proof (induction data c net rule: tl_send.induct)
  case (1 data c net)
  let ?r = "tn_answers net 0" and ?net = "net\<lparr>tn_answers := (\<lambda>i. tn_answers net (Suc i))\<rparr>"
  have n: "no_leak c ?net" using 1(2) by (simp add: no_leak_def)
  consider "data = []" | "data \<noteq> []" "?r < 0" | "data \<noteq> []" "?r = 0" | "data \<noteq> []" "0 < ?r" by fastforce
  then show ?case
  proof cases
    case 2
    obtain c1 net1 where "tl_close c ?net = (c1, net1)" by fastforce
    with 1(3) 2 no_leak_close [OF n] show ?thesis by (subst (asm) tl_send.simps) (simp add: Let_def)
  next
    case 4
    let ?net' = "?net\<lparr>tn_streams := (case tn_streams ?net of
        [] \<Rightarrow> [] | s # ss \<Rightarrow> (s @ take (nat ?r) data) # ss)\<rparr>"
    have "tl_send (drop (nat ?r) data) c ?net' = (e, c', net')"
      using 1(3) 4 by (subst (asm) tl_send.simps) (simp add: Let_def)
    moreover have "no_leak c ?net'" using n by (simp add: no_leak_def)
    ultimately show ?thesis using 1(1) [OF 4(1) refl refl] 4(2) by simp
  qed (use 1(2,3) n in \<open>(subst (asm) tl_send.simps, simp add: Let_def)+\<close>)
qed

text \<open>The messages of a run, as texts: errors do not stop it.\<close>

primrec tl_run :: "string list \<Rightarrow> tcp_log_client \<Rightarrow> tcp_net \<Rightarrow> string option list \<times> tcp_log_client \<times> tcp_net" where
  "tl_run [] c net = ([], c, net)"
| "tl_run (d # ds) c net =
     (let (e, c, net) = tl_deliver d c net; (es, c, net) = tl_run ds c net in (e # es, c, net))"

text \<open>Whatever the system answers, every socket of the TCP sink is closed again but the last one.\<close>

theorem tcp_sink_no_leak:
  assumes "no_leak c net" "tl_run ds c net = (es, c', net')"
  shows "no_leak c' net'"
  using assms
proof (induction ds arbitrary: c net es)
  case (Cons d ds)
  obtain e1 c1 net1 where d: "tl_deliver d c net = (e1, c1, net1)" by (metis prod_cases3)
  obtain es1 where r: "tl_run ds c1 net1 = (es1, c', net')"
    using Cons.prems(2) d by (auto simp: Let_def split: prod.splits)
  obtain e0 c0 net0 where k: "(if tl_is_connected c then (None, c, net) else tl_connect c net) = (e0, c0, net0)"
    by (metis prod_cases3)
  then have "no_leak c0 net0" using Cons.prems(1) no_leak_connect by (auto split: if_splits)
  then have "no_leak c1 net1"
    using d k no_leak_send by (auto simp: tl_deliver_def Let_def split: option.splits)
  with r show ?case by (rule Cons.IH [rotated])
qed simp

section \<open>Streams of whole messages\<close>

text \<open>When the system sends at least one character or fails, a stream is a sequence of whole
  messages, cut off at an error, and that of the connection still open is not cut.\<close>

lemma send_stream:
  "tn_streams net = s # ss \<Longrightarrow> (\<forall>i. tn_answers net i \<noteq> 0) \<Longrightarrow> tl_is_connected c \<Longrightarrow>
    tl_send data c net = (e, c', net') \<Longrightarrow>
    (\<exists>p. prefix p data \<and> tn_streams net' = (s @ p) # ss \<and> (e = None \<longrightarrow> p = data)) \<and>
    (e = None \<longleftrightarrow> tl_is_connected c') \<and> (\<forall>i. tn_answers net' i \<noteq> 0)"
proof (induction data c net arbitrary: s rule: tl_send.induct)
  case (1 data c net)
  let ?r = "tn_answers net 0" and ?net = "net\<lparr>tn_answers := (\<lambda>i. tn_answers net (Suc i))\<rparr>"
  have "?r \<noteq> 0" using 1(3) by blast
  then consider "data = []" | "data \<noteq> []" "?r < 0" | "data \<noteq> []" "0 < ?r" by fastforce
  then show ?case
  proof cases
    case 1
    then show ?thesis using "1.prems" by (subst (asm) tl_send.simps) auto
  next
    case 2
    then show ?thesis using "1.prems"
      by (subst (asm) tl_send.simps) (auto simp: Let_def tl_close_def tl_is_connected_def)
  next
    case 3
    let ?net' = "?net\<lparr>tn_streams := (case tn_streams ?net of
        [] \<Rightarrow> [] | s # ss \<Rightarrow> (s @ take (nat ?r) data) # ss)\<rparr>"
    have "tl_send (drop (nat ?r) data) c ?net' = (e, c', net')"
      using "1.prems"(4) 3 by (subst (asm) tl_send.simps) (simp add: Let_def)
    moreover have "tn_streams ?net' = (s @ take (nat ?r) data) # ss" using "1.prems"(1) by simp
    moreover have "\<forall>i. tn_answers ?net' i \<noteq> 0" using "1.prems"(2) by simp
    ultimately obtain p where p: "prefix p (drop (nat ?r) data)"
      "tn_streams net' = (s @ take (nat ?r) data @ p) # ss" "e = None \<longrightarrow> p = drop (nat ?r) data"
      "(e = None \<longleftrightarrow> tl_is_connected c') \<and> (\<forall>i. tn_answers net' i \<noteq> 0)"
      using 1(1) [OF 3(1) refl refl _ _ _ _ "1.prems"(3), of "s @ take (nat ?r) data"] 3(2) by fastforce
    have "prefix (take (nat ?r) data @ p) data"
      using p(1) by (metis append_take_drop_id same_prefix_prefix)
    then show ?thesis using p(2-4) by (intro conjI exI [of _ "take (nat ?r) data @ p"]) auto
  qed
qed

definition whole :: "string set \<Rightarrow> string \<Rightarrow> bool" where
  "whole D str \<longleftrightarrow> (\<exists>xs. set xs \<subseteq> D \<and> str = concat xs)"

definition whole_or_cut :: "string set \<Rightarrow> string \<Rightarrow> bool" where
  "whole_or_cut D str \<longleftrightarrow> (\<exists>xs p. set xs \<subseteq> D \<and> (p = [] \<or> (\<exists>d \<in> D. prefix p d)) \<and> str = concat xs @ p)"

definition streams_ok :: "string set \<Rightarrow> tcp_log_client \<Rightarrow> tcp_net \<Rightarrow> bool" where
  "streams_ok D c net \<longleftrightarrow> (\<forall>i. tn_answers net i \<noteq> 0) \<and> (\<forall>str \<in> set (tn_streams net). whole_or_cut D str) \<and>
     (tl_is_connected c \<longrightarrow> (\<exists>s ss. tn_streams net = s # ss \<and> whole D s))"

lemma whole_Nil: "whole D []" "whole_or_cut D []"
  by (auto simp: whole_def whole_or_cut_def intro: exI [of _ "[]"])

lemma whole_append: "whole D s \<Longrightarrow> d \<in> D \<Longrightarrow> whole D (s @ d)"
proof -
  assume "whole D s" "d \<in> D"
  then obtain xs where "set (xs @ [d]) \<subseteq> D" "s @ d = concat (xs @ [d])" by (auto simp: whole_def)
  then show "whole D (s @ d)" unfolding whole_def by blast
qed

lemma whole_cut: "whole D s \<Longrightarrow> d \<in> D \<Longrightarrow> prefix p d \<Longrightarrow> whole_or_cut D (s @ p)"
  by (auto simp: whole_def whole_or_cut_def)

lemma try_streams:
  "tl_try as c net = (c', net') \<Longrightarrow> tn_streams net' = tn_streams net \<and> tn_answers net' = tn_answers net"
proof (induction as arbitrary: c net)
  case (Cons a as)
  from Cons.prems show ?case by (cases a) (auto simp: Let_def dest!: Cons.IH split: if_splits)
qed simp

lemma connect_streams:
  assumes "streams_ok D c net" "\<not> tl_is_connected c" "tl_connect c net = (e, c', net')"
  shows "streams_ok D c' net' \<and> (e = None \<longleftrightarrow> tl_is_connected c')"
proof -
  let ?net = "net\<lparr>tn_resolve := (\<lambda>i. tn_resolve net (Suc i))\<rparr>"
  have close: "tl_close c net = (c, net)" using assms(2) by (simp add: tl_close_def)
  show ?thesis
  proof (cases "tn_resolve net 0")
    case (Inl err)
    then show ?thesis using assms close by (auto simp: tl_connect_def streams_ok_def Let_def)
  next
    case (Inr addrs)
    obtain c2 net2 where t: "tl_try addrs c ?net = (c2, net2)" by fastforce
    then have "tn_streams net2 = tn_streams net" "tn_answers net2 = tn_answers net"
      using try_streams [OF t] by simp_all
    then show ?thesis using assms(1,3) close Inr t whole_Nil
      by (auto simp: tl_connect_def streams_ok_def tl_is_connected_def Let_def split: if_splits)
  qed
qed

lemma send_streams:
  assumes "streams_ok D c net" "tl_is_connected c" "tl_send d c net = (e, c', net')" "d \<in> D"
  shows "streams_ok D c' net'"
proof -
  obtain s ss where net: "tn_streams net = s # ss" "whole D s" "\<forall>i. tn_answers net i \<noteq> 0"
    "\<forall>str \<in> set ss. whole_or_cut D str"
    using assms(1,2) by (auto simp: streams_ok_def)
  obtain p where p: "prefix p d" "tn_streams net' = (s @ p) # ss" "e = None \<longrightarrow> p = d"
    "e = None \<longleftrightarrow> tl_is_connected c'" "\<forall>i. tn_answers net' i \<noteq> 0"
    using send_stream [OF net(1,3) assms(2,3)] by blast
  show ?thesis
    using p net(4) whole_append [OF net(2) assms(4)] whole_cut [OF net(2) assms(4) p(1)]
    by (auto simp: streams_ok_def)
qed

text \<open>Whatever fails otherwise, over any messages and any number of connections, a stream that was of
  whole messages stays so.\<close>

theorem tcp_streams_whole:
  assumes "streams_ok D c net" "set ds \<subseteq> D" "tl_run ds c net = (es, c', net')"
  shows "streams_ok D c' net'"
  using assms
proof (induction ds arbitrary: c net es)
  case (Cons d ds)
  obtain e1 c1 net1 where d: "tl_deliver d c net = (e1, c1, net1)" by (metis prod_cases3)
  obtain es1 where r: "tl_run ds c1 net1 = (es1, c', net')"
    using Cons.prems(3) d by (auto simp: Let_def split: prod.splits)
  have "streams_ok D c1 net1"
  proof (cases "tl_is_connected c")
    case True
    then show ?thesis using d Cons.prems(1,2) send_streams by (auto simp: tl_deliver_def)
  next
    case False
    obtain e0 c0 net0 where k: "tl_connect c net = (e0, c0, net0)" by (metis prod_cases3)
    note conn = connect_streams [OF Cons.prems(1) False k]
    show ?thesis
      using d k False conn Cons.prems(2) send_streams [of D c0 net0 d e1 c1 net1]
      by (cases e0) (auto simp: tl_deliver_def)
  qed
  then show ?case using Cons.IH [OF _ _ r] Cons.prems(2) by simp
qed simp

text \<open>A result of zero is taken for success: the rest of the message is lost, and the next one
  follows its beginning.\<close>

lemma zero_loses_message:
  assumes "tn_answers net 0 = 0"
  shows "\<exists>net'. tl_send data c net = (None, c, net') \<and> tn_streams net' = tn_streams net"
  by (subst tl_send.simps) (simp add: assms Let_def)

section \<open>Priorities\<close>

text \<open>From \<^verbatim>\<open>debug\<close> to \<^verbatim>\<open>critical\<close> a more severe level never has a less severe priority.\<close>

lemma syslog_prio_mono:
  "a \<le> b \<Longrightarrow> b \<noteq> Level_off \<Longrightarrow> syslog_prio b \<le> syslog_prio a"
  by (cases a; cases b) (simp_all add: syslog_prio_def syslog_levels_def level_order)

end
