(* ===== verification/Fmt_Digits.thy ===== *)
theory Fmt_Digits
  imports Spd_Hex
begin

unbundle bit_operations_syntax

text \<open>
  The digits of integers in the formatting library bundled with the logging library
  (\<^verbatim>\<open>fmt/bundled/format.h\<close>): how many digits a number has, by the tables the library looks up,
  and the routines that write them from the right end of a buffer.  An unsigned integer is its
  value: the routines only divide it, so its width does not matter but for the tables.  A buffer
  is the list of its characters; a write outside of it is undefined behaviour, which is
  \<^term>\<open>None\<close>.
\<close>

section \<open>Digits in any base\<close>

text \<open>The reference: the digits of a number, most significant first.\<close>

definition base_digit :: "bool \<Rightarrow> nat \<Rightarrow> char" where
  "base_digit up d = (if d < 10 then digit d else hex_char up d)"

fun show_base :: "nat \<Rightarrow> bool \<Rightarrow> nat \<Rightarrow> string" where
  "show_base b up n =
     (if n < b \<or> b < 2 then [base_digit up n] else show_base b up (n div b) @ [base_digit up (n mod b)])"

declare show_base.simps [simp del]

lemma show_base_10: "show_base 10 up n = show_nat n"
proof (induction n rule: show_nat.induct)
  case (1 n)
  then show ?case
    by (cases "n < 10") (simp_all add: show_nat.simps [of n] show_base.simps [of _ _ n] base_digit_def)
qed

lemma length_show_base_pos [simp]: "0 < length (show_base b up n)"
  by (subst show_base.simps) simp

lemma length_show_base_less: "n < b \<Longrightarrow> length (show_base b up n) = 1"
  by (simp add: show_base.simps [of b up n])

text \<open>A positive number has \<open>d\<close> digits when it is between two consecutive powers of the base.\<close>

lemma length_show_base_le:
  assumes "2 \<le> b" "n < b ^ d" "0 < d"
  shows "length (show_base b up n) \<le> d"
  using assms(2-)
proof (induction d arbitrary: n)
  case (Suc d)
  show ?case
  proof (cases "n < b")
    case True
    then show ?thesis by (simp add: length_show_base_less)
  next
    case False
    with Suc.prems have "n div b < b ^ d" "0 < d"
      by (cases d; simp add: less_mult_imp_div_less mult.commute)+
    with Suc.IH have "length (show_base b up (n div b)) \<le> d" by blast
    with False assms(1) show ?thesis by (simp add: show_base.simps [of b up n])
  qed
qed simp

lemma length_show_base_ge:
  assumes "2 \<le> b" "b ^ d \<le> n"
  shows "Suc d \<le> length (show_base b up n)"
  using assms(2)
proof (induction d arbitrary: n)
  case 0
  then show ?case using length_show_base_pos [of b up n] by linarith
next
  case (Suc d)
  have "b ^ d \<le> n div b"
    using Suc.prems assms(1) by (simp add: less_eq_div_iff_mult_less_eq mult.commute)
  then have "Suc d \<le> length (show_base b up (n div b))" by (rule Suc.IH)
  moreover have "b \<le> n"
    using Suc.prems assms(1) by (metis One_nat_def dual_order.trans le_add1 le_less_trans
        mult.commute mult_le_mono2 not_less_eq_eq nat_mult_1_right one_le_power plus_1_eq_Suc power_Suc
        one_le_numeral)
  ultimately show ?case using assms(1) by (simp add: show_base.simps [of b up n])
qed

lemma length_show_base_eq:
  "2 \<le> b \<Longrightarrow> b ^ d \<le> n \<Longrightarrow> n < b ^ Suc d \<Longrightarrow> length (show_base b up n) = Suc d"
  using length_show_base_le [of b n "Suc d" up] length_show_base_ge [of b d n up] by simp

lemmas length_show_nat_le =
  length_show_base_le [where b = 10, unfolded show_base_10, simplified]
lemmas length_show_nat_eq =
  length_show_base_eq [where b = 10, unfolded show_base_10, simplified]

section \<open>The highest bit\<close>

text \<open>
  \<^verbatim>\<open>__builtin_clz\<close> counts the zeros before the highest bit of a positive number of the given width.
\<close>

fun high_bit :: "nat \<Rightarrow> nat" where
  "high_bit n = (if n < 2 then 0 else Suc (high_bit (n div 2)))"

declare high_bit.simps [simp del]

definition builtin_clz :: "nat \<Rightarrow> nat \<Rightarrow> nat" where
  "builtin_clz w n = w - 1 - high_bit n"

lemma halves_bounds: "x \<le> n div 2 \<Longrightarrow> n div 2 < 2 * x \<Longrightarrow> 2 * x \<le> n \<and> n < 4 * (x :: nat)"
  by linarith

lemma high_bit_bounds: "0 < n \<Longrightarrow> 2 ^ high_bit n \<le> n \<and> n < 2 ^ Suc (high_bit n)"
proof (induction n rule: high_bit.induct)
  case (1 n)
  show ?case
  proof (cases "n < 2")
    case True
    with 1(2) show ?thesis by (simp add: high_bit.simps [of n])
  next
    case False
    with 1 have "2 ^ high_bit (n div 2) \<le> n div 2" "n div 2 < 2 * 2 ^ high_bit (n div 2)"
      by auto
    then have "2 * 2 ^ high_bit (n div 2) \<le> n \<and> n < 4 * 2 ^ high_bit (n div 2)" by (rule halves_bounds)
    with False show ?thesis by (simp add: high_bit.simps [of n])
  qed
qed

lemma high_bit_less: "0 < n \<Longrightarrow> n < 2 ^ w \<Longrightarrow> high_bit n < w"
  using high_bit_bounds [of n]
  by (metis le_less_trans nat_power_less_imp_less zero_less_numeral)

lemma or_one_nat: "n OR 1 = n + of_bool (even (n :: nat))"
  by (simp add: or_Suc_0_eq)

lemma clz_xor:
  "high_bit n < w \<Longrightarrow> w \<in> {32, 64} \<Longrightarrow> builtin_clz w n XOR (w - 1) = high_bit n"
proof -
  have "\<forall>c < 32. (31 - c) XOR 31 = (c :: nat)" by code_simp
  moreover have "\<forall>c < 64. (63 - c) XOR 63 = (c :: nat)" by code_simp
  moreover assume "high_bit n < w" "w \<in> {32, 64}"
  ultimately show ?thesis by (auto simp: builtin_clz_def)
qed

lemma high_bit_or_one: "high_bit (n OR 1) = high_bit n"
proof (cases "n < 2")
  case True
  then show ?thesis unfolding or_one_nat by (cases "n = 0") (auto simp: high_bit.simps)
next
  case False
  have "(n + of_bool (even n)) div 2 = n div 2" by auto
  with False show ?thesis unfolding or_one_nat
    by (simp add: high_bit.simps [of n] high_bit.simps [of "n + of_bool (even n)"])
qed

section \<open>Counting decimal digits\<close>

text \<open>\<^verbatim>\<open>count_digits_fallback\<close>, four digits at a time.\<close>

fun count_digits_fallback_loop :: "nat \<Rightarrow> nat \<Rightarrow> nat" where
  "count_digits_fallback_loop n cnt =
     (if n < 10 then cnt
      else if n < 100 then cnt + 1
      else if n < 1000 then cnt + 2
      else if n < 10000 then cnt + 3
      else count_digits_fallback_loop (n div 10000) (cnt + 4))"

declare count_digits_fallback_loop.simps [simp del]

definition count_digits_fallback :: "nat \<Rightarrow> nat" where
  "count_digits_fallback n = count_digits_fallback_loop n 1"

text \<open>The table lookup for 64 bits: the highest bit gives the digits but for one.\<close>

definition bsr2log10 :: "nat list" where
  "bsr2log10 =
     [1,  1,  1,  2,  2,  2,  3,  3,  3,  4,  4,  4,  4,  5,  5,  5,
      6,  6,  6,  7,  7,  7,  7,  8,  8,  8,  9,  9,  9,  10, 10, 10,
      10, 11, 11, 11, 12, 12, 12, 13, 13, 13, 13, 14, 14, 14, 15, 15,
      15, 16, 16, 16, 16, 17, 17, 17, 18, 18, 18, 19, 19, 19, 19, 20]"

definition powers_of_10 :: "u64 \<Rightarrow> u64 list" where
  "powers_of_10 factor =
     [factor * 10, factor * 100, factor * 1000, factor * 10000, factor * 100000,
      factor * 1000000, factor * 10000000, factor * 100000000, factor * 1000000000]"

definition zero_or_powers_of_10 :: "u64 list" where
  "zero_or_powers_of_10 =
     [0, 0] @ powers_of_10 1 @ powers_of_10 1000000000 @ [10000000000000000000]"

definition count_digits64 :: "u64 \<Rightarrow> nat" where
  "count_digits64 n =
     (let t = bsr2log10 ! (builtin_clz 64 (unat (n OR 1)) XOR 63)
      in t - (if n < zero_or_powers_of_10 ! t then 1 else 0))"

text \<open>The table lookup for 32 bits: the upper half of the increment holds the digits, and the sum
  carries into it when the power of ten is reached.\<close>

definition fmt_inc :: "nat \<Rightarrow> u64" where
  "fmt_inc t = push_bit 32 (of_nat (length (show_nat t))) - of_nat t"

definition count_digits_inc_table :: "nat list" where
  "count_digits_inc_table =
     [0,          0,          0,
      10,         10,         10,
      100,        100,        100,
      1000,       1000,       1000,
      10000,      10000,      10000,
      100000,     100000,     100000,
      1000000,    1000000,    1000000,
      10000000,   10000000,   10000000,
      100000000,  100000000,  100000000,
      1000000000, 1000000000, 1000000000,
      1000000000, 1000000000]"

definition count_digits_inc :: "nat \<Rightarrow> u64" where
  "count_digits_inc n = fmt_inc (count_digits_inc_table ! n)"

definition count_digits32 :: "u32 \<Rightarrow> nat" where
  "count_digits32 n =
     unat (drop_bit 32 (ucast n + count_digits_inc (builtin_clz 32 (unat (n OR 1)) XOR 31)))"

text \<open>Each of them counts the digits that the number prints.\<close>

lemma length_show_nat_4: "10000 \<le> n \<Longrightarrow> length (show_nat n) = length (show_nat (n div 10000)) + 4"
proof -
  assume "10000 \<le> n"
  then have "\<not> n < 10" "\<not> n div 10 < 10" "\<not> n div 100 < 10" "\<not> n div 1000 < 10" by auto
  then show ?thesis
    by (simp add: show_nat.simps [of n] show_nat.simps [of "n div 10"] show_nat.simps [of "n div 100"]
        show_nat.simps [of "n div 1000"] flip: div_mult2_eq)
qed

lemma count_digits_fallback_loop_length:
  "count_digits_fallback_loop n cnt = cnt + length (show_nat n) - 1"
proof (induction n cnt rule: count_digits_fallback_loop.induct)
  case (1 n cnt)
  have small: "length (show_nat n) = k" if "10 ^ (k - 1) \<le> n" "n < 10 ^ k" "1 < k" for k
    using length_show_nat_eq [of "k - 1" n] that by (cases k) auto
  consider "n < 10" | "10 \<le> n" "n < 100" | "100 \<le> n" "n < 1000" | "1000 \<le> n" "n < 10000" | "10000 \<le> n"
    by linarith
  then show ?case
  proof cases
    case 1
    then show ?thesis by (simp add: count_digits_fallback_loop.simps [of n] show_nat.simps [of n])
  next
    case 5
    with 1 have "count_digits_fallback_loop n cnt = cnt + 4 + length (show_nat (n div 10000)) - 1"
      by (simp add: count_digits_fallback_loop.simps [of n])
    with length_show_nat_4 [OF 5] show ?thesis by simp
  qed (use small [of 2] small [of 3] small [of 4] in
      \<open>simp_all add: count_digits_fallback_loop.simps [of n]\<close>)
qed

lemma count_digits_fallback_eq: "count_digits_fallback n = length (show_nat n)"
  by (simp add: count_digits_fallback_def count_digits_fallback_loop_length)

lemma bsr2log10_entries:
  "list_all2 (\<lambda>k t. 1 \<le> t \<and> t \<le> 20 \<and> (10 :: nat) ^ (t - 2) \<le> 2 ^ k \<and> (2 :: nat) ^ Suc k \<le> 10 ^ t)
     [0..<64] bsr2log10"
  by (simp add: bsr2log10_def upt_rec)

lemma powers_of_10_entries:
  "list_all2 (\<lambda>t p. unat p = (if t \<le> 1 then 0 else 10 ^ (t - 1))) [0..<21] zero_or_powers_of_10"
  by (simp add: zero_or_powers_of_10_def powers_of_10_def upt_rec)

lemma count_digits_inc_entries:
  "list_all2 (\<lambda>k t. let l = min 9 (k div 3) in
      if k < 3 then t = 0
      else t = 10 ^ l \<and> 1 \<le> l \<and> 10 ^ (l - 1) \<le> (2 :: nat) ^ k \<and> (2 :: nat) ^ Suc k \<le> 10 ^ (l + 1))
     [0..<32] count_digits_inc_table"
  by (simp add: count_digits_inc_table_def upt_rec)

lemma high_bit_unat: "high_bit (unat (n :: 'a::len word)) < LENGTH('a)"
proof (cases "unat n = 0")
  case True
  then show ?thesis by (simp add: high_bit.simps)
next
  case False
  then show ?thesis using unsigned_less [of n, where ?'a = nat] by (intro high_bit_less) auto
qed

lemma clz_or_one:
  "LENGTH('a) \<in> {32, 64} \<Longrightarrow>
    builtin_clz LENGTH('a) (unat ((n :: 'a::len word) OR 1)) XOR (LENGTH('a) - 1) = high_bit (unat n)"
  using clz_xor [of "unat n OR 1" "LENGTH('a)"] high_bit_unat [of n] high_bit_or_one [of "unat n"]
  by (simp add: unsigned_or_eq)

lemma count_digits64_eq: "count_digits64 n = length (show_nat (unat n))"
proof -
  define k where "k = high_bit (unat n)"
  have k: "k < 64" using high_bit_unat [of n] by (simp add: k_def)
  define t where "t = bsr2log10 ! k"
  have t: "1 \<le> t" "t \<le> 20" "10 ^ (t - 2) \<le> (2 :: nat) ^ k" "(2 :: nat) ^ Suc k \<le> 10 ^ t"
    using list_all2_nthD [OF bsr2log10_entries, of k] k by (auto simp: t_def)
  have p: "unat (zero_or_powers_of_10 ! t) = (if t \<le> 1 then 0 else 10 ^ (t - 1))"
    using list_all2_nthD [OF powers_of_10_entries, of t] t(2) by simp
  have "builtin_clz 64 (unat (n OR 1)) XOR 63 = k"
    using clz_or_one [of n] by (simp add: k_def)
  then have "count_digits64 n = t - (if n < zero_or_powers_of_10 ! t then 1 else 0)"
    by (simp add: count_digits64_def t_def)
  moreover have "length (show_nat (unat n)) = t - (if n < zero_or_powers_of_10 ! t then 1 else 0)"
  proof (cases "unat n = 0")
    case True
    then have "n = 0" "k = 0" by (auto simp: k_def high_bit.simps unsigned_eq_0_iff)
    moreover from this have "t = 1" by (simp add: t_def bsr2log10_def)
    ultimately show ?thesis by (simp add: show_nat.simps zero_or_powers_of_10_def)
  next
    case False
    then have "2 ^ k \<le> unat n" "unat n < 2 ^ Suc k"
      using high_bit_bounds [of "unat n"] by (auto simp: k_def)
    with t have n: "10 ^ (t - 2) \<le> unat n" "unat n < 10 ^ t" by linarith+
    show ?thesis
    proof (cases "t = 1")
      case True
      with n(2) have "unat n < 10" by simp
      with True p show ?thesis
        using word_less_nat_alt [of n "zero_or_powers_of_10 ! t"] by (simp add: show_nat.simps [of "unat n"])
    next
      case False
      define d where "d = t - 2"
      with False t(1) have d: "t = Suc (Suc d)" by simp
      with p have less: "n < zero_or_powers_of_10 ! t \<longleftrightarrow> unat n < 10 ^ Suc d"
        by (simp add: word_less_nat_alt)
      show ?thesis
      proof (cases "unat n < 10 ^ Suc d")
        case True
        moreover have "length (show_nat (unat n)) = Suc d"
          using length_show_nat_eq [of d "unat n"] n d True by simp
        ultimately show ?thesis using d less by simp
      next
        case False
        moreover have "length (show_nat (unat n)) = Suc (Suc d)"
          using length_show_nat_eq [of "Suc d" "unat n"] n d False by simp
        ultimately show ?thesis using d less by simp
      qed
    qed
  qed
  ultimately show ?thesis by simp
qed

lemma unat_fmt_inc:
  assumes "t \<le> 10 ^ 9"
  shows "unat (fmt_inc t) = length (show_nat t) * 2 ^ 32 - t"
proof -
  have l: "length (show_nat t) \<le> 10" using length_show_nat_le [of t 10] assms by simp
  moreover have "0 < length (show_nat t)" by (metis length_show_base_pos show_base_10)
  ultimately have "t \<le> length (show_nat t) * 2 ^ 32" using assms
    by (cases "length (show_nat t)") auto
  then have "fmt_inc t = of_nat (length (show_nat t) * 2 ^ 32 - t)"
    by (simp add: fmt_inc_def push_bit_eq_mult of_nat_diff)
  then show ?thesis using l by (simp add: unat_of_nat take_bit_nat_eq_self)
qed

lemma count_digits32_eq: "count_digits32 n = length (show_nat (unat n))"
proof -
  define k where "k = high_bit (unat n)"
  have k: "k < 32" using high_bit_unat [of n] by (simp add: k_def)
  define t where "t = count_digits_inc_table ! k"
  define l where "l = min 9 (k div 3)"
  have len: "k < length [0..<32]" using k by simp
  have t: "if k < 3 then t = 0
      else t = 10 ^ l \<and> 1 \<le> l \<and> 10 ^ (l - 1) \<le> (2 :: nat) ^ k \<and> (2 :: nat) ^ Suc k \<le> 10 ^ (l + 1)"
    using list_all2_nthD [OF count_digits_inc_entries len] k
    unfolding t_def l_def Let_def by (simp only: nth_upt add_0)
  have l: "l \<le> 9" by (simp add: l_def)
  then have "(10 :: nat) ^ l \<le> 10 ^ 9" by (intro power_increasing) auto
  with t have t9: "t \<le> 10 ^ 9" by (auto split: if_splits)
  have lt: "length (show_nat t) = (if k < 3 then 1 else l + 1)"
    using t length_show_nat_eq [of l t] by (cases "k < 3") (auto simp: show_nat.simps [of 0])
  have n: "unat n < 2 ^ 32" using unsigned_less [of n, where ?'a = nat] by simp
  have "builtin_clz 32 (unat (n OR 1)) XOR 31 = k"
    using clz_or_one [of n] by (simp add: k_def)
  then have "count_digits32 n = unat (drop_bit 32 (ucast n + fmt_inc t))"
    by (simp add: count_digits32_def count_digits_inc_def t_def)
  also have "\<dots> = (unat n + (length (show_nat t) * 2 ^ 32 - t)) div 2 ^ 32"
  proof -
    have "unat (ucast n :: u64) = unat n"
      using n by (simp add: unsigned_ucast_eq take_bit_nat_eq_self)
    moreover have "unat n + (length (show_nat t) * 2 ^ 32 - t) < 2 ^ 64"
      using n l lt by (auto split: if_splits)
    ultimately have "unat (ucast n + fmt_inc t) = unat n + (length (show_nat t) * 2 ^ 32 - t)"
      by (simp add: unat_word_ariths unat_fmt_inc [OF t9])
    then show ?thesis by (simp add: drop_bit_eq_div unat_div_distrib)
  qed
  also have "\<dots> = length (show_nat (unat n))"
  proof (cases "unat n = 0")
    case True
    then have "k = 0" by (simp add: k_def high_bit.simps)
    with True t lt show ?thesis by (simp add: show_nat.simps [of 0])
  next
    case False
    then have b: "2 ^ k \<le> unat n" "unat n < 2 ^ Suc k"
      using high_bit_bounds [of "unat n"] by (auto simp: k_def)
    show ?thesis
    proof (cases "k < 3")
      case True
      then have "(2 :: nat) ^ Suc k \<le> 2 ^ 3" by (intro power_increasing) auto
      with b(2) have "unat n < 8" by simp
      with True t lt show ?thesis by (simp add: show_nat.simps [of "unat n"])
    next
      case False
      with t have t': "t = 10 ^ l" "1 \<le> l" "10 ^ (l - 1) \<le> unat n" "unat n < 10 ^ (l + 1)"
        using b by auto
      then obtain d where d: "l = Suc d" by (cases l) auto
      show ?thesis
      proof (cases "unat n < t")
        case True
        then have "(unat n + ((l + 1) * 2 ^ 32 - t)) div 2 ^ 32 = l"
          using n t9 by (intro div_nat_eqI) (auto simp: algebra_simps)
        with True t' lt False d show ?thesis using length_show_nat_eq [of d "unat n"] by simp
      next
        case ge: False
        then have "(unat n + ((l + 1) * 2 ^ 32 - t)) div 2 ^ 32 = l + 1"
          using n t9 by (intro div_nat_eqI) (auto simp: algebra_simps)
        with ge t' lt False show ?thesis using length_show_nat_eq [of l "unat n"] by simp
      qed
    qed
  qed
  finally show ?thesis .
qed

section \<open>Counting digits in a power of two\<close>

text \<open>\<^verbatim>\<open>count_digits<BITS>\<close>: by the highest bit for 32 bits, by a loop otherwise; the number of bits of
  a digit is positive.\<close>

lemma two_le_power: "0 < bits \<Longrightarrow> 2 \<le> (2 :: nat) ^ bits"
  using power_increasing [of 1 bits "2 :: nat"] by simp

function count_bits_loop :: "nat \<Rightarrow> nat \<Rightarrow> nat \<Rightarrow> nat" where
  "count_bits_loop bits n num_digits =
     (if n div 2 ^ bits \<noteq> 0 \<and> 0 < bits then count_bits_loop bits (n div 2 ^ bits) (num_digits + 1)
      else num_digits + 1)"
  by pat_completeness auto
termination
proof (relation "measure (\<lambda>(bits, n, num_digits). n)")
  fix bits n :: nat
  assume "n div 2 ^ bits \<noteq> 0 \<and> 0 < bits"
  then have "0 < n" "2 \<le> (2 :: nat) ^ bits" by (auto intro: Nat.gr0I two_le_power)
  then show "((bits, n div 2 ^ bits, num_digits + 1), bits, n, num_digits)
      \<in> measure (\<lambda>(bits, n, num_digits). n)" for num_digits
    by simp
qed simp

declare count_bits_loop.simps [simp del]

definition count_digits_base :: "nat \<Rightarrow> 'a::len word \<Rightarrow> nat" where
  "count_digits_base bits n =
     (if LENGTH('a) = 32 then (builtin_clz 32 (unat (n OR 1)) XOR 31) div bits + 1
      else count_bits_loop bits (unat n) 0)"

lemma count_bits_loop_length:
  "0 < bits \<Longrightarrow> count_bits_loop bits n num_digits = num_digits + length (show_base (2 ^ bits) up n)"
proof (induction bits n num_digits rule: count_bits_loop.induct)
  case (1 bits n num_digits)
  have b: "\<not> (2 :: nat) ^ bits < 2" using two_le_power [OF 1(2)] by simp
  show ?case
  proof (cases "n < 2 ^ bits")
    case True
    then show ?thesis by (simp add: count_bits_loop.simps [of bits n] show_base.simps [of "2 ^ bits" up n])
  next
    case False
    then have "n div 2 ^ bits \<noteq> 0" by (simp add: div_eq_0_iff)
    with False b 1 show ?thesis
      by (simp add: count_bits_loop.simps [of bits n] show_base.simps [of "2 ^ bits" up n])
  qed
qed

lemma count_digits_base_eq:
  fixes n :: "'a::len word"
  assumes "0 < bits"
  shows "count_digits_base bits n = length (show_base (2 ^ bits) up (unat n))"
proof (cases "LENGTH('a) = 32")
  case True
  define k where "k = high_bit (unat n)"
  have "count_digits_base bits n = k div bits + 1"
    using clz_or_one [of n] True by (simp add: count_digits_base_def k_def)
  moreover have "length (show_base (2 ^ bits) up (unat n)) = Suc (k div bits)"
  proof (cases "unat n = 0")
    case True
    with assms show ?thesis by (simp add: k_def high_bit.simps length_show_base_less)
  next
    case False
    then have b: "2 ^ k \<le> unat n" "unat n < 2 ^ Suc k"
      using high_bit_bounds [of "unat n"] by (auto simp: k_def)
    have "(2 :: nat) ^ (bits * (k div bits)) \<le> 2 ^ k"
      by (intro power_increasing) (auto simp: mult.commute)
    moreover have "(2 :: nat) ^ Suc k \<le> 2 ^ (bits * Suc (k div bits))"
      using dividend_less_div_times [OF assms, of k] by (intro power_increasing) (auto simp: mult.commute)
    moreover have "2 \<le> (2 :: nat) ^ bits" by (rule two_le_power [OF assms])
    ultimately show ?thesis
      using b length_show_base_eq [of "2 ^ bits" "k div bits" "unat n" up]
      unfolding power_mult by linarith
  qed
  ultimately show ?thesis by simp
next
  case False
  then show ?thesis using assms by (simp add: count_digits_base_def count_bits_loop_length [where up = up])
qed

section \<open>Writing decimal digits\<close>

text \<open>\<^verbatim>\<open>data::digits\<close>: the hundred pairs of digits.\<close>

definition digits_table :: string where
  "digits_table =
     ''000102030405060708091011121314151617181920212223242526272829'' @
     ''303132333435363738394041424344454647484950515253545556575859'' @
     ''606162636465666768697071727374757677787980818283848586878889'' @
     ''90919293949596979899''"

definition digit_pair :: "nat \<Rightarrow> string" where
  "digit_pair v = [digits_table ! (2 * v), digits_table ! (2 * v + 1)]"

text \<open>\<^verbatim>\<open>*--out = c\<close> and \<^verbatim>\<open>out -= 2; copy2(out, pair)\<close>: a write before the pointer, which moves.\<close>

definition put_before :: "string \<Rightarrow> string \<times> nat \<Rightarrow> (string \<times> nat) option" where
  "put_before cs bo =
     (let (buf, out) = bo
      in if length cs \<le> out \<and> out \<le> length buf then Some (blit buf (out - length cs) cs, out - length cs)
         else None)"

fun format_decimal_loop :: "nat \<Rightarrow> string \<times> nat \<Rightarrow> (string \<times> nat) option" where
  "format_decimal_loop value bo =
     (if 100 \<le> value
      then Option.bind (put_before (digit_pair (value mod 100)) bo) (format_decimal_loop (value div 100))
      else if value < 10 then put_before [digit value] bo
      else put_before (digit_pair value) bo)"

declare format_decimal_loop.simps [simp del]

definition format_decimal :: "string \<Rightarrow> nat \<Rightarrow> nat \<Rightarrow> (string \<times> nat \<times> nat) option" where
  "format_decimal buf value n =
     map_option (\<lambda>(buf, out). (buf, out, n)) (format_decimal_loop value (buf, n))"

text \<open>The branch for constant evaluation, one digit at a time.\<close>

fun format_decimal_const_loop :: "nat \<Rightarrow> string \<times> nat \<Rightarrow> (string \<times> nat) option" where
  "format_decimal_const_loop value bo =
     (if 10 \<le> value
      then Option.bind (put_before [digit (value mod 10)] bo) (format_decimal_const_loop (value div 10))
      else put_before [digit value] bo)"

declare format_decimal_const_loop.simps [simp del]

definition format_decimal_const :: "string \<Rightarrow> nat \<Rightarrow> nat \<Rightarrow> (string \<times> nat \<times> nat) option" where
  "format_decimal_const buf value n =
     map_option (\<lambda>(buf, out). (buf, out, n)) (format_decimal_const_loop value (buf, n))"

text \<open>Writing pieces one before the other writes their concatenation.\<close>

lemma put_before_Some:
  "length cs \<le> out \<Longrightarrow> out \<le> length buf \<Longrightarrow>
    put_before cs (buf, out) = Some (take (out - length cs) buf @ cs @ drop out buf, out - length cs)"
  by (simp add: put_before_def blit_def)

lemma put_before_before:
  assumes "length xs + length ys \<le> out" "out \<le> length buf"
  shows "Option.bind (put_before ys (buf, out)) (put_before xs) = put_before (xs @ ys) (buf, out)"
proof -
  have "put_before xs (take (out - length ys) buf @ ys @ drop out buf, out - length ys) =
      Some (take (out - length ys - length xs) (take (out - length ys) buf) @ xs @ ys @ drop out buf,
        out - length ys - length xs)"
    using assms by (subst put_before_Some) auto
  then show ?thesis using assms by (simp add: put_before_Some min_def add.commute)
qed

lemma digit_chars:
  "digit 0 = CHR ''0''" "digit (Suc 0) = CHR ''1''" "digit (Suc (Suc 0)) = CHR ''2''" "digit 2 = CHR ''2''" "digit 3 = CHR ''3''"
  "digit 4 = CHR ''4''" "digit 5 = CHR ''5''" "digit 6 = CHR ''6''" "digit 7 = CHR ''7''"
  "digit 8 = CHR ''8''" "digit 9 = CHR ''9''"
  by code_simp+

lemma digits_table_concat:
  "digits_table = concat (map (\<lambda>v. [digit (v div 10), digit (v mod 10)]) [0..<100])"
  by (simp add: digits_table_def upt_rec digit_chars)

lemma nth_concat_pairs:
  "v < n \<Longrightarrow> concat (map (\<lambda>v. [f v, g v]) [0..<n]) ! (2 * v) = f v"
  "v < n \<Longrightarrow> concat (map (\<lambda>v. [f v, g v]) [0..<n]) ! Suc (2 * v) = g v"
proof (induction n)
  case (Suc n)
  have "length (concat (map (\<lambda>v. [f v, g v]) [0..<n])) = 2 * n" by (induction n) auto
  with Suc show
    "v < Suc n \<Longrightarrow> concat (map (\<lambda>v. [f v, g v]) [0..<Suc n]) ! (2 * v) = f v"
    "v < Suc n \<Longrightarrow> concat (map (\<lambda>v. [f v, g v]) [0..<Suc n]) ! Suc (2 * v) = g v"
    by (auto simp: nth_append less_Suc_eq)
qed simp_all

lemma digits_table_pairs: "\<forall>v < 100. digit_pair v = [digit (v div 10), digit (v mod 10)]"
  by (simp add: digit_pair_def digits_table_concat nth_concat_pairs)

lemma show_nat_10: "10 \<le> n \<Longrightarrow> show_nat n = show_nat (n div 10) @ [digit (n mod 10)]"
  by (simp add: show_nat.simps [of n])

lemma show_nat_digit: "n < 10 \<Longrightarrow> show_nat n = [digit n]"
  by (simp add: show_nat.simps [of n])

lemma show_nat_100: "100 \<le> n \<Longrightarrow> show_nat n = show_nat (n div 100) @ digit_pair (n mod 100)"
proof -
  assume n: "100 \<le> n"
  have "digit_pair (n mod 100) = [digit (n mod 100 div 10), digit (n mod 100 mod 10)]"
    using digits_table_pairs by simp
  moreover have "n mod 100 div 10 = n div 10 mod 10" "n mod 100 mod 10 = n mod 10"
    using mod_mult2_eq [of n 10 10] by simp_all
  moreover have "show_nat n = (show_nat (n div 10 div 10) @ [digit (n div 10 mod 10)]) @ [digit (n mod 10)]"
    using n by (simp add: show_nat_10 [of n] show_nat_10 [of "n div 10"])
  moreover have "n div 10 div 10 = n div 100" by (simp flip: div_mult2_eq)
  ultimately show ?thesis by simp
qed

lemma show_nat_pair: "10 \<le> n \<Longrightarrow> n < 100 \<Longrightarrow> show_nat n = digit_pair n"
  using digits_table_pairs by (simp add: show_nat_10 show_nat_digit)

lemma format_decimal_loop_eq:
  "length (show_nat v) \<le> out \<Longrightarrow> out \<le> length buf \<Longrightarrow>
    format_decimal_loop v (buf, out) = put_before (show_nat v) (buf, out)"
proof (induction v arbitrary: buf out rule: less_induct)
  case (less v)
  consider "100 \<le> v" | "v < 10" | "10 \<le> v" "v < 100" by linarith
  then show ?case
  proof cases
    case 1
    let ?d = "digit_pair (v mod 100)"
    have l: "length ?d = 2" by (simp add: digit_pair_def)
    note s = show_nat_100 [OF 1]
    have "put_before ?d (buf, out) = Some (take (out - 2) buf @ ?d @ drop out buf, out - 2)"
      using less.prems s l by (simp add: put_before_Some)
    moreover have "format_decimal_loop (v div 100) (take (out - 2) buf @ ?d @ drop out buf, out - 2)
        = put_before (show_nat (v div 100)) (take (out - 2) buf @ ?d @ drop out buf, out - 2)"
      using less.prems s l 1 by (intro less.IH) auto
    ultimately show ?thesis
      using 1 put_before_before [of "show_nat (v div 100)" ?d out buf] less.prems s l
      by (simp add: format_decimal_loop.simps [of v])
  qed (use show_nat_digit show_nat_pair in \<open>simp_all add: format_decimal_loop.simps [of v]\<close>)
qed

lemma format_decimal_const_loop_eq:
  "length (show_nat v) \<le> out \<Longrightarrow> out \<le> length buf \<Longrightarrow>
    format_decimal_const_loop v (buf, out) = put_before (show_nat v) (buf, out)"
proof (induction v arbitrary: buf out rule: less_induct)
  case (less v)
  show ?case
  proof (cases "10 \<le> v")
    case True
    let ?d = "[digit (v mod 10)]"
    note s = show_nat_10 [OF True]
    have "put_before ?d (buf, out) = Some (take (out - 1) buf @ ?d @ drop out buf, out - 1)"
      using less.prems s by (simp add: put_before_Some)
    moreover have "format_decimal_const_loop (v div 10) (take (out - 1) buf @ ?d @ drop out buf, out - 1)
        = put_before (show_nat (v div 10)) (take (out - 1) buf @ ?d @ drop out buf, out - 1)"
      using less.prems s True by (intro less.IH) auto
    ultimately show ?thesis
      using True put_before_before [of "show_nat (v div 10)" ?d out buf] less.prems s
      by (simp add: format_decimal_const_loop.simps [of v])
  qed (use show_nat_digit in \<open>simp add: format_decimal_const_loop.simps [of v]\<close>)
qed

text \<open>The digits end where the buffer was said to end, and nothing else of it changes.\<close>

lemma format_decimal_show:
  assumes "length (show_nat v) \<le> n" "n \<le> length buf"
  shows "format_decimal buf v n =
      Some (take (n - length (show_nat v)) buf @ show_nat v @ drop n buf,
        n - length (show_nat v), n)"
  using assms by (simp add: format_decimal_def format_decimal_loop_eq put_before_Some)

lemma format_decimal_const_same:
  assumes "length (show_nat v) \<le> n" "n \<le> length buf"
  shows "format_decimal_const buf v n = format_decimal buf v n"
  using assms by (simp add: format_decimal_def format_decimal_const_def format_decimal_loop_eq
      format_decimal_const_loop_eq)

text \<open>With no room for the digits the routine leaves the buffer.\<close>

lemma format_decimal_overflows:
  assumes "n < length (show_nat v)" "n \<le> length buf"
  shows "format_decimal buf v n = None"
proof -
  have "format_decimal_loop v (buf, n) = None"
    using assms
  proof (induction v arbitrary: buf n rule: less_induct)
    case (less v)
    show ?case
    proof (cases "100 \<le> v \<and> 2 \<le> n")
      case True
      let ?d = "digit_pair (v mod 100)"
      have l: "length ?d = 2" by (simp add: digit_pair_def)
      have "n - 2 < length (show_nat (v div 100))"
        using True less.prems show_nat_100 [of v] l by simp linarith
      then have "format_decimal_loop (v div 100) (take (n - 2) buf @ ?d @ drop n buf, n - 2) = None"
        using True l less.prems(2) by (intro less.IH) auto
      with True l less.prems show ?thesis
        by (simp add: format_decimal_loop.simps [of v] put_before_Some)
    next
      case False
      have l: "length (digit_pair v) = 2" for v by (simp add: digit_pair_def)
      have "n < 1 \<and> v < 10 \<or> n < 2 \<and> 10 \<le> v"
      proof (cases "v < 10")
        case True
        with less.prems show ?thesis by (simp add: show_nat_digit)
      next
        case big: False
        show ?thesis
        proof (cases "v < 100")
          case True
          with big less.prems l show ?thesis by (simp add: show_nat_pair)
        next
          case more: False
          with big False show ?thesis by simp
        qed
      qed
      with l show ?thesis
        by (auto simp: format_decimal_loop.simps [of v] put_before_def)
    qed
  qed
  then show ?thesis by (simp add: format_decimal_def)
qed

section \<open>Writing digits of a power of two\<close>

text \<open>\<^verbatim>\<open>format_uint<BASE_BITS>\<close>.\<close>

definition uint_digit :: "nat \<Rightarrow> bool \<Rightarrow> nat \<Rightarrow> char" where
  "uint_digit base_bits upper d = (if base_bits < 4 then char_of (48 + d) else hex_char upper d)"

function format_uint_loop :: "nat \<Rightarrow> bool \<Rightarrow> nat \<Rightarrow> string \<times> nat \<Rightarrow> (string \<times> nat) option" where
  "format_uint_loop base_bits upper v bo =
     Option.bind (put_before [uint_digit base_bits upper (v mod 2 ^ base_bits)] bo) (\<lambda>bo.
       if v div 2 ^ base_bits \<noteq> 0 \<and> 0 < base_bits
       then format_uint_loop base_bits upper (v div 2 ^ base_bits) bo else Some bo)"
  by pat_completeness auto
termination
proof (relation "measure (\<lambda>(base_bits, upper, v, bo). v)")
  fix base_bits v :: nat
  assume "v div 2 ^ base_bits \<noteq> 0 \<and> 0 < base_bits"
  then have "0 < v" "2 \<le> (2 :: nat) ^ base_bits" by (auto intro: Nat.gr0I two_le_power)
  then show "((base_bits, upper, v div 2 ^ base_bits, bo'), base_bits, upper, v, bo)
      \<in> measure (\<lambda>(base_bits, upper, v, bo). v)" for upper and bo bo' :: "string \<times> nat"
    by simp
qed simp

declare format_uint_loop.simps [simp del]

text \<open>The buffer afterwards; the result of the C++ function is the end, \<open>num_digits\<close>.\<close>

definition format_uint :: "nat \<Rightarrow> bool \<Rightarrow> string \<Rightarrow> nat \<Rightarrow> nat \<Rightarrow> string option" where
  "format_uint base_bits upper buf v num_digits =
     map_option fst (format_uint_loop base_bits upper v (buf, num_digits))"

lemma uint_digit_base:
  "base_bits \<in> {1, 3, 4} \<Longrightarrow> d < 2 ^ base_bits \<Longrightarrow> uint_digit base_bits up d = base_digit up d"
proof -
  have "\<forall>d < 10. hex_char up d = digit d"
    by (simp add: All_less_Suc eval_nat_numeral(2,3) hex_char_def digit_def char_of_def; code_simp)
  then show "base_bits \<in> {1, 3, 4} \<Longrightarrow> d < 2 ^ base_bits \<Longrightarrow> ?thesis"
    by (auto simp: uint_digit_def base_digit_def digit_def)
qed

lemma format_uint_loop_eq:
  assumes "base_bits \<in> {1, 3, 4}"
  shows "length (show_base (2 ^ base_bits) up v) \<le> out \<Longrightarrow> out \<le> length buf \<Longrightarrow>
    format_uint_loop base_bits up v (buf, out) = put_before (show_base (2 ^ base_bits) up v) (buf, out)"
proof (induction v arbitrary: buf out rule: less_induct)
  case (less v)
  let ?b = "2 ^ base_bits :: nat"
  let ?d = "[uint_digit base_bits up (v mod ?b)]"
  have b: "2 \<le> ?b" "0 < base_bits" using assms by auto
  have d: "?d = [base_digit up (v mod ?b)]" using uint_digit_base [OF assms] by simp
  have o: "1 \<le> out" using less.prems(1) length_show_base_pos [of ?b up v] by linarith
  with less.prems have p: "put_before ?d (buf, out) = Some (take (out - 1) buf @ ?d @ drop out buf, out - 1)"
    by (simp add: put_before_Some)
  show ?case
  proof (cases "v < ?b")
    case True
    with b have "show_base ?b up v = ?d"
      using True by (simp add: show_base.simps [of ?b up v] uint_digit_base [OF assms])
    with True p show ?thesis by (simp add: format_uint_loop.simps [of base_bits up v])
  next
    case False
    with b have s: "show_base ?b up v = show_base ?b up (v div ?b) @ ?d"
      by (simp add: show_base.simps [of ?b up v] d)
    have "v div ?b \<noteq> 0" "v div ?b < v" using False b by (auto simp: div_eq_0_iff)
    moreover have "format_uint_loop base_bits up (v div ?b) (take (out - 1) buf @ ?d @ drop out buf, out - 1)
        = put_before (show_base ?b up (v div ?b)) (take (out - 1) buf @ ?d @ drop out buf, out - 1)"
      using less.prems s \<open>v div ?b < v\<close> by (intro less.IH) auto
    ultimately show ?thesis
      using p b put_before_before [of "show_base ?b up (v div ?b)" ?d out buf] less.prems s
      by (simp add: format_uint_loop.simps [of base_bits up v])
  qed
qed

lemma format_uint_show:
  assumes "base_bits \<in> {1, 3, 4}" "length (show_base (2 ^ base_bits) up v) \<le> n" "n \<le> length buf"
  shows "format_uint base_bits up buf v n =
      Some (take (n - length (show_base (2 ^ base_bits) up v)) buf @ show_base (2 ^ base_bits) up v @ drop n buf)"
  using assms by (simp add: format_uint_def format_uint_loop_eq put_before_Some)

section \<open>The fast formatter of integers\<close>

text \<open>\<^verbatim>\<open>format_int\<close>: its buffer has room for every 64-bit number, a sign and the final NUL.\<close>

definition format_int_buffer :: nat where
  "format_int_buffer = 19 + 3"

definition format_int_unsigned :: "'a::len word \<Rightarrow> (string \<times> nat) option" where
  "format_int_unsigned v =
     map_option (\<lambda>(buf, begin, stop). (buf, begin))
       (format_decimal (replicate format_int_buffer NUL) (unat v) (format_int_buffer - 1))"

definition format_int_signed :: "'a::len word \<Rightarrow> (string \<times> nat) option" where
  "format_int_signed v =
     (let negative = v <s 0;
          abs_value = (if negative then 0 - v else v)
      in Option.bind (format_int_unsigned abs_value) (\<lambda>(buf, begin).
           if negative then put_before ''-'' (buf, begin) else Some (buf, begin)))"

definition format_int_size :: "string \<times> nat \<Rightarrow> nat" where
  "format_int_size bs = format_int_buffer - 1 - snd bs"

definition format_int_str :: "string \<times> nat \<Rightarrow> string" where
  "format_int_str bs = take (format_int_size bs) (drop (snd bs) (fst bs))"

definition format_int_c_str :: "string \<times> nat \<Rightarrow> string option" where
  "format_int_c_str bs = c_string (drop (snd bs) ((fst bs)[format_int_buffer - 1 := NUL]))"

lemma length_show_unat:
  "LENGTH('a) \<le> 64 \<Longrightarrow> length (show_nat (unat (v :: 'a::len word))) \<le> 20"
proof -
  assume "LENGTH('a) \<le> 64"
  then have "(2 :: nat) ^ LENGTH('a) \<le> 2 ^ 64" by (intro power_increasing) auto
  then have "unat v < 2 ^ 64" using unsigned_less [of v, where ?'a = nat] by linarith
  then have "unat v < 10 ^ 20" by simp
  then show ?thesis by (intro length_show_nat_le) auto
qed

lemma format_int_unsigned_eq:
  fixes v :: "'a::len word"
  assumes "LENGTH('a) \<le> 64"
  defines "ds \<equiv> show_nat (unat v)"
  shows "format_int_unsigned v = Some (replicate (21 - length ds) NUL @ ds @ [NUL], 21 - length ds)"
  using assms length_show_unat [of v]
  by (simp add: format_int_unsigned_def format_int_buffer_def format_decimal_show)

lemma sless_zero_iff: "v <s 0 \<longleftrightarrow> sint (v :: 'a::len word) < 0"
  by (simp add: word_sless_alt)

lemma sint_bounds: "- (2 ^ (LENGTH('a) - 1)) \<le> sint v \<and> sint v < 2 ^ (LENGTH('a) - 1)"
  for v :: "'a::len word"
  using sint_greater_eq [of v] sint_less [of v] by simp

lemma half_less_power: "x < 2 ^ (LENGTH('a) - 1) \<Longrightarrow> x < (2 :: int) ^ LENGTH('a::len)"
  by (rule less_trans) (auto intro: power_strict_increasing)

lemma unat_nonneg_sint: "0 \<le> sint v \<Longrightarrow> unat v = nat (sint v)"
  for v :: "'a::len word"
proof -
  assume "0 \<le> sint v"
  moreover have "sint v < 2 ^ LENGTH('a)" using sint_bounds [of v] by (intro half_less_power) simp
  ultimately have "uint v = sint v" by (simp add: uint_sint take_bit_eq_mod)
  then show ?thesis by (simp flip: nat_uint_eq)
qed

lemma unat_minus_sint:
  fixes v :: "'a::len word"
  assumes "sint v < 0"
  shows "unat (0 - v) = nat (- sint v)"
proof -
  have "- sint v \<le> 2 ^ (LENGTH('a) - 1)" using sint_bounds [of v] by simp
  also have "\<dots> < 2 ^ LENGTH('a)" by (intro power_strict_increasing) auto
  finally have "- sint v < 2 ^ LENGTH('a)" .
  moreover have "uint (- v) = (- uint v) mod 2 ^ LENGTH('a)" by (rule uint_word_ariths(4))
  moreover have "(- uint v) mod 2 ^ LENGTH('a) = (- sint v) mod 2 ^ LENGTH('a)"
    unfolding uint_sint [of v] take_bit_eq_mod by (rule mod_minus_eq)
  ultimately have "uint (- v) = - sint v" using assms by simp
  then show ?thesis by (simp flip: nat_uint_eq)
qed

text \<open>The numbers it prints, with the sign written before the digits.\<close>

theorem format_int_prints:
  fixes v :: "'a::len word"
  assumes "LENGTH('a) \<le> 64"
  shows "\<exists>bs. format_int_signed v = Some bs \<and>
      format_int_str bs = append_int (sint v) \<and>
      format_int_size bs = length (append_int (sint v)) \<and>
      format_int_c_str bs = Some (append_int (sint v))"
proof -
  define u where "u = (if v <s 0 then 0 - v else v)"
  define ds where "ds = show_nat (unat u)"
  have l: "length ds \<le> 20" using length_show_unat [OF assms, of u] by (simp add: ds_def)
  have digits: "NUL \<notin> set ds"
    using show_nat_digits [of NUL "unat u"] by (auto simp: ds_def is_digit_def)
  have u: "format_int_unsigned u = Some (replicate (21 - length ds) NUL @ ds @ [NUL], 21 - length ds)"
    using format_int_unsigned_eq [OF assms, of u] by (simp add: ds_def)
  show ?thesis
  proof (cases "v <s 0")
    case True
    then have t: "append_int (sint v) = ''-'' @ ds"
      using unat_minus_sint [of v] by (simp add: sless_zero_iff append_int_def ds_def u_def)
    have "format_int_signed v =
        Some (replicate (20 - length ds) NUL @ ''-'' @ ds @ [NUL], 20 - length ds)"
      using u True l by (simp add: format_int_signed_def Let_def flip: u_def)
        (simp add: u_def put_before_Some min_def)
    then show ?thesis
      using l digits c_string_append_NUL [of "''-'' @ ds" "[]"] unfolding t
      by (simp add: format_int_str_def format_int_size_def format_int_c_str_def format_int_buffer_def
          list_update_append c_string_append_NUL)
  next
    case False
    then have t: "append_int (sint v) = ds"
      by (simp add: sless_zero_iff append_int_def ds_def u_def unat_nonneg_sint)
    have "format_int_signed v = Some (replicate (21 - length ds) NUL @ ds @ [NUL], 21 - length ds)"
      using u False by (simp add: format_int_signed_def u_def)
    then show ?thesis
      using l digits unfolding t
      by (simp add: format_int_str_def format_int_size_def format_int_c_str_def format_int_buffer_def
          list_update_append c_string_append_NUL)
  qed
qed

end
