(* ===== verification/Fmt_Specs.thy ===== *)
theory Fmt_Specs
  imports Fmt_Digits "HOL-Library.Sublist"
begin

text \<open>
  The format specifiers of the formatting library (\<^verbatim>\<open>fmt/bundled/core.h\<close>): the specifiers
  themselves, the numbers and argument names inside a replacement field, and the parser that tells
  a handler what it finds.  A pointer into the format string is the text from it to the end.  Every
  error handler of the library throws \<^verbatim>\<open>format_error\<close>, so an error ends the parse with its text;
  reading past the end is \<open>Undefined\<close>.
\<close>

section \<open>Results\<close>

datatype fmt_error = Format_error string | Undefined

type_synonym 'a fmt_result = "fmt_error + 'a"

abbreviation on_error :: "string \<Rightarrow> 'a fmt_result" where
  "on_error message \<equiv> Inl (Format_error message)"

definition quoted :: "string \<Rightarrow> string" where
  "quoted s = CHR 0x27 # s @ [CHR 0x27]"

definition and_then :: "'e + 'a \<Rightarrow> ('a \<Rightarrow> 'e + 'b) \<Rightarrow> 'e + 'b" where
  "and_then r f = (case r of Inl e \<Rightarrow> Inl e | Inr x \<Rightarrow> f x)"

lemma and_then_simps [simp]:
  "and_then (Inl e) f = Inl e"
  "and_then (Inr x) f = f x"
  by (simp_all add: and_then_def)

lemma and_then_Inr [simp]: "and_then r Inr = r"
  by (cases r) simp_all

lemma and_then_assoc [simp]: "and_then (and_then r f) g = and_then r (\<lambda>x. and_then (f x) g)"
  by (cases r) simp_all

lemma and_then_cong [fundef_cong]:
  "r = r' \<Longrightarrow> (\<And>x. r' = Inr x \<Longrightarrow> f x = g x) \<Longrightarrow> and_then r f = and_then r' g"
  by (cases r') simp_all

lemma and_then_eq_Inr_iff: "and_then r f = Inr y \<longleftrightarrow> (\<exists>x. r = Inr x \<and> f x = Inr y)"
  by (cases r) simp_all

lemma and_then_eq_Inl_iff: "and_then r f = Inl e \<longleftrightarrow> r = Inl e \<or> (\<exists>x. r = Inr x \<and> f x = Inl e)"
  by (cases r) simp_all

section \<open>Specifiers\<close>

datatype align_t = Align_none | Align_left | Align_right | Align_center | Align_numeric

datatype sign_t = Sign_none | Sign_minus | Sign_plus | Sign_space

text \<open>The fill: four characters of which the first \<open>fill_size\<close> count.\<close>

record fill_t =
  fill_data :: string
  fill_size :: nat

definition fill_new :: fill_t where
  "fill_new = \<lparr>fill_data = [CHR '' '', NUL, NUL, NUL], fill_size = 1\<rparr>"

definition fill_assign :: "string \<Rightarrow> fill_t \<Rightarrow> fill_t fmt_result" where
  "fill_assign s f =
     (if 4 < length s then on_error ''invalid fill''
      else Inr \<lparr>fill_data = blit (fill_data f) 0 s, fill_size = length s\<rparr>)"

definition fill_set :: "nat \<Rightarrow> char \<Rightarrow> fill_t \<Rightarrow> fill_t" where
  "fill_set i c f = f\<lparr>fill_data := (fill_data f)[i := c]\<rparr>"

definition fill_text :: "fill_t \<Rightarrow> string" where
  "fill_text f = take (fill_size f) (fill_data f)"

record format_specs =
  sp_width :: int
  sp_precision :: int
  sp_type :: char
  sp_align :: align_t
  sp_sign :: sign_t
  sp_alt :: bool
  sp_localized :: bool
  sp_fill :: fill_t

definition specs_new :: format_specs where
  "specs_new = \<lparr>sp_width = 0, sp_precision = -1, sp_type = NUL, sp_align = Align_none, sp_sign = Sign_none,
     sp_alt = False, sp_localized = False, sp_fill = fill_new\<rparr>"

text \<open>\<^verbatim>\<open>specs_setter\<close>.\<close>

definition set_align :: "align_t \<Rightarrow> format_specs \<Rightarrow> format_specs" where
  "set_align a sp = sp\<lparr>sp_align := a\<rparr>"

definition set_fill :: "string \<Rightarrow> format_specs \<Rightarrow> format_specs fmt_result" where
  "set_fill s sp = and_then (fill_assign s (sp_fill sp)) (\<lambda>f. Inr (sp\<lparr>sp_fill := f\<rparr>))"

definition set_sign :: "sign_t \<Rightarrow> format_specs \<Rightarrow> format_specs" where
  "set_sign s sp = sp\<lparr>sp_sign := s\<rparr>"

definition set_hash :: "format_specs \<Rightarrow> format_specs" where
  "set_hash sp = sp\<lparr>sp_alt := True\<rparr>"

definition set_localized :: "format_specs \<Rightarrow> format_specs" where
  "set_localized sp = sp\<lparr>sp_localized := True\<rparr>"

definition set_zero :: "format_specs \<Rightarrow> format_specs" where
  "set_zero sp =
     (let sp = (if sp_align sp = Align_none then sp\<lparr>sp_align := Align_numeric\<rparr> else sp)
      in sp\<lparr>sp_fill := fill_set 0 (CHR ''0'') (sp_fill sp)\<rparr>)"

definition set_width :: "int \<Rightarrow> format_specs \<Rightarrow> format_specs" where
  "set_width w sp = sp\<lparr>sp_width := w\<rparr>"

definition set_precision :: "int \<Rightarrow> format_specs \<Rightarrow> format_specs" where
  "set_precision p sp = sp\<lparr>sp_precision := p\<rparr>"

definition set_type :: "char \<Rightarrow> format_specs \<Rightarrow> format_specs" where
  "set_type c sp = sp\<lparr>sp_type := c\<rparr>"

lemmas setter_defs = set_align_def set_fill_def set_sign_def set_hash_def set_localized_def
  set_zero_def set_width_def set_precision_def set_type_def

section \<open>Characters\<close>

definition is_ascii_letter :: "char \<Rightarrow> bool" where
  "is_ascii_letter c \<longleftrightarrow> 97 \<le> byte c \<and> byte c \<le> 122 \<or> 65 \<le> byte c \<and> byte c \<le> 90"

definition is_name_start :: "char \<Rightarrow> bool" where
  "is_name_start c \<longleftrightarrow> 97 \<le> byte c \<and> byte c \<le> 122 \<or> 65 \<le> byte c \<and> byte c \<le> 90 \<or> c = CHR ''_''"

definition code_point_lengths :: "nat list" where
  "code_point_lengths =
     [1, 1, 1, 1, 1, 1, 1, 1, 1, 1, 1, 1, 1, 1, 1, 1,
      0, 0, 0, 0, 0, 0, 0, 0, 2, 2, 2, 2, 3, 3, 4, 0]"

definition code_point_length :: "char \<Rightarrow> nat" where
  "code_point_length c =
     (let len = code_point_lengths ! (byte c div 8) in len + (if len = 0 then 1 else 0))"

lemma code_point_length_bounds: "1 \<le> code_point_length c \<and> code_point_length c \<le> 4"
proof -
  have "\<forall>i < 32. code_point_lengths ! i \<le> 4" by code_simp
  moreover have "byte c div 8 < 32" using of_char_less [of c] by linarith
  ultimately have "code_point_lengths ! (byte c div 8) \<le> 4" by blast
  then show ?thesis by (simp add: code_point_length_def Let_def)
qed

section \<open>Numbers\<close>

definition int_max :: int where "int_max = 2147483647"

text \<open>
  The loop of \<^verbatim>\<open>parse_nonnegative_int\<close> over the leading digits: the value and the value before the
  last digit, both \<^verbatim>\<open>unsigned\<close>, the number of digits and the rest.
\<close>

fun nonnegative_loop :: "u32 \<Rightarrow> u32 \<Rightarrow> nat \<Rightarrow> string \<Rightarrow> u32 \<times> u32 \<times> nat \<times> string" where
  "nonnegative_loop prev v n [] = (prev, v, n, [])"
| "nonnegative_loop prev v n (c # s) =
     (if is_digit c then nonnegative_loop v (v * 10 + of_nat (byte c - 48)) (n + 1) s
      else (prev, v, n, c # s))"

definition parse_nonnegative_int :: "string \<Rightarrow> int \<Rightarrow> (int \<times> string) fmt_result" where
  "parse_nonnegative_int s error_value =
     (if s = [] \<or> \<not> is_digit (hd s) then Inl Undefined
      else
        let (prev, v, num_digits, rest) = nonnegative_loop 0 0 0 s
        in Inr
          (if num_digits \<le> 9 then sint v
           else if num_digits = 10 \<and>
             uint (ucast prev * 10 + ucast (of_nat (byte (s ! (num_digits - 1)) - 48) :: u32) :: u64) \<le> int_max
           then sint v
           else error_value, rest))"

text \<open>The number that the digits mean; they are read without error when they are few enough.\<close>

definition dec_value :: "string \<Rightarrow> nat" where
  "dec_value ds = foldl (\<lambda>a c. a * 10 + (byte c - 48)) 0 ds"

lemma dec_value_snoc: "dec_value (ds @ [c]) = dec_value ds * 10 + (byte c - 48)"
  by (simp add: dec_value_def)

lemma dec_value_less: "\<forall>c \<in> set ds. is_digit c \<Longrightarrow> dec_value ds < 10 ^ length ds"
proof (induction ds rule: rev_induct)
  case (snoc c ds)
  then have "byte c - 48 < 10" "dec_value ds + 1 \<le> 10 ^ length ds" by (auto simp: is_digit_def)
  then show ?case by (simp add: dec_value_snoc)
qed (simp add: dec_value_def)

lemma dec_value_show_nat [simp]: "dec_value (show_nat n) = n"
proof (induction n rule: show_nat.induct)
  case (1 n)
  show ?case
  proof (cases "n < 10")
    case True
    then show ?thesis by (simp add: show_nat_digit dec_value_def)
  next
    case False
    with 1 show ?thesis by (simp add: show_nat_10 dec_value_snoc)
  qed
qed

lemma nonnegative_loop_eq:
  fixes v :: u32
  defines "step \<equiv> \<lambda>(v :: u32) c. v * 10 + of_nat (byte c - 48)"
  shows "nonnegative_loop prev v n s =
      (let ds = takeWhile is_digit s
       in (if ds = [] then prev else foldl step v (butlast ds), foldl step v ds, n + length ds,
           dropWhile is_digit s))"
  by (induction s arbitrary: prev v n) (auto simp: step_def Let_def)

lemma foldl_of_nat:
  "foldl (\<lambda>(v :: 'a::len word) c. v * 10 + of_nat (byte c - 48)) (of_nat a) ds =
    of_nat (foldl (\<lambda>a c. a * 10 + (byte c - 48)) a ds)"
proof (induction ds arbitrary: a)
  case (Cons c ds)
  have "of_nat a * 10 + of_nat (byte c - 48) = (of_nat (a * 10 + (byte c - 48)) :: 'a word)" by simp
  then show ?case using Cons [of "a * 10 + (byte c - 48)"] by (simp del: of_nat_add of_nat_mult)
qed simp

lemma sint_of_nat_32: "int n \<le> int_max \<Longrightarrow> sint (of_nat n :: u32) = int n"
  by (simp add: int_max_def signed_of_nat signed_take_bit_int_eq_self)

lemma parse_nonnegative_int_eq:
  assumes "s \<noteq> []" "is_digit (hd s)"
  defines "ds \<equiv> takeWhile is_digit s"
  shows "parse_nonnegative_int s error_value =
      Inr (if length ds \<le> 9 \<or> length ds = 10 \<and> int (dec_value ds) \<le> int_max then int (dec_value ds)
           else error_value, dropWhile is_digit s)"
proof -
  have ne: "ds \<noteq> []" using assms by (cases s) auto
  have dig: "\<forall>c \<in> set ds. is_digit c" unfolding ds_def using set_takeWhileD by fastforce
  then have less: "dec_value ds < 10 ^ length ds" by (rule dec_value_less)
  have loop: "nonnegative_loop 0 0 0 s =
      (of_nat (dec_value (butlast ds)), of_nat (dec_value ds), length ds, dropWhile is_digit s)"
    using ne foldl_of_nat [where a = 0 and ?'a = 32]
    by (simp add: nonnegative_loop_eq ds_def dec_value_def Let_def)
  have small: "sint (of_nat (dec_value ds) :: u32) = int (dec_value ds)" if "length ds \<le> 9"
  proof -
    have "dec_value ds < 10 ^ 9"
      using less that power_increasing [of "length ds" 9 "10 :: nat"] by linarith
    then show ?thesis by (intro sint_of_nat_32) (simp add: int_max_def)
  qed
  have ten: "uint (ucast (of_nat (dec_value (butlast ds)) :: u32) * 10 +
      ucast (of_nat (byte (s ! (length ds - 1)) - 48) :: u32) :: u64) = int (dec_value ds)"
    if l: "length ds = 10"
  proof -
    have last: "s ! (length ds - 1) = last ds"
      using ne by (metis ds_def diff_less last_conv_nth length_greater_0_conv takeWhile_nth zero_less_one)
    have d: "byte (last ds) - 48 < 10" using bspec [OF dig last_in_set [OF ne]] by (auto simp: is_digit_def)
    have "dec_value (butlast ds) < 10 ^ length (butlast ds)"
      using dig by (intro dec_value_less) (auto dest: in_set_butlastD)
    then have b: "dec_value (butlast ds) < 10 ^ 9" using l by simp
    have v: "dec_value ds = dec_value (butlast ds) * 10 + (byte (last ds) - 48)"
      using ne by (metis append_butlast_last_id dec_value_snoc)
    have c: "ucast (of_nat m :: u32) = (of_nat m :: u64)" if "m < 2 ^ 32" for m
      using that by (simp add: unsigned_of_nat take_bit_nat_eq_self)
    have "(ucast (of_nat (dec_value (butlast ds)) :: u32) * 10 +
        ucast (of_nat (byte (last ds) - 48) :: u32) :: u64) = of_nat (dec_value ds)"
      using b d by (simp add: c v)
    moreover have "dec_value ds < 2 ^ 64" using b d v by simp
    ultimately show ?thesis using last by (simp add: unsigned_of_nat take_bit_nat_eq_self)
  qed
  show ?thesis
    using assms(1,2) loop small ten sint_of_nat_32 [of "dec_value ds"]
    by (auto simp: parse_nonnegative_int_def)
qed

section \<open>Handlers\<close>

text \<open>
  What the parser calls: the operations of the template parameter \<^verbatim>\<open>Handler\<close>, each a change of
  its state that may throw.  A dynamic width or precision names the argument that holds it.
\<close>

datatype arg_id = Id_auto | Id_index int | Id_name string

record 's spec_handler =
  on_align :: "align_t \<Rightarrow> 's \<Rightarrow> 's fmt_result"
  on_fill :: "string \<Rightarrow> 's \<Rightarrow> 's fmt_result"
  on_sign :: "sign_t \<Rightarrow> 's \<Rightarrow> 's fmt_result"
  on_hash :: "'s \<Rightarrow> 's fmt_result"
  on_zero :: "'s \<Rightarrow> 's fmt_result"
  on_localized :: "'s \<Rightarrow> 's fmt_result"
  on_width :: "int \<Rightarrow> 's \<Rightarrow> 's fmt_result"
  on_dynamic_width :: "arg_id \<Rightarrow> 's \<Rightarrow> 's fmt_result"
  on_precision :: "int \<Rightarrow> 's \<Rightarrow> 's fmt_result"
  on_dynamic_precision :: "arg_id \<Rightarrow> 's \<Rightarrow> 's fmt_result"
  end_precision :: "'s \<Rightarrow> 's fmt_result"
  on_type :: "char \<Rightarrow> 's \<Rightarrow> 's fmt_result"

section \<open>The parser of specifiers\<close>

definition align_char :: "char \<Rightarrow> align_t" where
  "align_char c =
     (if c = CHR ''<'' then Align_left else if c = CHR ''>'' then Align_right
      else if c = CHR ''^'' then Align_center else Align_none)"

text \<open>The loop of \<^verbatim>\<open>parse_align\<close>; \<open>p\<close> is the distance from \<^verbatim>\<open>begin\<close>.\<close>

function parse_align_loop :: "'s spec_handler \<Rightarrow> string \<Rightarrow> nat \<Rightarrow> 's \<Rightarrow> (string \<times> 's) fmt_result" where
  "parse_align_loop h s p st =
     (let a = align_char (s ! p)
      in if a \<noteq> Align_none then
           if p \<noteq> 0 then
             if hd s = CHR ''{'' then on_error (''invalid fill character '' @ quoted ''{'')
             else and_then (on_fill h (take p s) st) (\<lambda>st.
                  and_then (on_align h a st) (\<lambda>st. Inr (drop (p + 1) s, st)))
           else and_then (on_align h a st) (\<lambda>st. Inr (drop 1 s, st))
         else if p = 0 then Inr (s, st)
         else parse_align_loop h s 0 st)"
  by pat_completeness auto
termination
  by (relation "measure (\<lambda>(h, s, p, st). p)") auto

declare parse_align_loop.simps [simp del]

definition parse_align :: "'s spec_handler \<Rightarrow> string \<Rightarrow> 's \<Rightarrow> (string \<times> 's) fmt_result" where
  "parse_align h s st =
     (if s = [] then Inl Undefined
      else
        let p = code_point_length (hd s)
        in parse_align_loop h s (if length s \<le> p then 0 else p) st)"

text \<open>
  \<^verbatim>\<open>do_parse_arg_id\<close> and \<^verbatim>\<open>parse_arg_id\<close>: the id that is handed to the handler, and the rest.
\<close>

definition is_name_char :: "char \<Rightarrow> bool" where
  "is_name_char c \<longleftrightarrow> is_name_start c \<or> is_digit c"

definition do_parse_arg_id :: "string \<Rightarrow> (arg_id \<times> string) fmt_result" where
  "do_parse_arg_id s =
     (if s = [] then Inl Undefined
      else if is_digit (hd s) then
        and_then (if hd s \<noteq> CHR ''0'' then parse_nonnegative_int s int_max else Inr (0, tl s)) (\<lambda>(index, r).
          if r = [] \<or> hd r \<noteq> CHR ''}'' \<and> hd r \<noteq> CHR '':'' then on_error ''invalid format string''
          else Inr (Id_index index, r))
      else if \<not> is_name_start (hd s) then on_error ''invalid format string''
      else Inr (Id_name (hd s # takeWhile is_name_char (tl s)), dropWhile is_name_char (tl s)))"

definition parse_arg_id :: "string \<Rightarrow> (arg_id \<times> string) fmt_result" where
  "parse_arg_id s =
     (if s = [] then Inl Undefined
      else if hd s \<noteq> CHR ''}'' \<and> hd s \<noteq> CHR '':'' then do_parse_arg_id s
      else Inr (Id_auto, s))"

definition parse_width :: "'s spec_handler \<Rightarrow> string \<Rightarrow> 's \<Rightarrow> (string \<times> 's) fmt_result" where
  "parse_width h s st =
     (if s = [] then Inl Undefined
      else if is_digit (hd s) then
        and_then (parse_nonnegative_int s (-1)) (\<lambda>(w, r).
          if w \<noteq> -1 then and_then (on_width h w st) (\<lambda>st. Inr (r, st))
          else on_error ''number is too big'')
      else if hd s = CHR ''{'' then
        and_then
          (if tl s = [] then Inr ([], st)
           else and_then (parse_arg_id (tl s)) (\<lambda>(i, r).
                and_then (on_dynamic_width h i st) (\<lambda>st. Inr (r, st)))) (\<lambda>(r, st).
          if r = [] \<or> hd r \<noteq> CHR ''}'' then on_error ''invalid format string''
          else Inr (tl r, st))
      else Inr (s, st))"

text \<open>\<^verbatim>\<open>parse_precision\<close>, with the pointer at the dot.\<close>

definition parse_precision :: "'s spec_handler \<Rightarrow> string \<Rightarrow> 's \<Rightarrow> (string \<times> 's) fmt_result" where
  "parse_precision h s st =
     (let s = tl s;
          c = (if s = [] then NUL else hd s)
      in and_then
          (if is_digit c then
             and_then (parse_nonnegative_int s (-1)) (\<lambda>(n, r).
               if n \<noteq> -1 then and_then (on_precision h n st) (\<lambda>st. Inr (r, st))
               else on_error ''number is too big'')
           else if c = CHR ''{'' then
             and_then
               (if tl s = [] then Inr ([], st)
                else and_then (parse_arg_id (tl s)) (\<lambda>(i, r).
                     and_then (on_dynamic_precision h i st) (\<lambda>st. Inr (r, st)))) (\<lambda>(r, st).
               if r = [] \<or> hd r \<noteq> CHR ''}'' then on_error ''invalid format string''
               else Inr (tl r, st))
           else on_error ''missing precision specifier'') (\<lambda>(r, st).
          and_then (end_precision h st) (\<lambda>st. Inr (r, st))))"

text \<open>
  \<^verbatim>\<open>parse_format_specs\<close>: a step after the other, each left out at the end of the text.
\<close>

definition unless_end ::
  "(string \<Rightarrow> 's \<Rightarrow> (string \<times> 's) fmt_result) \<Rightarrow> string \<times> 's \<Rightarrow> (string \<times> 's) fmt_result" where
  "unless_end f rs = (if fst rs = [] then Inr rs else f (fst rs) (snd rs))"

definition parse_sign :: "'s spec_handler \<Rightarrow> string \<Rightarrow> 's \<Rightarrow> (string \<times> 's) fmt_result" where
  "parse_sign h s st =
     (if hd s = CHR ''+'' then and_then (on_sign h Sign_plus st) (\<lambda>st. Inr (tl s, st))
      else if hd s = CHR ''-'' then and_then (on_sign h Sign_minus st) (\<lambda>st. Inr (tl s, st))
      else if hd s = CHR '' '' then and_then (on_sign h Sign_space st) (\<lambda>st. Inr (tl s, st))
      else Inr (s, st))"

definition parse_hash :: "'s spec_handler \<Rightarrow> string \<Rightarrow> 's \<Rightarrow> (string \<times> 's) fmt_result" where
  "parse_hash h s st =
     (if hd s = CHR ''#'' then and_then (on_hash h st) (\<lambda>st. Inr (tl s, st)) else Inr (s, st))"

definition parse_zero :: "'s spec_handler \<Rightarrow> string \<Rightarrow> 's \<Rightarrow> (string \<times> 's) fmt_result" where
  "parse_zero h s st =
     (if hd s = CHR ''0'' then and_then (on_zero h st) (\<lambda>st. Inr (tl s, st)) else Inr (s, st))"

definition parse_dot :: "'s spec_handler \<Rightarrow> string \<Rightarrow> 's \<Rightarrow> (string \<times> 's) fmt_result" where
  "parse_dot h s st = (if hd s = CHR ''.'' then parse_precision h s st else Inr (s, st))"

definition parse_localized :: "'s spec_handler \<Rightarrow> string \<Rightarrow> 's \<Rightarrow> (string \<times> 's) fmt_result" where
  "parse_localized h s st =
     (if hd s = CHR ''L'' then and_then (on_localized h st) (\<lambda>st. Inr (tl s, st)) else Inr (s, st))"

definition parse_type :: "'s spec_handler \<Rightarrow> string \<Rightarrow> 's \<Rightarrow> (string \<times> 's) fmt_result" where
  "parse_type h s st =
     (if hd s \<noteq> CHR ''}'' then and_then (on_type h (hd s) st) (\<lambda>st. Inr (tl s, st)) else Inr (s, st))"

definition parse_format_specs :: "'s spec_handler \<Rightarrow> string \<Rightarrow> 's \<Rightarrow> (string \<times> 's) fmt_result" where
  "parse_format_specs h s st =
     (if 2 \<le> length s \<and> s ! 1 = CHR ''}'' \<and> is_ascii_letter (hd s) \<and> hd s \<noteq> CHR ''L''
      then and_then (on_type h (hd s) st) (\<lambda>st. Inr (tl s, st))
      else if s = [] then Inr (s, st)
      else
        and_then (parse_align h s st) (\<lambda>rs.
        and_then (unless_end (parse_sign h) rs) (\<lambda>rs.
        and_then (unless_end (parse_hash h) rs) (\<lambda>rs.
        and_then (unless_end (parse_zero h) rs) (\<lambda>rs.
        and_then (unless_end (parse_width h) rs) (\<lambda>rs.
        and_then (unless_end (parse_dot h) rs) (\<lambda>rs.
        and_then (unless_end (parse_localized h) rs)
          (unless_end (parse_type h)))))))))"

section \<open>The rest is a suffix\<close>

definition leaves_suffix :: "string \<Rightarrow> (string \<times> 's) fmt_result \<Rightarrow> bool" where
  "leaves_suffix s r \<longleftrightarrow> (\<forall>t st. r = Inr (t, st) \<longrightarrow> suffix t s)"

lemma leaves_suffix_Inl [simp]: "leaves_suffix s (Inl e)"
  by (simp add: leaves_suffix_def)

lemma leaves_suffix_Inr [simp]: "leaves_suffix s (Inr (t, st)) \<longleftrightarrow> suffix t s"
  by (simp add: leaves_suffix_def)

lemma leaves_suffix_then:
  "leaves_suffix s r \<Longrightarrow> (\<And>t st. leaves_suffix t (f (t, st))) \<Longrightarrow> leaves_suffix s (and_then r f)"
  unfolding leaves_suffix_def and_then_eq_Inr_iff by (metis prod.exhaust suffix_order.trans)

lemma leaves_suffix_put: "suffix t s \<Longrightarrow> leaves_suffix s (and_then r (\<lambda>st. Inr (t, st)))"
  by (cases r) (auto simp: leaves_suffix_def)

lemma suffix_tl [simp]: "suffix (tl s) s"
  by (cases s) (auto intro: suffix_ConsI)

lemma suffix_dropWhile_tl: "suffix (dropWhile P (tl s)) s"
  using suffix_order.trans suffix_dropWhile suffix_tl by blast

lemma parse_align_suffix: "leaves_suffix s (parse_align h s st)"
proof -
  have "leaves_suffix s (parse_align_loop h s p st)" for p
  proof (induction h s p st rule: parse_align_loop.induct)
    case (1 h s p st)
    show ?case
      by (subst parse_align_loop.simps)
        (auto simp: Let_def suffix_drop leaves_suffix_def and_then_eq_Inr_iff 1 [unfolded leaves_suffix_def]
          dest: 1 [unfolded leaves_suffix_def, rule_format, rotated -1])
  qed
  then show ?thesis by (simp add: parse_align_def Let_def)
qed

lemma parse_nonnegative_int_suffix: "parse_nonnegative_int s e = Inr (n, r) \<Longrightarrow> suffix r s"
  using parse_nonnegative_int_eq [of s e]
  by (cases "s = [] \<or> \<not> is_digit (hd s)") (auto simp: parse_nonnegative_int_def suffix_dropWhile)

lemma parse_arg_id_suffix: "parse_arg_id s = Inr (i, r) \<Longrightarrow> suffix r s"
  unfolding parse_arg_id_def do_parse_arg_id_def
  by (auto simp: and_then_eq_Inr_iff suffix_dropWhile_tl split: if_splits
      dest: parse_nonnegative_int_suffix)

text \<open>The number of an argument is never negative.\<close>

fun id_ok :: "arg_id \<Rightarrow> bool" where
  "id_ok (Id_index i) \<longleftrightarrow> 0 \<le> i"
| "id_ok _ \<longleftrightarrow> True"

lemma parse_nonnegative_int_nonneg: "parse_nonnegative_int s e = Inr (n, r) \<Longrightarrow> 0 \<le> e \<Longrightarrow> 0 \<le> n"
  using parse_nonnegative_int_eq [of s e]
  by (cases "s = [] \<or> \<not> is_digit (hd s)") (auto simp: parse_nonnegative_int_def split: if_splits)

lemma parse_arg_id_ok: "parse_arg_id s = Inr (i, r) \<Longrightarrow> id_ok i"
  unfolding parse_arg_id_def do_parse_arg_id_def
  by (auto simp: and_then_eq_Inr_iff int_max_def split: if_splits dest: parse_nonnegative_int_nonneg)

lemma suffix_tl_trans: "suffix r s \<Longrightarrow> suffix (tl r) s"
  using suffix_order.trans suffix_tl by blast

lemma suffix_into_tl: "suffix r (tl s) \<Longrightarrow> suffix r s"
  using suffix_order.trans suffix_tl by blast

lemma parse_width_suffix: "leaves_suffix s (parse_width h s st)"
  unfolding leaves_suffix_def parse_width_def
  by (auto simp: and_then_eq_Inr_iff split: if_splits
      dest!: parse_nonnegative_int_suffix parse_arg_id_suffix intro: suffix_tl_trans suffix_into_tl)

lemma parse_precision_suffix: "leaves_suffix s (parse_precision h s st)"
  unfolding leaves_suffix_def parse_precision_def Let_def
  by (auto simp: and_then_eq_Inr_iff split: if_splits
      dest!: parse_nonnegative_int_suffix parse_arg_id_suffix intro: suffix_tl_trans suffix_into_tl)

lemma unless_end_suffix:
  "(\<And>s st. leaves_suffix s (f s st)) \<Longrightarrow> leaves_suffix (fst rs) (unless_end f rs)"
  by (cases rs) (simp add: unless_end_def)

lemma parse_small_suffix:
  "leaves_suffix s (parse_sign h s st)" "leaves_suffix s (parse_hash h s st)"
  "leaves_suffix s (parse_zero h s st)" "leaves_suffix s (parse_dot h s st)"
  "leaves_suffix s (parse_localized h s st)" "leaves_suffix s (parse_type h s st)"
  by (simp_all add: parse_sign_def parse_hash_def parse_zero_def parse_dot_def parse_localized_def
      parse_type_def leaves_suffix_put parse_precision_suffix)

lemma parse_format_specs_suffix: "leaves_suffix s (parse_format_specs h s st)"
proof -
  have u: "leaves_suffix t (unless_end f (t, st))" if "\<And>s st. leaves_suffix s (f s st)" for f t st
    using unless_end_suffix [of f "(t, st)"] that by simp
  show ?thesis
    unfolding parse_format_specs_def
    by (auto intro!: leaves_suffix_put leaves_suffix_then u parse_align_suffix parse_width_suffix
        parse_small_suffix)
qed

section \<open>Two handlers side by side\<close>

text \<open>
  The parser calls its handlers for the same things: when the second handler follows the first, up
  to errors that are let pass, then so do the parsers that run them.
\<close>

definition follows :: "('a \<Rightarrow> 'b \<Rightarrow> bool) \<Rightarrow> (fmt_error \<Rightarrow> bool) \<Rightarrow> 'a fmt_result \<Rightarrow> 'b fmt_result \<Rightarrow> bool" where
  "follows R D r1 r2 \<longleftrightarrow>
     (case r1 of Inl _ \<Rightarrow> True
      | Inr a \<Rightarrow> (case r2 of Inr b \<Rightarrow> R a b | Inl e \<Rightarrow> D e))"

lemma follows_simps [simp]:
  "follows R D (Inl e) r2"
  "follows R D (Inr a) (Inr b) = R a b"
  "follows R D (Inr a) (Inl e) = D e"
  by (simp_all add: follows_def)

lemma follows_then:
  "follows R D r1 r2 \<Longrightarrow> (\<And>a b. R a b \<Longrightarrow> follows S D (f a) (g b)) \<Longrightarrow>
    follows S D (and_then r1 f) (and_then r2 g)"
  by (cases r1; cases r2; simp add: follows_def split: sum.splits)

lemma follows_same:
  "(\<And>x. r = Inr x \<Longrightarrow> follows S D (f x) (g x)) \<Longrightarrow> follows S D (and_then r f) (and_then r g)"
  by (cases r) simp_all

definition same_rest :: "('a \<Rightarrow> 'b \<Rightarrow> bool) \<Rightarrow> string \<times> 'a \<Rightarrow> string \<times> 'b \<Rightarrow> bool" where
  "same_rest R x y \<longleftrightarrow> fst x = fst y \<and> R (snd x) (snd y)"

lemma same_rest_simps [simp]: "same_rest R (s, a) (t, b) \<longleftrightarrow> s = t \<and> R a b"
  by (simp add: same_rest_def)

lemma follows_rest:
  "follows R D r1 r2 \<Longrightarrow>
    follows (same_rest R) D (and_then r1 (\<lambda>a. Inr (s, a))) (and_then r2 (\<lambda>b. Inr (s, b)))"
  by (rule follows_then) auto

lemma follows_unless_end:
  assumes "\<And>s a b. s \<noteq> [] \<Longrightarrow> R a b \<Longrightarrow> follows (same_rest R) D (f s a) (g s b)"
  shows "same_rest R x y \<Longrightarrow> follows (same_rest R) D (unless_end f x) (unless_end g y)"
  using assms [of "fst x" "snd x" "snd y"] by (cases x; cases y) (auto simp: unless_end_def)

locale spec_handlers_follow =
  fixes R :: "'a \<Rightarrow> 'b \<Rightarrow> bool"
    and D :: "fmt_error \<Rightarrow> bool"
    and h1 :: "'a spec_handler"
    and h2 :: "'b spec_handler"
  assumes align_follows: "R a b \<Longrightarrow> follows R D (on_align h1 x a) (on_align h2 x b)"
    and fill_follows: "R a b \<Longrightarrow> follows R D (on_fill h1 t a) (on_fill h2 t b)"
    and sign_follows: "R a b \<Longrightarrow> follows R D (on_sign h1 sg a) (on_sign h2 sg b)"
    and hash_follows: "R a b \<Longrightarrow> follows R D (on_hash h1 a) (on_hash h2 b)"
    and zero_follows: "R a b \<Longrightarrow> follows R D (on_zero h1 a) (on_zero h2 b)"
    and localized_follows: "R a b \<Longrightarrow> follows R D (on_localized h1 a) (on_localized h2 b)"
    and width_follows: "R a b \<Longrightarrow> follows R D (on_width h1 n a) (on_width h2 n b)"
    and dynamic_width_follows:
      "R a b \<Longrightarrow> id_ok i \<Longrightarrow> follows R D (on_dynamic_width h1 i a) (on_dynamic_width h2 i b)"
    and precision_follows: "R a b \<Longrightarrow> follows R D (on_precision h1 n a) (on_precision h2 n b)"
    and dynamic_precision_follows:
      "R a b \<Longrightarrow> id_ok i \<Longrightarrow> follows R D (on_dynamic_precision h1 i a) (on_dynamic_precision h2 i b)"
    and end_precision_follows: "R a b \<Longrightarrow> follows R D (end_precision h1 a) (end_precision h2 b)"
    and type_follows: "R a b \<Longrightarrow> follows R D (on_type h1 c a) (on_type h2 c b)"
begin

lemmas handler_follows =
  align_follows fill_follows sign_follows hash_follows zero_follows localized_follows width_follows
  dynamic_width_follows precision_follows dynamic_precision_follows end_precision_follows type_follows

lemma parse_align_loop_follows:
  "R a b \<Longrightarrow> follows (same_rest R) D (parse_align_loop h1 s p a) (parse_align_loop h2 s p b)"
proof (induction p arbitrary: a b rule: less_induct)
  case (less p)
  then have rec: "p \<noteq> 0 \<Longrightarrow> follows (same_rest R) D (parse_align_loop h1 s 0 a) (parse_align_loop h2 s 0 b)"
    by simp
  show ?case
    unfolding parse_align_loop.simps [of h1 s p] parse_align_loop.simps [of h2 s p] Let_def
    using less.prems rec
    by (auto intro!: follows_rest follows_then [where S = "same_rest R"] handler_follows)
qed

lemma parse_align_follows:
  "R a b \<Longrightarrow> follows (same_rest R) D (parse_align h1 s a) (parse_align h2 s b)"
  by (simp add: parse_align_def Let_def parse_align_loop_follows)

lemma parse_width_follows:
  "R a b \<Longrightarrow> follows (same_rest R) D (parse_width h1 s a) (parse_width h2 s b)"
  unfolding parse_width_def
  by (auto intro!: follows_same follows_rest follows_then [where R = "same_rest R"] handler_follows
      dest: parse_arg_id_ok split: prod.splits)

lemma parse_precision_follows:
  "R a b \<Longrightarrow> follows (same_rest R) D (parse_precision h1 s a) (parse_precision h2 s b)"
  unfolding parse_precision_def Let_def
  by (rule follows_then [where R = "same_rest R"])
    (auto intro!: follows_same follows_rest follows_then [where R = "same_rest R"] handler_follows
      dest: parse_arg_id_ok split: prod.splits)

lemma parse_small_follows:
  assumes "R a b"
  shows "follows (same_rest R) D (parse_sign h1 s a) (parse_sign h2 s b)"
    "follows (same_rest R) D (parse_hash h1 s a) (parse_hash h2 s b)"
    "follows (same_rest R) D (parse_zero h1 s a) (parse_zero h2 s b)"
    "follows (same_rest R) D (parse_dot h1 s a) (parse_dot h2 s b)"
    "follows (same_rest R) D (parse_localized h1 s a) (parse_localized h2 s b)"
    "follows (same_rest R) D (parse_type h1 s a) (parse_type h2 s b)"
  using assms
  by (auto simp: parse_sign_def parse_hash_def parse_zero_def parse_dot_def parse_localized_def
      parse_type_def intro!: follows_rest handler_follows parse_precision_follows)

lemma parse_format_specs_follows:
  "R a b \<Longrightarrow> follows (same_rest R) D (parse_format_specs h1 s a) (parse_format_specs h2 s b)"
  unfolding parse_format_specs_def
  by (auto intro!: follows_rest type_follows
      follows_then [where R = "same_rest R" and S = "same_rest R"]
      follows_unless_end parse_align_follows parse_width_follows parse_small_follows)

end

end
