(* ===== verification/Fmt_Parse.thy ===== *)
theory Fmt_Parse
  imports Fmt_Specs
begin

text \<open>
  Format strings (\<^verbatim>\<open>fmt/bundled/core.h\<close>): replacement fields, and the two ways in which
  \<^verbatim>\<open>parse_format_string\<close> runs through the text, a simple loop for short strings and a search for
  the next brace for long ones, which do the same.  As nothing bounds what a handler of specifiers
  leaves, the loops carry fuel; a handler that leaves a suffix of its text never uses it up.
\<close>

section \<open>Handlers of format strings\<close>

record 's format_handler =
  on_text :: "string \<Rightarrow> 's \<Rightarrow> 's fmt_result"
  on_arg_id :: "arg_id \<Rightarrow> 's \<Rightarrow> (int \<times> 's) fmt_result"
  on_replacement_field :: "int \<Rightarrow> 's \<Rightarrow> 's fmt_result"
  on_format_specs :: "int \<Rightarrow> string \<Rightarrow> 's \<Rightarrow> (string \<times> 's) fmt_result"

text \<open>\<^verbatim>\<open>parse_replacement_field\<close>, from the opening brace to behind the closing one.\<close>

definition parse_replacement_field ::
  "'s format_handler \<Rightarrow> string \<Rightarrow> 's \<Rightarrow> (string \<times> 's) fmt_result" where
  "parse_replacement_field h s st =
     (let s = tl s
      in if s = [] then on_error ''invalid format string''
         else if hd s = CHR ''}'' then
           and_then (on_arg_id h Id_auto st) (\<lambda>(i, st).
           and_then (on_replacement_field h i st) (\<lambda>st. Inr (tl s, st)))
         else if hd s = CHR ''{'' then and_then (on_text h ''{'' st) (\<lambda>st. Inr (tl s, st))
         else
           and_then (parse_arg_id s) (\<lambda>(i, r).
           and_then (on_arg_id h i st) (\<lambda>(i, st).
             let c = (if r = [] then NUL else hd r)
             in if c = CHR ''}'' then
                  and_then (on_replacement_field h i st) (\<lambda>st. Inr (tl r, st))
                else if c = CHR '':'' then
                  and_then (on_format_specs h i (tl r) st) (\<lambda>(r, st).
                    if r = [] \<or> hd r \<noteq> CHR ''}'' then on_error ''unknown format specifier''
                    else Inr (tl r, st))
                else on_error (''missing '' @ quoted ''}'' @ '' in format string''))))"

definition unmatched :: string where
  "unmatched = ''unmatched '' @ quoted ''}'' @ '' in format string''"

text \<open>The loop for short strings; \<open>text\<close> is what lies between \<^verbatim>\<open>begin\<close> and \<^verbatim>\<open>p\<close>.\<close>

fun parse_short :: "'s format_handler \<Rightarrow> nat \<Rightarrow> string \<Rightarrow> string \<Rightarrow> 's \<Rightarrow> 's fmt_result" where
  "parse_short h 0 text s st = Inl Undefined"
| "parse_short h (Suc n) text [] st = on_text h text st"
| "parse_short h (Suc n) text (c # s) st =
     (if c = CHR ''{'' then
        and_then (on_text h text st) (\<lambda>st.
        and_then (parse_replacement_field h (c # s) st) (\<lambda>(r, st).
        parse_short h n [] r st))
      else if c = CHR ''}'' then
        if s = [] \<or> hd s \<noteq> CHR ''}'' then on_error unmatched
        else and_then (on_text h (text @ [c]) st) (parse_short h n [] (tl s))
      else parse_short h n (text @ [c]) s st)"

text \<open>The writer for long strings, which looks for closing braces.\<close>

function write_loop :: "'s format_handler \<Rightarrow> string \<Rightarrow> 's \<Rightarrow> 's fmt_result" where
  "write_loop h s st =
     (if CHR ''}'' \<notin> set s then on_text h s st
      else
        let r = tl (dropWhile (\<lambda>c. c \<noteq> CHR ''}'') s)
        in if r = [] \<or> hd r \<noteq> CHR ''}'' then on_error unmatched
           else and_then (on_text h (takeWhile (\<lambda>c. c \<noteq> CHR ''}'') s @ ''}'') st) (write_loop h (tl r)))"
  by pat_completeness auto
termination
proof (relation "measure (\<lambda>(h, s, st). length s)")
  fix s r :: string and h h' :: "'a format_handler" and st st' :: 'a
  assume "r = tl (dropWhile (\<lambda>c. c \<noteq> CHR ''}'') s)" "\<not> (r = [] \<or> hd r \<noteq> CHR ''}'')"
  then show "((h, tl r, st'), h, s, st) \<in> measure (\<lambda>(h, s, st). length s)"
    using length_dropWhile_le [of "\<lambda>c. c \<noteq> CHR ''}''" s]
    by (cases "dropWhile (\<lambda>c. c \<noteq> CHR ''}'') s"; cases r) auto
qed simp

declare write_loop.simps [simp del]

definition write_text :: "'s format_handler \<Rightarrow> string \<Rightarrow> 's \<Rightarrow> 's fmt_result" where
  "write_text h s st = (if s = [] then Inr st else write_loop h s st)"

primrec parse_long :: "'s format_handler \<Rightarrow> nat \<Rightarrow> string \<Rightarrow> 's \<Rightarrow> 's fmt_result" where
  "parse_long h 0 s st = Inl Undefined"
| "parse_long h (Suc n) s st =
     (if s = [] then Inr st
      else if hd s \<noteq> CHR ''{'' \<and> CHR ''{'' \<notin> set (tl s) then write_text h s st
      else
        let k = (if hd s = CHR ''{'' then 0 else 1 + length (takeWhile (\<lambda>c. c \<noteq> CHR ''{'') (tl s)))
        in and_then (write_text h (take k s) st) (\<lambda>st.
           and_then (parse_replacement_field h (drop k s) st) (\<lambda>(r, st). parse_long h n r st)))"

definition parse_format_string :: "'s format_handler \<Rightarrow> string \<Rightarrow> 's \<Rightarrow> 's fmt_result" where
  "parse_format_string h s st =
     (if length s < 32 then parse_short h (length s + 1) [] s st
      else parse_long h (length s + 1) s st)"

section \<open>The two loops agree\<close>

text \<open>
  What they need of a handler: writing nothing does nothing, text is written piece by piece and
  without errors, and the rest of a field is a suffix.
\<close>

locale text_writer =
  fixes h :: "'s format_handler"
  assumes text_empty: "on_text h [] st = Inr st"
    and text_append: "on_text h (s @ t) st = and_then (on_text h s st) (on_text h t)"
    and text_total: "\<exists>st'. on_text h s st = Inr st'"
    and specs_suffix: "leaves_suffix s (on_format_specs h i s st)"
begin

lemma field_shorter:
  assumes "parse_replacement_field h s st = Inr (r, st')" "s \<noteq> []"
  shows "length r < length s"
proof -
  have "suffix r (tl s)"
    using assms(1) specs_suffix unfolding parse_replacement_field_def Let_def leaves_suffix_def
    by (auto simp: and_then_eq_Inr_iff split: if_splits
        dest!: parse_arg_id_suffix intro: suffix_tl_trans suffix_into_tl)
      (meson suffix_into_tl suffix_order.trans suffix_tl_trans)+
  then show ?thesis using assms(2) suffix_length_le [of r "tl s"] by (cases s) auto
qed

text \<open>The fuel given is enough, so more of it changes nothing.\<close>

lemma parse_short_fuel:
  "length s < n \<Longrightarrow> length s < m \<Longrightarrow> parse_short h n t s st = parse_short h m t s st"
proof (induction s arbitrary: n m t st rule: length_induct)
  case (1 s)
  obtain n' m' where nm: "n = Suc n'" "m = Suc m'" using 1(2,3) by (cases n; cases m) auto
  have rec: "parse_short h n' t' r st' = parse_short h m' t' r st'" if "length r < length s" for t' r st'
    using that nm "1.prems" by (intro "1.IH" [rule_format]) auto
  show ?case
  proof (cases s)
    case Nil
    with nm show ?thesis by simp
  next
    case (Cons c u)
    consider "c = CHR ''{''" | "c = CHR ''}''" | "c \<noteq> CHR ''{''" "c \<noteq> CHR ''}''" by blast
    then show ?thesis
    proof cases
      case 1
      with Cons nm show ?thesis
        by (auto intro!: and_then_cong rec dest: field_shorter split: prod.splits)
    next
      case 2
      have "length (tl u) < length s" using Cons by (cases u) auto
      with 2 Cons nm show ?thesis by (auto intro!: and_then_cong rec)
    next
      case 3
      with Cons nm rec [of u] show ?thesis by simp
    qed
  qed
qed

text \<open>Up to the next opening brace the loop writes what the writer for long strings writes.\<close>

definition up_to_brace :: "string \<Rightarrow> string" where
  "up_to_brace s = takeWhile (\<lambda>c. c \<noteq> CHR ''{'') s"

definition from_brace :: "string \<Rightarrow> string" where
  "from_brace s = dropWhile (\<lambda>c. c \<noteq> CHR ''{'') s"

lemma brace_simps [simp]:
  "up_to_brace [] = []" "up_to_brace (c # s) = (if c = CHR ''{'' then [] else c # up_to_brace s)"
  "from_brace [] = []" "from_brace (c # s) = (if c = CHR ''{'' then c # s else from_brace s)"
  by (simp_all add: up_to_brace_def from_brace_def)

definition next_field :: "(string \<Rightarrow> 's \<Rightarrow> 's fmt_result) \<Rightarrow> string \<Rightarrow> 's \<Rightarrow> 's fmt_result" where
  "next_field rec r st =
     (if r = [] then Inr st
      else and_then (parse_replacement_field h r st) (\<lambda>(r, st). rec r st))"

lemma write_loop_plain: "CHR ''}'' \<notin> set t \<Longrightarrow> write_loop h t st = on_text h t st"
  by (simp add: write_loop.simps [of h t])

lemma takeWhile_brace:
  "CHR ''}'' \<notin> set t \<Longrightarrow> takeWhile (\<lambda>c. c \<noteq> CHR ''}'') (t @ CHR ''}'' # u) = t"
  "CHR ''}'' \<notin> set t \<Longrightarrow> dropWhile (\<lambda>c. c \<noteq> CHR ''}'') (t @ CHR ''}'' # u) = CHR ''}'' # u"
  by (induction t) auto

lemma write_loop_brace:
  "CHR ''}'' \<notin> set t \<Longrightarrow>
    write_loop h (t @ CHR ''}'' # u) st =
      (if u = [] \<or> hd u \<noteq> CHR ''}'' then on_error unmatched
       else and_then (on_text h (t @ ''}'') st) (write_loop h (tl u)))"
  by (subst write_loop.simps) (simp add: takeWhile_brace Let_def)

lemma parse_short_segment:
  "length s < n \<Longrightarrow> CHR ''}'' \<notin> set t \<Longrightarrow>
    parse_short h n t s st =
      and_then (write_loop h (t @ up_to_brace s) st)
        (next_field (\<lambda>r. parse_short h (length r + 1) [] r) (from_brace s))"
proof (induction s arbitrary: n t st rule: length_induct)
  case (1 s)
  obtain n' where n: "n = Suc n'" using 1(2) by (cases n) auto
  show ?case
  proof (cases s)
    case Nil
    with n 1(3) show ?thesis
      by (simp add: write_loop_plain next_field_def)
  next
    case (Cons c u)
    consider "c = CHR ''{''" | "c = CHR ''}''" | "c \<noteq> CHR ''{''" "c \<noteq> CHR ''}''" by blast
    then show ?thesis
    proof cases
      case 1
      have "parse_short h n' [] r st' = parse_short h (length r + 1) [] r st'"
        if "parse_replacement_field h s st'' = Inr (r, st')" for r st' st''
        using field_shorter [OF that] Cons n "1.prems"(1) by (intro parse_short_fuel) auto
      with 1 Cons n "1.prems"(2) show ?thesis
        by (auto simp: write_loop_plain next_field_def
            intro!: and_then_cong split: prod.splits)
    next
      case 2
      show ?thesis
      proof (cases "u = [] \<or> hd u \<noteq> CHR ''}''")
        case True
        then have "up_to_brace u = [] \<or> hd (up_to_brace u) \<noteq> CHR ''}''"
          by (cases u) auto
        with True 2 Cons n "1.prems"(2) show ?thesis
          by (simp add: write_loop_brace)
      next
        case False
        then obtain v where u: "u = CHR ''}'' # v" by (cases u) auto
        have "parse_short h n' [] v st' = and_then (write_loop h (up_to_brace v) st')
            (next_field (\<lambda>r. parse_short h (length r + 1) [] r) (from_brace v))" for st'
          using "1.IH" [rule_format, of v n' "[]" st'] Cons u n "1.prems"(1) by simp
        then have "parse_short h n' [] v = (\<lambda>st'. and_then (write_loop h (up_to_brace v) st')
            (next_field (\<lambda>r. parse_short h (length r + 1) [] r) (from_brace v)))"
          by blast
        with 2 Cons n u "1.prems"(2) show ?thesis
          by (simp add: write_loop_brace)
      qed
    next
      case 3
      have "parse_short h n' (t @ [c]) u st = and_then (write_loop h ((t @ [c]) @ up_to_brace u) st)
          (next_field (\<lambda>r. parse_short h (length r + 1) [] r) (from_brace u))"
        using "1.IH" [rule_format, of u n' "t @ [c]" st] Cons n 3 "1.prems" by simp
      with 3 Cons n show ?thesis
        by simp
    qed
  qed
qed

lemma write_text_loop: "write_text h s st = write_loop h s st"
  by (simp add: write_text_def write_loop_plain text_empty)

lemma brace_split: "up_to_brace s @ from_brace s = s"
  by (simp add: up_to_brace_def from_brace_def)

lemma brace_none: "CHR ''{'' \<notin> set s \<Longrightarrow> up_to_brace s = s \<and> from_brace s = []"
  by (induction s) auto

lemma from_brace_Nil: "from_brace s = [] \<Longrightarrow> CHR ''{'' \<notin> set s"
  by (induction s) (auto split: if_splits)

lemma parse_short_fields:
  "parse_short h (length s + 1) [] s st =
    and_then (write_loop h (up_to_brace s) st)
      (next_field (\<lambda>r. parse_short h (length r + 1) [] r) (from_brace s))"
  using parse_short_segment [of s "length s + 1" "[]" st] by simp

text \<open>The search for braces is the simple loop.\<close>

theorem parse_long_short:
  "length s < n \<Longrightarrow> parse_long h n s st = parse_short h (length s + 1) [] s st"
proof (induction n arbitrary: s st)
  case (Suc n)
  define k where "k = (if hd s = CHR ''{'' then 0 else 1 + length (takeWhile (\<lambda>c. c \<noteq> CHR ''{'') (tl s)))"
  show ?case
  proof (cases "s = []")
    case True
    then show ?thesis by (simp add: text_empty)
  next
    case False
    have k: "from_brace s \<noteq> [] \<Longrightarrow> k = length (up_to_brace s)"
      using False by (cases s) (auto simp: k_def up_to_brace_def)
    have long: "parse_long h (Suc n) s st = and_then (write_loop h (up_to_brace s) st)
        (next_field (parse_long h n) (from_brace s))"
    proof (cases "from_brace s = []")
      case True
      then have "CHR ''{'' \<notin> set s" by (rule from_brace_Nil)
      with False show ?thesis
        by (cases s) (auto simp: brace_none write_text_loop next_field_def [abs_def])
    next
      case fb: False
      then have b: "CHR ''{'' \<in> set s" using brace_none [of s] by blast
      have "take k s = up_to_brace s" "drop k s = from_brace s"
        using k [OF fb] brace_split [of s] by (metis append_eq_conv_conj)+
      moreover have "(hd s \<noteq> CHR ''{'' \<and> CHR ''{'' \<notin> set (tl s)) = False" using b by (cases s) auto
      ultimately show ?thesis
        unfolding parse_long.simps k_def [symmetric]
        using False fb by (simp only: write_text_loop next_field_def [abs_def] Let_def if_False)
    qed
    have "next_field (parse_long h n) (from_brace s) st' =
        next_field (\<lambda>r. parse_short h (length r + 1) [] r) (from_brace s) st'" for st'
    proof (cases "from_brace s = []")
      case fb: False
      have "length (from_brace s) \<le> length s" by (simp add: from_brace_def length_dropWhile_le)
      then have "parse_long h n r st'' = parse_short h (length r + 1) [] r st''"
        if "parse_replacement_field h (from_brace s) st' = Inr (r, st'')" for r st''
        using field_shorter [OF that fb] Suc.prems by (intro Suc.IH) simp
      then show ?thesis by (auto simp: next_field_def intro!: and_then_cong)
    qed (simp add: next_field_def)
    then show ?thesis
      unfolding long parse_short_fields [of s st] by (intro and_then_cong) simp_all
  qed
qed simp

theorem parse_format_string_short:
  "parse_format_string h s st = parse_short h (length s + 1) [] s st"
  by (simp add: parse_format_string_def parse_long_short del: Suc_eq_plus1 add_Suc_right)

section \<open>Step by step\<close>

text \<open>A character is written, a doubled brace once, and a field goes to the handler.\<close>

lemma write_loop_Cons:
  "c \<noteq> CHR ''}'' \<Longrightarrow> write_loop h (c # t) st = and_then (on_text h [c] st) (write_loop h t)"
proof -
  assume c: "c \<noteq> CHR ''}''"
  obtain st' where st': "on_text h [c] st = Inr st'" using text_total by blast
  have cons: "on_text h (c # u) st = on_text h u st'" for u
    using text_append [of "[c]" u st] st' by simp
  show ?thesis
  proof (cases "CHR ''}'' \<in> set t")
    case True
    then obtain p u where t: "t = p @ CHR ''}'' # u" "CHR ''}'' \<notin> set p" by (meson split_list_first)
    then show ?thesis
      using write_loop_brace [of "c # p" u st] write_loop_brace [of p u st'] c st' cons [of "p @ ''}''"]
      by auto
  next
    case False
    then show ?thesis
      using write_loop_plain [of "c # t" st] write_loop_plain [of t st'] c st' cons [of t] by auto
  qed
qed

lemma parse_format_string_Nil: "parse_format_string h [] st = Inr st"
  by (simp add: parse_format_string_short text_empty)

lemma parse_format_string_field:
  "parse_format_string h (CHR ''{'' # u) st =
    and_then (parse_replacement_field h (CHR ''{'' # u) st) (\<lambda>(r, st). parse_format_string h r st)"
  unfolding parse_format_string_short
  using parse_short_fields [of "CHR ''{'' # u" st]
  by (simp add: write_loop_plain text_empty next_field_def)

lemma parse_format_string_Cons:
  assumes "c \<noteq> CHR ''{''" "c \<noteq> CHR ''}''"
  shows "parse_format_string h (c # u) st = and_then (on_text h [c] st) (parse_format_string h u)"
proof -
  have "parse_format_string h (c # u) st = and_then (and_then (on_text h [c] st) (write_loop h (up_to_brace u)))
      (next_field (\<lambda>r. parse_short h (length r + 1) [] r) (from_brace u))"
    unfolding parse_format_string_short parse_short_fields [of "c # u" st]
    using assms by (simp add: write_loop_Cons)
  also have "\<dots> = and_then (on_text h [c] st) (parse_format_string h u)"
    unfolding parse_format_string_short and_then_assoc
    by (intro and_then_cong refl) (simp only: parse_short_fields [of u])
  finally show ?thesis .
qed

lemma parse_format_string_open:
  "parse_format_string h (CHR ''{'' # CHR ''{'' # u) st =
    and_then (on_text h ''{'' st) (parse_format_string h u)"
  by (simp add: parse_format_string_field parse_replacement_field_def)

lemma parse_format_string_close:
  "parse_format_string h (CHR ''}'' # CHR ''}'' # u) st =
    and_then (on_text h ''}'' st) (parse_format_string h u)"
proof -
  have "parse_format_string h (CHR ''}'' # CHR ''}'' # u) st =
      and_then (on_text h ''}'' st) (parse_short h (length u + 2) [] u)"
    unfolding parse_format_string_short by simp
  also have "\<dots> = and_then (on_text h ''}'' st) (parse_format_string h u)"
    unfolding parse_format_string_short
    by (intro and_then_cong refl parse_short_fuel) auto
  finally show ?thesis .
qed

end

section \<open>Two handlers side by side\<close>

text \<open>
  As for specifiers: a handler that follows another, up to errors that are let pass, makes the
  parser follow.  \<open>V\<close> holds for the ids of arguments that the first handler gives out.
\<close>

definition same_id ::
  "('a \<Rightarrow> 'b \<Rightarrow> bool) \<Rightarrow> (int \<Rightarrow> bool) \<Rightarrow> int \<times> 'a \<Rightarrow> int \<times> 'b \<Rightarrow> bool" where
  "same_id R V x y \<longleftrightarrow> fst x = fst y \<and> V (fst x) \<and> R (snd x) (snd y)"

definition close_field :: "string \<times> 's \<Rightarrow> (string \<times> 's) fmt_result" where
  "close_field rs =
     (if fst rs = [] \<or> hd (fst rs) \<noteq> CHR ''}'' then on_error ''unknown format specifier''
      else Inr (tl (fst rs), snd rs))"

locale format_handlers_follow =
  w1: text_writer h1 + w2: text_writer h2
  for h1 :: "'a format_handler" and h2 :: "'b format_handler" +
  fixes R :: "'a \<Rightarrow> 'b \<Rightarrow> bool"
    and D :: "fmt_error \<Rightarrow> bool"
    and V :: "int \<Rightarrow> bool"
  assumes text_follows: "R a b \<Longrightarrow> follows R D (on_text h1 t a) (on_text h2 t b)"
    and arg_id_follows: "R a b \<Longrightarrow> id_ok i \<Longrightarrow> follows (same_id R V) D (on_arg_id h1 i a) (on_arg_id h2 i b)"
    and field_follows:
      "R a b \<Longrightarrow> V n \<Longrightarrow> follows R D (on_replacement_field h1 n a) (on_replacement_field h2 n b)"
    and specs_follows:
      "R a b \<Longrightarrow> V n \<Longrightarrow>
        follows (same_rest R) D (and_then (on_format_specs h1 n s a) close_field)
          (and_then (on_format_specs h2 n s b) close_field)"
begin

lemma replacement_field_follows:
  assumes "R a b"
  shows "follows (same_rest R) D (parse_replacement_field h1 s a) (parse_replacement_field h2 s b)"
proof -
  have close: "(\<lambda>(r, st). if r = [] \<or> hd r \<noteq> CHR ''}'' then on_error ''unknown format specifier''
      else Inr (tl r, st)) = close_field"
    by (auto simp: close_field_def fun_eq_iff)
  show ?thesis
    unfolding parse_replacement_field_def Let_def close
    using assms
    by (auto intro!: follows_rest text_follows follows_same follows_then [where R = "same_id R V"]
        arg_id_follows field_follows specs_follows dest: parse_arg_id_ok simp: same_id_def split: prod.splits)
qed

lemma parse_format_string_follows:
  "R a b \<Longrightarrow> follows R D (parse_format_string h1 s a) (parse_format_string h2 s b)"
proof (induction s arbitrary: a b rule: length_induct)
  case (1 s)
  show ?case
  proof (cases s)
    case Nil
    with 1 show ?thesis
      by (simp add: w1.parse_format_string_Nil w2.parse_format_string_Nil)
  next
    case (Cons c u)
    consider "c = CHR ''{''" | "c = CHR ''}''" | "c \<noteq> CHR ''{''" "c \<noteq> CHR ''}''" by blast
    then show ?thesis
    proof cases
      case 1
      have "follows R D
          (and_then (parse_replacement_field h1 s a) (\<lambda>(r, st).
            if length r < length s then parse_format_string h1 r st else Inl Undefined))
          (and_then (parse_replacement_field h2 s b) (\<lambda>(r, st).
            if length r < length s then parse_format_string h2 r st else Inl Undefined))"
        using "1.IH" "1.prems" by (intro follows_then [OF replacement_field_follows]) auto
      moreover have "parse_format_string h1 s a = and_then (parse_replacement_field h1 s a) (\<lambda>(r, st).
            if length r < length s then parse_format_string h1 r st else Inl Undefined)"
        unfolding Cons 1 w1.parse_format_string_field
        by (intro and_then_cong) (auto dest: w1.field_shorter)
      moreover have "parse_format_string h2 s b = and_then (parse_replacement_field h2 s b) (\<lambda>(r, st).
            if length r < length s then parse_format_string h2 r st else Inl Undefined)"
        unfolding Cons 1 w2.parse_format_string_field
        by (intro and_then_cong) (auto dest: w2.field_shorter)
      ultimately show ?thesis by simp
    next
      case 2
      show ?thesis
      proof (cases "u = [] \<or> hd u \<noteq> CHR ''}''")
        case True
        with 2 Cons show ?thesis by (simp add: w1.parse_format_string_short)
      next
        case False
        then obtain v where u: "u = CHR ''}'' # v" by (cases u) auto
        show ?thesis
          unfolding Cons 2 u w1.parse_format_string_close w2.parse_format_string_close
          using "1.IH" "1.prems" Cons u by (intro follows_then [OF text_follows]) auto
      qed
    next
      case 3
      then show ?thesis 
        unfolding Cons w1.parse_format_string_Cons [OF 3] w2.parse_format_string_Cons [OF 3]
        using "1.IH" "1.prems" Cons by (intro follows_then [OF text_follows]) auto
    qed
  qed
qed

end

end
