(* ===== verification/Fmt_Write.thy ===== *)
theory Fmt_Write
  imports Fmt_Specs
begin

text \<open>
  Writing arguments (\<^verbatim>\<open>fmt/bundled/format.h\<close>): the kinds of values an argument may have, padding,
  integers in every base with their prefixes, characters, strings and pointers.  A writer yields
  the text that it appends to the output, or the error that it throws.  The grouping of digits and
  their separator, which the C++ library takes from a locale, are a parameter.
\<close>

section \<open>Arguments\<close>

datatype arg_type =
  None_type | Int_type | Uint_type | Long_long_type | Ulong_long_type | Int128_type | Uint128_type
  | Bool_type | Char_type | Float_type | Double_type | Long_double_type | Cstring_type | String_type
  | Pointer_type | Custom_type

definition arg_types :: "arg_type list" where
  "arg_types =
     [None_type, Int_type, Uint_type, Long_long_type, Ulong_long_type, Int128_type, Uint128_type,
      Bool_type, Char_type, Float_type, Double_type, Long_double_type, Cstring_type, String_type,
      Pointer_type, Custom_type]"

fun arg_type_value :: "arg_type \<Rightarrow> nat" where
  "arg_type_value None_type = 0"
| "arg_type_value Int_type = 1"
| "arg_type_value Uint_type = 2"
| "arg_type_value Long_long_type = 3"
| "arg_type_value Ulong_long_type = 4"
| "arg_type_value Int128_type = 5"
| "arg_type_value Uint128_type = 6"
| "arg_type_value Bool_type = 7"
| "arg_type_value Char_type = 8"
| "arg_type_value Float_type = 9"
| "arg_type_value Double_type = 10"
| "arg_type_value Long_double_type = 11"
| "arg_type_value Cstring_type = 12"
| "arg_type_value String_type = 13"
| "arg_type_value Pointer_type = 14"
| "arg_type_value Custom_type = 15"

definition is_integral_type :: "arg_type \<Rightarrow> bool" where
  "is_integral_type t \<longleftrightarrow> 0 < arg_type_value t \<and> arg_type_value t \<le> 8"

definition is_arithmetic_type :: "arg_type \<Rightarrow> bool" where
  "is_arithmetic_type t \<longleftrightarrow> 0 < arg_type_value t \<and> arg_type_value t \<le> 11"

text \<open>The values but for floating-point and user-defined ones; a C string is a null pointer or its
  address with the characters before the NUL.\<close>

type_synonym u128 = "128 word"

datatype fmt_value =
  V_int u32 | V_uint u32 | V_long_long u64 | V_ulong_long u64 | V_int128 u128 | V_uint128 u128
  | V_bool bool | V_char char | V_cstring "(u64 \<times> string) option" | V_string string | V_pointer u64

fun value_type :: "fmt_value \<Rightarrow> arg_type" where
  "value_type (V_int _) = Int_type"
| "value_type (V_uint _) = Uint_type"
| "value_type (V_long_long _) = Long_long_type"
| "value_type (V_ulong_long _) = Ulong_long_type"
| "value_type (V_int128 _) = Int128_type"
| "value_type (V_uint128 _) = Uint128_type"
| "value_type (V_bool _) = Bool_type"
| "value_type (V_char _) = Char_type"
| "value_type (V_cstring _) = Cstring_type"
| "value_type (V_string _) = String_type"
| "value_type (V_pointer _) = Pointer_type"

section \<open>Padding\<close>

fun align_value :: "align_t \<Rightarrow> nat" where
  "align_value Align_none = 0"
| "align_value Align_left = 1"
| "align_value Align_right = 2"
| "align_value Align_center = 3"
| "align_value Align_numeric = 4"

definition left_padding_shifts :: "nat list" where
  "left_padding_shifts = [31, 31, 0, 1, 0]"

definition right_padding_shifts :: "nat list" where
  "right_padding_shifts = [0, 31, 0, 1, 0]"

definition fill :: "nat \<Rightarrow> fill_t \<Rightarrow> string" where
  "fill n f =
     (if fill_size f = 1 then replicate n (fill_data f ! 0)
      else concat (replicate n (take (fill_size f) (fill_data f))))"

text \<open>\<^verbatim>\<open>write_padded\<close> with its default alignment, the display width and what the writer writes; the
  size in code units only reserves memory.\<close>

definition write_padded :: "align_t \<Rightarrow> format_specs \<Rightarrow> nat \<Rightarrow> string \<Rightarrow> string" where
  "write_padded align sp width text =
     (let spec_width = nat (sp_width sp);
          padding = (if width < spec_width then spec_width - width else 0);
          shifts = (if align = Align_left then left_padding_shifts else right_padding_shifts);
          left_padding = drop_bit (shifts ! align_value (sp_align sp)) padding;
          right_padding = padding - left_padding
      in (if left_padding \<noteq> 0 then fill left_padding (sp_fill sp) else []) @ text @
         (if right_padding \<noteq> 0 then fill right_padding (sp_fill sp) else []))"

definition write_bytes :: "format_specs \<Rightarrow> string \<Rightarrow> string" where
  "write_bytes sp bytes = write_padded Align_left sp (length bytes) bytes"

definition write_char :: "format_specs \<Rightarrow> char \<Rightarrow> string" where
  "write_char sp c = write_padded Align_left sp 1 [c]"

section \<open>Checks of the type\<close>

definition check_int_type_spec :: "char \<Rightarrow> unit fmt_result" where
  "check_int_type_spec c =
     (if c \<in> set (NUL # ''dxXbBoc'') then Inr () else on_error ''invalid type specifier'')"

text \<open>True when a character is printed as one.\<close>

definition check_char_specs :: "format_specs \<Rightarrow> bool fmt_result" where
  "check_char_specs sp =
     (if sp_type sp \<noteq> NUL \<and> sp_type sp \<noteq> CHR ''c''
      then and_then (check_int_type_spec (sp_type sp)) (\<lambda>_. Inr False)
      else if sp_align sp = Align_numeric \<or> sp_sign sp \<noteq> Sign_none \<or> sp_alt sp
      then on_error ''invalid format specifier for char''
      else Inr True)"

definition check_cstring_type_spec :: "char \<Rightarrow> bool fmt_result" where
  "check_cstring_type_spec c =
     (if c = NUL \<or> c = CHR ''s'' then Inr True
      else if c \<noteq> CHR ''p'' then on_error ''invalid type specifier''
      else Inr False)"

definition check_string_type_spec :: "char \<Rightarrow> unit fmt_result" where
  "check_string_type_spec c =
     (if c \<noteq> NUL \<and> c \<noteq> CHR ''s'' then on_error ''invalid type specifier'' else Inr ())"

definition check_pointer_type_spec :: "char \<Rightarrow> unit fmt_result" where
  "check_pointer_type_spec c =
     (if c \<noteq> NUL \<and> c \<noteq> CHR ''p'' then on_error ''invalid type specifier'' else Inr ())"

lemmas check_defs = check_int_type_spec_def check_char_specs_def check_cstring_type_spec_def
  check_string_type_spec_def check_pointer_type_spec_def

section \<open>Integers\<close>

text \<open>
  The prefix holds up to three characters in its lower bytes, the first one lowest, and their
  number in the upper one.
\<close>

fun sign_value :: "sign_t \<Rightarrow> nat" where
  "sign_value Sign_none = 0"
| "sign_value Sign_minus = 1"
| "sign_value Sign_plus = 2"
| "sign_value Sign_space = 3"

definition prefixes :: "u32 list" where
  "prefixes = [0, 0, 0x1000000 OR 43, 0x1000000 OR 32]"

definition prefix_size :: "u32 \<Rightarrow> nat" where
  "prefix_size pre = unat (drop_bit 24 pre)"

fun prefix_chars_loop :: "nat \<Rightarrow> string" where
  "prefix_chars_loop p = (if p = 0 then [] else char_of (p mod 256) # prefix_chars_loop (p div 256))"

declare prefix_chars_loop.simps [simp del]

definition prefix_chars :: "u32 \<Rightarrow> string" where
  "prefix_chars pre = prefix_chars_loop (unat (pre AND 0xffffff))"

definition prefix_append :: "u32 \<Rightarrow> u32 \<Rightarrow> u32" where
  "prefix_append pre v =
     (pre OR (if pre \<noteq> 0 then push_bit 8 v else v)) +
       push_bit 24 (1 + (if 0xff < v then 1 else 0))"

definition make_write_int_arg :: "bool \<Rightarrow> 'a::len word \<Rightarrow> sign_t \<Rightarrow> 'a word \<times> u32" where
  "make_write_int_arg is_signed v sign =
     (if is_signed \<and> v <s 0 then (0 - v, 0x01000000 OR 45)
      else (v, prefixes ! sign_value sign))"

text \<open>\<^verbatim>\<open>write_int_data\<close>: the size and the zeros.\<close>

definition write_int_data :: "nat \<Rightarrow> u32 \<Rightarrow> format_specs \<Rightarrow> nat \<times> nat" where
  "write_int_data num_digits pre sp =
     (let n = prefix_size pre + num_digits
      in if sp_align sp = Align_numeric then
           (if n < nat (sp_width sp) then (nat (sp_width sp), nat (sp_width sp) - n) else (n, 0))
         else if int num_digits < sp_precision sp then
           (prefix_size pre + nat (sp_precision sp), nat (sp_precision sp - int num_digits))
         else (n, 0))"

definition write_int_padded :: "nat \<Rightarrow> u32 \<Rightarrow> format_specs \<Rightarrow> string \<Rightarrow> string" where
  "write_int_padded num_digits pre sp digits =
     (if sp_width sp OR (sp_precision sp + 1) = 0 then
        (if pre \<noteq> 0 then prefix_chars pre else []) @ digits
      else
        let (n, padding) = write_int_data num_digits pre sp
        in write_padded Align_right sp n
             (prefix_chars pre @ replicate padding (CHR ''0'') @ digits))"

text \<open>The digits, counted by the overload for the width and written into a buffer of the library.\<close>

definition digits10 :: "nat \<Rightarrow> nat" where
  "digits10 w = (if w = 32 then 9 else if w = 64 then 19 else 38)"

definition count_digits :: "'a::len word \<Rightarrow> nat" where
  "count_digits v =
     (if LENGTH('a) = 32 then count_digits32 (ucast v)
      else if LENGTH('a) = 64 then count_digits64 (ucast v)
      else count_digits_fallback (unat v))"

definition defined :: "'a option \<Rightarrow> 'a fmt_result" where
  "defined r = (case r of None \<Rightarrow> Inl Undefined | Some x \<Rightarrow> Inr x)"

definition decimal_text :: "'a::len word \<Rightarrow> nat \<Rightarrow> string fmt_result" where
  "decimal_text v num_digits =
     defined (map_option (\<lambda>(buf, begin, stop). take stop buf)
       (format_decimal (replicate (digits10 LENGTH('a) + 1) NUL) (unat v) num_digits))"

definition uint_text :: "nat \<Rightarrow> bool \<Rightarrow> 'a::len word \<Rightarrow> nat \<Rightarrow> string fmt_result" where
  "uint_text base_bits upper v num_digits =
     defined (format_uint base_bits upper (replicate num_digits NUL) (unat v) num_digits)"

section \<open>Digits in groups\<close>

text \<open>
  \<^verbatim>\<open>write_int_localized\<close>: the groups are signed characters, of which one that is not positive or
  is the largest ends the grouping, and the last one repeats; the digits, the separators and the
  sign are put into a buffer from its end.  With no separator nothing is grouped.
\<close>

type_synonym numpunct = "string \<times> char"

definition group_size :: "char \<Rightarrow> int" where
  "group_size c = sint (of_nat (byte c) :: u8)"

definition group_stops :: "char \<Rightarrow> bool" where
  "group_stops c \<longleftrightarrow> group_size c \<le> 0 \<or> group_size c = 127"

fun group_separators :: "string \<Rightarrow> nat \<Rightarrow> nat \<Rightarrow> nat \<times> nat \<times> bool" where
  "group_separators [] n sz = (n, sz, True)"
| "group_separators (g # gs) n sz =
     (if group_size g < int n \<and> \<not> group_stops g
      then group_separators gs (n - nat (group_size g)) (sz + 1)
      else (n, sz, False))"

definition localized_size :: "string \<Rightarrow> nat \<Rightarrow> nat" where
  "localized_size groups num_digits =
     (let (n, sz, at_end) = group_separators groups num_digits num_digits
      in if at_end then sz + (n - 1) div nat (group_size (last groups)) else sz)"

fun localized_loop ::
  "char \<Rightarrow> string \<Rightarrow> nat \<Rightarrow> string \<Rightarrow> string \<times> nat \<Rightarrow> (string \<times> nat) option" where
  "localized_loop sep groups digit_index [] bp = Some bp"
| "localized_loop sep groups digit_index (d # ds) bp =
     Option.bind (put_before [d] bp) (\<lambda>bp.
       if group_size (hd groups) \<le> 0 then localized_loop sep groups digit_index ds bp
       else if int (digit_index + 1) mod group_size (hd groups) \<noteq> 0 \<or> group_size (hd groups) = 127
       then localized_loop sep groups (digit_index + 1) ds bp
       else
         Option.bind (put_before [sep] bp)
           (if tl groups \<noteq> [] then localized_loop sep (tl groups) 0 ds
            else localized_loop sep groups (digit_index + 1) ds))"

definition localized_text :: "numpunct \<Rightarrow> 'a::len word \<Rightarrow> u32 \<Rightarrow> string fmt_result" where
  "localized_text np v pre =
     (let (groups, sep) = np;
          num_digits = count_digits v;
          usize = localized_size groups num_digits + (if pre \<noteq> 0 then 1 else 0)
      in and_then (decimal_text v num_digits) (\<lambda>digits.
           defined (Option.bind
             (localized_loop sep groups 0 (rev (tl digits)) (replicate usize NUL, usize)) (\<lambda>bp.
              Option.bind (put_before [hd digits] bp) (\<lambda>bp.
              map_option fst
                (if pre \<noteq> 0 then put_before [char_of (unat pre mod 256)] bp else Some bp))))))"

section \<open>The writer of integers\<close>

definition write_int_digits :: "numpunct \<Rightarrow> 'a::len word \<Rightarrow> u32 \<Rightarrow> format_specs \<Rightarrow> string fmt_result" where
  "write_int_digits np v pre sp =
     (let c = sp_type sp;
          alt_prefix = (\<lambda>pre. if sp_alt sp then prefix_append pre (push_bit 8 (of_nat (byte c)) OR 48) else pre)
      in if c = NUL \<or> c = CHR ''d'' then
           if sp_localized sp \<and> snd np \<noteq> NUL then
             and_then (localized_text np v pre) (\<lambda>t.
               Inr (write_padded Align_right sp (length t) t))
           else
             let num_digits = count_digits v
             in and_then (decimal_text v num_digits) (\<lambda>digits.
                  Inr (write_int_padded num_digits pre sp digits))
         else if c = CHR ''x'' \<or> c = CHR ''X'' then
           let num_digits = count_digits_base 4 v
           in and_then (uint_text 4 (c \<noteq> CHR ''x'') v num_digits) (\<lambda>digits.
                Inr (write_int_padded num_digits (alt_prefix pre) sp digits))
         else if c = CHR ''b'' \<or> c = CHR ''B'' then
           let num_digits = count_digits_base 1 v
           in and_then (uint_text 1 False v num_digits) (\<lambda>digits.
                Inr (write_int_padded num_digits (alt_prefix pre) sp digits))
         else if c = CHR ''o'' then
           let num_digits = count_digits_base 3 v;
               pre = (if sp_alt sp \<and> sp_precision sp \<le> int num_digits \<and> v \<noteq> 0
                      then prefix_append pre 48 else pre)
           in and_then (uint_text 3 False v num_digits) (\<lambda>digits.
                Inr (write_int_padded num_digits pre sp digits))
         else if c = CHR ''c'' then Inr (write_char sp (char_of (unat v mod 256)))
         else on_error ''invalid type specifier'')"

definition write_int :: "numpunct \<Rightarrow> bool \<Rightarrow> 'a::len word \<Rightarrow> format_specs \<Rightarrow> string fmt_result" where
  "write_int np is_signed v sp =
     (let (abs_value, pre) = make_write_int_arg is_signed v (sp_sign sp)
      in write_int_digits np abs_value pre sp)"

text \<open>Without specifiers.\<close>

definition write_int_default :: "bool \<Rightarrow> 'a::len word \<Rightarrow> string fmt_result" where
  "write_int_default is_signed v =
     (let negative = is_signed \<and> v <s 0;
          abs_value = (if negative then NOT v + 1 else v)
      in and_then (decimal_text abs_value (count_digits abs_value)) (\<lambda>digits.
           Inr ((if negative then ''-'' else []) @ digits)))"

section \<open>Widths of strings\<close>

text \<open>
  \<^verbatim>\<open>utf8_decode\<close>: a character is four bytes of which those after its end are shifted out; the
  code point, the errors and the length.
\<close>

definition utf8_masks :: "u32 list" where "utf8_masks = [0x00, 0x7f, 0x1f, 0x0f, 0x07]"
definition utf8_mins :: "u32 list" where "utf8_mins = [4194304, 0, 128, 2048, 65536]"
definition utf8_shiftc :: "nat list" where "utf8_shiftc = [0, 18, 12, 6, 0]"
definition utf8_shifte :: "nat list" where "utf8_shifte = [0, 6, 4, 2, 0]"

definition utf8_decode :: "char \<Rightarrow> char \<Rightarrow> char \<Rightarrow> char \<Rightarrow> u32 \<times> u32 \<times> nat" where
  "utf8_decode s0 s1 s2 s3 =
     (let b = (\<lambda>s. of_nat (byte s)) :: char \<Rightarrow> u32;
          flag = (\<lambda>p. if p then 1 else 0) :: bool \<Rightarrow> u32;
          len = code_point_length s0;
          c = push_bit 18 (b s0 AND utf8_masks ! len) OR push_bit 12 (b s1 AND 0x3f) OR
              push_bit 6 (b s2 AND 0x3f) OR (b s3 AND 0x3f);
          c = drop_bit (utf8_shiftc ! len) c;
          e = push_bit 6 (flag (c < utf8_mins ! len)) OR
              push_bit 7 (flag (drop_bit 11 c = 0x1b)) OR
              push_bit 8 (flag (0x10FFFF < c)) OR
              drop_bit 2 (b s1 AND 0xc0) OR drop_bit 4 (b s2 AND 0xc0) OR drop_bit 6 (b s3);
          e = drop_bit (utf8_shifte ! len) (e XOR 0x2a)
      in (c, e, len))"

text \<open>\<^verbatim>\<open>for_each_codepoint\<close>, which pads the last three bytes with zeros.\<close>

definition decode_at :: "string \<Rightarrow> nat \<Rightarrow> u32 \<times> u32 \<times> nat" where
  "decode_at buf k = utf8_decode (buf ! k) (buf ! (k + 1)) (buf ! (k + 2)) (buf ! (k + 3))"

lemma decode_at_length: "decode_at buf k = (c, e, len) \<Longrightarrow> 1 \<le> len \<and> len \<le> 4"
  using code_point_length_bounds [of "buf ! k"] by (auto simp: decode_at_def utf8_decode_def Let_def)

function codepoints_tail :: "string \<Rightarrow> nat \<Rightarrow> nat \<Rightarrow> (u32 \<times> u32) list" where
  "codepoints_tail buf k n =
     (let (c, e, len) = decode_at buf k
      in (c, e) # (if k + len < n then codepoints_tail buf (k + len) n else []))"
  by pat_completeness auto
termination
  by (relation "measure (\<lambda>(buf, k, n). n - k)") (auto dest!: decode_at_length [OF sym])

declare codepoints_tail.simps [simp del]

function for_each_codepoint :: "string \<Rightarrow> (u32 \<times> u32) list" where
  "for_each_codepoint s =
     (if 4 \<le> length s then
        let (c, e, len) = decode_at s 0 in (c, e) # for_each_codepoint (drop len s)
      else if s \<noteq> [] then codepoints_tail (s @ replicate (7 - length s) NUL) 0 (length s)
      else [])"
  by pat_completeness auto
termination
  by (relation "measure length") (auto dest!: decode_at_length [OF sym])

declare for_each_codepoint.simps [simp del]

definition is_wide :: "u32 \<Rightarrow> bool" where
  "is_wide cp \<longleftrightarrow>
     0x1100 \<le> cp \<and>
     (cp \<le> 0x115f \<or> cp = 0x2329 \<or> cp = 0x232a \<or> 0x2e80 \<le> cp \<and> cp \<le> 0xa4cf \<and> cp \<noteq> 0x303f \<or>
      0xac00 \<le> cp \<and> cp \<le> 0xd7a3 \<or> 0xf900 \<le> cp \<and> cp \<le> 0xfaff \<or> 0xfe10 \<le> cp \<and> cp \<le> 0xfe19 \<or>
      0xfe30 \<le> cp \<and> cp \<le> 0xfe6f \<or> 0xff00 \<le> cp \<and> cp \<le> 0xff60 \<or> 0xffe0 \<le> cp \<and> cp \<le> 0xffe6 \<or>
      0x20000 \<le> cp \<and> cp \<le> 0x2fffd \<or> 0x30000 \<le> cp \<and> cp \<le> 0x3fffd \<or>
      0x1f300 \<le> cp \<and> cp \<le> 0x1f64f \<or> 0x1f900 \<le> cp \<and> cp \<le> 0x1f9ff)"

definition compute_width :: "string \<Rightarrow> nat" where
  "compute_width s =
     (\<Sum>(cp, error) \<leftarrow> for_each_codepoint s. 1 + (if error = 0 \<and> is_wide cp then 1 else 0))"

definition code_point_index :: "string \<Rightarrow> nat \<Rightarrow> nat" where
  "code_point_index s n = (if n < length s then n else length s)"

section \<open>The writers of the other values\<close>

definition write_string :: "format_specs \<Rightarrow> string \<Rightarrow> string" where
  "write_string sp s =
     (let sz = (if 0 \<le> sp_precision sp \<and> nat (sp_precision sp) < length s
                  then code_point_index s (nat (sp_precision sp)) else length s);
          width = (if sp_width sp \<noteq> 0 then compute_width (take sz s) else 0)
      in write_padded Align_left sp width (take sz s))"

definition write_string_checked :: "format_specs \<Rightarrow> string \<Rightarrow> string fmt_result" where
  "write_string_checked sp s = and_then (check_string_type_spec (sp_type sp)) (\<lambda>_. Inr (write_string sp s))"

definition write_ptr :: "format_specs \<Rightarrow> u64 \<Rightarrow> string fmt_result" where
  "write_ptr sp v =
     (let num_digits = count_digits_base 4 v
      in and_then (uint_text 4 False v num_digits) (\<lambda>digits.
           Inr (write_padded Align_right sp (num_digits + 2) (''0x'' @ digits))))"

definition write_bool :: "numpunct \<Rightarrow> format_specs \<Rightarrow> bool \<Rightarrow> string fmt_result" where
  "write_bool np sp v =
     (if sp_type sp \<noteq> NUL \<and> sp_type sp \<noteq> CHR ''s''
      then write_int np True (if v then 1 else 0 :: u32) sp
      else Inr (write_bytes sp (if v then ''true'' else ''false'')))"

definition write_char_checked :: "numpunct \<Rightarrow> format_specs \<Rightarrow> char \<Rightarrow> string fmt_result" where
  "write_char_checked np sp c =
     and_then (check_char_specs sp) (\<lambda>as_char.
       if as_char then Inr (write_char sp c)
       else write_int np True (scast (of_nat (byte c) :: u8) :: u32) sp)"

definition write_cstring :: "format_specs \<Rightarrow> (u64 \<times> string) option \<Rightarrow> string fmt_result" where
  "write_cstring sp v =
     and_then (check_cstring_type_spec (sp_type sp)) (\<lambda>as_string.
       if as_string
       then (case v of None \<Rightarrow> Inl Undefined | Some (_, s) \<Rightarrow> write_string_checked sp s)
       else write_ptr sp (case v of None \<Rightarrow> 0 | Some (a, _) \<Rightarrow> a))"

text \<open>\<^verbatim>\<open>arg_formatter\<close>.\<close>

fun write_value :: "numpunct \<Rightarrow> format_specs \<Rightarrow> fmt_value \<Rightarrow> string fmt_result" where
  "write_value np sp (V_int v) = write_int np True v sp"
| "write_value np sp (V_uint v) = write_int np False v sp"
| "write_value np sp (V_long_long v) = write_int np True v sp"
| "write_value np sp (V_ulong_long v) = write_int np False v sp"
| "write_value np sp (V_int128 v) = write_int np True v sp"
| "write_value np sp (V_uint128 v) = write_int np False v sp"
| "write_value np sp (V_bool v) = write_bool np sp v"
| "write_value np sp (V_char c) = write_char_checked np sp c"
| "write_value np sp (V_cstring v) = write_cstring sp v"
| "write_value np sp (V_string s) = write_string_checked sp s"
| "write_value np sp (V_pointer v) =
     and_then (check_pointer_type_spec (sp_type sp)) (\<lambda>_. write_ptr sp v)"

text \<open>\<^verbatim>\<open>default_arg_formatter\<close>.\<close>

fun write_default :: "fmt_value \<Rightarrow> string fmt_result" where
  "write_default (V_int v) = write_int_default True v"
| "write_default (V_uint v) = write_int_default False v"
| "write_default (V_long_long v) = write_int_default True v"
| "write_default (V_ulong_long v) = write_int_default False v"
| "write_default (V_int128 v) = write_int_default True v"
| "write_default (V_uint128 v) = write_int_default False v"
| "write_default (V_bool v) = write_bool ([], NUL) specs_new v"
| "write_default (V_char c) = Inr [c]"
| "write_default (V_cstring v) =
     (case v of None \<Rightarrow> on_error ''string pointer is null'' | Some (_, s) \<Rightarrow> Inr s)"
| "write_default (V_string s) = Inr s"
| "write_default (V_pointer v) =
     and_then (check_pointer_type_spec (sp_type specs_new)) (\<lambda>_. write_ptr specs_new v)"

end
