(* ===== verification/Fmt_Format.thy ===== *)
theory Fmt_Format
  imports Fmt_Parse Fmt_Write
begin

text \<open>
  Formatting a format string with its arguments (\<^verbatim>\<open>vformat_to\<close> of \<^verbatim>\<open>fmt/bundled/format.h\<close>), and
  the check of the same string that C++20 runs when a program is compiled (\<^verbatim>\<open>format_string_checker\<close>
  of \<^verbatim>\<open>fmt/bundled/core.h\<close>).  The state of a handler is what it has written and the counter of
  arguments.
\<close>

section \<open>Arguments\<close>

text \<open>
  \<^verbatim>\<open>format_arg_store\<close> and \<^verbatim>\<open>basic_format_args\<close>: the descriptor packs the types of up to fifteen
  arguments in four bits each; with more of them it holds their number and each argument carries its
  type.
\<close>

record format_args =
  fa_desc :: u64
  fa_values :: "fmt_value list"
  fa_named :: "(string \<times> int) list"

definition packed_arg_bits :: nat where "packed_arg_bits = 4"
definition max_packed_args :: nat where "max_packed_args = 62 div packed_arg_bits"
definition is_unpacked_bit :: u64 where "is_unpacked_bit = push_bit 63 1"
definition has_named_args_bit :: u64 where "has_named_args_bit = push_bit 62 1"

primrec encode_types :: "arg_type list \<Rightarrow> u64" where
  "encode_types [] = 0"
| "encode_types (t # ts) = of_nat (arg_type_value t) OR push_bit packed_arg_bits (encode_types ts)"

fun init_named_args :: "int \<Rightarrow> (string option \<times> fmt_value) list \<Rightarrow> (string \<times> int) list" where
  "init_named_args i [] = []"
| "init_named_args i ((None, v) # args) = init_named_args (i + 1) args"
| "init_named_args i ((Some name, v) # args) = (name, i) # init_named_args (i + 1) args"

definition make_format_args :: "(string option \<times> fmt_value) list \<Rightarrow> format_args" where
  "make_format_args args =
     (let named = init_named_args 0 args
      in \<lparr>fa_desc =
           (if length args \<le> max_packed_args then encode_types (map (value_type \<circ> snd) args)
            else is_unpacked_bit OR of_nat (length args)) OR
           (if named \<noteq> [] then has_named_args_bit else 0),
         fa_values = map snd args, fa_named = named\<rparr>)"

definition is_packed :: "format_args \<Rightarrow> bool" where
  "is_packed fa \<longleftrightarrow> fa_desc fa AND is_unpacked_bit = 0"

definition has_named_args :: "format_args \<Rightarrow> bool" where
  "has_named_args fa \<longleftrightarrow> fa_desc fa AND has_named_args_bit \<noteq> 0"

definition fa_type :: "format_args \<Rightarrow> nat \<Rightarrow> arg_type" where
  "fa_type fa i = arg_types ! unat (drop_bit (i * packed_arg_bits) (fa_desc fa) AND mask packed_arg_bits)"

definition fa_max_size :: "format_args \<Rightarrow> int" where
  "fa_max_size fa =
     (if is_packed fa then int max_packed_args
      else sint (ucast (fa_desc fa AND NOT is_unpacked_bit) :: u32))"

text \<open>\<^verbatim>\<open>get\<close>, by number and by name, and \<^verbatim>\<open>get_id\<close>.\<close>

definition fa_get :: "format_args \<Rightarrow> int \<Rightarrow> fmt_value option" where
  "fa_get fa i =
     (if \<not> is_packed fa then (if i < fa_max_size fa then Some (fa_values fa ! nat i) else None)
      else if int max_packed_args \<le> i then None
      else if fa_type fa (nat i) = None_type then None
      else Some (fa_values fa ! nat i))"

definition fa_get_id :: "format_args \<Rightarrow> string \<Rightarrow> int" where
  "fa_get_id fa name =
     (if \<not> has_named_args fa then -1
      else case map_of (fa_named fa) name of None \<Rightarrow> -1 | Some i \<Rightarrow> i)"

definition fa_get_named :: "format_args \<Rightarrow> string \<Rightarrow> fmt_value option" where
  "fa_get_named fa name = (let i = fa_get_id fa name in if 0 \<le> i then fa_get fa i else None)"

section \<open>The counter of arguments\<close>

definition next_arg_id :: "int \<Rightarrow> (int \<times> int) fmt_result" where
  "next_arg_id n =
     (if 0 \<le> n then Inr (n, n + 1)
      else on_error ''cannot switch from manual to automatic argument indexing'')"

definition check_arg_id :: "int \<Rightarrow> int fmt_result" where
  "check_arg_id n =
     (if 0 < n then on_error ''cannot switch from automatic to manual argument indexing''
      else Inr (-1))"

text \<open>\<^verbatim>\<open>compile_parse_context\<close> also compares the number with that of the arguments.\<close>

definition compile_next_arg_id :: "nat \<Rightarrow> int \<Rightarrow> (int \<times> int) fmt_result" where
  "compile_next_arg_id num_args n =
     and_then (next_arg_id n) (\<lambda>(i, n).
       if int num_args \<le> i then on_error ''argument not found'' else Inr (i, n))"

definition compile_check_arg_id :: "nat \<Rightarrow> int \<Rightarrow> int \<Rightarrow> int fmt_result" where
  "compile_check_arg_id num_args i n =
     and_then (check_arg_id n) (\<lambda>n.
       if int num_args \<le> i then on_error ''argument not found'' else Inr n)"

section \<open>Handlers of specifiers\<close>

text \<open>\<^verbatim>\<open>specs_checker\<close>: the specifiers must suit the type of the argument.\<close>

definition require_numeric_argument :: "arg_type \<Rightarrow> 's \<Rightarrow> 's fmt_result" where
  "require_numeric_argument t st =
     (if \<not> is_arithmetic_type t then on_error ''format specifier requires numeric argument''
      else Inr st)"

definition specs_checker :: "arg_type \<Rightarrow> 's spec_handler \<Rightarrow> 's spec_handler" where
  "specs_checker t h = h\<lparr>
     on_align := (\<lambda>a st. and_then (if a = Align_numeric then require_numeric_argument t st else Inr st)
       (on_align h a)),
     on_sign := (\<lambda>s st. and_then (require_numeric_argument t st) (\<lambda>st.
       if is_integral_type t \<and> t \<noteq> Int_type \<and> t \<noteq> Long_long_type \<and> t \<noteq> Char_type
       then on_error ''format specifier requires signed argument''
       else on_sign h s st)),
     on_hash := (\<lambda>st. and_then (require_numeric_argument t st) (on_hash h)),
     on_localized := (\<lambda>st. and_then (require_numeric_argument t st) (on_localized h)),
     on_zero := (\<lambda>st. and_then (require_numeric_argument t st) (on_zero h)),
     end_precision := (\<lambda>st.
       if is_integral_type t \<or> t = Pointer_type
       then on_error ''precision not allowed for this argument type''
       else Inr st)\<rparr>"

text \<open>The operations of \<^verbatim>\<open>specs_setter\<close>, with those for dynamic widths and precisions to be given; the
  state is the counter and the specifiers.\<close>

definition on_specs :: "(format_specs \<Rightarrow> format_specs) \<Rightarrow> int \<times> format_specs \<Rightarrow> (int \<times> format_specs) fmt_result" where
  "on_specs f st = Inr (fst st, f (snd st))"

definition specs_setter ::
  "(arg_id \<Rightarrow> int \<times> format_specs \<Rightarrow> (int \<times> format_specs) fmt_result) \<Rightarrow>
   (arg_id \<Rightarrow> int \<times> format_specs \<Rightarrow> (int \<times> format_specs) fmt_result) \<Rightarrow>
   (int \<times> format_specs) spec_handler" where
  "specs_setter dynamic_width dynamic_precision =
     \<lparr>on_align = (\<lambda>a. on_specs (set_align a)),
      on_fill = (\<lambda>t st. and_then (set_fill t (snd st)) (\<lambda>sp. Inr (fst st, sp))),
      on_sign = (\<lambda>s. on_specs (set_sign s)),
      on_hash = on_specs set_hash,
      on_zero = on_specs set_zero,
      on_localized = on_specs set_localized,
      on_width = (\<lambda>w. on_specs (set_width w)),
      on_dynamic_width = dynamic_width,
      on_precision = (\<lambda>p. on_specs (set_precision p)),
      on_dynamic_precision = dynamic_precision,
      end_precision = Inr,
      on_type = (\<lambda>c. on_specs (set_type c))\<rparr>"

text \<open>\<^verbatim>\<open>specs_handler\<close> looks the width up at once.\<close>

definition get_arg :: "fmt_value option \<Rightarrow> fmt_value fmt_result" where
  "get_arg arg = (case arg of None \<Rightarrow> on_error ''argument not found'' | Some v \<Rightarrow> Inr v)"

definition get_dynamic_arg :: "format_args \<Rightarrow> arg_id \<Rightarrow> int \<Rightarrow> (fmt_value \<times> int) fmt_result" where
  "get_dynamic_arg fa i n =
     (case i of
        Id_auto \<Rightarrow> and_then (next_arg_id n) (\<lambda>(i, n). and_then (get_arg (fa_get fa i)) (\<lambda>v. Inr (v, n)))
      | Id_index i \<Rightarrow> and_then (check_arg_id n) (\<lambda>n. and_then (get_arg (fa_get fa i)) (\<lambda>v. Inr (v, n)))
      | Id_name name \<Rightarrow> and_then (get_arg (fa_get_named fa name)) (\<lambda>v. Inr (v, n)))"

text \<open>\<^verbatim>\<open>width_checker\<close> and \<^verbatim>\<open>precision_checker\<close>, which differ in their messages: a value that is not
  negative is cast to \<^verbatim>\<open>unsigned long long\<close>.\<close>

definition checked_value :: "string \<Rightarrow> bool \<Rightarrow> 'a::len word \<Rightarrow> u64 fmt_result" where
  "checked_value what is_signed v =
     (if is_signed \<and> v <s 0 then on_error (''negative '' @ what) else Inr (ucast v))"

fun dynamic_value :: "string \<Rightarrow> fmt_value \<Rightarrow> u64 fmt_result" where
  "dynamic_value what (V_int v) = checked_value what True v"
| "dynamic_value what (V_uint v) = checked_value what False v"
| "dynamic_value what (V_long_long v) = checked_value what True v"
| "dynamic_value what (V_ulong_long v) = checked_value what False v"
| "dynamic_value what (V_int128 v) = checked_value what True v"
| "dynamic_value what (V_uint128 v) = checked_value what False v"
| "dynamic_value what _ = on_error (what @ '' is not integer'')"

definition get_dynamic_spec :: "string \<Rightarrow> fmt_value \<Rightarrow> int fmt_result" where
  "get_dynamic_spec what v =
     and_then (dynamic_value what v) (\<lambda>n.
       if int_max < uint n then on_error ''number is too big'' else Inr (uint n))"

definition on_dynamic ::
  "format_args \<Rightarrow> string \<Rightarrow> (int \<Rightarrow> format_specs \<Rightarrow> format_specs) \<Rightarrow> arg_id \<Rightarrow>
    int \<times> format_specs \<Rightarrow> (int \<times> format_specs) fmt_result" where
  "on_dynamic fa what put i st =
     and_then (get_dynamic_arg fa i (fst st)) (\<lambda>(v, n).
     and_then (get_dynamic_spec what v) (\<lambda>w. Inr (n, put w (snd st))))"

definition specs_handler :: "format_args \<Rightarrow> (int \<times> format_specs) spec_handler" where
  "specs_handler fa =
     specs_setter (on_dynamic fa ''width'' set_width) (on_dynamic fa ''precision'' set_precision)"

text \<open>\<^verbatim>\<open>dynamic_specs_handler\<close> only checks the number of the argument, and keeps it for later; the check
  when compiling never reads it, and it is left out of the state.\<close>

definition compile_dynamic ::
  "nat \<Rightarrow> arg_id \<Rightarrow> int \<times> format_specs \<Rightarrow> (int \<times> format_specs) fmt_result" where
  "compile_dynamic num_args i st =
     (case i of
        Id_auto \<Rightarrow> and_then (compile_next_arg_id num_args (fst st)) (\<lambda>(_, n). Inr (n, snd st))
      | Id_index i \<Rightarrow> and_then (compile_check_arg_id num_args i (fst st)) (\<lambda>n. Inr (n, snd st))
      | Id_name _ \<Rightarrow> Inr st)"

definition dynamic_specs_handler :: "nat \<Rightarrow> (int \<times> format_specs) spec_handler" where
  "dynamic_specs_handler num_args = specs_setter (compile_dynamic num_args) (compile_dynamic num_args)"

section \<open>Formatting\<close>

record run_state =
  rs_out :: string
  rs_next :: int

definition put_out :: "string \<Rightarrow> run_state \<Rightarrow> run_state" where
  "put_out t st = st\<lparr>rs_out := rs_out st @ t\<rparr>"

definition run_arg_id :: "format_args \<Rightarrow> arg_id \<Rightarrow> run_state \<Rightarrow> (int \<times> run_state) fmt_result" where
  "run_arg_id fa i st =
     (case i of
        Id_auto \<Rightarrow> and_then (next_arg_id (rs_next st)) (\<lambda>(i, n). Inr (i, st\<lparr>rs_next := n\<rparr>))
      | Id_index i \<Rightarrow> and_then (check_arg_id (rs_next st)) (\<lambda>n. Inr (i, st\<lparr>rs_next := n\<rparr>))
      | Id_name name \<Rightarrow>
          let i = fa_get_id fa name
          in if i < 0 then on_error ''argument not found'' else Inr (i, st))"

definition run_field :: "format_args \<Rightarrow> int \<Rightarrow> run_state \<Rightarrow> run_state fmt_result" where
  "run_field fa i st =
     and_then (get_arg (fa_get fa i)) (\<lambda>v.
     and_then (write_default v) (\<lambda>t. Inr (put_out t st)))"

definition run_specs ::
  "numpunct \<Rightarrow> format_args \<Rightarrow> int \<Rightarrow> string \<Rightarrow> run_state \<Rightarrow> (string \<times> run_state) fmt_result" where
  "run_specs np fa i s st =
     and_then (get_arg (fa_get fa i)) (\<lambda>v.
     and_then (parse_format_specs (specs_checker (value_type v) (specs_handler fa)) s (rs_next st, specs_new))
       (\<lambda>(r, n, sp).
       if r = [] \<or> hd r \<noteq> CHR ''}'' then on_error (''missing '' @ quoted ''}'' @ '' in format string'')
       else and_then (write_value np sp v) (\<lambda>t. Inr (r, put_out t (st\<lparr>rs_next := n\<rparr>)))))"

definition format_handler :: "numpunct \<Rightarrow> format_args \<Rightarrow> run_state format_handler" where
  "format_handler np fa =
     \<lparr>on_text = (\<lambda>t st. Inr (put_out t st)),
      on_arg_id = run_arg_id fa,
      on_replacement_field = run_field fa,
      on_format_specs = run_specs np fa\<rparr>"

definition vformat_to :: "numpunct \<Rightarrow> string \<Rightarrow> string \<Rightarrow> format_args \<Rightarrow> string fmt_result" where
  "vformat_to np buf fmt fa =
     (if length fmt = 2 \<and> fmt = ''{}'' then
        and_then (get_arg (fa_get fa 0)) (\<lambda>v.
        and_then (write_default v) (\<lambda>t. Inr (buf @ t)))
      else
        and_then (parse_format_string (format_handler np fa) fmt \<lparr>rs_out = buf, rs_next = 0\<rparr>) (\<lambda>st.
          Inr (rs_out st)))"

definition vformat :: "numpunct \<Rightarrow> string \<Rightarrow> format_args \<Rightarrow> string fmt_result" where
  "vformat np fmt fa = vformat_to np [] fmt fa"

section \<open>The check when compiling\<close>

definition check_float_type_spec :: "char \<Rightarrow> unit fmt_result" where
  "check_float_type_spec c =
     (if c \<in> set (NUL # ''GgEeFfAa'') then Inr () else on_error ''invalid type specifier'')"

definition check_type_spec :: "arg_type \<Rightarrow> format_specs \<Rightarrow> unit fmt_result" where
  "check_type_spec t sp =
     (let ignore = (\<lambda>r. and_then r (\<lambda>_. Inr ()));
          c = sp_type sp
      in case t of
           None_type \<Rightarrow> Inl Undefined
         | Bool_type \<Rightarrow> if c = NUL \<or> c = CHR ''s'' then Inr () else check_int_type_spec c
         | Char_type \<Rightarrow> ignore (check_char_specs sp)
         | Float_type \<Rightarrow> check_float_type_spec c
         | Double_type \<Rightarrow> check_float_type_spec c
         | Long_double_type \<Rightarrow> check_float_type_spec c
         | Cstring_type \<Rightarrow> ignore (check_cstring_type_spec c)
         | String_type \<Rightarrow> check_string_type_spec c
         | Pointer_type \<Rightarrow> check_pointer_type_spec c
         | Custom_type \<Rightarrow> Inr ()
         | _ \<Rightarrow> check_int_type_spec c)"

text \<open>\<^verbatim>\<open>parse\<close> of the formatter of a built-in type.\<close>

definition formatter_parse :: "arg_type \<Rightarrow> nat \<Rightarrow> string \<Rightarrow> int \<Rightarrow> (string \<times> int) fmt_result" where
  "formatter_parse t num_args s n =
     (if s = [] then Inr (s, n)
      else
        and_then (parse_format_specs (specs_checker t (dynamic_specs_handler num_args)) s (n, specs_new))
          (\<lambda>(r, n, sp). and_then (check_type_spec t sp) (\<lambda>_. Inr (r, n))))"

definition compile_arg_id :: "arg_type list \<Rightarrow> arg_id \<Rightarrow> int \<Rightarrow> (int \<times> int) fmt_result" where
  "compile_arg_id types i n =
     (case i of
        Id_auto \<Rightarrow> compile_next_arg_id (length types) n
      | Id_index i \<Rightarrow> and_then (compile_check_arg_id (length types) i n) (\<lambda>n. Inr (i, n))
      | Id_name _ \<Rightarrow> on_error ''named argument is not found'')"

definition format_string_checker :: "arg_type list \<Rightarrow> int format_handler" where
  "format_string_checker types =
     \<lparr>on_text = (\<lambda>t n. Inr n),
      on_arg_id = compile_arg_id types,
      on_replacement_field = (\<lambda>i n. Inr n),
      on_format_specs = (\<lambda>i s n.
        if 0 \<le> i \<and> i < int (length types) then formatter_parse (types ! nat i) (length types) s n
        else Inr (s, n))\<rparr>"

definition check_format_string :: "arg_type list \<Rightarrow> string \<Rightarrow> unit fmt_result" where
  "check_format_string types fmt =
     and_then (parse_format_string (format_string_checker types) fmt 0) (\<lambda>_. Inr ())"

end
