(* ===== verification/Fmt_Write_Props.thy ===== *)
theory Fmt_Write_Props
  imports Fmt_Write
begin

text \<open>
  What the writers of the formatting library write: integers of every width in every base, their
  sign and prefix and the padding around them, groups of digits, and the width of strings.
\<close>

section \<open>The digits\<close>

lemma count_digits_eq: "count_digits (v :: 'a::len word) = length (show_nat (unat v))"
proof -
  have "unat (ucast v :: u32) = unat v" if "LENGTH('a) = 32"
    using that unsigned_less [of v, where ?'a = nat] by (simp add: unsigned_ucast_eq take_bit_nat_eq_self)
  moreover have "unat (ucast v :: u64) = unat v" if "LENGTH('a) = 64"
    using that unsigned_less [of v, where ?'a = nat] by (simp add: unsigned_ucast_eq take_bit_nat_eq_self)
  ultimately show ?thesis
    by (simp add: count_digits_def count_digits32_eq count_digits64_eq count_digits_fallback_eq)
qed

text \<open>The three ways to count the digits agree, and so does the count in the other bases.\<close>

lemma digits_counted:
  "count_digits32 a = length (show_nat (unat a))"
  "count_digits64 b = length (show_nat (unat b))"
  "count_digits_fallback n = length (show_nat n)"
  by (simp_all add: count_digits32_eq count_digits64_eq count_digits_fallback_eq)

lemma digits10_enough:
  fixes v :: "'a::len word"
  assumes "LENGTH('a) \<in> {32, 64, 128}"
  shows "length (show_nat (unat v)) \<le> digits10 LENGTH('a) + 1"
proof -
  have "unat v < 2 ^ LENGTH('a)" using unsigned_less [of v, where ?'a = nat] by simp
  moreover have "(2 :: nat) ^ LENGTH('a) \<le> 10 ^ (digits10 LENGTH('a) + 1)"
    using assms by (auto simp: digits10_def)
  ultimately have "unat v < 10 ^ (digits10 LENGTH('a) + 1)" by (rule less_le_trans)
  then show ?thesis by (rule length_show_nat_le) simp
qed

lemma decimal_text_eq:
  fixes v :: "'a::len word"
  assumes "LENGTH('a) \<in> {32, 64, 128}"
  shows "decimal_text v (count_digits v) = Inr (show_nat (unat v))"
  using digits10_enough [OF assms, of v]
  by (simp add: decimal_text_def count_digits_eq format_decimal_show defined_def)

lemma uint_text_eq:
  assumes "base_bits \<in> {1, 3, 4}"
  shows "uint_text base_bits up v (count_digits_base base_bits v) = Inr (show_base (2 ^ base_bits) up (unat v))"
  using assms format_uint_show [OF assms, of up "unat v"] count_digits_base_eq [of base_bits v up]
  by (auto simp: uint_text_def defined_def)

text \<open>The number that an integer argument means.\<close>

definition int_value :: "bool \<Rightarrow> 'a::len word \<Rightarrow> int" where
  "int_value is_signed v = (if is_signed then sint v else uint v)"

lemma abs_value_unat:
  "is_signed \<and> v <s 0 \<Longrightarrow> int_value is_signed v < 0 \<and> unat (0 - v) = nat (- int_value is_signed v)"
  "\<not> (is_signed \<and> v <s 0) \<Longrightarrow> 0 \<le> int_value is_signed v \<and> unat v = nat (int_value is_signed v)"
  for v :: "'a::len word"
  using unat_minus_sint [of v] unat_nonneg_sint [of v]
  by (auto simp: int_value_def sless_zero_iff not_less nat_uint_eq)

lemma write_int_default_eq:
  fixes v :: "'a::len word"
  assumes "LENGTH('a) \<in> {32, 64, 128}"
  shows "write_int_default is_signed v = Inr (append_int (int_value is_signed v))"
proof -
  have "NOT v + 1 = 0 - v" by (simp add: minus_eq_not_plus_1)
  then show ?thesis
    using abs_value_unat [of is_signed v] decimal_text_eq [OF assms]
    by (cases "is_signed \<and> v <s 0") (auto simp: write_int_default_def append_int_def Let_def)
qed

section \<open>Padding\<close>

text \<open>The reference: what is missing to the width is put on the side that the alignment says.\<close>

definition padded :: "align_t \<Rightarrow> format_specs \<Rightarrow> nat \<Rightarrow> string \<Rightarrow> string" where
  "padded al sp width text =
     (let n = nat (sp_width sp) - width;
          pad = (\<lambda>k. concat (replicate k (fill_text (sp_fill sp))))
      in case (if sp_align sp = Align_none then al else sp_align sp) of
           Align_left \<Rightarrow> text @ pad n
         | Align_center \<Rightarrow> pad (n div 2) @ text @ pad (n - n div 2)
         | _ \<Rightarrow> pad n @ text)"

definition fill_ok :: "fill_t \<Rightarrow> bool" where
  "fill_ok f \<longleftrightarrow> length (fill_data f) = 4 \<and> fill_size f \<le> 4"

lemma fill_eq: "fill_ok f \<Longrightarrow> fill n f = concat (replicate n (fill_text f))"
proof -
  assume f: "fill_ok f"
  have "take 1 (fill_data f) = [fill_data f ! 0]" if "length (fill_data f) = 4"
    using that by (cases "fill_data f") auto
  then have "concat (replicate n (take 1 (fill_data f))) = replicate n (fill_data f ! 0)"
    if "length (fill_data f) = 4" using that by (induction n) auto
  with f show ?thesis by (auto simp: fill_def fill_text_def fill_ok_def)
qed

lemma write_padded_eq:
  assumes "fill_ok (sp_fill sp)" "sp_width sp \<le> int_max" "al \<in> {Align_left, Align_right}"
  shows "write_padded al sp width text = padded al sp width text"
proof -
  define n where "n = nat (sp_width sp) - width"
  have "n < 2 ^ 31" using assms(2) by (simp add: n_def int_max_def)
  then have s: "drop_bit 31 n = 0" by (simp add: drop_bit_eq_div)
  have p: "(if width < nat (sp_width sp) then nat (sp_width sp) - width else 0) = n"
    by (auto simp: n_def)
  have f: "(if k \<noteq> 0 then fill k (sp_fill sp) else []) = concat (replicate k (fill_text (sp_fill sp)))" for k
    using fill_eq [OF assms(1), of k] by simp
  show ?thesis
    unfolding write_padded_def Let_def p f
    using assms(3) s
    by (cases "sp_align sp")
      (auto simp: padded_def n_def [symmetric] left_padding_shifts_def right_padding_shifts_def
        drop_bit_Suc Let_def)
qed

section \<open>Integers\<close>

text \<open>The reference for an integer: sign, prefix of the base, zeros, digits.\<close>

definition sign_text :: "bool \<Rightarrow> sign_t \<Rightarrow> string" where
  "sign_text negative sg =
     (if negative then ''-''
      else case sg of Sign_plus \<Rightarrow> ''+'' | Sign_space \<Rightarrow> '' '' | _ \<Rightarrow> [])"

definition int_base :: "char \<Rightarrow> (nat \<times> bool) option" where
  "int_base c =
     (if c = NUL \<or> c = CHR ''d'' then Some (10, False)
      else if c = CHR ''x'' then Some (16, False)
      else if c = CHR ''X'' then Some (16, True)
      else if c = CHR ''b'' \<or> c = CHR ''B'' then Some (2, False)
      else if c = CHR ''o'' then Some (8, False)
      else None)"

definition base_prefix :: "format_specs \<Rightarrow> nat \<Rightarrow> string \<Rightarrow> string" where
  "base_prefix sp a digits =
     (if \<not> sp_alt sp then []
      else if sp_type sp \<in> set ''xXbB'' then [CHR ''0'', sp_type sp]
      else if sp_type sp = CHR ''o'' \<and> sp_precision sp \<le> int (length digits) \<and> a \<noteq> 0 then ''0''
      else [])"

definition int_layout :: "format_specs \<Rightarrow> string \<Rightarrow> string \<Rightarrow> string" where
  "int_layout sp pre digits =
     (if sp_align sp = Align_numeric then
        pre @ replicate (nat (sp_width sp) - (length pre + length digits)) (CHR ''0'') @ digits
      else
        let t = pre @ replicate (nat (sp_precision sp) - length digits) (CHR ''0'') @ digits
        in padded Align_right sp (length t) t)"

definition int_text :: "format_specs \<Rightarrow> int \<Rightarrow> nat \<times> bool \<Rightarrow> string" where
  "int_text sp n base =
     (let digits = show_base (fst base) (snd base) (nat \<bar>n\<bar>)
      in int_layout sp (sign_text (n < 0) (sp_sign sp) @ base_prefix sp (nat \<bar>n\<bar>) digits) digits)"

text \<open>The packed prefixes hold these characters and their number.\<close>

definition packs :: "u32 \<Rightarrow> string \<Rightarrow> bool" where
  "packs p t \<longleftrightarrow> prefix_chars p = t \<and> prefix_size p = length t \<and> (p = 0 \<longleftrightarrow> t = [])"

definition sign_prefixes :: "(u32 \<times> string) list" where
  "sign_prefixes = [(0x1000000 OR 45, ''-''), (0, []), (0x1000000 OR 43, ''+''), (0x1000000 OR 32, '' '')]"

lemmas packs_defs = packs_def prefix_chars_def prefix_size_def prefix_append_def prefix_chars_loop.simps
  sign_prefixes_def

lemma packs_sign: "\<forall>(p, t) \<in> set sign_prefixes. packs p t"
  by (simp add: packs_defs) code_simp

lemma packs_base:
  "\<forall>(p, t) \<in> set sign_prefixes. \<forall>c \<in> set ''xXbB''.
    packs (prefix_append p (push_bit 8 (of_nat (byte c)) OR 48)) (t @ [CHR ''0'', c])"
  by (simp add: packs_defs) code_simp

lemma packs_octal: "\<forall>(p, t) \<in> set sign_prefixes. packs (prefix_append p 48) (t @ ''0'')"
  by (simp add: packs_defs) code_simp

lemma sign_prefix:
  assumes "make_write_int_arg is_signed v sg = (a, p)"
  shows "(p, sign_text (is_signed \<and> v <s 0) sg) \<in> set sign_prefixes"
    and "unat a = nat \<bar>int_value is_signed v\<bar>"
    and "(int_value is_signed v < 0) = (is_signed \<and> v <s 0)"
  using assms abs_value_unat [of is_signed v]
  by (cases "is_signed \<and> v <s 0"; cases sg;
      auto simp: make_write_int_arg_def sign_text_def sign_prefixes_def prefixes_def)+

lemma write_int_padded_eq:
  assumes p: "packs p pre" and f: "fill_ok (sp_fill sp)"
    and w: "0 \<le> sp_width sp" "sp_width sp \<le> int_max" and pr: "-1 \<le> sp_precision sp"
  shows "write_int_padded (length digits) p sp digits = int_layout sp pre digits"
proof (cases "sp_width sp = 0 \<and> sp_precision sp = -1")
  case True
  then have "(if p \<noteq> 0 then prefix_chars p else []) = pre" using p by (auto simp: packs_def)
  with True show ?thesis
    by (cases "sp_align sp") (simp_all add: write_int_padded_def int_layout_def padded_def Let_def)
next
  case False
  then have fast: "sp_width sp OR (sp_precision sp + 1) \<noteq> 0" by (auto simp: or_eq_0_iff)
  have pc: "prefix_chars p = pre" "prefix_size p = length pre" using p by (simp_all add: packs_def)
  show ?thesis
  proof (cases "sp_align sp = Align_numeric")
    case True
    define n where "n = length pre + length digits"
    have "padded Align_right sp (max (nat (sp_width sp)) n) t = t" for t
      using True by (simp add: padded_def)
    then have "write_padded Align_right sp (max (nat (sp_width sp)) n) t = t" for t
      using write_padded_eq [OF f w(2)] by simp
    then show ?thesis
      using fast True pc
      by (auto simp: write_int_padded_def write_int_data_def int_layout_def n_def max_def Let_def)
  next
    case False
    then show ?thesis
      using fast pc pr write_padded_eq [OF f w(2)]
      by (auto simp: write_int_padded_def write_int_data_def int_layout_def Let_def nat_diff_distrib)
  qed
qed

text \<open>
  What the writer of integers writes, whatever the width, the sign and the base: with sound
  specifiers it is the reference.
\<close>

lemma write_int_eq:
  fixes v :: "'a::len word"
  assumes l: "LENGTH('a) \<in> {32, 64, 128}" and base: "int_base (sp_type sp) = Some base"
    and f: "fill_ok (sp_fill sp)" and w: "0 \<le> sp_width sp" "sp_width sp \<le> int_max"
    and pr: "-1 \<le> sp_precision sp" and loc: "sp_localized sp \<longrightarrow> snd np = NUL \<or> fst base \<noteq> 10"
  shows "write_int np is_signed v sp = Inr (int_text sp (int_value is_signed v) base)"
proof -
  obtain a p where ap: "make_write_int_arg is_signed v (sp_sign sp) = (a, p)" by fastforce
  define pre where "pre = sign_text (int_value is_signed v < 0) (sp_sign sp)"
  note sg = sign_prefix [OF ap]
  have s: "(p, pre) \<in> set sign_prefixes" using sg(1,3) by (simp add: pre_def)
  have pk: "packs p pre" "packs (prefix_append p 48) (pre @ ''0'')"
    "\<And>c. c \<in> set ''xXbB'' \<Longrightarrow> packs (prefix_append p (push_bit 8 (of_nat (byte c)) OR 48)) (pre @ [CHR ''0'', c])"
    using s packs_sign packs_octal packs_base by fast+
  have uint_a: "uint_text 4 up a (count_digits_base 4 a) = Inr (show_base 16 up (unat a))"
    "uint_text 1 up a (count_digits_base 1 a) = Inr (show_base 2 up (unat a))"
    "uint_text 3 up a (count_digits_base 3 a) = Inr (show_base 8 up (unat a))" for up
    using uint_text_eq [of 4 up a] uint_text_eq [of 1 up a] uint_text_eq [of 3 up a] by simp_all
  have count: "count_digits_base 4 a = length (show_base 16 up (unat a))"
    "count_digits_base 1 a = length (show_base 2 up (unat a))"
    "count_digits_base 3 a = length (show_base 8 up (unat a))" for up
    using count_digits_base_eq [of 4 a up] count_digits_base_eq [of 1 a up] count_digits_base_eq [of 3 a up]
    by simp_all
  note lay = write_int_padded_eq [OF _ f w pr]
  have lays: "write_int_padded (count_digits_base 4 a) q sp (show_base 16 up (unat a))
      = int_layout sp t (show_base 16 up (unat a))"
    "write_int_padded (count_digits_base 1 a) q sp (show_base 2 up (unat a))
      = int_layout sp t (show_base 2 up (unat a))"
    "write_int_padded (count_digits_base 3 a) q sp (show_base 8 up (unat a))
      = int_layout sp t (show_base 8 up (unat a))"
    "write_int_padded (count_digits a) q sp (show_nat (unat a)) = int_layout sp t (show_nat (unat a))"
    if "packs q t" for q t up
    using lay [OF that] count [of up] count_digits_eq [of a] by simp_all
  have w: "write_int np is_signed v sp = write_int_digits np a p sp"
    by (simp add: write_int_def ap)
  have t: "int_text sp (int_value is_signed v) base =
      (let digits = show_base (fst base) (snd base) (unat a)
       in int_layout sp (pre @ base_prefix sp (unat a) digits) digits)"
    by (simp add: int_text_def pre_def sg(2))
  consider "sp_type sp = NUL \<or> sp_type sp = CHR ''d''" | "sp_type sp = CHR ''x''" | "sp_type sp = CHR ''X''"
    | "sp_type sp = CHR ''b''" | "sp_type sp = CHR ''B''" | "sp_type sp = CHR ''o''"
    using base by (auto simp: int_base_def split: if_splits)
  then show ?thesis
  proof cases
    case 1
    then have b: "base = (10, False)" using base by (auto simp: int_base_def)
    with loc have "\<not> (sp_localized sp \<and> snd np \<noteq> NUL)" by auto
    with 1 have "write_int_digits np a p sp = Inr (write_int_padded (count_digits a) p sp (show_nat (unat a)))"
      unfolding write_int_digits_def Let_def using decimal_text_eq [OF l, of a] by auto
    moreover have "base_prefix sp (unat a) ds = []" for ds using 1 by (auto simp: base_prefix_def)
    ultimately show ?thesis unfolding w t unfolding b by (simp add: lays [OF pk(1)] show_base_10)
  next
    case 2
    then have b: "base = (16, False)" using base by (simp add: int_base_def)
    show ?thesis unfolding w t unfolding b
      using 2 lays(1) [OF pk(1)] lays(1) [OF pk(3) [of "CHR ''x''"]] uint_a(1)
      by (simp add: write_int_digits_def base_prefix_def Let_def)
  next
    case 3
    then have b: "base = (16, True)" using base by (simp add: int_base_def)
    show ?thesis unfolding w t unfolding b
      using 3 lays(1) [OF pk(1)] lays(1) [OF pk(3) [of "CHR ''X''"]] uint_a(1)
      by (simp add: write_int_digits_def base_prefix_def Let_def)
  next
    case 4
    then have b: "base = (2, False)" using base by (simp add: int_base_def)
    show ?thesis unfolding w t unfolding b
      using 4 lays(2) [OF pk(1)] lays(2) [OF pk(3) [of "CHR ''b''"]] uint_a(2)
      by (simp add: write_int_digits_def base_prefix_def Let_def)
  next
    case 5
    then have b: "base = (2, False)" using base by (simp add: int_base_def)
    show ?thesis unfolding w t unfolding b
      using 5 lays(2) [OF pk(1)] lays(2) [OF pk(3) [of "CHR ''B''"]] uint_a(2)
      by (simp add: write_int_digits_def base_prefix_def Let_def)
  next
    case 6
    then have b: "base = (8, False)" using base by (simp add: int_base_def)
    have a0: "unat a \<noteq> 0 \<longleftrightarrow> a \<noteq> 0" by (simp add: unat_eq_0)
    show ?thesis unfolding w t unfolding b
      using 6 lays(3) [OF pk(1)] lays(3) [OF pk(2)] uint_a(3) a0 count(3) [of False]
      by (simp add: write_int_digits_def base_prefix_def Let_def)
  qed
qed

section \<open>Digits in groups\<close>

text \<open>The digits and separators in the order in which they are put, and the number of separators.\<close>

fun grouped :: "char \<Rightarrow> string \<Rightarrow> nat \<Rightarrow> string \<Rightarrow> string" where
  "grouped sep groups i [] = []"
| "grouped sep groups i (d # ds) =
     d # (if group_size (hd groups) \<le> 0 then grouped sep groups i ds
          else if int (i + 1) mod group_size (hd groups) \<noteq> 0 \<or> group_size (hd groups) = 127
          then grouped sep groups (i + 1) ds
          else sep # (if tl groups \<noteq> [] then grouped sep (tl groups) 0 ds
                      else grouped sep groups (i + 1) ds))"

fun separators :: "string \<Rightarrow> nat \<Rightarrow> nat \<Rightarrow> nat" where
  "separators [] i k = 0"
| "separators (g # gs) i k =
     (let n = nat (group_size g)
      in if group_stops g then 0
         else if gs = [] then (i + k) div n - i div n
         else if i + k < n then 0 else 1 + separators gs 0 (i + k - n))"

lemma put_before_then:
  assumes "length xs + length ys \<le> out" "out \<le> length buf"
    and "\<And>buf'. length buf' = length buf \<Longrightarrow> f (buf', out - length ys) = put_before xs (buf', out - length ys)"
  shows "Option.bind (put_before ys (buf, out)) f = put_before (xs @ ys) (buf, out)"
proof -
  have "put_before ys (buf, out) = Some (blit buf (out - length ys) ys, out - length ys)"
    using assms(1,2) by (simp add: put_before_def)
  moreover have "length (blit buf (out - length ys) ys) = length buf"
    using assms(1,2) by simp
  ultimately show ?thesis
    using assms(3) [of "blit buf (out - length ys) ys"] put_before_before [OF assms(1,2)] by simp
qed

lemma localized_loop_eq:
  "length (grouped sep groups i ds) \<le> out \<Longrightarrow> out \<le> length buf \<Longrightarrow>
    localized_loop sep groups i ds (buf, out) = put_before (rev (grouped sep groups i ds)) (buf, out)"
proof (induction ds arbitrary: groups i buf out)
  case Nil
  then show ?case by (simp add: put_before_Some)
next
  case (Cons d ds)
  have rec: "localized_loop sep gs j ds (buf', n) = put_before (rev (grouped sep gs j ds)) (buf', n)"
    if "length (grouped sep gs j ds) \<le> n" "n \<le> length buf'" for gs j n buf'
    using that by (rule Cons.IH)
  consider "group_size (hd groups) \<le> 0"
    | "0 < group_size (hd groups)" "int (i + 1) mod group_size (hd groups) \<noteq> 0 \<or> group_size (hd groups) = 127"
    | "0 < group_size (hd groups)" "int (i + 1) mod group_size (hd groups) = 0" "group_size (hd groups) \<noteq> 127"
    by linarith
  then show ?case
  proof cases
    case 1
    with Cons.prems put_before_then [of "rev (grouped sep groups i ds)" "[d]" out buf
        "localized_loop sep groups i ds"]
    show ?thesis by (simp add: rec)
  next
    case 2
    with Cons.prems put_before_then [of "rev (grouped sep groups (Suc i) ds)" "[d]" out buf
        "localized_loop sep groups (Suc i) ds"]
    show ?thesis by (simp add: rec)
  next
    case 3
    define rest where "rest = (if tl groups \<noteq> [] then grouped sep (tl groups) 0 ds else grouped sep groups (i + 1) ds)"
    define f where "f = (if tl groups \<noteq> [] then localized_loop sep (tl groups) 0 ds
         else localized_loop sep groups (i + 1) ds)"
    have l: "length rest + 2 \<le> out" using Cons.prems 3 by (simp add: rest_def)
    have f: "f (buf', n) = put_before (rev rest) (buf', n)" if "length rest \<le> n" "n \<le> length buf'" for buf' n
      using that by (cases "tl groups = []") (simp_all add: f_def rest_def rec)
    have sep_step: "Option.bind (put_before [sep] (buf', out - 1)) f = put_before (rev rest @ [sep]) (buf', out - 1)"
      if "length buf' = length buf" for buf'
      using Cons.prems(2) l that by (intro put_before_then) (auto intro: f)
    have "Option.bind (put_before [d] (buf, out)) (\<lambda>bp. Option.bind (put_before [sep] bp) f)
        = put_before ((rev rest @ [sep]) @ [d]) (buf, out)"
      by (rule put_before_then) (use Cons.prems(2) l sep_step in auto)
    with 3 show ?thesis by (simp add: rest_def f_def)
  qed
qed

text \<open>The size that is reserved is exactly the one that is written.\<close>

lemma length_grouped:
  "groups \<noteq> [] \<Longrightarrow> int i < group_size (hd groups) \<or> tl groups = [] \<or> group_stops (hd groups) \<Longrightarrow>
    length (grouped sep groups i ds) = length ds + separators groups i (length ds)"
proof (induction ds arbitrary: groups i)
  case Nil
  then show ?case by (cases groups) (auto simp: Let_def)
next
  case (Cons d ds)
  obtain g gs where groups: "groups = g # gs" using Cons.prems by (cases groups) auto
  show ?case
  proof (cases "group_stops g")
    case True
    then show ?thesis
      using Cons.IH [of groups i] Cons.IH [of groups "Suc i"] groups by (auto simp: group_stops_def)
  next
    case False
    define n where "n = nat (group_size g)"
    then have n: "group_size g = int n" "0 < n" using False by (auto simp: group_stops_def)
    have m: "int (i + 1) mod group_size g \<noteq> 0 \<longleftrightarrow> Suc i mod n \<noteq> 0"
      using n by (simp flip: of_nat_Suc zmod_int)
    show ?thesis
    proof (cases "gs = []")
      case True
      have "Suc (i + length ds) div n - i div n =
          (if Suc i mod n = 0 then 1 else 0) + ((Suc i + length ds) div n - Suc i div n)"
        using div_le_mono [of "Suc i" "Suc i + length ds" n] by (auto simp: div_Suc)
      then show ?thesis
        using Cons.IH [of groups "Suc i"] groups True False n m
        by (auto simp: group_stops_def Let_def simp del: of_nat_Suc)
    next
      case more: False
      then have i: "i < n" using Cons.prems groups False n by auto
      have "int 0 < group_size (hd gs) \<or> tl gs = [] \<or> group_stops (hd gs)"
        by (auto simp: group_stops_def)
      with more have next_group: "length (grouped sep gs 0 ds) = length ds + separators gs 0 (length ds)"
        by (rule Cons.IH)
      show ?thesis
      proof (cases "Suc i = n")
        case True
        then have "int (i + 1) mod group_size g = 0" "group_size g \<noteq> 127" "0 < group_size g"
          using m False by (auto simp: group_stops_def)
        moreover have "Suc (i + length ds) - n = length ds" using True by simp
        ultimately show ?thesis
          using groups more False True next_group by (simp add: Let_def flip: n_def)
      next
        case less: False
        then have "Suc i < n" using i by simp
        then have "int (Suc i) < group_size g" "int (i + 1) mod group_size g \<noteq> 0" "0 < group_size g"
          using n m by simp_all
        then show ?thesis
          using Cons.IH [of groups "Suc i"] groups more False less
          by (simp add: Let_def flip: n_def)
      qed
    qed
  qed
qed

lemma group_separators_size:
  "groups \<noteq> [] \<Longrightarrow> 0 < n \<Longrightarrow>
    (let (n', sz', at_end) = group_separators groups n sz
     in if at_end then sz' + (n' - 1) div nat (group_size (last groups)) else sz')
    = sz + separators groups 0 (n - 1)"
proof (induction groups n sz rule: group_separators.induct)
  case (2 g gs n sz)
  show ?case
  proof (cases "group_size g < int n \<and> \<not> group_stops g")
    case False
    then have "separators (g # gs) 0 (n - 1) = 0"
      using 2(3) by (auto simp: Let_def group_stops_def)
    moreover have "group_separators (g # gs) n sz = (n, sz, False)" using False by auto
    ultimately show ?thesis by (simp del: separators.simps group_separators.simps)
  next
    case True
    define k where "k = nat (group_size g)"
    have k: "0 < k" "k < n" using True by (auto simp: k_def group_stops_def)
    show ?thesis
    proof (cases "gs = []")
      case gs: True
      have "(n - 1) div k = 1 + (n - 1 - k) div k" using k by (simp add: le_div_geq)
      with gs True k show ?thesis by (simp add: Let_def algebra_simps flip: k_def)
    next
      case gs: False
      from 2(1) [OF True gs] k have "(let (n', sz', at_end) = group_separators gs (n - k) (sz + 1)
         in if at_end then sz' + (n' - 1) div nat (group_size (last gs)) else sz')
        = sz + 1 + separators gs 0 (n - k - 1)"
        by (simp add: k_def)
      moreover have "separators (g # gs) 0 (n - 1) = 1 + separators gs 0 (n - 1 - k)"
        using True gs k by (simp add: Let_def flip: k_def)
      moreover have "n - k - 1 = n - 1 - k" by simp
      moreover have "last (g # gs) = last gs" using gs by simp
      ultimately show ?thesis using True by (simp only: group_separators.simps if_True k_def simp_thms)
    qed
  qed
qed simp

lemma grouped_digits: "sep \<notin> set ds \<Longrightarrow> filter (\<lambda>c. c \<noteq> sep) (grouped sep groups i ds) = ds"
  by (induction ds arbitrary: groups i) auto

text \<open>
  The grouped digits fill the buffer that was reserved for them to the last character, and without
  the separators they are the digits.
\<close>

lemma localized_text_digits:
  fixes v :: "'a::len word"
  assumes l: "LENGTH('a) \<in> {32, 64, 128}" and groups: "fst np \<noteq> []" and sep: "\<not> is_digit (snd np)"
  shows "\<exists>t. localized_text np v pre = Inr ((if pre \<noteq> 0 then [char_of (unat pre mod 256)] else []) @ t) \<and>
      filter (\<lambda>c. c \<noteq> snd np) t = show_nat (unat v) \<and>
      length t = localized_size (fst np) (length (show_nat (unat v)))"
proof -
  obtain gr sp where np: "np = (gr, sp)" by fastforce
  define ds where "ds = show_nat (unat v)"
  obtain d r where d: "ds = d # r" using show_nat_head [of "unat v"] by (auto simp: ds_def)
  define g where "g = grouped sp gr 0 (rev r)"
  have "int 0 < group_size (hd gr) \<or> tl gr = [] \<or> group_stops (hd gr)" by (auto simp: group_stops_def)
  then have lg: "length g = length r + separators gr 0 (length r)"
    using length_grouped [of gr 0 sp "rev r"] groups np by (simp add: g_def)
  have sz: "localized_size gr (length ds) = Suc (length g)"
    using group_separators_size [of gr "length ds" "length ds"] groups np d lg
    by (simp add: localized_size_def)
  define p where "p = (if pre \<noteq> 0 then [char_of (unat pre mod 256)] else [] :: string)"
  define n where "n = Suc (length g) + length p"
  have loop: "localized_loop sp gr 0 (rev r) (replicate n NUL, n) = put_before (rev g) (replicate n NUL, n)"
    unfolding g_def by (rule localized_loop_eq) (simp_all add: n_def g_def)
  have "Option.bind (localized_loop sp gr 0 (rev r) (replicate n NUL, n)) (\<lambda>bp.
      Option.bind (put_before [d] bp) (\<lambda>bp. map_option fst
        (if pre \<noteq> 0 then put_before [char_of (unat pre mod 256)] bp else Some bp))) = Some (p @ d # rev g)"
    unfolding loop by (simp add: put_before_Some n_def p_def)
  moreover have "localized_size gr (length ds) + (if pre \<noteq> 0 then 1 else 0) = n"
    by (simp add: sz n_def p_def)
  ultimately have "localized_text np v pre = Inr (p @ d # rev g)"
    using decimal_text_eq [OF l, of v] count_digits_eq [of v] d
    by (simp add: localized_text_def np defined_def ds_def [symmetric] Let_def)
  moreover have "sp \<notin> set ds"
    using sep np show_nat_digits [of sp "unat v"] by (auto simp: ds_def)
  then have "filter (\<lambda>c. c \<noteq> sp) (d # rev g) = ds"
    using d grouped_digits [of sp "rev r" gr 0] by (auto simp: g_def simp flip: rev_filter)
  ultimately show ?thesis
    using sz by (intro exI [of _ "d # rev g"]) (simp add: p_def np ds_def)
qed

section \<open>Strings\<close>

text \<open>A text of ASCII characters is as wide as it is long.\<close>

definition is_ascii :: "char \<Rightarrow> bool" where
  "is_ascii c \<longleftrightarrow> byte c < 128"

lemma ascii_length: "is_ascii c \<Longrightarrow> code_point_length c = 1"
proof -
  have "\<forall>i < 16. code_point_lengths ! i = 1" by code_simp
  moreover assume "is_ascii c"
  then have "byte c div 8 < 16" by (simp add: is_ascii_def)
  ultimately show ?thesis by (simp add: code_point_length_def Let_def)
qed

lemma low_bits:
  "bit (0x3f :: int) k \<longleftrightarrow> k < 6" "bit (0x7f :: int) k \<longleftrightarrow> k < 7"
proof -
  have m: "(0x3f :: int) = mask 6" "(0x7f :: int) = mask 7" by (simp_all add: mask_eq_exp_minus_1)
  show "bit (0x3f :: int) k \<longleftrightarrow> k < 6" "bit (0x7f :: int) k \<longleftrightarrow> k < 7"
    unfolding m bit_mask_iff by auto
qed

lemma first_byte_alone:
  "drop_bit 18 (push_bit 18 (a AND 0x7f) OR push_bit 12 (b AND 0x3f) OR
      push_bit 6 (c AND 0x3f) OR (d AND 0x3f)) = (a AND 0x7f :: u32)"
  by (rule bit_word_eqI) (auto simp: bit_simps low_bits)

lemma ascii_decode:
  assumes "is_ascii c"
  shows "\<exists>e. utf8_decode c s1 s2 s3 = (of_nat (byte c), e, 1)"
proof -
  have "(0x7f :: u32) = mask 7" by (simp add: mask_eq_exp_minus_1)
  then have "of_nat (byte c) AND 0x7f = (take_bit 7 (of_nat (byte c)) :: u32)"
    by (simp add: take_bit_eq_mask)
  also have "\<dots> = of_nat (byte c)"
    using assms by (simp add: is_ascii_def take_bit_of_nat take_bit_nat_eq_self)
  finally have b: "of_nat (byte c) AND 0x7f = (of_nat (byte c) :: u32)" .
  have "utf8_masks ! 1 = 0x7f" "utf8_shiftc ! 1 = 18" by (simp_all add: utf8_masks_def utf8_shiftc_def)
  then show ?thesis
    unfolding utf8_decode_def Let_def ascii_length [OF assms]
    by (simp only: b first_byte_alone [of "of_nat (byte c)", unfolded b] prod.inject simp_thms)
qed

lemma ascii_not_wide: "is_ascii c \<Longrightarrow> \<not> is_wide (of_nat (byte c))"
  by (simp add: is_ascii_def is_wide_def word_le_nat_alt unsigned_of_nat take_bit_nat_eq_self)

lemma decode_ascii:
  "is_ascii (buf ! k) \<Longrightarrow> \<exists>e. decode_at buf k = (of_nat (byte (buf ! k)), e, 1)"
  unfolding decode_at_def by (rule ascii_decode)

text \<open>The width of one code point, so that the width of a text is a sum.\<close>

definition cell_width :: "u32 \<times> u32 \<Rightarrow> nat" where
  "cell_width ce = 1 + (if snd ce = 0 \<and> is_wide (fst ce) then 1 else 0)"

lemma compute_width_cells: "compute_width s = sum_list (map cell_width (for_each_codepoint s))"
  by (simp add: compute_width_def cell_width_def [abs_def] case_prod_unfold)

lemma width_tail:
  "k < n \<Longrightarrow> n \<le> length buf \<Longrightarrow> \<forall>i < n. is_ascii (buf ! i) \<Longrightarrow>
    sum_list (map cell_width (codepoints_tail buf k n)) = n - k"
proof (induction buf k n rule: codepoints_tail.induct)
  case (1 buf k n)
  obtain e where e: "decode_at buf k = (of_nat (byte (buf ! k)), e, 1)"
    using decode_ascii [of buf k] 1(2-) by auto
  have w: "cell_width (of_nat (byte (buf ! k)), e) = 1"
    using ascii_not_wide [of "buf ! k"] 1(2-) by (simp add: cell_width_def)
  have "sum_list (map cell_width (codepoints_tail buf (k + 1) n)) = n - (k + 1)" if "k + 1 < n"
    using 1(1) [OF e [symmetric] refl refl] that 1(2-) by simp
  with e w 1(2) show ?case
    by (auto simp: codepoints_tail.simps [of buf k])
qed

lemma ascii_width: "\<forall>c \<in> set s. is_ascii c \<Longrightarrow> compute_width s = length s"
  unfolding compute_width_cells
proof (induction s rule: for_each_codepoint.induct)
  case (1 s)
  consider "4 \<le> length s" | "length s < 4" "s \<noteq> []" | "s = []" by linarith
  then show ?case
  proof cases
    case 1
    then have a: "is_ascii (s ! 0)" using "1.prems" by (cases s) auto
    then obtain e where e: "decode_at s 0 = (of_nat (byte (s ! 0)), e, 1)"
      using decode_ascii by blast
    have "sum_list (map cell_width (for_each_codepoint (drop 1 s))) = length (drop 1 s)"
      using "1.IH" [OF 1 e [symmetric] refl] "1.prems" by (auto dest: in_set_dropD)
    moreover have "cell_width (of_nat (byte (s ! 0)), e) = 1"
      using ascii_not_wide [OF a] by (simp add: cell_width_def)
    ultimately show ?thesis
      using 1 e by (simp add: for_each_codepoint.simps [of s])
  next
    case 2
    then show ?thesis
      using "1.prems" width_tail [of 0 "length s" "s @ replicate (7 - length s) NUL"]
      by (simp add: for_each_codepoint.simps [of s] nth_append)
  qed (simp add: for_each_codepoint.simps)
qed

text \<open>A string is cut at its precision and padded to its width.\<close>

lemma write_string_ascii:
  assumes "\<forall>c \<in> set s. is_ascii c" "fill_ok (sp_fill sp)" "0 \<le> sp_width sp" "sp_width sp \<le> int_max"
  defines "t \<equiv> (if 0 \<le> sp_precision sp then take (nat (sp_precision sp)) s else s)"
  shows "write_string sp s = padded Align_left sp (length t) t"
proof -
  define n where "n = (if 0 \<le> sp_precision sp \<and> nat (sp_precision sp) < length s
      then code_point_index s (nat (sp_precision sp)) else length s)"
  have t: "take n s = t" by (auto simp: n_def t_def code_point_index_def)
  have "\<forall>c \<in> set t. is_ascii c" using assms(1) by (auto simp: t_def dest: in_set_takeD)
  then have "compute_width t = length t" by (rule ascii_width)
  moreover have "padded Align_left sp 0 t = padded Align_left sp (length t) t" if "sp_width sp = 0"
    using that by (simp add: padded_def)
  ultimately show ?thesis
    using write_padded_eq [OF assms(2,4), of Align_left "length t" t]
      write_padded_eq [OF assms(2,4), of Align_left 0 t]
    unfolding write_string_def n_def [symmetric] Let_def t by auto
qed

section \<open>No write leaves its buffer\<close>

text \<open>
  Whatever the specifiers, the library never leaves a buffer; only a null string pointer that is
  printed with specifiers is dereferenced.
\<close>

definition grouping_ok :: "numpunct \<Rightarrow> bool" where
  "grouping_ok np \<longleftrightarrow> snd np = NUL \<or> fst np \<noteq> [] \<and> \<not> is_digit (snd np)"

lemma write_int_defined:
  fixes v :: "'a::len word"
  assumes l: "LENGTH('a) \<in> {32, 64, 128}" and np: "grouping_ok np"
  shows "write_int np is_signed v sp \<noteq> Inl Undefined"
proof -
  obtain a p where ap: "make_write_int_arg is_signed v (sp_sign sp) = (a, p)" by fastforce
  have "\<exists>t. localized_text np a p = Inr t" if "snd np \<noteq> NUL"
    using localized_text_digits [OF l, of np a p] np that by (auto simp: grouping_ok_def)
  then have "write_int_digits np a p sp \<noteq> Inl Undefined"
    using decimal_text_eq [OF l, of a] uint_text_eq [of 4 "sp_type sp \<noteq> CHR ''x''" a]
      uint_text_eq [of 1 False a] uint_text_eq [of 3 False a]
    by (auto simp: write_int_digits_def Let_def)
  then show ?thesis by (simp add: write_int_def ap)
qed

lemma write_ptr_eq:
  "write_ptr sp v = Inr (write_padded Align_right sp (length (show_base 16 False (unat v)) + 2)
      (''0x'' @ show_base 16 False (unat v)))"
  using uint_text_eq [of 4 False v] count_digits_base_eq [of 4 v False]
  by (simp add: write_ptr_def Let_def)

lemma check_defined:
  "check_int_type_spec c \<noteq> Inl Undefined" "check_char_specs sp \<noteq> Inl Undefined"
  "check_cstring_type_spec c \<noteq> Inl Undefined" "check_string_type_spec c \<noteq> Inl Undefined"
  "check_pointer_type_spec c \<noteq> Inl Undefined"
  by (auto simp: check_defs and_then_eq_Inl_iff)

theorem write_value_defined:
  assumes "grouping_ok np"
  shows "write_value np sp v = Inl Undefined \<longleftrightarrow> v = V_cstring None \<and> sp_type sp \<in> {NUL, CHR ''s''}"
proof -
  have w32: "write_int np sg (x :: u32) sp \<noteq> Inl Undefined" for sg x
    by (rule write_int_defined) (simp_all add: assms)
  have w64: "write_int np sg (x :: u64) sp \<noteq> Inl Undefined" for sg x
    by (rule write_int_defined) (simp_all add: assms)
  have w128: "write_int np sg (x :: u128) sp \<noteq> Inl Undefined" for sg x
    by (rule write_int_defined) (simp_all add: assms)
  show ?thesis
  proof (cases v)
    case (V_cstring s)
    then show ?thesis
      by (auto simp: write_cstring_def check_cstring_type_spec_def write_ptr_eq write_string_checked_def
          check_string_type_spec_def split: option.splits)
  next
    case (V_bool b)
    then show ?thesis using w32 by (simp add: write_bool_def)
  next
    case (V_char c)
    then show ?thesis
      using w32 check_defined(2) [of sp]
      by (auto simp: write_char_checked_def and_then_eq_Inl_iff split: if_splits)
  qed (use w32 w64 w128 check_defined in
      \<open>simp_all add: write_string_checked_def write_ptr_eq and_then_eq_Inl_iff\<close>)
qed

lemma write_bool_default: "write_bool np specs_new b = Inr (if b then ''true'' else ''false'')"
  by (simp add: write_bool_def specs_new_def write_bytes_def write_padded_def)

text \<open>The text of a value without specifiers.\<close>

fun value_text :: "fmt_value \<Rightarrow> string option" where
  "value_text (V_int v) = Some (append_int (sint v))"
| "value_text (V_uint v) = Some (append_int (uint v))"
| "value_text (V_long_long v) = Some (append_int (sint v))"
| "value_text (V_ulong_long v) = Some (append_int (uint v))"
| "value_text (V_int128 v) = Some (append_int (sint v))"
| "value_text (V_uint128 v) = Some (append_int (uint v))"
| "value_text (V_bool b) = Some (if b then ''true'' else ''false'')"
| "value_text (V_char c) = Some [c]"
| "value_text (V_cstring s) = map_option snd s"
| "value_text (V_string s) = Some s"
| "value_text (V_pointer p) = Some (''0x'' @ show_base 16 False (unat p))"

lemma write_default_eq:
  "write_default v =
    (case value_text v of None \<Rightarrow> on_error ''string pointer is null'' | Some t \<Rightarrow> Inr t)"
proof (cases v)
  case (V_pointer p)
  then show ?thesis
    by (simp add: write_ptr_eq specs_new_def check_pointer_type_spec_def write_padded_def)
qed (simp_all add: write_int_default_eq int_value_def write_bool_default split: option.splits)

section \<open>What arguments print\<close>

text \<open>The number that an integer argument of any width holds.\<close>

fun int_arg :: "fmt_value \<Rightarrow> int option" where
  "int_arg (V_int v) = Some (sint v)"
| "int_arg (V_uint v) = Some (uint v)"
| "int_arg (V_long_long v) = Some (sint v)"
| "int_arg (V_ulong_long v) = Some (uint v)"
| "int_arg (V_int128 v) = Some (sint v)"
| "int_arg (V_uint128 v) = Some (uint v)"
| "int_arg _ = None"


definition octal_specs :: format_specs where
  "octal_specs = specs_new\<lparr>sp_type := CHR ''o'', sp_alt := True, sp_width := 16, sp_align := Align_center\<rparr>"


text \<open>C30: 
  Grouped digits fit: whatever the widths of the groups that the locale gives, the digits, the
  separators and the sign fill the buffer that was counted for them to the last character, and
  without the separators the digits are the number's.\<close>

theorem grouped_digits_fit:
  fixes v :: "'a::len word"
  assumes "LENGTH('a) \<in> {32, 64, 128}" "fst np \<noteq> []" "\<not> is_digit (snd np)"
  shows "\<exists>t. localized_text np v pre = Inr ((if pre \<noteq> 0 then [char_of (unat pre mod 256)] else []) @ t) \<and>
      filter (\<lambda>c. c \<noteq> snd np) t = show_nat (unat v) \<and>
      length t = localized_size (fst np) (length (show_nat (unat v)))"
  using assms by (rule localized_text_digits)

definition thousands :: numpunct where
  "thousands = ([char_of (3 :: nat)], CHR '','')"

theorem grouped_digits_fit_witness:
  "\<exists>t. localized_text thousands (1234567 :: u64) 0 = Inr t \<and> filter (\<lambda>c. c \<noteq> CHR '','') t = show_nat 1234567"
  using grouped_digits_fit [of thousands "1234567 :: u64" 0]
  by (auto simp: thousands_def is_digit_def)

end
