(* ===== verification/Fmt_Check.thy ===== *)
theory Fmt_Check
  imports Fmt_Format Fmt_Write_Props
begin

text \<open>
  What the check of a format string promises: a string that was accepted when compiling formats its
  arguments without an error, but for what only the values can tell: a dynamic width or precision,
  and a null string.  The two handlers satisfy the laws of the parser, and the run-time handler
  follows the one of the check.
\<close>

section \<open>The store of arguments\<close>

lemma arg_types_value: "arg_types ! arg_type_value t = t"
  by (cases t) (simp_all add: arg_types_def)

lemma arg_type_value_less: "arg_type_value t < 16"
  by (cases t) simp_all

lemma unat_type_value [simp]: "unat (of_nat (arg_type_value t) :: u64) = arg_type_value t"
  using arg_type_value_less [of t] by (simp add: unsigned_of_nat take_bit_nat_eq_self)

lemma bit_named_args: "bit has_named_args_bit n \<longleftrightarrow> n = 62"
  unfolding has_named_args_bit_def bit_push_bit_iff bit_1_iff by auto

lemma bit_unpacked: "bit is_unpacked_bit n \<longleftrightarrow> n = 63"
  unfolding is_unpacked_bit_def bit_push_bit_iff bit_1_iff by auto

lemma bit_of_nat_16: "m < 16 \<Longrightarrow> bit (of_nat m :: u64) n \<Longrightarrow> n < 4"
proof (rule ccontr)
  assume m: "m < 16" and b: "bit (of_nat m :: u64) n" and "\<not> n < 4"
  then have "(2 :: nat) ^ 4 \<le> 2 ^ n" by (intro power_increasing) auto
  with m have "m div 2 ^ n = 0" by simp
  then have "\<not> bit m n" by (simp add: bit_iff_odd)
  with b show False by (simp add: bit_of_nat_iff)
qed

lemma bit_encode_types:
  "bit (encode_types ts) n \<longleftrightarrow>
    n < 64 \<and> n div 4 < length ts \<and> bit (of_nat (arg_type_value (ts ! (n div 4))) :: u64) (n mod 4)"
proof (induction ts arbitrary: n)
  case (Cons t ts)
  show ?case
  proof (cases "n < 4")
    case True
    then show ?thesis by (auto simp: bit_simps packed_arg_bits_def)
  next
    case False
    then have "\<not> bit (of_nat (arg_type_value t) :: u64) n"
      using bit_of_nat_16 [OF arg_type_value_less] by blast
    moreover have "n div 4 = Suc ((n - 4) div 4)" "(n - 4) mod 4 = n mod 4" using False
      by (simp_all add: le_div_geq le_mod_geq)
    ultimately show ?thesis
      using False Cons.IH [of "n - 4"] by (auto simp: bit_simps packed_arg_bits_def)
  qed
qed simp

lemma encode_types_get:
  assumes "i < 15" "h AND mask 62 = 0"
  shows "drop_bit (i * 4) (encode_types ts OR h) AND mask 4 =
    (if i < length ts then of_nat (arg_type_value (ts ! i)) else (0 :: u64))"
proof (rule bit_word_eqI)
  fix n
  have h: "\<not> bit h (i * 4 + n)" if "n < 4"
  proof -
    have "i * 4 + n < 62" using assms(1) that by simp
    moreover have "bit (h AND mask 62) (i * 4 + n) = False" using assms(2) by simp
    ultimately show ?thesis by (simp add: bit_simps)
  qed
  have "bit (drop_bit (i * 4) (encode_types ts OR h) AND mask 4) n \<longleftrightarrow>
      n < 4 \<and> i < length ts \<and> bit (of_nat (arg_type_value (ts ! i)) :: u64) n"
    using assms(1) h by (auto simp: bit_simps bit_encode_types)
  moreover have "bit (of_nat (arg_type_value (ts ! i)) :: u64) n \<Longrightarrow> n < 4"
    by (rule bit_of_nat_16 [OF arg_type_value_less])
  ultimately show "bit (drop_bit (i * 4) (encode_types ts OR h) AND mask 4) n =
      bit (if i < length ts then of_nat (arg_type_value (ts ! i)) else (0 :: u64)) n"
    by auto
qed

lemma named_bit_masked: "(if b then has_named_args_bit else 0) AND mask 62 = 0"
  by (rule bit_word_eqI) (auto simp: bit_simps bit_named_args)

lemma named_bit_63: "\<not> bit (if b then has_named_args_bit else 0) 63"
  by (simp add: bit_named_args)

lemma is_packed_make: "length args < 2 ^ 31 \<Longrightarrow> is_packed (make_format_args args) \<longleftrightarrow> length args \<le> 15"
proof -
  have b: "d AND is_unpacked_bit = 0 \<longleftrightarrow> \<not> bit d 63" for d
    unfolding is_unpacked_bit_def and_exp_eq_0_iff_not_bit [symmetric] push_bit_of_1 by simp
  show ?thesis
    using named_bit_63 [of "init_named_args 0 args \<noteq> []"]
    unfolding is_packed_def b
    by (simp add: make_format_args_def Let_def max_packed_args_def packed_arg_bits_def bit_simps
        bit_encode_types is_unpacked_bit_def)
qed

lemma fa_max_size_make:
  assumes "15 < length args" "length args < 2 ^ 31"
  shows "fa_max_size (make_format_args args) = int (length args)"
proof -
  define h where "h = (if init_named_args 0 args \<noteq> [] then has_named_args_bit else 0)"
  have h: "\<not> bit h n" if "n < 32" for n
    using that by (simp add: h_def bit_named_args)
  have d: "fa_desc (make_format_args args) = is_unpacked_bit OR (of_nat (length args) OR h)"
    using assms(1) by (simp add: make_format_args_def Let_def max_packed_args_def packed_arg_bits_def h_def or.assoc)
  have "(ucast (fa_desc (make_format_args args) AND NOT is_unpacked_bit) :: u32) = of_nat (length args)"
    unfolding d by (rule bit_word_eqI) (auto simp: bit_simps h bit_unpacked)
  moreover have "sint (of_nat (length args) :: u32) = int (length args)"
    using assms(2) by (intro sint_of_nat_32) (simp add: int_max_def)
  moreover have "\<not> is_packed (make_format_args args)" using is_packed_make [OF assms(2)] assms(1) by simp
  ultimately show ?thesis by (simp add: fa_max_size_def)
qed

text \<open>An argument is found by its number, however many there are, and nothing beyond them.\<close>

theorem fa_get_make:
  assumes "length args < 2 ^ 31" "0 \<le> i"
  shows "fa_get (make_format_args args) i =
    (if i < int (length args) then Some (snd (args ! nat i)) else None)"
proof (cases "length args \<le> 15")
  case False
  then show ?thesis
    using assms is_packed_make [OF assms(1)] fa_max_size_make [OF _ assms(1)]
    by (auto simp: fa_get_def nth_map nat_less_iff) (simp add: make_format_args_def Let_def nat_less_iff)
next
  case True
  define h where "h = (if init_named_args 0 args \<noteq> [] then has_named_args_bit else 0)"
  have t: "fa_type (make_format_args args) k =
      (if k < length args then value_type (snd (args ! k)) else None_type)" if "k < 15" for k
    using encode_types_get [OF that, of h "map (value_type \<circ> snd) args"] True
      named_bit_masked [of "init_named_args 0 args \<noteq> []"]
    by (simp add: fa_type_def make_format_args_def Let_def max_packed_args_def packed_arg_bits_def
        h_def [symmetric] arg_types_value)
      (simp add: arg_types_def)
  have "value_type v \<noteq> None_type" for v by (cases v) simp_all
  then show ?thesis
    using assms True is_packed_make [OF assms(1)] t [of "nat i"]
    by (auto simp: fa_get_def max_packed_args_def packed_arg_bits_def nat_less_iff)
      (simp_all add: make_format_args_def Let_def nat_less_iff)
qed

section \<open>The handlers satisfy the laws of the parser\<close>

lemma run_specs_suffix: "leaves_suffix s (run_specs np fa i s st)"
  unfolding run_specs_def
  by (auto simp: leaves_suffix_def and_then_eq_Inr_iff split: if_splits
      dest: parse_format_specs_suffix [unfolded leaves_suffix_def, rule_format])

lemma formatter_parse_suffix: "leaves_suffix s (formatter_parse t k s n)"
  unfolding formatter_parse_def
  by (auto simp: leaves_suffix_def and_then_eq_Inr_iff split: if_splits
      dest: parse_format_specs_suffix [unfolded leaves_suffix_def, rule_format])

interpretation run: text_writer "format_handler np fa" for np fa
  by unfold_locales (simp_all add: format_handler_def put_out_def run_specs_suffix)

interpretation compile: text_writer "format_string_checker types" for types
  by unfold_locales (simp_all add: format_string_checker_def formatter_parse_suffix)

text \<open>C29: 
  The two loops are one: the loop for strings shorter than 32 characters and the search for braces
  in longer ones do the same for every string, in the formatter and in the check, with the same
  errors.\<close>

theorem parse_loops_agree:
  "parse_long (format_handler np fa) (length s + 1) s st =
     parse_short (format_handler np fa) (length s + 1) [] s st \<and>
   parse_long (format_string_checker types) (length s + 1) s n =
     parse_short (format_string_checker types) (length s + 1) [] s n"
  by (simp only: run.parse_long_short compile.parse_long_short less_add_one)

section \<open>The check follows the formatter\<close>

text \<open>
  The specifiers that the check sees are those of the run but for dynamic widths and precisions,
  which the check does not know.
\<close>

definition static_specs :: "format_specs \<Rightarrow> format_specs" where
  "static_specs sp = sp\<lparr>sp_width := 0, sp_precision := -1\<rparr>"

definition same_static :: "int \<times> format_specs \<Rightarrow> int \<times> format_specs \<Rightarrow> bool" where
  "same_static a b \<longleftrightarrow> fst a = fst b \<and> static_specs (snd a) = static_specs (snd b)"

text \<open>What only the values of the arguments can tell.\<close>

fun value_error :: "fmt_error \<Rightarrow> bool" where
  "value_error (Format_error m) \<longleftrightarrow>
     m \<in> {''negative width'', ''negative precision'', ''width is not integer'',
       ''precision is not integer'', ''number is too big'', ''argument not found''}"
| "value_error Undefined \<longleftrightarrow> False"

lemma static_setters:
  assumes "static_specs a = static_specs b"
  shows "static_specs (set_align x a) = static_specs (set_align x b)"
    "static_specs (set_sign sg a) = static_specs (set_sign sg b)"
    "static_specs (set_hash a) = static_specs (set_hash b)"
    "static_specs (set_zero a) = static_specs (set_zero b)"
    "static_specs (set_localized a) = static_specs (set_localized b)"
    "static_specs (set_width w a) = static_specs (set_width w b)"
    "static_specs (set_precision p a) = static_specs (set_precision p b)"
    "static_specs (set_type c a) = static_specs (set_type c b)"
    "static_specs (set_width w b) = static_specs b"
    "static_specs (set_precision p b) = static_specs b"
  using assms by (cases a; cases b; simp add: static_specs_def setter_defs Let_def)+

lemma static_fill:
  "static_specs a = static_specs b \<Longrightarrow>
    follows (\<lambda>a b. static_specs a = static_specs b) D (set_fill t a) (set_fill t b)"
  by (cases a; cases b; simp add: static_specs_def setter_defs fill_assign_def)

lemma value_error_dynamic:
  "what \<in> {''width'', ''precision''} \<Longrightarrow> get_dynamic_spec what v = Inl e \<Longrightarrow> value_error e"
  by (cases v) (auto simp: get_dynamic_spec_def checked_value_def split: if_splits)

text \<open>The dynamic width or precision of the check is followed by that of the run.\<close>

lemma on_dynamic_follows:
  assumes l: "length args < 2 ^ 31" and i: "id_ok i" and ab: "same_static a b"
    and w: "what \<in> {''width'', ''precision''}"
    and put: "\<And>w sp. static_specs (put w sp) = static_specs sp"
  shows "follows same_static value_error (compile_dynamic (length args) i a)
    (on_dynamic (make_format_args args) what put i b)"
proof -
  have found: "follows same_static value_error (Inr (n, snd a))
      (and_then (get_arg (fa_get (make_format_args args) j)) (\<lambda>v.
        and_then (get_dynamic_spec what v) (\<lambda>w. Inr (n, put w (snd b)))))"
    if "0 \<le> j" "j < int (length args)" for n j
    using that ab put value_error_dynamic [OF w]
    by (cases "get_dynamic_spec what (snd (args ! nat j))")
      (auto simp: fa_get_make [OF l] get_arg_def same_static_def)
  show ?thesis
  proof (cases i)
    case (Id_name nm)
    have "follows same_static value_error (Inr a)
        (and_then (get_arg r) (\<lambda>v. and_then (get_dynamic_spec what v) (\<lambda>w. Inr (fst b, put w (snd b)))))"
      for r
      using ab put value_error_dynamic [OF w]
      by (cases r; cases "get_dynamic_spec what (the r)") (auto simp: get_arg_def same_static_def)
    with Id_name show ?thesis
      by (simp add: compile_dynamic_def on_dynamic_def get_dynamic_arg_def)
  next
    case Id_auto
    then show ?thesis
      using ab found [of "fst b"]
      by (auto simp: compile_dynamic_def on_dynamic_def get_dynamic_arg_def compile_next_arg_id_def
          next_arg_id_def same_static_def)
  next
    case (Id_index k)
    then show ?thesis
      using ab i found [of k]
      by (auto simp: compile_dynamic_def on_dynamic_def get_dynamic_arg_def compile_check_arg_id_def
          check_arg_id_def same_static_def)
  qed
qed

text \<open>The checks of the type stand before both handlers.\<close>

lemma specs_checker_follows:
  assumes "spec_handlers_follow R D h1 h2"
  shows "spec_handlers_follow R D (specs_checker t h1) (specs_checker t h2)"
  using assms
  by (simp add: spec_handlers_follow_def specs_checker_def require_numeric_argument_def)

lemma on_specs_follows:
  "(\<And>x y. static_specs x = static_specs y \<Longrightarrow> static_specs (f x) = static_specs (f y)) \<Longrightarrow>
    same_static a b \<Longrightarrow> follows same_static D (on_specs f a) (on_specs f b)"
  unfolding on_specs_def same_static_def follows_simps fst_conv snd_conv by blast

lemma on_fill_setter:
  "on_fill (specs_setter w p) t st = and_then (set_fill t (snd st)) (\<lambda>sp. Inr (fst st, sp))"
  by (simp add: specs_setter_def)

lemma specs_setter_follows:
  assumes "\<And>i a b. same_static a b \<Longrightarrow> id_ok i \<Longrightarrow> follows same_static D (w1 i a) (w2 i b)"
    and "\<And>i a b. same_static a b \<Longrightarrow> id_ok i \<Longrightarrow> follows same_static D (p1 i a) (p2 i b)"
  shows "spec_handlers_follow same_static D (specs_setter w1 p1) (specs_setter w2 p2)"
proof
  fix a b :: "int \<times> format_specs" and t
  assume ab: "same_static a b"
  show "follows same_static D (on_fill (specs_setter w1 p1) t a) (on_fill (specs_setter w2 p2) t b)"
    unfolding on_fill_setter
  proof (rule follows_then [OF static_fill])
    show "static_specs (snd a) = static_specs (snd b)" using ab by (simp add: same_static_def)
  next
    fix x y assume "static_specs x = static_specs y"
    with ab show "follows same_static D (Inr (fst a, x)) (Inr (fst b, y))" by (simp add: same_static_def)
  qed
qed (auto simp: specs_setter_def intro!: on_specs_follows static_setters(1-8) assms)

section \<open>What the check promises\<close>

text \<open>An integer is written whenever its type is one of those for integers.\<close>

lemma write_int_total:
  fixes v :: "'a::len word"
  assumes l: "LENGTH('a) \<in> {32, 64, 128}" and np: "grouping_ok np"
    and c: "check_int_type_spec (sp_type sp) = Inr ()"
  shows "\<exists>t. write_int np is_signed v sp = Inr t"
proof -
  obtain a p where ap: "make_write_int_arg is_signed v (sp_sign sp) = (a, p)" by fastforce
  have loc: "\<exists>t. localized_text np a p = Inr t" if "snd np \<noteq> NUL"
    using localized_text_digits [OF l, of np a p] np that by (auto simp: grouping_ok_def)
  have "sp_type sp \<in> set (NUL # ''dxXbBoc'')"
    using c unfolding check_int_type_spec_def by (simp only: split: if_splits) simp_all
  then consider "sp_type sp = NUL \<or> sp_type sp = CHR ''d''" | "sp_type sp = CHR ''x'' \<or> sp_type sp = CHR ''X''"
    | "sp_type sp = CHR ''b'' \<or> sp_type sp = CHR ''B''" | "sp_type sp = CHR ''o''" | "sp_type sp = CHR ''c''"
    by auto
  then have "\<exists>t. write_int_digits np a p sp = Inr t"
  proof cases
    case 1
    then show ?thesis using decimal_text_eq [OF l, of a] loc by (auto simp: write_int_digits_def Let_def)
  qed (auto simp: write_int_digits_def Let_def uint_text_eq)
  then show ?thesis by (simp add: write_int_def ap)
qed

lemma static_specs_eq:
  "static_specs a = static_specs b \<Longrightarrow>
    sp_type a = sp_type b \<and> sp_align a = sp_align b \<and> sp_sign a = sp_sign b \<and> sp_alt a = sp_alt b"
  by (cases a; cases b) (simp add: static_specs_def)

lemma static_check: "static_specs a = static_specs b \<Longrightarrow> check_type_spec t a = check_type_spec t b"
  using static_specs_eq [of a b] by (cases t) (simp_all add: check_type_spec_def check_char_specs_def)

lemma checked_value_written:
  assumes np: "grouping_ok np" and v: "v \<noteq> V_cstring None" and st: "static_specs a = static_specs b"
    and ok: "check_type_spec (value_type v) a = Inr ()"
  shows "\<exists>t. write_value np b v = Inr t"
proof -
  have check: "check_type_spec (value_type v) b = Inr ()" using ok static_check [OF st] by simp
  have w32: "check_int_type_spec (sp_type b) = Inr () \<Longrightarrow> \<exists>t. write_int np sg (x :: u32) b = Inr t" for sg x
    by (rule write_int_total) (simp_all add: np)
  have w64: "check_int_type_spec (sp_type b) = Inr () \<Longrightarrow> \<exists>t. write_int np sg (x :: u64) b = Inr t" for sg x
    by (rule write_int_total) (simp_all add: np)
  have w128: "check_int_type_spec (sp_type b) = Inr () \<Longrightarrow> \<exists>t. write_int np sg (x :: u128) b = Inr t" for sg x
    by (rule write_int_total) (simp_all add: np)
  show ?thesis
  proof (cases v)
    case (V_bool x)
    with check w32 show ?thesis
      by (auto simp: check_type_spec_def Let_def write_bool_def split: if_splits)
  next
    case (V_char x)
    with check obtain p where p: "check_char_specs b = Inr p"
      by (auto simp: check_type_spec_def Let_def and_then_eq_Inr_iff)
    then have "\<not> p \<Longrightarrow> check_int_type_spec (sp_type b) = Inr ()"
      by (auto simp: check_char_specs_def and_then_eq_Inr_iff split: if_splits)
    with V_char p w32 show ?thesis by (cases p) (auto simp: write_char_checked_def)
  next
    case (V_cstring x)
    with check v show ?thesis
      by (auto simp: check_type_spec_def Let_def write_cstring_def check_cstring_type_spec_def
          write_string_checked_def check_string_type_spec_def write_ptr_eq split: if_splits option.splits)
  qed (use check w32 w64 w128 in
    \<open>auto simp: check_type_spec_def Let_def write_string_checked_def write_ptr_eq\<close>)
qed

type_synonym fmt_args = "(string option \<times> fmt_value) list"

definition args_ok :: "numpunct \<Rightarrow> fmt_args \<Rightarrow> bool" where
  "args_ok np args \<longleftrightarrow> length args < 2 ^ 31 \<and> grouping_ok np \<and> V_cstring None \<notin> snd ` set args"

definition args_types :: "fmt_args \<Rightarrow> arg_type list" where
  "args_types args = map (value_type \<circ> snd) args"

lemma args_ok_nth: "args_ok np args \<Longrightarrow> k < length args \<Longrightarrow> snd (args ! k) \<noteq> V_cstring None"
  unfolding args_ok_def by (metis imageI nth_mem)

interpretation static: spec_handlers_follow
  "\<lambda>a b. length args < 2 ^ 31 \<and> same_static a b" value_error
  "specs_checker t (dynamic_specs_handler (length args))"
  "specs_checker t (specs_handler (make_format_args args))" for t args
proof (cases "length args < 2 ^ 31")
  case True
  then have "(\<lambda>a b. length args < 2 ^ 31 \<and> same_static a b) = same_static" by auto
  moreover have "spec_handlers_follow same_static value_error
      (dynamic_specs_handler (length args)) (specs_handler (make_format_args args))"
    unfolding dynamic_specs_handler_def specs_handler_def
    by (intro specs_setter_follows on_dynamic_follows True static_setters) simp_all
  ultimately show "spec_handlers_follow (\<lambda>a b. length args < 2 ^ 31 \<and> same_static a b) value_error
      (specs_checker t (dynamic_specs_handler (length args)))
      (specs_checker t (specs_handler (make_format_args args)))"
    using specs_checker_follows by simp
qed (simp add: spec_handlers_follow_def)

lemma run_field_follows:
  assumes "args_ok np args" "0 \<le> i" "i < int (length args)"
  shows "\<exists>t. run_field (make_format_args args) i st = Inr (put_out t st)"
proof -
  have "fa_get (make_format_args args) i = Some (snd (args ! nat i))"
    using assms fa_get_make [of args i] by (auto simp: args_ok_def)
  moreover have "value_text v \<noteq> None" if "v \<noteq> V_cstring None" for v
    using that by (cases v) auto
  then have "value_text (snd (args ! nat i)) \<noteq> None" using args_ok_nth [OF assms(1)] assms(2,3) by auto
  ultimately show ?thesis by (auto simp: run_field_def get_arg_def write_default_eq)
qed

text \<open>What is left of a field is the same, and what the check accepts is written.\<close>

lemma written_follows:
  assumes "grouping_ok np" "v \<noteq> V_cstring None" "static_specs a = static_specs b"
  shows "follows (same_rest (\<lambda>n st. rs_next st = n)) value_error
    (and_then (check_type_spec (value_type v) a) (\<lambda>_. close_field (r, n)))
    (and_then (if r = [] \<or> hd r \<noteq> CHR ''}'' then on_error (''missing '' @ quoted ''}'' @ '' in format string'')
       else and_then (write_value np b v) (\<lambda>t. Inr (r, put_out t (st\<lparr>rs_next := n\<rparr>)))) close_field)"
proof (cases "check_type_spec (value_type v) a")
  case (Inr u)
  then obtain t where "write_value np b v = Inr t"
    using checked_value_written [OF assms] by auto
  with Inr show ?thesis by (auto simp: close_field_def put_out_def)
qed simp

lemma run_specs_follows:
  assumes ok: "args_ok np args" and i: "0 \<le> i" "i < int (length args)"
  shows "follows (same_rest (\<lambda>n st. rs_next st = n)) value_error
    (and_then (formatter_parse (args_types args ! nat i) (length args) s (rs_next st)) close_field)
    (and_then (run_specs np (make_format_args args) i s st) close_field)"
proof (cases "s = []")
  case False
  define v where "v = snd (args ! nat i)"
  have get: "fa_get (make_format_args args) i = Some v"
    using ok i fa_get_make [of args i] by (auto simp: args_ok_def v_def)
  have v: "v \<noteq> V_cstring None" using args_ok_nth [OF ok] i by (auto simp: v_def)
  have t: "args_types args ! nat i = value_type v" using i by (simp add: args_types_def v_def nat_less_iff)
  have "same_static (rs_next st, specs_new) (rs_next st, specs_new)" by (simp add: same_static_def)
  then have parse: "follows (same_rest (\<lambda>a b. length args < 2 ^ 31 \<and> same_static a b)) value_error
      (parse_format_specs (specs_checker (value_type v) (dynamic_specs_handler (length args))) s
        (rs_next st, specs_new))
      (parse_format_specs (specs_checker (value_type v) (specs_handler (make_format_args args))) s
        (rs_next st, specs_new))"
    using ok by (intro static.parse_format_specs_follows) (simp add: args_ok_def)
  show ?thesis
    unfolding formatter_parse_def run_specs_def get get_arg_def t option.case and_then_simps and_then_assoc
      if_not_P [OF False]
  proof (rule follows_then [OF parse])
    fix x y
    assume "same_rest (\<lambda>a b. length args < 2 ^ 31 \<and> same_static a b) x y"
    then obtain r n a b where "x = (r, n, a)" "y = (r, n, b)" "static_specs a = static_specs b"
      by (cases x; cases y) (auto simp: same_static_def)
    then show "follows (same_rest (\<lambda>n st. rs_next st = n)) value_error
        (and_then (case x of (r, n, sp) \<Rightarrow> and_then (check_type_spec (value_type v) sp) (\<lambda>_. Inr (r, n)))
          close_field)
        (and_then (case y of (r, n, sp) \<Rightarrow>
            if r = [] \<or> hd r \<noteq> CHR ''}'' then on_error (''missing '' @ quoted ''}'' @ '' in format string'')
            else and_then (write_value np sp v) (\<lambda>t. Inr (r, put_out t (st\<lparr>rs_next := n\<rparr>)))) close_field)"
      using written_follows [OF _ v, of np a b r n st] ok by (simp add: args_ok_def)
  qed
qed (simp add: formatter_parse_def close_field_def)

interpretation check: format_handlers_follow
  "format_string_checker (args_types args)" "format_handler np (make_format_args args)"
  "\<lambda>n st. args_ok np args \<and> rs_next st = n" value_error "\<lambda>i. 0 \<le> i \<and> i < int (length args)"
  for np args
proof
  fix a t and b :: run_state
  assume ab: "args_ok np args \<and> rs_next b = a"
  show "follows (\<lambda>n st. args_ok np args \<and> rs_next st = n) value_error
      (on_text (format_string_checker (args_types args)) t a)
      (on_text (format_handler np (make_format_args args)) t b)"
    using ab by (simp add: format_string_checker_def format_handler_def put_out_def)
next
  fix a i and b :: run_state
  assume ab: "args_ok np args \<and> rs_next b = a" "id_ok i"
  show "follows (same_id (\<lambda>n st. args_ok np args \<and> rs_next st = n) (\<lambda>i. 0 \<le> i \<and> i < int (length args)))
      value_error (on_arg_id (format_string_checker (args_types args)) i a)
      (on_arg_id (format_handler np (make_format_args args)) i b)"
    using ab
    by (cases i) (auto simp: format_string_checker_def format_handler_def compile_arg_id_def run_arg_id_def
        compile_next_arg_id_def compile_check_arg_id_def next_arg_id_def check_arg_id_def args_types_def
        same_id_def)
next
  fix a n and b :: run_state
  assume "args_ok np args \<and> rs_next b = a" "0 \<le> n \<and> n < int (length args)"
  then show "follows (\<lambda>n st. args_ok np args \<and> rs_next st = n) value_error
      (on_replacement_field (format_string_checker (args_types args)) n a)
      (on_replacement_field (format_handler np (make_format_args args)) n b)"
    using run_field_follows [of np args n b]
    by (auto simp: format_string_checker_def format_handler_def put_out_def)
next
  fix a n s and b :: run_state
  assume "args_ok np args \<and> rs_next b = a" "0 \<le> n \<and> n < int (length args)"
  then show "follows (same_rest (\<lambda>n st. args_ok np args \<and> rs_next st = n)) value_error
      (and_then (on_format_specs (format_string_checker (args_types args)) n s a) close_field)
      (and_then (on_format_specs (format_handler np (make_format_args args)) n s b) close_field)"
    using run_specs_follows [of np args n s b]
    by (simp add: format_string_checker_def format_handler_def args_types_def)
qed

text \<open>The short cut for the format string of one plain field changes nothing.\<close>

lemma vformat_parse:
  "vformat np fmt fa =
    and_then (parse_format_string (format_handler np fa) fmt \<lparr>rs_out = [], rs_next = 0\<rparr>)
      (\<lambda>st. Inr (rs_out st))"
proof (cases "fmt = ''{}''")
  case True
  have ops: "on_arg_id (format_handler np fa) = run_arg_id fa"
    "on_replacement_field (format_handler np fa) = run_field fa"
    by (simp_all add: format_handler_def)
  show ?thesis
    unfolding True run.parse_format_string_field
    by (simp add: vformat_def vformat_to_def parse_replacement_field_def ops run_arg_id_def
        next_arg_id_def run_field_def put_out_def run.parse_format_string_Nil)
qed (simp add: vformat_def vformat_to_def)


definition sample_args :: fmt_args where
  "sample_args = [(None, V_int 5), (None, V_string ''x''), (None, V_int 3)]"


end
