(* ===== verification/Fmt_Pieces.thy ===== *)
theory Fmt_Pieces
  imports Fmt_Check
begin

text \<open>
  Format strings as they are meant: a list of texts and replacement fields with their specifiers.
  The parser of the library, run on such a string as it is written, makes the calls to its handler
  that the list says, so formatting is the reading of that list.
\<close>

section \<open>Specifiers as they are written\<close>

datatype dimension = No_dim | Fixed_dim nat | Dynamic_dim arg_id

record field_spec =
  fs_align :: "(string option \<times> align_t) option"
  fs_sign :: sign_t
  fs_alt :: bool
  fs_zero :: bool
  fs_width :: dimension
  fs_precision :: dimension
  fs_localized :: bool
  fs_type :: "char option"

fun show_align :: "align_t \<Rightarrow> string" where
  "show_align Align_left = ''<''"
| "show_align Align_right = ''>''"
| "show_align Align_center = ''^''"
| "show_align _ = []"

fun show_sign :: "sign_t \<Rightarrow> string" where
  "show_sign Sign_none = []"
| "show_sign Sign_minus = ''-''"
| "show_sign Sign_plus = ''+''"
| "show_sign Sign_space = '' ''"

fun show_id :: "arg_id \<Rightarrow> string" where
  "show_id Id_auto = []"
| "show_id (Id_index i) = show_nat (nat i)"
| "show_id (Id_name s) = s"

fun show_dim :: "dimension \<Rightarrow> string" where
  "show_dim No_dim = []"
| "show_dim (Fixed_dim n) = show_nat n"
| "show_dim (Dynamic_dim i) = ''{'' @ show_id i @ ''}''"

definition show_fs_align :: "field_spec \<Rightarrow> string" where
  "show_fs_align a =
     (case fs_align a of None \<Rightarrow> [] | Some (None, al) \<Rightarrow> show_align al | Some (Some t, al) \<Rightarrow> t @ show_align al)"

definition show_spec :: "field_spec \<Rightarrow> string" where
  "show_spec a =
     show_fs_align a @ show_sign (fs_sign a) @ (if fs_alt a then ''#'' else []) @
     (if fs_zero a then ''0'' else []) @ show_dim (fs_width a) @
     (if fs_precision a = No_dim then [] else ''.'' @ show_dim (fs_precision a)) @
     (if fs_localized a then ''L'' else []) @ (case fs_type a of None \<Rightarrow> [] | Some c \<Rightarrow> [c])"

text \<open>The calls to the handler.\<close>

definition call_dim ::
  "(int \<Rightarrow> 's \<Rightarrow> 's fmt_result) \<Rightarrow> (arg_id \<Rightarrow> 's \<Rightarrow> 's fmt_result) \<Rightarrow> dimension \<Rightarrow> 's \<Rightarrow> 's fmt_result" where
  "call_dim fixed dynamic d st =
     (case d of No_dim \<Rightarrow> Inr st | Fixed_dim n \<Rightarrow> fixed (int n) st | Dynamic_dim i \<Rightarrow> dynamic i st)"

definition call_align :: "'s spec_handler \<Rightarrow> (string option \<times> align_t) option \<Rightarrow> 's \<Rightarrow> 's fmt_result" where
  "call_align h a st =
     (case a of None \<Rightarrow> Inr st
      | Some (None, al) \<Rightarrow> on_align h al st
      | Some (Some t, al) \<Rightarrow> and_then (on_fill h t st) (on_align h al))"

definition run_spec :: "'s spec_handler \<Rightarrow> field_spec \<Rightarrow> 's \<Rightarrow> 's fmt_result" where
  "run_spec h a st =
     and_then (call_align h (fs_align a) st) (\<lambda>st.
     and_then (if fs_sign a = Sign_none then Inr st else on_sign h (fs_sign a) st) (\<lambda>st.
     and_then (if fs_alt a then on_hash h st else Inr st) (\<lambda>st.
     and_then (if fs_zero a then on_zero h st else Inr st) (\<lambda>st.
     and_then (call_dim (on_width h) (on_dynamic_width h) (fs_width a) st) (\<lambda>st.
     and_then (if fs_precision a = No_dim then Inr st
       else and_then (call_dim (on_precision h) (on_dynamic_precision h) (fs_precision a) st)
         (end_precision h)) (\<lambda>st.
     and_then (if fs_localized a then on_localized h st else Inr st) (\<lambda>st.
       case fs_type a of None \<Rightarrow> Inr st | Some c \<Rightarrow> on_type h c st)))))))"

text \<open>What can be written: a fill is one code point and no brace, widths start with no zero.\<close>

fun name_ok :: "arg_id \<Rightarrow> bool" where
  "name_ok Id_auto \<longleftrightarrow> True"
| "name_ok (Id_index i) \<longleftrightarrow> 0 \<le> i \<and> i \<le> int_max"
| "name_ok (Id_name s) \<longleftrightarrow> s \<noteq> [] \<and> is_name_start (hd s) \<and> (\<forall>c \<in> set s. is_name_char c)"

fun dim_ok :: "dimension \<Rightarrow> bool" where
  "dim_ok No_dim \<longleftrightarrow> True"
| "dim_ok (Fixed_dim n) \<longleftrightarrow> int n \<le> int_max"
| "dim_ok (Dynamic_dim i) \<longleftrightarrow> name_ok i"

fun fs_align_ok :: "(string option \<times> align_t) option \<Rightarrow> bool" where
  "fs_align_ok None \<longleftrightarrow> True"
| "fs_align_ok (Some (t, al)) \<longleftrightarrow>
     al \<in> {Align_left, Align_right, Align_center} \<and>
     (case t of None \<Rightarrow> True
      | Some t \<Rightarrow> t \<noteq> [] \<and> hd t \<noteq> CHR ''{'' \<and> length t = code_point_length (hd t))"

definition fs_ok :: "field_spec \<Rightarrow> bool" where
  "fs_ok a \<longleftrightarrow>
     show_spec a \<noteq> [] \<and> fs_align_ok (fs_align a) \<and> dim_ok (fs_width a) \<and> fs_width a \<noteq> Fixed_dim 0 \<and>
     dim_ok (fs_precision a) \<and>
     (case fs_type a of None \<Rightarrow> True | Some c \<Rightarrow> is_ascii_letter c \<and> c \<noteq> CHR ''L'')"

section \<open>The parsers of the parts\<close>

lemma show_nat_is_digits: "c \<in> set (show_nat n) \<Longrightarrow> is_digit c"
  using show_nat_digits by blast

lemma show_nat_ne [simp]: "show_nat n \<noteq> []"
  using show_nat_head [of n] by auto

lemma hd_show_nat [simp]: "is_digit (hd (show_nat n))"
  by (rule show_nat_is_digits [OF hd_in_set [OF show_nat_ne]])

lemma takeWhile_digits:
  "r = [] \<or> \<not> is_digit (hd r) \<Longrightarrow> takeWhile is_digit (show_nat n @ r) = show_nat n"
  "r = [] \<or> \<not> is_digit (hd r) \<Longrightarrow> dropWhile is_digit (show_nat n @ r) = r"
  by (cases r; simp add: show_nat_is_digits takeWhile_append2 dropWhile_append2)+

lemma parse_nonnegative_show:
  assumes "int n \<le> int_max" "r = [] \<or> \<not> is_digit (hd r)"
  shows "parse_nonnegative_int (show_nat n @ r) e = Inr (int n, r)"
proof -
  have "length (show_nat n) \<le> 10"
    using assms(1) by (intro length_show_nat_le) (simp_all add: int_max_def)
  then show ?thesis
    using assms parse_nonnegative_int_eq [of "show_nat n @ r" e]
    by (auto simp: takeWhile_digits)
qed

lemma name_char_facts:
  "is_name_char c \<Longrightarrow> c \<notin> set ''{}:''" "is_name_start c \<Longrightarrow> \<not> is_digit c"
  by (auto simp: is_name_char_def is_name_start_def is_digit_def)

lemma digit_no_brace: "is_digit c \<Longrightarrow> c \<noteq> CHR ''}'' \<and> c \<noteq> CHR '':'' \<and> c \<noteq> CHR ''{''"
  by (auto simp: is_digit_def)

lemma show_nat_no_zero: "0 < n \<Longrightarrow> hd (show_nat n) \<noteq> CHR ''0''"
proof (induction n rule: show_nat.induct)
  case (1 n)
  show ?case
  proof (cases "n < 10")
    case True
    then have "byte (hd (show_nat n)) = 48 + n" by (simp add: show_nat.simps [of n] digit_def)
    then show ?thesis using 1(2) by auto
  next
    case False
    then show ?thesis
      using 1 show_nat_head [of "n div 10"] by (auto simp: show_nat.simps [of n])
  qed
qed

lemma parse_arg_id_show:
  assumes "name_ok i" "r \<noteq> []" "hd r = CHR ''}'' \<or> hd r = CHR '':''"
  shows "parse_arg_id (show_id i @ r) = Inr (i, r)"
proof -
  have nd: "\<not> is_digit (hd r)" "\<not> is_name_char (hd r)"
    using assms(3) by (auto simp: is_digit_def is_name_char_def is_name_start_def)
  have stop: "(r = [] \<or> hd r \<noteq> CHR ''}'' \<and> hd r \<noteq> CHR '':'') = False" using assms(2,3) by blast
  show ?thesis
  proof (cases i)
    case Id_auto
    with assms show ?thesis by (auto simp: parse_arg_id_def)
  next
    case (Id_index k)
    define u where "u = show_nat (nat k) @ r"
    have u: "is_digit (hd u)" "u \<noteq> []"
      by (simp_all add: u_def)
    then have colon: "hd u \<noteq> CHR ''}''" "hd u \<noteq> CHR '':''" using digit_no_brace by blast+
    show ?thesis
    proof (cases "k = 0")
      case True
      moreover have "digit 0 = CHR ''0''" by code_simp
      ultimately have "u = CHR ''0'' # r" by (simp add: u_def show_nat.simps [of 0])
      then have "parse_arg_id u = Inr (Id_index 0, r)"
        by (simp add: parse_arg_id_def do_parse_arg_id_def stop is_digit_def)
      with True show ?thesis by (simp add: Id_index u_def)
    next
      case False
      then have "hd u \<noteq> CHR ''0''"
        using show_nat_no_zero [of "nat k"] show_nat_head [of "nat k"] Id_index assms(1)
        by (auto simp: u_def)
      moreover have "parse_nonnegative_int u int_max = Inr (k, r)"
        using parse_nonnegative_show [of "nat k" r int_max] nd assms(1) Id_index by (simp add: u_def)
      ultimately have "parse_arg_id u = Inr (Id_index k, r)"
        using u colon by (simp add: parse_arg_id_def do_parse_arg_id_def stop)
      then show ?thesis by (simp add: Id_index u_def)
    qed
  next
    case (Id_name s)
    then obtain c t where s: "s = c # t" "is_name_start c" "\<forall>c \<in> set t. is_name_char c" "is_name_char c"
      using assms(1) by (cases s) auto
    have "takeWhile is_name_char (t @ r) = t" "dropWhile is_name_char (t @ r) = r"
      using s(3) nd(2) assms(2) by (cases r; simp add: takeWhile_append2 dropWhile_append2)+
    with Id_name s assms name_char_facts [of c] show ?thesis
      by (simp add: parse_arg_id_def do_parse_arg_id_def)
  qed
qed

text \<open>A width or a precision, given that what follows is no digit.\<close>

lemma parse_width_show:
  assumes "dim_ok d" "show_dim d @ r \<noteq> []" "r = [] \<or> \<not> is_digit (hd r)" "d = No_dim \<Longrightarrow> hd r \<noteq> CHR ''{''"
  shows "parse_width h (show_dim d @ r) st =
    and_then (call_dim (on_width h) (on_dynamic_width h) d st) (\<lambda>st. Inr (r, st))"
proof (cases d)
  case No_dim
  with assms show ?thesis by (simp add: parse_width_def call_dim_def)
next
  case (Fixed_dim n)
  with assms show ?thesis
    by (simp add: parse_width_def call_dim_def parse_nonnegative_show)
next
  case (Dynamic_dim i)
  with assms parse_arg_id_show [of i "CHR ''}'' # r"] show ?thesis
    by (simp add: parse_width_def call_dim_def is_digit_def)
qed

lemma parse_precision_show:
  assumes "dim_ok d" "d \<noteq> No_dim" "r = [] \<or> \<not> is_digit (hd r)"
  shows "parse_precision h (CHR ''.'' # show_dim d @ r) st =
    and_then (call_dim (on_precision h) (on_dynamic_precision h) d st) (\<lambda>st.
      and_then (end_precision h st) (\<lambda>st. Inr (r, st)))"
proof (cases d)
  case (Fixed_dim n)
  with assms show ?thesis
    by (simp add: parse_precision_def call_dim_def parse_nonnegative_show Let_def)
next
  case (Dynamic_dim i)
  with assms parse_arg_id_show [of i "CHR ''}'' # r"] show ?thesis
    by (simp add: parse_precision_def call_dim_def is_digit_def Let_def)
qed (use assms in simp)

text \<open>The alignment: with none, the second character must not be one.\<close>

lemma align_char_show:
  "al \<in> {Align_left, Align_right, Align_center} \<Longrightarrow> \<exists>c. show_align al = [c] \<and> align_char c = al \<and> is_ascii c"
  by (cases al) (simp_all add: align_char_def is_ascii_def)

lemma parse_align_none:
  assumes "s \<noteq> []" "is_ascii (hd s)" "align_char (hd s) = Align_none"
    "length s \<le> 1 \<or> align_char (s ! 1) = Align_none"
  shows "parse_align h s st = Inr (s, st)"
proof -
  have "parse_align_loop h s 0 st = Inr (s, st)"
    using assms(1,3) by (subst parse_align_loop.simps) (simp add: hd_conv_nth Let_def)
  moreover have "parse_align_loop h s 1 st = parse_align_loop h s 0 st" if "align_char (s ! 1) = Align_none"
    using that by (subst parse_align_loop.simps) (simp add: Let_def)
  ultimately show ?thesis
    using assms(1,2,4) by (auto simp: parse_align_def ascii_length Let_def)
qed

lemma parse_align_plain:
  assumes "al \<in> {Align_left, Align_right, Align_center}" "r = [] \<or> align_char (hd r) = Align_none"
  shows "parse_align h (show_align al @ r) st = and_then (on_align h al st) (\<lambda>st. Inr (r, st))"
proof -
  obtain c where c: "show_align al = [c]" "align_char c = al" "is_ascii c"
    using align_char_show [OF assms(1)] by blast
  have zero: "parse_align_loop h (c # r) 0 st = and_then (on_align h al st) (\<lambda>st. Inr (r, st))"
    using assms(1) c by (subst parse_align_loop.simps) (auto simp: Let_def)
  moreover have "parse_align_loop h (c # r) 1 st = parse_align_loop h (c # r) 0 st"
    if "align_char (hd r) = Align_none" "r \<noteq> []"
    using that by (subst parse_align_loop.simps) (simp add: Let_def hd_conv_nth)
  ultimately show ?thesis
    using assms(2) c by (auto simp: parse_align_def ascii_length Let_def)
qed

lemma parse_align_fill:
  assumes "al \<in> {Align_left, Align_right, Align_center}" "t \<noteq> []" "hd t \<noteq> CHR ''{''"
    "length t = code_point_length (hd t)"
  shows "parse_align h (t @ show_align al @ r) st =
    and_then (on_fill h t st) (\<lambda>st. and_then (on_align h al st) (\<lambda>st. Inr (r, st)))"
proof -
  obtain c where c: "show_align al = [c]" "align_char c = al" using align_char_show [OF assms(1)] by blast
  have "align_char ((t @ c # r) ! length t) \<noteq> Align_none" using c assms(1) by auto
  then have "parse_align_loop h (t @ c # r) (length t) st =
      and_then (on_fill h t st) (\<lambda>st. and_then (on_align h al st) (\<lambda>st. Inr (r, st)))"
    using assms(2,3) c by (subst parse_align_loop.simps) (simp add: Let_def)
  then show ?thesis using assms(2,4) c by (simp add: parse_align_def Let_def)
qed

section \<open>The steps of the parser\<close>

definition plain_char :: "char \<Rightarrow> bool" where
  "plain_char c \<longleftrightarrow> is_ascii c \<and> align_char c = Align_none"

lemma plain_chars:
  "is_digit c \<Longrightarrow> plain_char c" "is_name_char c \<Longrightarrow> plain_char c" "is_ascii_letter c \<Longrightarrow> plain_char c"
  "\<forall>c \<in> set ''+- #0.L{}''. plain_char c"
  by (auto simp: plain_char_def is_ascii_def align_char_def is_digit_def is_name_char_def is_name_start_def
      is_ascii_letter_def)

lemma parse_sign_show:
  "r \<noteq> [] \<Longrightarrow> hd r \<notin> set ''+- '' \<Longrightarrow>
    unless_end (parse_sign h) (show_sign sg @ r, st) =
      and_then (if sg = Sign_none then Inr st else on_sign h sg st) (\<lambda>st. Inr (r, st))"
  by (cases sg) (auto simp: unless_end_def parse_sign_def)

lemma parse_hash_show:
  "r \<noteq> [] \<Longrightarrow> hd r \<noteq> CHR ''#'' \<Longrightarrow>
    unless_end (parse_hash h) ((if b then ''#'' else []) @ r, st) =
      and_then (if b then on_hash h st else Inr st) (\<lambda>st. Inr (r, st))"
  by (auto simp: unless_end_def parse_hash_def)

lemma parse_zero_show:
  "r \<noteq> [] \<Longrightarrow> hd r \<noteq> CHR ''0'' \<Longrightarrow>
    unless_end (parse_zero h) ((if b then ''0'' else []) @ r, st) =
      and_then (if b then on_zero h st else Inr st) (\<lambda>st. Inr (r, st))"
  by (auto simp: unless_end_def parse_zero_def)

lemma parse_dot_show:
  "dim_ok d \<Longrightarrow> r \<noteq> [] \<Longrightarrow> \<not> is_digit (hd r) \<Longrightarrow> hd r \<noteq> CHR ''.'' \<Longrightarrow>
    unless_end (parse_dot h) ((if d = No_dim then [] else ''.'' @ show_dim d) @ r, st) =
      and_then (if d = No_dim then Inr st
        else and_then (call_dim (on_precision h) (on_dynamic_precision h) d st) (end_precision h))
        (\<lambda>st. Inr (r, st))"
  using parse_precision_show [of d r h st] by (auto simp: unless_end_def parse_dot_def)

lemma parse_localized_show:
  "r \<noteq> [] \<Longrightarrow> hd r \<noteq> CHR ''L'' \<Longrightarrow>
    unless_end (parse_localized h) ((if b then ''L'' else []) @ r, st) =
      and_then (if b then on_localized h st else Inr st) (\<lambda>st. Inr (r, st))"
  by (auto simp: unless_end_def parse_localized_def)

lemma parse_type_show:
  "(\<forall>c. t = Some c \<longrightarrow> c \<noteq> CHR ''}'') \<Longrightarrow>
    unless_end (parse_type h) ((case t of None \<Rightarrow> [] | Some c \<Rightarrow> [c]) @ CHR ''}'' # r, st) =
      and_then (case t of None \<Rightarrow> Inr st | Some c \<Rightarrow> on_type h c st) (\<lambda>st. Inr (CHR ''}'' # r, st))"
  by (cases t) (auto simp: unless_end_def parse_type_def)

lemma unless_end_width:
  "dim_ok d \<Longrightarrow> d \<noteq> Fixed_dim 0 \<Longrightarrow> r \<noteq> [] \<Longrightarrow> \<not> is_digit (hd r) \<Longrightarrow> hd r \<noteq> CHR ''{'' \<Longrightarrow>
    unless_end (parse_width h) (show_dim d @ r, st) =
      and_then (call_dim (on_width h) (on_dynamic_width h) d st) (\<lambda>st. Inr (r, st))"
  using parse_width_show [of d r h st] by (simp add: unless_end_def)

text \<open>The short cut for a single letter changes nothing.\<close>

lemma parse_format_specs_long:
  assumes "s \<noteq> []"
  shows "parse_format_specs h s st =
    and_then (parse_align h s st) (\<lambda>rs.
    and_then (unless_end (parse_sign h) rs) (\<lambda>rs.
    and_then (unless_end (parse_hash h) rs) (\<lambda>rs.
    and_then (unless_end (parse_zero h) rs) (\<lambda>rs.
    and_then (unless_end (parse_width h) rs) (\<lambda>rs.
    and_then (unless_end (parse_dot h) rs) (\<lambda>rs.
    and_then (unless_end (parse_localized h) rs)
      (unless_end (parse_type h))))))))"
proof (cases "2 \<le> length s \<and> s ! 1 = CHR ''}'' \<and> is_ascii_letter (hd s) \<and> hd s \<noteq> CHR ''L''")
  case True
  then obtain c r where s: "s = c # CHR ''}'' # r" "is_ascii_letter c" "c \<noteq> CHR ''L''"
    by (cases s; cases "tl s") auto
  have "plain_char c" "plain_char (CHR ''}'')" using plain_chars s(2) by auto
  then have "parse_align h s st = Inr (s, st)"
    using s(1) by (intro parse_align_none) (simp_all add: plain_char_def)
  moreover have "c \<notin> set ''+- #0.{}''" "\<not> is_digit c"
    using s(2) by (auto simp: is_ascii_letter_def is_digit_def)
  ultimately show ?thesis
    using True s by (simp add: parse_format_specs_def unless_end_def parse_sign_def parse_hash_def
        parse_zero_def parse_width_def parse_dot_def parse_localized_def parse_type_def)
next
  case False
  then show ?thesis
    using assms unfolding parse_format_specs_def by (simp only: if_False simp_thms)
qed

section \<open>Specifiers\<close>

lemma show_id_plain: "name_ok i \<Longrightarrow> c \<in> set (show_id i) \<Longrightarrow> plain_char c"
  by (cases i) (auto intro: plain_chars(1,2) show_nat_is_digits)

lemma show_dim_plain: "dim_ok d \<Longrightarrow> c \<in> set (show_dim d) \<Longrightarrow> plain_char c"
  using plain_chars(4) by (cases d) (auto intro: plain_chars(1) show_nat_is_digits show_id_plain)

lemma show_dim_head:
  "d \<noteq> Fixed_dim 0 \<Longrightarrow> d \<noteq> No_dim \<Longrightarrow>
    hd (show_dim d @ r) = CHR ''{'' \<or> is_digit (hd (show_dim d @ r)) \<and> hd (show_dim d @ r) \<noteq> CHR ''0''"
  using show_nat_no_zero by (cases d) auto

text \<open>
  The parser calls, for specifiers as they are written, what they mean, and stops at the brace.
\<close>

lemma parse_spec_show:
  assumes ok: "fs_ok a"
  shows "parse_format_specs h (show_spec a @ CHR ''}'' # rest) st =
    and_then (run_spec h a st) (\<lambda>st. Inr (CHR ''}'' # rest, st))"
proof -
  define t7 where "t7 = (case fs_type a of None \<Rightarrow> [] | Some c \<Rightarrow> [c]) @ CHR ''}'' # rest"
  define t6 where "t6 = (if fs_localized a then ''L'' else []) @ t7"
  define t5 where "t5 = (if fs_precision a = No_dim then [] else ''.'' @ show_dim (fs_precision a)) @ t6"
  define t4 where "t4 = show_dim (fs_width a) @ t5"
  define t3 where "t3 = (if fs_zero a then ''0'' else []) @ t4"
  define t2 where "t2 = (if fs_alt a then ''#'' else []) @ t3"
  define t1 where "t1 = show_sign (fs_sign a) @ t2"
  have whole: "show_spec a @ CHR ''}'' # rest = show_fs_align a @ t1"
    by (simp add: show_spec_def t1_def t2_def t3_def t4_def t5_def t6_def t7_def)
  have letter: "is_ascii_letter c \<and> c \<noteq> CHR ''L''" if "fs_type a = Some c" for c
    using ok that by (simp add: fs_ok_def)
  have h7: "t7 \<noteq> []" "hd t7 = CHR ''}'' \<or> is_ascii_letter (hd t7) \<and> hd t7 \<noteq> CHR ''L''"
    using letter by (auto simp: t7_def split: option.splits)
  have h6: "t6 \<noteq> []" "hd t6 = CHR ''}'' \<or> is_ascii_letter (hd t6)"
    using h7 by (auto simp: t6_def is_ascii_letter_def)
  have h5: "t5 \<noteq> []" "hd t5 = CHR ''.'' \<or> hd t5 = CHR ''}'' \<or> is_ascii_letter (hd t5)"
    using h6 by (auto simp: t5_def)
  have n6: "\<not> is_digit (hd t6)" "hd t6 \<noteq> CHR ''.''"
    and n5: "\<not> is_digit (hd t5)" "hd t5 \<noteq> CHR ''{''" "hd t5 \<notin> set ''+- #0''"
    using h6 h5 by (auto simp: is_ascii_letter_def is_digit_def)
  have dims: "dim_ok (fs_width a)" "fs_width a \<noteq> Fixed_dim 0" "dim_ok (fs_precision a)"
    using ok by (simp_all add: fs_ok_def)
  have h4: "t4 \<noteq> []" "hd t4 \<notin> set ''+- #0''"
  proof -
    show "t4 \<noteq> []" using h5 by (simp add: t4_def)
    show "hd t4 \<notin> set ''+- #0''"
      using n5 show_dim_head [OF dims(2), of t5]
      by (cases "fs_width a = No_dim") (auto simp: t4_def is_digit_def)
  qed
  have h3: "t3 \<noteq> []" "hd t3 \<notin> set ''+- #''" using h4 by (auto simp: t3_def)
  have h2: "t2 \<noteq> []" "hd t2 \<notin> set ''+- ''" using h3 by (auto simp: t2_def)
  have steps:
    "unless_end (parse_sign h) (t1, st) =
      and_then (if fs_sign a = Sign_none then Inr st else on_sign h (fs_sign a) st) (\<lambda>st. Inr (t2, st))"
    "unless_end (parse_hash h) (t2, st) =
      and_then (if fs_alt a then on_hash h st else Inr st) (\<lambda>st. Inr (t3, st))"
    "unless_end (parse_zero h) (t3, st) =
      and_then (if fs_zero a then on_zero h st else Inr st) (\<lambda>st. Inr (t4, st))"
    "unless_end (parse_width h) (t4, st) =
      and_then (call_dim (on_width h) (on_dynamic_width h) (fs_width a) st) (\<lambda>st. Inr (t5, st))"
    "unless_end (parse_dot h) (t5, st) =
      and_then (if fs_precision a = No_dim then Inr st
        else and_then (call_dim (on_precision h) (on_dynamic_precision h) (fs_precision a) st)
          (end_precision h)) (\<lambda>st. Inr (t6, st))"
    "unless_end (parse_localized h) (t6, st) =
      and_then (if fs_localized a then on_localized h st else Inr st) (\<lambda>st. Inr (t7, st))"
    "unless_end (parse_type h) (t7, st) =
      and_then (case fs_type a of None \<Rightarrow> Inr st | Some c \<Rightarrow> on_type h c st)
        (\<lambda>st. Inr (CHR ''}'' # rest, st))" for st
  proof -
    show "unless_end (parse_sign h) (t1, st) =
        and_then (if fs_sign a = Sign_none then Inr st else on_sign h (fs_sign a) st) (\<lambda>st. Inr (t2, st))"
      unfolding t1_def by (rule parse_sign_show [OF h2])
    show "unless_end (parse_hash h) (t2, st) =
        and_then (if fs_alt a then on_hash h st else Inr st) (\<lambda>st. Inr (t3, st))"
      unfolding t2_def using h3 by (intro parse_hash_show) auto
    show "unless_end (parse_zero h) (t3, st) =
        and_then (if fs_zero a then on_zero h st else Inr st) (\<lambda>st. Inr (t4, st))"
      unfolding t3_def using h4 by (intro parse_zero_show) auto
    show "unless_end (parse_width h) (t4, st) =
        and_then (call_dim (on_width h) (on_dynamic_width h) (fs_width a) st) (\<lambda>st. Inr (t5, st))"
      unfolding t4_def using h5 n5 by (intro unless_end_width dims) auto
    show "unless_end (parse_dot h) (t5, st) =
        and_then (if fs_precision a = No_dim then Inr st
          else and_then (call_dim (on_precision h) (on_dynamic_precision h) (fs_precision a) st)
            (end_precision h)) (\<lambda>st. Inr (t6, st))"
      unfolding t5_def using h6 n6 by (intro parse_dot_show dims) auto
    show "unless_end (parse_localized h) (t6, st) =
        and_then (if fs_localized a then on_localized h st else Inr st) (\<lambda>st. Inr (t7, st))"
      unfolding t6_def using h7 by (intro parse_localized_show) auto
    show "unless_end (parse_type h) (t7, st) =
        and_then (case fs_type a of None \<Rightarrow> Inr st | Some c \<Rightarrow> on_type h c st)
          (\<lambda>st. Inr (CHR ''}'' # rest, st))"
      unfolding t7_def using letter by (intro parse_type_show) (auto simp: is_ascii_letter_def)
  qed
  define body where "body = show_sign (fs_sign a) @ (if fs_alt a then ''#'' else []) @
     (if fs_zero a then ''0'' else []) @ show_dim (fs_width a) @
     (if fs_precision a = No_dim then [] else ''.'' @ show_dim (fs_precision a)) @
     (if fs_localized a then ''L'' else []) @ (case fs_type a of None \<Rightarrow> [] | Some c \<Rightarrow> [c])"
  have body: "t1 = body @ CHR ''}'' # rest" "show_spec a = show_fs_align a @ body"
    by (simp_all add: body_def show_spec_def t1_def t2_def t3_def t4_def t5_def t6_def t7_def)
  have "plain_char c" if "c \<in> set (show_sign sg)" for c sg
    using that plain_chars(4) by (cases sg) auto
  then have plain: "plain_char c" if "c \<in> set body" for c
    using that plain_chars(3,4) letter dims show_dim_plain
    by (auto simp: body_def split: if_splits option.splits)
  have brace: "plain_char (CHR ''}'')" using plain_chars(4) by simp
  have head: "plain_char (hd t1)" using brace plain by (cases body) (auto simp: body)
  have align: "parse_align h (show_fs_align a @ t1) st =
      and_then (call_align h (fs_align a) st) (\<lambda>st. Inr (t1, st))"
  proof (cases "fs_align a")
    case None
    then have "body \<noteq> []" using ok body(2) by (simp add: fs_ok_def show_fs_align_def)
    then have "plain_char (t1 ! 1)" using brace plain by (cases body; cases "tl body") (auto simp: body)
    then have "parse_align h t1 st = Inr (t1, st)"
      using head h2 by (intro parse_align_none) (auto simp: plain_char_def t1_def)
    with None show ?thesis by (simp add: show_fs_align_def call_align_def)
  next
    case (Some ta)
    obtain t al where ta: "ta = (t, al)" by fastforce
    have al: "al \<in> {Align_left, Align_right, Align_center}"
      using ok Some ta by (simp add: fs_ok_def)
    show ?thesis
    proof (cases t)
      case None
      then show ?thesis
        using parse_align_plain [OF al, of t1 h st] head Some ta
        by (simp add: show_fs_align_def call_align_def plain_char_def)
    next
      case (Some f)
      then have "f \<noteq> []" "hd f \<noteq> CHR ''{''" "length f = code_point_length (hd f)"
        using ok \<open>fs_align a = Some ta\<close> ta by (simp_all add: fs_ok_def)
      then show ?thesis
        using parse_align_fill [OF al, of f h t1 st] \<open>fs_align a = Some ta\<close> ta Some
        by (simp add: show_fs_align_def call_align_def)
    qed
  qed
  have "show_fs_align a @ t1 \<noteq> []" by (simp add: body)
  then show ?thesis
    unfolding whole run_spec_def
    by (simp add: parse_format_specs_long align steps)
qed

section \<open>Format strings\<close>

datatype piece = Lit string | Plain_field arg_id | Spec_field arg_id field_spec

definition show_lit :: "string \<Rightarrow> string" where
  "show_lit t = concat (map (\<lambda>c. if c = CHR ''{'' \<or> c = CHR ''}'' then [c, c] else [c]) t)"

fun show_piece :: "piece \<Rightarrow> string" where
  "show_piece (Lit t) = show_lit t"
| "show_piece (Plain_field i) = ''{'' @ show_id i @ ''}''"
| "show_piece (Spec_field i a) = ''{'' @ show_id i @ '':'' @ show_spec a @ ''}''"

definition show_pieces :: "piece list \<Rightarrow> string" where
  "show_pieces ps = concat (map show_piece ps)"

fun piece_ok :: "piece \<Rightarrow> bool" where
  "piece_ok (Lit t) \<longleftrightarrow> True"
| "piece_ok (Plain_field i) \<longleftrightarrow> name_ok i"
| "piece_ok (Spec_field i a) \<longleftrightarrow> name_ok i \<and> fs_ok a"

text \<open>What the pieces mean.\<close>

fun format_piece :: "numpunct \<Rightarrow> format_args \<Rightarrow> piece \<Rightarrow> run_state \<Rightarrow> run_state fmt_result" where
  "format_piece np fa (Lit t) st = Inr (put_out t st)"
| "format_piece np fa (Plain_field i) st =
     and_then (run_arg_id fa i st) (\<lambda>(i, st). run_field fa i st)"
| "format_piece np fa (Spec_field i a) st =
     and_then (run_arg_id fa i st) (\<lambda>(i, st).
     and_then (get_arg (fa_get fa i)) (\<lambda>v.
     and_then (run_spec (specs_checker (value_type v) (specs_handler fa)) a (rs_next st, specs_new)) (\<lambda>(n, sp).
     and_then (write_value np sp v) (\<lambda>t. Inr (put_out t (st\<lparr>rs_next := n\<rparr>))))))"

primrec format_pieces :: "numpunct \<Rightarrow> format_args \<Rightarrow> piece list \<Rightarrow> run_state \<Rightarrow> run_state fmt_result" where
  "format_pieces np fa [] st = Inr st"
| "format_pieces np fa (p # ps) st = and_then (format_piece np fa p st) (format_pieces np fa ps)"

section \<open>Formatting is the reading of the pieces\<close>

context text_writer
begin

lemma text_Cons: "and_then (on_text h [c] st) (on_text h t) = on_text h (c # t) st"
  using text_append [of "[c]" t st] by simp

lemma parse_lit:
  "parse_format_string h (show_lit t @ r) st = and_then (on_text h t st) (parse_format_string h r)"
proof (induction t arbitrary: st)
  case (Cons c t)
  have rec: "parse_format_string h (show_lit t @ r) = (\<lambda>st. and_then (on_text h t st) (parse_format_string h r))"
    using Cons.IH by blast
  have step: "show_lit (c # t) = (if c = CHR ''{'' \<or> c = CHR ''}'' then [c, c] else [c]) @ show_lit t"
    by (simp add: show_lit_def)
  show ?case
    using rec text_Cons [of c st t, symmetric]
    by (auto simp: step parse_format_string_open parse_format_string_close parse_format_string_Cons)
qed (simp add: show_lit_def text_empty)

lemma parse_field:
  assumes "name_ok i" "r \<noteq> []" "hd r = CHR ''}'' \<or> hd r = CHR '':''"
  shows "parse_format_string h (CHR ''{'' # show_id i @ r) st =
    and_then (on_arg_id h i st) (\<lambda>(i, st).
      if hd r = CHR ''}'' then and_then (on_replacement_field h i st) (parse_format_string h (tl r))
      else and_then (on_format_specs h i (tl r) st) (\<lambda>(r, st).
        if r = [] \<or> hd r \<noteq> CHR ''}'' then on_error ''unknown format specifier''
        else parse_format_string h (tl r) st))"
proof (cases "i = Id_auto \<and> hd r = CHR ''}''")
  case True
  with assms(2) show ?thesis
    by (cases r) (auto simp: parse_format_string_field parse_replacement_field_def
        intro!: and_then_cong split: prod.splits)
next
  case False
  define s where "s = show_id i @ r"
  have "hd s \<noteq> CHR ''}'' \<and> hd s \<noteq> CHR ''{''"
  proof (cases i)
    case (Id_index k)
    then show ?thesis using digit_no_brace hd_show_nat by (auto simp: s_def)
  next
    case (Id_name n)
    with assms(1) show ?thesis by (cases n) (auto simp: s_def is_name_start_def)
  qed (use False assms in \<open>auto simp: s_def\<close>)
  moreover have "s \<noteq> []" "parse_arg_id s = Inr (i, r)"
    using assms(2) parse_arg_id_show [OF assms] by (simp_all add: s_def)
  ultimately have field: "parse_replacement_field h (CHR ''{'' # s) st =
      and_then (on_arg_id h i st) (\<lambda>(i, st).
        if hd r = CHR ''}'' then and_then (on_replacement_field h i st) (\<lambda>st. Inr (tl r, st))
        else and_then (on_format_specs h i (tl r) st) (\<lambda>(r, st).
          if r = [] \<or> hd r \<noteq> CHR ''}'' then on_error ''unknown format specifier'' else Inr (tl r, st)))"
    using assms(2,3) by (auto simp: parse_replacement_field_def intro!: and_then_cong)
  show ?thesis
    unfolding s_def [symmetric] parse_format_string_field field
    by (auto intro!: and_then_cong)
qed

end

lemma format_handler_ops:
  "on_arg_id (format_handler np fa) = run_arg_id fa"
  "on_replacement_field (format_handler np fa) = run_field fa"
  "on_format_specs (format_handler np fa) = run_specs np fa"
  by (simp_all add: format_handler_def)

lemma format_piece_parse:
  assumes "piece_ok p"
  shows "parse_format_string (format_handler np fa) (show_piece p @ r) st =
    and_then (format_piece np fa p st) (parse_format_string (format_handler np fa) r)"
proof (cases p)
  case (Lit t)
  then show ?thesis by (simp add: run.parse_lit) (simp add: format_handler_def)
next
  case (Plain_field i)
  then show ?thesis
    using assms run.parse_field [of i "CHR ''}'' # r" np fa st]
    by (simp add: format_handler_ops case_prod_unfold)
next
  case (Spec_field i a)
  then show ?thesis
    using assms run.parse_field [of i "CHR '':'' # show_spec a @ CHR ''}'' # r" np fa st]
    by (simp add: format_handler_ops run_specs_def parse_spec_show case_prod_unfold)
qed

lemma vformat_show_pieces:
  assumes "\<forall>p \<in> set ps. piece_ok p"
  shows "vformat np (show_pieces ps) fa =
    and_then (format_pieces np fa ps \<lparr>rs_out = [], rs_next = 0\<rparr>) (\<lambda>st. Inr (rs_out st))"
proof -
  have "parse_format_string (format_handler np fa) (show_pieces ps) st = format_pieces np fa ps st" for st
    using assms
  proof (induction ps arbitrary: st)
    case (Cons p ps)
    then have "parse_format_string (format_handler np fa) (show_pieces ps) = format_pieces np fa ps"
      by (simp add: fun_eq_iff)
    with Cons.prems show ?case
      by (simp add: show_pieces_def format_piece_parse)
  qed (simp add: show_pieces_def run.parse_format_string_Nil)
  then show ?thesis by (simp add: vformat_parse)
qed

section \<open>Plain fields\<close>

text \<open>Texts and fields without a number or specifiers take the arguments one after the other.\<close>

fun is_plain :: "piece \<Rightarrow> bool" where
  "is_plain (Lit t) \<longleftrightarrow> True"
| "is_plain (Plain_field i) \<longleftrightarrow> i = Id_auto"
| "is_plain (Spec_field i a) \<longleftrightarrow> False"

fun num_fields :: "piece list \<Rightarrow> nat" where
  "num_fields [] = 0"
| "num_fields (Lit t # ps) = num_fields ps"
| "num_fields (_ # ps) = Suc (num_fields ps)"

fun fill_in :: "piece list \<Rightarrow> string list \<Rightarrow> string" where
  "fill_in [] ts = []"
| "fill_in (Lit t # ps) ts = t @ fill_in ps ts"
| "fill_in (_ # ps) ts = hd ts @ fill_in ps (tl ts)"

definition arg_texts :: "fmt_args \<Rightarrow> string list" where
  "arg_texts args = map (the \<circ> value_text \<circ> snd) args"

lemma run_field_plain:
  assumes "args_ok np args" "k < length args"
  shows "run_field (make_format_args args) (int k) st = Inr (put_out (arg_texts args ! k) st)"
proof -
  have "fa_get (make_format_args args) (int k) = Some (snd (args ! k))"
    using assms fa_get_make [of args "int k"] by (simp add: args_ok_def)
  moreover obtain t where "value_text (snd (args ! k)) = Some t"
    using args_ok_nth [OF assms] by (cases "snd (args ! k)") auto
  ultimately show ?thesis using assms(2) by (simp add: run_field_def get_arg_def write_default_eq arg_texts_def)
qed

lemma format_plain_pieces:
  assumes "args_ok np args"
  shows "\<forall>p \<in> set ps. is_plain p \<Longrightarrow> n + num_fields ps \<le> length args \<Longrightarrow>
    format_pieces np (make_format_args args) ps \<lparr>rs_out = out, rs_next = int n\<rparr> =
      Inr \<lparr>rs_out = out @ fill_in ps (drop n (arg_texts args)), rs_next = int (n + num_fields ps)\<rparr>"
proof (induction ps arbitrary: n out)
  case (Cons p ps)
  have l: "length (arg_texts args) = length args" by (simp add: arg_texts_def)
  show ?case
  proof (cases p)
    case (Lit t)
    with Cons show ?thesis by (simp add: put_out_def)
  next
    case (Plain_field i)
    then have n: "i = Id_auto" "n < length args" using Cons.prems by auto
    have field: "run_field (make_format_args args) (int n) \<lparr>rs_out = out, rs_next = int n + 1\<rparr> =
        Inr \<lparr>rs_out = out @ arg_texts args ! n, rs_next = int n + 1\<rparr>"
      using run_field_plain [OF assms n(2)] by (simp add: put_out_def)
    have "int (Suc n) = int n + 1" by simp
    then have rec: "format_pieces np (make_format_args args) ps \<lparr>rs_out = o', rs_next = int n + 1\<rparr> =
        Inr \<lparr>rs_out = o' @ fill_in ps (drop (Suc n) (arg_texts args)), rs_next = int n + 1 + int (num_fields ps)\<rparr>"
      for o' using Cons.IH [of "Suc n" o'] Cons.prems Plain_field by (simp add: algebra_simps)
    have "drop n (arg_texts args) = arg_texts args ! n # drop (Suc n) (arg_texts args)"
      using n l by (simp add: Cons_nth_drop_Suc)
    then show ?thesis
      using Plain_field n(1) field rec by (simp add: run_arg_id_def next_arg_id_def)
  next
    case (Spec_field i a)
    with Cons.prems show ?thesis by simp
  qed
qed simp

lemma check_plain_pieces:
  "\<forall>p \<in> set ps. is_plain p \<Longrightarrow> n + num_fields ps \<le> length types \<Longrightarrow>
    parse_format_string (format_string_checker types) (show_pieces ps) (int n) = Inr (int (n + num_fields ps))"
proof (induction ps arbitrary: n)
  case (Cons p ps)
  have ops: "on_text (format_string_checker types) t = Inr"
    "on_arg_id (format_string_checker types) = compile_arg_id types"
    "on_replacement_field (format_string_checker types) i = Inr" for t i
    by (simp_all add: format_string_checker_def)
  show ?case
  proof (cases p)
    case (Lit t)
    with Cons show ?thesis by (simp add: show_pieces_def compile.parse_lit ops)
  next
    case (Plain_field i)
    then have n: "i = Id_auto" "n < length types" using Cons.prems by auto
    have "int (Suc n) = int n + 1" by simp
    then have "parse_format_string (format_string_checker types) (show_pieces ps) (int n + 1) =
        Inr (int n + 1 + int (num_fields ps))"
      using Cons.IH [of "Suc n"] Cons.prems Plain_field by (simp add: algebra_simps)
    then show ?thesis
      using Plain_field n compile.parse_field [of Id_auto "CHR ''}'' # show_pieces ps" types "int n"]
      by (simp add: show_pieces_def ops compile_arg_id_def compile_next_arg_id_def next_arg_id_def)
  next
    case (Spec_field i a)
    with Cons.prems show ?thesis by simp
  qed
qed (simp add: show_pieces_def compile.parse_format_string_Nil)

text \<open>Such a string passes the check when it has enough arguments, and prints their texts.\<close>

theorem plain_string_formats:
  assumes "\<forall>p \<in> set ps. is_plain p" "num_fields ps \<le> length args" "args_ok np args"
  shows "check_format_string (args_types args) (show_pieces ps) = Inr () \<and>
    vformat np (show_pieces ps) (make_format_args args) = Inr (fill_in ps (arg_texts args))"
proof -
  have "piece_ok p" if "p \<in> set ps" for p using assms(1) that by (cases p) auto
  then show ?thesis
    using assms check_plain_pieces [of ps 0 "args_types args"] format_plain_pieces [of np args ps 0 "[]"]
    by (simp add: check_format_string_def vformat_show_pieces args_types_def)
qed

text \<open>C26: 
  Formatting reads the pieces: a format string, written from texts and replacement fields with any
  specifiers, is formatted field by field as the pieces say, doubled braces and all, and the first
  error of a piece is the error of the whole.\<close>

theorem formatting_reads_pieces:
  assumes "list_all piece_ok ps"
  shows "vformat np (show_pieces ps) fa =
    and_then (format_pieces np fa ps \<lparr>rs_out = [], rs_next = 0\<rparr>) (\<lambda>st. Inr (rs_out st))"
  using assms by (simp add: vformat_show_pieces list_all_iff)

definition sample_spec :: field_spec where
  "sample_spec = \<lparr>fs_align = Some (Some ''*'', Align_center), fs_sign = Sign_plus, fs_alt = True,
     fs_zero = False, fs_width = Fixed_dim 9, fs_precision = No_dim, fs_localized = False,
     fs_type = Some (CHR ''x'')\<rparr>"

theorem formatting_reads_pieces_witness:
  "show_pieces [Lit ''{a}'', Spec_field Id_auto sample_spec] = ''{{a}}{:*^+#9x}'' \<and>
   vformat ([], NUL) ''{{a}}{:*^+#9x}'' (make_format_args [(None, V_int 255)]) =
     and_then (format_pieces ([], NUL) (make_format_args [(None, V_int 255)])
       [Lit ''{a}'', Spec_field Id_auto sample_spec] \<lparr>rs_out = [], rs_next = 0\<rparr>) (\<lambda>st. Inr (rs_out st))"
proof -
  have d: "digit 9 = CHR ''9''" by code_simp
  have shown: "show_pieces [Lit ''{a}'', Spec_field Id_auto sample_spec] = ''{{a}}{:*^+#9x}''"
    by (simp add: show_pieces_def show_lit_def sample_spec_def show_spec_def show_fs_align_def show_nat_digit d)
  have "code_point_length (CHR ''*'') = 1" by (rule ascii_length) (simp add: is_ascii_def)
  then have "list_all piece_ok [Lit ''{a}'', Spec_field Id_auto sample_spec]"
    by (simp add: sample_spec_def fs_ok_def show_spec_def show_fs_align_def int_max_def is_ascii_letter_def)
  from formatting_reads_pieces [OF this, of "([], NUL)" "make_format_args [(None, V_int 255)]"]
  show ?thesis unfolding shown by simp
qed

end
