(* ===== verification/Log_Calls.thy ===== *)
theory Log_Calls
  imports Fmt_Pieces Spd_Logger Auth_Provider Messages
begin

text \<open>
  Messages with arguments: the logger that formats them (\<^verbatim>\<open>logger::log_\<close> of
  \<^verbatim>\<open>contrib/spdlog/include/spdlog/logger.h\<close>) and the calls of the two applications and of the
  dispatcher, each with the text that it prints.
\<close>

section \<open>A message with arguments\<close>

text \<open>The formatter runs only when the message is wanted; what it throws goes to the error handler.\<close>

definition logger_log_args ::
  "numpunct \<Rightarrow> platform \<Rightarrow> u64 \<Rightarrow> nat \<Rightarrow> source_loc \<Rightarrow> level_enum \<Rightarrow> string \<Rightarrow> fmt_args \<Rightarrow>
    log_state \<Rightarrow> log_state option" where
  "logger_log_args np os tid l loc lvl fmt args w =
     (case ls_loggers w l of
        None \<Rightarrow> None
      | Some lg \<Rightarrow>
          let log_enabled = should_log lvl lg;
              traceback_enabled = bt_enabled (lo_tracer lg)
          in if \<not> log_enabled \<and> \<not> traceback_enabled then Some w
             else
               case vformat_to np [] fmt (make_format_args args) of
                 Inl Undefined \<Rightarrow> None
               | Inl (Format_error what) \<Rightarrow> Some (err_handler lg (catch_text loc what) w)
               | Inr payload \<Rightarrow>
                   let (now, w) = ls_now w
                   in log_it os l (log_msg now tid loc (lo_name lg) lvl payload)
                        log_enabled traceback_enabled w)"

text \<open>The format strings of the library itself print what the model of their callers says.\<close>

lemma plain_formats:
  assumes "show_pieces ps = fmt" "\<forall>p \<in> set ps. is_plain p" "num_fields ps \<le> length args" "args_ok np args"
    "fill_in ps (arg_texts args) = t"
  shows "check_format_string (args_types args) fmt = Inr () \<and> vformat np fmt (make_format_args args) = Inr t"
  using plain_string_formats [OF assms(2-4)] assms(1,5) by simp

lemmas show_pieces_simps = show_pieces_def show_lit_def args_ok_def arg_texts_def

section \<open>Calls\<close>

record log_call =
  lc_level :: level_enum
  lc_format :: string
  lc_args :: "fmt_value list"

definition log_call :: "level_enum \<Rightarrow> string \<Rightarrow> fmt_value list \<Rightarrow> log_call" where
  "log_call lvl fmt args = \<lparr>lc_level = lvl, lc_format = fmt, lc_args = args\<rparr>"

definition call_args :: "log_call \<Rightarrow> fmt_args" where
  "call_args c = map (Pair None) (lc_args c)"

text \<open>A status is printed as the number of its enumerator.\<close>

fun status_value :: "auth_status \<Rightarrow> u32" where
  "status_value Auth_added = 0"
| "status_value Auth_removed = 1"
| "status_value Auth_accepted = 2"
| "status_value Auth_rejected = 3"
| "status_value Auth_not_found = 4"

subsection \<open>The server and the dispatcher\<close>

definition folder_log :: "string \<Rightarrow> log_call" where
  "folder_log folder =
     log_call Level_info
       ''app::main => app_folder : {}''
       [V_string folder]"

definition addr_log :: "string \<Rightarrow> log_call" where
  "addr_log addr =
     log_call Level_info
       ''app::main => srv_addrr : {}''
       [V_string addr]"

definition login_conf_log :: "string \<Rightarrow> string \<Rightarrow> log_call" where
  "login_conf_log login password =
     log_call Level_info
       ''app::main => clinet : [ {}:{} ]''
       [V_string login, V_string password]"

definition exception_log :: "u64 \<times> string \<Rightarrow> log_call" where
  "exception_log what =
     log_call Level_err
       ''app::main => exception !{}!''
       [V_cstring (Some what)]"

definition client_hello_log :: "u64 \<Rightarrow> log_call" where
  "client_hello_log cid =
     log_call Level_debug
       ''app::client_hello_packet_handler => client id : {}''
       [V_ulong_long cid]"

definition client_ping_log :: "u64 \<Rightarrow> string \<Rightarrow> auth_status \<Rightarrow> log_call" where
  "client_ping_log cid session status =
     log_call Level_debug
       ''app::client_ping_packet_handler => client [id: {}, session: {}] auth status: {}''
       [V_ulong_long cid, V_string session, V_int (status_value status)]"

definition client_login_log :: "u64 \<Rightarrow> string \<Rightarrow> string \<Rightarrow> auth_status \<Rightarrow> string \<Rightarrow> log_call" where
  "client_login_log cid login password status session =
     log_call Level_debug
       ''app::client_login_packet_handler => client [id: {}, login: {}, password: {}] auth status: {} --> session: {}''
       [V_ulong_long cid, V_string login, V_string password, V_int (status_value status), V_string session]"

definition client_logout_log :: "u64 \<Rightarrow> string \<Rightarrow> auth_status \<Rightarrow> log_call" where
  "client_logout_log cid session status =
     log_call Level_debug
       ''app::client_logout_packet_handler => client [id: {}, _session: {}] auth status: {}''
       [V_ulong_long cid, V_string session, V_int (status_value status)]"

definition client_message_log :: "u64 \<Rightarrow> string \<Rightarrow> auth_status \<Rightarrow> log_call" where
  "client_message_log cid session status =
     log_call Level_debug
       ''app::client_message_packet_handler => client [id: {}, _session: {}] auth status: {}''
       [V_ulong_long cid, V_string session, V_int (status_value status)]"

definition client_message_reply_log :: "u64 \<Rightarrow> string \<Rightarrow> string \<Rightarrow> string \<Rightarrow> log_call" where
  "client_message_reply_log cid client_id state message =
     log_call Level_debug
       ''app::client_message_reply_packet_handler => client [id: {}, _client_id: {}] status: {}, message: {}''
       [V_ulong_long cid, V_string client_id, V_string state, V_string message]"

definition dispatch_log :: "string \<Rightarrow> u64 \<times> string \<Rightarrow> log_call" where
  "dispatch_log cmd what =
     log_call Level_err
       ''dispatcher::dispatch => handler [{}] exception !{}!''
       [V_string cmd, V_cstring (Some what)]"

subsection \<open>The client\<close>

definition request_login_log :: "u64 \<Rightarrow> string \<Rightarrow> string \<Rightarrow> bool \<Rightarrow> log_call" where
  "request_login_log cid login pass ret =
     log_call Level_debug
       ''app::request => cmd: {} [client id: {}, login: {}, pass: {}], result: {}''
       [V_string cmd_auth, V_ulong_long cid, V_string login, V_string pass, V_bool ret]"

definition request_logout_log :: "u64 \<Rightarrow> string \<Rightarrow> bool \<Rightarrow> log_call" where
  "request_logout_log cid session ret =
     log_call Level_debug
       ''app::request => cmd: {} [client id: {}, session: {}], result: {}''
       [V_string cmd_bye, V_ulong_long cid, V_string session, V_bool ret]"

definition request_hello_log :: "u64 \<Rightarrow> log_call" where
  "request_hello_log cid =
     log_call Level_debug
       ''app::request => cmd: {} [client id: {}]''
       [V_string cmd_hello, V_ulong_long cid]"

definition disconnect_log :: "u64 \<Rightarrow> string \<Rightarrow> log_call" where
  "disconnect_log cid session =
     log_call Level_debug
       ''app::request => cmd: disconnect [client id: {}, session id: {}]''
       [V_ulong_long cid, V_string session]"

definition request_message_log :: "u64 \<Rightarrow> string \<Rightarrow> bool \<Rightarrow> log_call" where
  "request_message_log cid session ret =
     log_call Level_debug
       ''app::request => cmd: {} [client id: {}, session id: {}], result: {}''
       [V_string cmd_msg, V_ulong_long cid, V_string session, V_bool ret]"

definition server_message_log :: "u64 \<Rightarrow> string \<Rightarrow> string \<Rightarrow> log_call" where
  "server_message_log cid session login =
     log_call Level_debug
       ''app::response => cmd: {} [client id: {}, session id: {}, login: {}]''
       [V_string cmd_msg, V_ulong_long cid, V_string session, V_string login]"

definition message_reply_log :: "string \<Rightarrow> u64 \<Rightarrow> string \<Rightarrow> log_call" where
  "message_reply_log client_id cid state =
     log_call Level_debug
       ''app::response => cmd: {} [client id: {}, sender id: {}, status: {}]''
       [V_string cmd_msg_reply, V_string client_id, V_ulong_long cid, V_string state]"

definition hello_reply_log :: "u64 \<Rightarrow> u64 \<Rightarrow> string \<Rightarrow> log_call" where
  "hello_reply_log cid sender auth_method =
     log_call Level_debug
       ''app::response => cmd: {} [client id: {}, sender id: {}, auth: {}]''
       [V_string cmd_hello_reply, V_ulong_long cid, V_ulong_long sender, V_string auth_method]"

definition auth_reply_log :: "u64 \<Rightarrow> u64 \<Rightarrow> string \<Rightarrow> string \<Rightarrow> log_call" where
  "auth_reply_log cid sender session state =
     log_call Level_debug
       ''app::response => cmd: {} [client id: {}, sender id: {}, session id: {}, status: {}]''
       [V_string cmd_auth_reply, V_ulong_long cid, V_ulong_long sender, V_string session, V_string state]"

definition bye_reply_log :: "u64 \<Rightarrow> u64 \<Rightarrow> string \<Rightarrow> string \<Rightarrow> log_call" where
  "bye_reply_log cid sender session state =
     log_call Level_debug
       ''app::response => cmd: {} [client id: {}, sender id: {}, session id: {}, status: {}]''
       [V_string cmd_bye_reply, V_ulong_long cid, V_ulong_long sender, V_string session, V_string state]"

definition ping_reply_log :: "u64 \<Rightarrow> u64 \<Rightarrow> string \<Rightarrow> string \<Rightarrow> log_call" where
  "ping_reply_log cid sender session state =
     log_call Level_debug
       ''app::response => cmd: {} [client id: {}, sender id: {}, session id: {}, status: {}]''
       [V_string cmd_ping_reply, V_ulong_long cid, V_ulong_long sender, V_string session, V_string state]"

section \<open>What the calls print\<close>

text \<open>A call passes the check of the compiler and prints a text, whatever the locale.\<close>

definition prints :: "log_call \<Rightarrow> string \<Rightarrow> bool" where
  "prints c t \<longleftrightarrow>
     length (lc_args c) < 2 ^ 31 \<and> V_cstring None \<notin> set (lc_args c) \<and>
     check_format_string (args_types (call_args c)) (lc_format c) = Inr () \<and>
     (\<forall>np. grouping_ok np \<longrightarrow> vformat np (lc_format c) (make_format_args (call_args c)) = Inr t)"

lemma prints_pieces:
  assumes "show_pieces ps = lc_format c" "\<forall>p \<in> set ps. is_plain p" "num_fields ps \<le> length (lc_args c)"
    "length (lc_args c) < 2 ^ 31" "V_cstring None \<notin> set (lc_args c)"
    "fill_in ps (map (the \<circ> value_text) (lc_args c)) = t"
  shows "prints c t"
proof -
  have ok: "args_ok np (call_args c)" if "grouping_ok np" for np
    using that assms(4,5) by (simp add: args_ok_def call_args_def image_image)
  have "grouping_ok ([], NUL)" by (simp add: grouping_ok_def)
  note some = ok [OF this]
  have t: "fill_in ps (arg_texts (call_args c)) = t"
    using assms(6) by (simp add: arg_texts_def call_args_def comp_def)
  have "num_fields ps \<le> length (call_args c)" using assms(3) by (simp add: call_args_def)
  note formats = plain_formats [OF assms(1,2) this _ t]
  show ?thesis
    unfolding prints_def using assms(4,5) formats [OF some] formats [OF ok] by blast
qed

lemmas call_simps = log_call_def show_pieces_def show_lit_def

lemma prints_folder_log:
  "prints (folder_log folder)
      (''app::main => app_folder : '' @ folder)"
  by (rule prints_pieces [of
      "[Lit ''app::main => app_folder : '', Plain_field Id_auto]"])
    (simp_all add: folder_log_def call_simps)

lemma prints_addr_log:
  "prints (addr_log addr)
      (''app::main => srv_addrr : '' @ addr)"
  by (rule prints_pieces [of
      "[Lit ''app::main => srv_addrr : '', Plain_field Id_auto]"])
    (simp_all add: addr_log_def call_simps)

lemma prints_login_conf_log:
  "prints (login_conf_log login password)
      (''app::main => clinet : [ '' @ login @ '':'' @ password @ '' ]'')"
  by (rule prints_pieces [of
      "[Lit ''app::main => clinet : [ '', Plain_field Id_auto, Lit '':'', Plain_field Id_auto,
        Lit '' ]'']"])
    (simp_all add: login_conf_log_def call_simps)

lemma prints_exception_log:
  "prints (exception_log what)
      (''app::main => exception !'' @ snd what @ ''!'')"
  by (rule prints_pieces [of
      "[Lit ''app::main => exception !'', Plain_field Id_auto, Lit ''!'']"])
    (simp_all add: exception_log_def call_simps)

lemma prints_client_hello_log:
  "prints (client_hello_log cid)
      (''app::client_hello_packet_handler => client id : '' @ append_int (uint cid))"
  by (rule prints_pieces [of
      "[Lit ''app::client_hello_packet_handler => client id : '', Plain_field Id_auto]"])
    (simp_all add: client_hello_log_def call_simps)

lemma prints_client_ping_log:
  "prints (client_ping_log cid session status)
      (''app::client_ping_packet_handler => client [id: '' @ append_int (uint cid) @
       '', session: '' @ session @ ''] auth status: '' @
       append_int (sint (status_value status)))"
  by (rule prints_pieces [of
      "[Lit ''app::client_ping_packet_handler => client [id: '', Plain_field Id_auto,
        Lit '', session: '', Plain_field Id_auto, Lit ''] auth status: '',
        Plain_field Id_auto]"])
    (simp_all add: client_ping_log_def call_simps)

lemma prints_client_login_log:
  "prints (client_login_log cid login password status session)
      (''app::client_login_packet_handler => client [id: '' @ append_int (uint cid) @
       '', login: '' @ login @ '', password: '' @ password @ ''] auth status: '' @
       append_int (sint (status_value status)) @ '' --> session: '' @ session)"
  by (rule prints_pieces [of
      "[Lit ''app::client_login_packet_handler => client [id: '', Plain_field Id_auto,
        Lit '', login: '', Plain_field Id_auto, Lit '', password: '', Plain_field Id_auto,
        Lit ''] auth status: '', Plain_field Id_auto, Lit '' --> session: '',
        Plain_field Id_auto]"])
    (simp_all add: client_login_log_def call_simps)

lemma prints_client_logout_log:
  "prints (client_logout_log cid session status)
      (''app::client_logout_packet_handler => client [id: '' @ append_int (uint cid) @
       '', _session: '' @ session @ ''] auth status: '' @
       append_int (sint (status_value status)))"
  by (rule prints_pieces [of
      "[Lit ''app::client_logout_packet_handler => client [id: '', Plain_field Id_auto,
        Lit '', _session: '', Plain_field Id_auto, Lit ''] auth status: '',
        Plain_field Id_auto]"])
    (simp_all add: client_logout_log_def call_simps)

lemma prints_client_message_log:
  "prints (client_message_log cid session status)
      (''app::client_message_packet_handler => client [id: '' @ append_int (uint cid) @
       '', _session: '' @ session @ ''] auth status: '' @
       append_int (sint (status_value status)))"
  by (rule prints_pieces [of
      "[Lit ''app::client_message_packet_handler => client [id: '', Plain_field Id_auto,
        Lit '', _session: '', Plain_field Id_auto, Lit ''] auth status: '',
        Plain_field Id_auto]"])
    (simp_all add: client_message_log_def call_simps)

lemma prints_client_message_reply_log:
  "prints (client_message_reply_log cid client_id state message)
      (''app::client_message_reply_packet_handler => client [id: '' @ append_int (uint cid) @
       '', _client_id: '' @ client_id @ ''] status: '' @ state @ '', message: '' @ message)"
  by (rule prints_pieces [of
      "[Lit ''app::client_message_reply_packet_handler => client [id: '',
        Plain_field Id_auto, Lit '', _client_id: '', Plain_field Id_auto, Lit ''] status: '',
        Plain_field Id_auto, Lit '', message: '', Plain_field Id_auto]"])
    (simp_all add: client_message_reply_log_def call_simps)

lemma prints_dispatch_log:
  "prints (dispatch_log cmd what)
      (''dispatcher::dispatch => handler ['' @ cmd @ ''] exception !'' @ snd what @ ''!'')"
  by (rule prints_pieces [of
      "[Lit ''dispatcher::dispatch => handler ['', Plain_field Id_auto, Lit ''] exception !'',
        Plain_field Id_auto, Lit ''!'']"])
    (simp_all add: dispatch_log_def call_simps)

lemma prints_request_login_log:
  "prints (request_login_log cid login pass ret)
      (''app::request => cmd: '' @ cmd_auth @ '' [client id: '' @ append_int (uint cid) @
       '', login: '' @ login @ '', pass: '' @ pass @ ''], result: '' @
       (if ret then ''true'' else ''false''))"
  by (rule prints_pieces [of
      "[Lit ''app::request => cmd: '', Plain_field Id_auto, Lit '' [client id: '',
        Plain_field Id_auto, Lit '', login: '', Plain_field Id_auto, Lit '', pass: '',
        Plain_field Id_auto, Lit ''], result: '', Plain_field Id_auto]"])
    (simp_all add: request_login_log_def call_simps)

lemma prints_request_logout_log:
  "prints (request_logout_log cid session ret)
      (''app::request => cmd: '' @ cmd_bye @ '' [client id: '' @ append_int (uint cid) @
       '', session: '' @ session @ ''], result: '' @ (if ret then ''true'' else ''false''))"
  by (rule prints_pieces [of
      "[Lit ''app::request => cmd: '', Plain_field Id_auto, Lit '' [client id: '',
        Plain_field Id_auto, Lit '', session: '', Plain_field Id_auto, Lit ''], result: '',
        Plain_field Id_auto]"])
    (simp_all add: request_logout_log_def call_simps)

lemma prints_request_hello_log:
  "prints (request_hello_log cid)
      (''app::request => cmd: '' @ cmd_hello @ '' [client id: '' @ append_int (uint cid) @
       '']'')"
  by (rule prints_pieces [of
      "[Lit ''app::request => cmd: '', Plain_field Id_auto, Lit '' [client id: '',
        Plain_field Id_auto, Lit '']'']"])
    (simp_all add: request_hello_log_def call_simps)

lemma prints_disconnect_log:
  "prints (disconnect_log cid session)
      (''app::request => cmd: disconnect [client id: '' @ append_int (uint cid) @
       '', session id: '' @ session @ '']'')"
  by (rule prints_pieces [of
      "[Lit ''app::request => cmd: disconnect [client id: '', Plain_field Id_auto,
        Lit '', session id: '', Plain_field Id_auto, Lit '']'']"])
    (simp_all add: disconnect_log_def call_simps)

lemma prints_request_message_log:
  "prints (request_message_log cid session ret)
      (''app::request => cmd: '' @ cmd_msg @ '' [client id: '' @ append_int (uint cid) @
       '', session id: '' @ session @ ''], result: '' @
       (if ret then ''true'' else ''false''))"
  by (rule prints_pieces [of
      "[Lit ''app::request => cmd: '', Plain_field Id_auto, Lit '' [client id: '',
        Plain_field Id_auto, Lit '', session id: '', Plain_field Id_auto, Lit ''], result: '',
        Plain_field Id_auto]"])
    (simp_all add: request_message_log_def call_simps)

lemma prints_server_message_log:
  "prints (server_message_log cid session login)
      (''app::response => cmd: '' @ cmd_msg @ '' [client id: '' @ append_int (uint cid) @
       '', session id: '' @ session @ '', login: '' @ login @ '']'')"
  by (rule prints_pieces [of
      "[Lit ''app::response => cmd: '', Plain_field Id_auto, Lit '' [client id: '',
        Plain_field Id_auto, Lit '', session id: '', Plain_field Id_auto, Lit '', login: '',
        Plain_field Id_auto, Lit '']'']"])
    (simp_all add: server_message_log_def call_simps)

lemma prints_message_reply_log:
  "prints (message_reply_log client_id cid state)
      (''app::response => cmd: '' @ cmd_msg_reply @ '' [client id: '' @ client_id @
       '', sender id: '' @ append_int (uint cid) @ '', status: '' @ state @ '']'')"
  by (rule prints_pieces [of
      "[Lit ''app::response => cmd: '', Plain_field Id_auto, Lit '' [client id: '',
        Plain_field Id_auto, Lit '', sender id: '', Plain_field Id_auto, Lit '', status: '',
        Plain_field Id_auto, Lit '']'']"])
    (simp_all add: message_reply_log_def call_simps)

lemma prints_hello_reply_log:
  "prints (hello_reply_log cid sender auth_method)
      (''app::response => cmd: '' @ cmd_hello_reply @ '' [client id: '' @
       append_int (uint cid) @ '', sender id: '' @ append_int (uint sender) @ '', auth: '' @
       auth_method @ '']'')"
  by (rule prints_pieces [of
      "[Lit ''app::response => cmd: '', Plain_field Id_auto, Lit '' [client id: '',
        Plain_field Id_auto, Lit '', sender id: '', Plain_field Id_auto, Lit '', auth: '',
        Plain_field Id_auto, Lit '']'']"])
    (simp_all add: hello_reply_log_def call_simps)

lemma prints_auth_reply_log:
  "prints (auth_reply_log cid sender session state)
      (''app::response => cmd: '' @ cmd_auth_reply @ '' [client id: '' @
       append_int (uint cid) @ '', sender id: '' @ append_int (uint sender) @
       '', session id: '' @ session @ '', status: '' @ state @ '']'')"
  by (rule prints_pieces [of
      "[Lit ''app::response => cmd: '', Plain_field Id_auto, Lit '' [client id: '',
        Plain_field Id_auto, Lit '', sender id: '', Plain_field Id_auto,
        Lit '', session id: '', Plain_field Id_auto, Lit '', status: '', Plain_field Id_auto,
        Lit '']'']"])
    (simp_all add: auth_reply_log_def call_simps)

lemma prints_bye_reply_log:
  "prints (bye_reply_log cid sender session state)
      (''app::response => cmd: '' @ cmd_bye_reply @ '' [client id: '' @
       append_int (uint cid) @ '', sender id: '' @ append_int (uint sender) @
       '', session id: '' @ session @ '', status: '' @ state @ '']'')"
  by (rule prints_pieces [of
      "[Lit ''app::response => cmd: '', Plain_field Id_auto, Lit '' [client id: '',
        Plain_field Id_auto, Lit '', sender id: '', Plain_field Id_auto,
        Lit '', session id: '', Plain_field Id_auto, Lit '', status: '', Plain_field Id_auto,
        Lit '']'']"])
    (simp_all add: bye_reply_log_def call_simps)

lemma prints_ping_reply_log:
  "prints (ping_reply_log cid sender session state)
      (''app::response => cmd: '' @ cmd_ping_reply @ '' [client id: '' @
       append_int (uint cid) @ '', sender id: '' @ append_int (uint sender) @
       '', session id: '' @ session @ '', status: '' @ state @ '']'')"
  by (rule prints_pieces [of
      "[Lit ''app::response => cmd: '', Plain_field Id_auto, Lit '' [client id: '',
        Plain_field Id_auto, Lit '', sender id: '', Plain_field Id_auto,
        Lit '', session id: '', Plain_field Id_auto, Lit '', status: '', Plain_field Id_auto,
        Lit '']'']"])
    (simp_all add: ping_reply_log_def call_simps)

definition server_calls ::
  "string \<Rightarrow> string \<Rightarrow> string \<Rightarrow> string \<Rightarrow>
    u64 \<times> string \<Rightarrow> u64 \<Rightarrow> string \<Rightarrow> auth_status \<Rightarrow>
    string \<Rightarrow> string \<Rightarrow> string \<Rightarrow> string \<Rightarrow> log_call list" where
  "server_calls folder addr login password what cid session status client_id state message cmd =
     [folder_log folder, addr_log addr, login_conf_log login password, exception_log what,
       client_hello_log cid, client_ping_log cid session status,
       client_login_log cid login password status session,
       client_logout_log cid session status, client_message_log cid session status,
       client_message_reply_log cid client_id state message, dispatch_log cmd what]"

definition client_calls ::
  "u64 \<Rightarrow> string \<Rightarrow> string \<Rightarrow> bool \<Rightarrow> string \<Rightarrow>
    string \<Rightarrow> string \<Rightarrow> u64 \<Rightarrow> string \<Rightarrow> log_call list" where
  "client_calls cid login pass ret session client_id state sender auth_method =
     [request_login_log cid login pass ret, request_logout_log cid session ret,
       request_hello_log cid, disconnect_log cid session, request_message_log cid session ret,
       server_message_log cid session login, message_reply_log client_id cid state,
       hello_reply_log cid sender auth_method, auth_reply_log cid sender session state,
       bye_reply_log cid sender session state, ping_reply_log cid sender session state]"

lemmas server_prints =
  prints_folder_log prints_addr_log prints_login_conf_log prints_exception_log
  prints_client_hello_log prints_client_ping_log prints_client_login_log
  prints_client_logout_log prints_client_message_log prints_client_message_reply_log
  prints_dispatch_log

lemmas client_prints =
  prints_request_login_log prints_request_logout_log prints_request_hello_log
  prints_disconnect_log prints_request_message_log prints_server_message_log
  prints_message_reply_log prints_hello_reply_log prints_auth_reply_log
  prints_bye_reply_log prints_ping_reply_log


text \<open>So the formatting logger is the plain one, given the text.\<close>

theorem printed_call_logs:
  assumes "prints c t" "grouping_ok np"
  shows "logger_log_args np os tid l loc (lc_level c) (lc_format c) (call_args c) w =
    logger_log os tid l loc (lc_level c) t w"
proof -
  have t: "vformat_to np [] (lc_format c) (make_format_args (call_args c)) = Inr t"
    using assms unfolding prints_def vformat_def by blast
  show ?thesis unfolding logger_log_args_def logger_log_def Let_def t sum.case by (rule refl)
qed

end
