(* ===== verification/Spd_Formats.thy ===== *)
theory Spd_Formats
  imports Log_Calls Spd_Sinks Spd_Pattern_Props
begin

text \<open>
  Where the logging library formats its own texts: the date in the name of a file, two digits, and
  the report of an error.  The models of those operations print them directly; here the formatting
  library, run on the format strings of the code, prints the same.
\<close>

section \<open>Numbers with leading zeros\<close>

definition zero_spec :: "nat \<Rightarrow> char option \<Rightarrow> field_spec" where
  "zero_spec w ty = \<lparr>fs_align = None, fs_sign = Sign_none, fs_alt = False, fs_zero = True,
     fs_width = Fixed_dim w, fs_precision = No_dim, fs_localized = False, fs_type = ty\<rparr>"

lemma zero_layout:
  assumes "sp_align sp = Align_numeric" "sp_sign sp = Sign_none" "\<not> sp_alt sp" "sp_width sp = int w"
  shows "int_text sp n (10, False) = zero_pad w n"
  using assms by (cases "n < 0")
    (auto simp: int_text_def int_layout_def base_prefix_def sign_text_def zero_pad_def show_base_10 Let_def)

text \<open>One field that prints the next argument, an integer.\<close>

lemma zero_piece:
  assumes "args_ok np args" "0 \<le> n" "n < int (length args)" "snd (args ! nat n) = V_int v"
    "int w \<le> int_max" "ty \<in> {None, Some (CHR ''d'')}"
  shows "format_piece np (make_format_args args) (Spec_field Id_auto (zero_spec w ty))
      \<lparr>rs_out = out, rs_next = n\<rparr> = Inr \<lparr>rs_out = out @ zero_pad w (sint v), rs_next = n + 1\<rparr>"
proof -
  define sp where "sp = (case ty of None \<Rightarrow> \<lambda>sp. sp | Some c \<Rightarrow> set_type c) (set_width (int w) (set_zero specs_new))"
  have get: "fa_get (make_format_args args) n = Some (V_int v)"
    using assms fa_get_make [of args n] by (auto simp: args_ok_def)
  have spec: "run_spec (specs_checker Int_type (specs_handler fa)) (zero_spec w ty) (m, specs_new) = Inr (m, sp)"
    for m fa using assms(6)
    by (auto simp: run_spec_def zero_spec_def call_align_def call_dim_def specs_checker_def specs_handler_def
        specs_setter_def require_numeric_argument_def is_arithmetic_type_def on_specs_def sp_def)
  have "fill_ok (sp_fill sp)" "sp_align sp = Align_numeric" "sp_sign sp = Sign_none" "\<not> sp_alt sp"
    "sp_width sp = int w" "sp_precision sp = -1" "int_base (sp_type sp) = Some (10, False)" "\<not> sp_localized sp"
    using assms(6)
    by (auto simp: sp_def setter_defs specs_new_def fill_new_def fill_set_def fill_ok_def int_base_def)
  then have "write_int np True v sp = Inr (zero_pad w (sint v))"
    using write_int_eq [of sp "(10, False)" np True v] assms(5) zero_layout [of sp w]
    by (simp add: int_value_def)
  then show ?thesis
    using assms(2) get spec
    by (simp add: run_arg_id_def next_arg_id_def get_arg_def put_out_def)
qed

lemma plain_piece:
  assumes "args_ok np args" "0 \<le> n" "n < int (length args)"
  shows "format_piece np (make_format_args args) (Plain_field Id_auto) \<lparr>rs_out = out, rs_next = n\<rparr> =
    Inr \<lparr>rs_out = out @ the (value_text (snd (args ! nat n))), rs_next = n + 1\<rparr>"
  using assms run_field_plain [OF assms(1), of "nat n"]
  by (simp add: run_arg_id_def next_arg_id_def put_out_def arg_texts_def nat_less_iff)

lemma zero_spec_ok:
  "0 < w \<Longrightarrow> int w \<le> int_max \<Longrightarrow> ty \<in> {None, Some (CHR ''d'')} \<Longrightarrow> fs_ok (zero_spec w ty)"
  by (auto simp: fs_ok_def zero_spec_def show_spec_def is_ascii_letter_def)

section \<open>The format strings of the library\<close>

text \<open>The branch of \<^verbatim>\<open>pad2\<close> for other numbers prints what the fast one would.\<close>

lemma zero_pad_pad2: "zero_pad 2 n = pad2 n"
proof -
  have l: "Suc 0 \<le> length (show_nat m)" for m by (simp add: Suc_le_eq)
  have two: "2 \<le> length (show_nat m)" if "10 \<le> m" for m using that l by (simp add: show_nat_10)
  have zero: "digit 0 = CHR ''0''" by code_simp
  consider "n < 0" | "0 \<le> n" "n < 10" | "10 \<le> n" "n < 100" | "100 \<le> n" by linarith
  then show ?thesis
  proof cases
    case 1
    with l [of "nat (- n)"] show ?thesis by (simp add: zero_pad_def pad2_def append_int_def)
  next
    case 2
    then show ?thesis by (simp add: zero_pad_def pad2_def show_nat_digit zero)
  next
    case 3
    then have "10 \<le> nat n" "nat n div 10 < 10" by linarith+
    with 3 show ?thesis by (simp add: zero_pad_def pad2_def show_nat_10 show_nat_digit)
  next
    case 4
    with two [of "nat n"] show ?thesis by (simp add: zero_pad_def pad2_def append_int_def)
  qed
qed

lemma formats_by:
  assumes "show_pieces ps = fmt" "list_all piece_ok ps"
    "format_pieces np fa ps \<lparr>rs_out = [], rs_next = 0\<rparr> = Inr st"
  shows "vformat np fmt fa = Inr (rs_out st)"
  using vformat_show_pieces [of ps np fa] assms by (simp add: list_all_iff)

lemma show_digits: "digit 2 = CHR ''2''" "digit 4 = CHR ''4''"
  by code_simp+

lemma show_zero_field:
  "show_piece (Spec_field Id_auto (zero_spec 2 None)) = ''{:02}''"
  "show_piece (Spec_field Id_auto (zero_spec 2 (Some (CHR ''d'')))) = ''{:02d}''"
  "show_piece (Spec_field Id_auto (zero_spec 4 (Some (CHR ''d'')))) = ''{:04d}''"
  by (simp_all add: show_spec_def show_fs_align_def zero_spec_def show_nat_digit show_digits)

theorem pad2_formats:
  assumes "grouping_ok np"
  shows "vformat np ''{:02}'' (make_format_args [(None, V_int v)]) = Inr (pad2 (sint v))"
proof -
  define args where "args = [(None :: string option, V_int v)]"
  have ok: "args_ok np args" using assms by (simp add: args_ok_def args_def)
  have "format_pieces np (make_format_args args) [Spec_field Id_auto (zero_spec 2 None)]
      \<lparr>rs_out = [], rs_next = 0\<rparr> = Inr \<lparr>rs_out = pad2 (sint v), rs_next = 1\<rparr>"
    using zero_piece [OF ok, of 0 v 2 None "[]"]
    by (simp add: args_def int_max_def zero_pad_pad2 del: format_piece.simps)
  from formats_by [OF refl _ this] show ?thesis
    by (simp add: args_def show_pieces_def show_zero_field zero_spec_ok int_max_def del: show_piece.simps)
qed

text \<open>The report of an error adds the place to the text.\<close>

theorem catch_text_formats:
  assumes "grouping_ok np" "sl_filename loc \<noteq> []"
  shows "vformat np ''{} [{}({})]'' (make_format_args
      [(None, V_cstring (Some (a, what))), (None, V_cstring (Some (b, sl_filename loc))), (None, V_int (sl_line loc))])
    = Inr (catch_text loc what)"
  using plain_formats [of "[Plain_field Id_auto, Lit '' ['', Plain_field Id_auto, Lit ''('', Plain_field Id_auto, Lit '')]'']"]
    assms by (simp add: args_ok_def arg_texts_def catch_text_def show_pieces_def show_lit_def)

text \<open>C31: 
  The name of a daily file is the one that the formatting library prints for the format string of
  \<^verbatim>\<open>calc_filename\<close>: the base, the year with four digits, month and day with two, and the
  extension, for every date whose numbers fit the system's type.\<close>

theorem daily_filename_formats:
  assumes "grouping_ok np" "split_by_extension os filename = (base, ext)"
    "sint year = tm_year t + 1900" "sint mon = tm_mon t + 1" "sint day = tm_mday t"
  shows "vformat np ''{}_{:04d}-{:02d}-{:02d}{}'' (make_format_args
      [(None, V_string base), (None, V_int year), (None, V_int mon), (None, V_int day), (None, V_string ext)])
    = Inr (calc_filename os filename t)"
proof -
  define args where "args = [(None :: string option, V_string base), (None, V_int year), (None, V_int mon),
    (None, V_int day), (None, V_string ext)]"
  define fa where "fa = make_format_args args"
  have ok: "args_ok np args" using assms by (auto simp: args_ok_def args_def)
  let ?d = "\<lambda>w. Spec_field Id_auto (zero_spec w (Some (CHR ''d'')))"
  have f: "format_piece np fa (?d 4) \<lparr>rs_out = out, rs_next = 1\<rparr> = Inr \<lparr>rs_out = out @ zero_pad 4 (sint year), rs_next = 2\<rparr>"
    "format_piece np fa (?d 2) \<lparr>rs_out = out, rs_next = 2\<rparr> = Inr \<lparr>rs_out = out @ zero_pad 2 (sint mon), rs_next = 3\<rparr>"
    "format_piece np fa (?d 2) \<lparr>rs_out = out, rs_next = 3\<rparr> = Inr \<lparr>rs_out = out @ zero_pad 2 (sint day), rs_next = 4\<rparr>"
    "format_piece np fa (Plain_field Id_auto) \<lparr>rs_out = out, rs_next = 0\<rparr> = Inr \<lparr>rs_out = out @ base, rs_next = 1\<rparr>"
    "format_piece np fa (Plain_field Id_auto) \<lparr>rs_out = out, rs_next = 4\<rparr> = Inr \<lparr>rs_out = out @ ext, rs_next = 5\<rparr>"
    for out unfolding fa_def
    using zero_piece [OF ok, of 1 year 4 "Some (CHR ''d'')" out] zero_piece [OF ok, of 2 mon 2 "Some (CHR ''d'')" out]
      zero_piece [OF ok, of 3 day 2 "Some (CHR ''d'')" out] plain_piece [OF ok, of 0 out] plain_piece [OF ok, of 4 out]
    by (simp_all add: args_def int_max_def del: format_piece.simps)
  have "format_pieces np fa [Plain_field Id_auto, Lit ''_'', ?d 4, Lit ''-'', ?d 2, Lit ''-'', ?d 2,
      Plain_field Id_auto] \<lparr>rs_out = [], rs_next = 0\<rparr>
    = Inr \<lparr>rs_out = calc_filename os filename t, rs_next = 5\<rparr>"
    by (simp del: format_piece.simps(2,3) add: f put_out_def calc_filename_def assms)
  from formats_by [OF refl _ this] show ?thesis
    by (simp del: show_piece.simps(3)
        add: args_def [symmetric] fa_def show_pieces_def show_zero_field show_lit_def zero_spec_ok int_max_def)
qed

text \<open>The name of a rotated file.\<close>

theorem rotated_filename_formats:
  assumes "grouping_ok np" "split_by_extension os filename = (base, ext)" "index \<noteq> (0 :: u64)"
  shows "vformat np ''{}.{}{}'' (make_format_args
      [(None, V_string base), (None, V_ulong_long index), (None, V_string ext)])
    = Inr (rt_filename os filename (unat index))"
  using plain_formats [of "[Plain_field Id_auto, Lit ''.'', Plain_field Id_auto, Plain_field Id_auto]"] assms
  by (simp add: args_ok_def arg_texts_def rt_filename_def append_int_def show_pieces_def show_lit_def
      unat_eq_zero nat_uint_eq)

theorem daily_filename_formats_witness:
  "vformat ([], NUL) ''{}_{:04d}-{:02d}-{:02d}{}'' (make_format_args
     [(None, V_string ''logs/app''), (None, V_int (word_of_int (tm_year sample_tm + 1900))),
      (None, V_int (word_of_int (tm_mon sample_tm + 1))), (None, V_int (word_of_int (tm_mday sample_tm))),
      (None, V_string ''.txt'')])
   = Inr (calc_filename sample_os ''logs/app.txt'' sample_tm)"
proof (rule daily_filename_formats)
  show "split_by_extension sample_os ''logs/app.txt'' = (''logs/app'', ''.txt'')"
  proof -
    have "os_folder_seps sample_os = ''/''" by (simp add: sample_os_def)
    then show ?thesis unfolding split_by_extension_def by (simp only:) code_simp
  qed
qed (simp_all add: grouping_ok_def sample_tm_def)

end
