(* ===== verification/Fmt_Samples.thy ===== *)
theory Fmt_Samples
  imports Fmt_Check
begin

text \<open>
  Where the formatting library does not do what its comments or its documentation say, on concrete
  format strings and arguments.
\<close>

definition plain_locale :: numpunct where
  "plain_locale = ([], NUL)"

text \<open>The zero flag replaces one byte of a fill that was given, and so the fill.\<close>

definition star_fill :: format_specs where
  "star_fill = specs_new\<lparr>sp_align := Align_left, sp_width := 8,
     sp_fill := \<lparr>fill_data = [CHR ''*'', NUL, NUL, NUL], fill_size = 1\<rparr>\<rparr>"

lemma zero_replaces_fill:
  "write_value plain_locale star_fill (V_int 5) = Inr ''5*******''"
  "write_value plain_locale (set_zero star_fill) (V_int 5) = Inr ''50000000''"
proof -
  have written: "write_value plain_locale sp (V_int 5) = Inr (int_text sp 5 (10, False))"
    if "sp \<in> {star_fill, set_zero star_fill}" for sp
    using that write_int_eq [of sp "(10, False)" plain_locale True "5 :: u32"]
    by (auto simp: star_fill_def specs_new_def set_zero_def fill_set_def fill_ok_def int_base_def int_max_def
        int_value_def)
  have "int_text star_fill 5 (10, False) = ''5*******''"
    "int_text (set_zero star_fill) 5 (10, False) = ''50000000''"
    by code_simp+
  then show "write_value plain_locale star_fill (V_int 5) = Inr ''5*******''"
    "write_value plain_locale (set_zero star_fill) (V_int 5) = Inr ''50000000''"
    by (simp_all only: written insert_iff simp_thms)
qed

lemma zero_breaks_code_point:
  "fill_text (fill_set 0 (CHR ''0'') \<lparr>fill_data = [CHR 0xC3, CHR 0xA9, NUL, NUL], fill_size = 2\<rparr>) =
    [CHR ''0'', CHR 0xA9]"
  by (simp add: fill_text_def fill_set_def)

text \<open>An empty specifier before a text that starts with an alignment is read as a fill.\<close>

lemma empty_spec_taken_as_fill:
  "check_format_string [Int_type] ''{:}<b>'' = on_error ''unknown format specifier''"
  by code_simp

text \<open>Leading zeros count as digits.\<close>

lemma leading_zeros_too_big:
  "check_format_string [String_type] ''{:.00000000001}'' = on_error ''number is too big''"
  by code_simp

text \<open>A precision cuts a code point in two.\<close>

lemma precision_cuts_code_point:
  "write_string (specs_new\<lparr>sp_precision := 1\<rparr>) [CHR 0xC3, CHR 0xA9] = [CHR 0xC3]"
  by (simp add: write_string_def specs_new_def code_point_index_def write_padded_def)

text \<open>The check takes 128-bit integers for unsigned ones.\<close>

lemma sign_of_int128_rejected:
  "check_format_string [Int128_type] ''{:+}'' = on_error ''format specifier requires signed argument''"
  by code_simp

text \<open>A dynamic width is cut to 64 bits before it is checked.\<close>

lemma dynamic_width_cut:
  "get_dynamic_spec ''width'' (V_uint128 0x10000000000000003) = Inr 3"
  by (simp add: get_dynamic_spec_def checked_value_def int_max_def)

text \<open>A negative number printed as a character is the character of its absolute value.\<close>

lemma negative_char:
  "write_value plain_locale (specs_new\<lparr>sp_type := CHR ''c''\<rparr>) (V_int (- 65)) = Inr ''A''"
proof -
  have "(- 65 :: u32) <s 0" "char_of (65 :: nat) = CHR ''A''" by code_simp+
  then show ?thesis
    by (simp add: write_int_def make_write_int_arg_def write_int_digits_def specs_new_def write_char_def
        write_padded_def)
qed

text \<open>A null string is an error without specifiers and is read with them.\<close>

lemma null_string_read:
  "vformat plain_locale ''{}'' (make_format_args [(None, V_cstring None)]) = on_error ''string pointer is null''"
  "vformat plain_locale ''{:}'' (make_format_args [(None, V_cstring None)]) = Inl Undefined"
  by code_simp+

text \<open>The check lets the name of a dynamic width pass that the formatter does not find.\<close>

lemma named_width_not_checked:
  "check_format_string [Int_type] ''{:{w}}'' = Inr ()"
  "vformat plain_locale ''{:{w}}'' (make_format_args [(None, V_int 5)]) = on_error ''argument not found''"
  by code_simp+

end
