(* ===== verification/Spec2Isabelle.thy ===== *)
theory Spec2Isabelle
  imports Wire_Types Server_Threads Log_Robust Client_Threads Spd_Async_Props Spd_Sinks_Props Spd_Sinks_More
    Spd_Worker Spd_Config Spd_Hex Spd_Buffer_Props Spd_Services Spd_Formats Fmt_Samples
begin

text \<open>
  \<^bold>\<open>gologin\<close> is a chat over TCP: a server that authenticates clients against one configured
  login and passes the messages of each logged-in client on to all of them, and a client with
  a window.  This library models both programs and proves what they do.

  \<^bold>\<open>Parts and their theories\<close> (file names are under \<^verbatim>\<open>src/src\<close> unless said otherwise).

  \<^item> \<^verbatim>\<open>Prelude\<close>: machine integers, little-endian bytes, C strings, reading into an array
    (\<^verbatim>\<open>blit\<close>) and the association lists that stand for \<^verbatim>\<open>std::map\<close> (in key order) and
    \<^verbatim>\<open>std::unordered_map\<close>.
  \<^item> \<^verbatim>\<open>Packet\<close>: the header of \<^verbatim>\<open>core/types.hpp\<close> and \<^verbatim>\<open>create_packet\<close> (\<^verbatim>\<open>tcp/core/core.cpp\<close>).
    A packet round-trips; the size field is cut to 32 bits.
  \<^item> \<^verbatim>\<open>Tcp_Core\<close>: \<^verbatim>\<open>tcp/core/core.hpp\<close> and \<^verbatim>\<open>core.cpp\<close>, the base class of a connection and its
    \<^verbatim>\<open>send\<close>.  System calls are elements of a log (\<^verbatim>\<open>syscall\<close>); their results are arguments.
  \<^item> \<^verbatim>\<open>Receive\<close>: \<^verbatim>\<open>server_client\<close> (\<^verbatim>\<open>tcp/server/server.cpp\<close>) and \<^verbatim>\<open>client::recv\<close>.  The locale
    \<^verbatim>\<open>stream_socket\<close> states what \<^verbatim>\<open>::recv\<close> promises and is interpreted on segmented traffic.
    Whole packets are read exactly; short reads, faults and the life of a socket are settled.
  \<^item> \<^verbatim>\<open>Tagged_Tuple\<close>, \<^verbatim>\<open>Json\<close>, \<^verbatim>\<open>Json_Text\<close>, \<^verbatim>\<open>Messages\<close>: the named tuples and their JSON
    form (\<^verbatim>\<open>contrib/google\<close>), the messages (\<^verbatim>\<open>messages/messages.hpp\<close>) and their round trip.
    nlohmann/json is not in the repository: it is the record \<^verbatim>\<open>json_ops\<close>, its documented laws
    are the locale \<^verbatim>\<open>nlohmann\<close>, and \<^verbatim>\<open>Json_Text\<close> interprets it with a writer and a reader.
  \<^item> \<^verbatim>\<open>Dispatcher\<close>: \<^verbatim>\<open>tcp/core/dispatcher.hpp\<close>.  Handlers are functions on a state; an exception
    is an outcome.  \<^verbatim>\<open>std::hash\<close> is a parameter (\<^verbatim>\<open>fnv1a\<close> is the instance of the witnesses).
  \<^item> \<^verbatim>\<open>Core_Base\<close>: \<^verbatim>\<open>core/error.*\<close> and \<^verbatim>\<open>core/logger.hpp\<close>.
  \<^item> \<^verbatim>\<open>Auth_Provider\<close>: \<^verbatim>\<open>auth/provider\<close>.  Its table refines a partial map from ids to clients.
  \<^item> \<^verbatim>\<open>Tcp_Server\<close>, \<^verbatim>\<open>Connection\<close>: \<^verbatim>\<open>tcp/server/server.cpp\<close>; the state of the process
    (\<^verbatim>\<open>world\<close>) holds the server, the client objects behind their shared pointers and the log.
  \<^item> \<^verbatim>\<open>Server_Threads\<close>: the same server with its threads as a step relation, one step per
    section that holds a lock or makes a blocking call.
  \<^item> \<^verbatim>\<open>Server_App\<close>, \<^verbatim>\<open>Server_Props\<close>, \<^verbatim>\<open>Server_Safety\<close>, \<^verbatim>\<open>Server_Samples\<close>: \<^verbatim>\<open>server/app.cpp\<close>;
    what every request is answered with, the invariant of the server over any traffic, and
    the concrete runs that witness them.
  \<^item> \<^verbatim>\<open>Tcp_Client\<close>: \<^verbatim>\<open>tcp/client/client.cpp\<close>, with its receiving thread.
  \<^item> \<^verbatim>\<open>Frame\<close>: \<^verbatim>\<open>client/frame.cpp\<close>.  wxWidgets is the record \<^verbatim>\<open>wx_ops\<close> with the laws of the
    locale \<^verbatim>\<open>wx_toolkit\<close>; the window refines a small machine of screens.
  \<^item> \<^verbatim>\<open>Client_App\<close>, \<^verbatim>\<open>Client_Props\<close>: \<^verbatim>\<open>client/app.cpp\<close>, every callback and handler.
  \<^item> \<^verbatim>\<open>Client_Threads\<close>: the client with its two threads as a step relation; every interleaving
    does what some sequence of whole callbacks and packets does, and \<^verbatim>\<open>disconnect\<close> returns.
  \<^item> \<^verbatim>\<open>End_To_End\<close>, \<^verbatim>\<open>Wire_Types\<close> and this theory: both programs together; each reads all
    that the other sends.

  The logging library is in the repository (\<^verbatim>\<open>contrib/spdlog\<close>, file names below are under its
  \<^verbatim>\<open>include/spdlog\<close>), and the part the programs run is modelled too.

  \<^item> \<^verbatim>\<open>Decimal\<close>, \<^verbatim>\<open>Spd_Common\<close>: decimal numbers; levels, messages, time and the printing of
    numbers (\<^verbatim>\<open>common.h\<close>, \<^verbatim>\<open>details/log_msg.h\<close>, \<^verbatim>\<open>details/fmt_helper.h\<close>).  The calendar of
    the C library is the record \<^verbatim>\<open>platform\<close>.
  \<^item> \<^verbatim>\<open>Spd_Flags\<close>, \<^verbatim>\<open>Spd_Pattern\<close>, \<^verbatim>\<open>Spd_Pattern_Props\<close>: \<^verbatim>\<open>pattern_formatter-inl.h\<close>, every flag,
    the compiler of patterns and the formatter with its caches.  Padding aligns as its
    reference does, and compiling a printed pattern gives the items that were printed.
  \<^item> \<^verbatim>\<open>Circular_Q\<close>: \<^verbatim>\<open>details/circular_q.h\<close>; the locale \<^verbatim>\<open>bounded_queue\<close> is its contract.
  \<^item> \<^verbatim>\<open>Spd_Os\<close>, \<^verbatim>\<open>Spd_Files\<close>, \<^verbatim>\<open>Spd_Files_Props\<close>: \<^verbatim>\<open>details/os-inl.h\<close>,
    \<^verbatim>\<open>details/file_helper-inl.h\<close> and \<^verbatim>\<open>sinks/daily_file_sink.h\<close>.  The record \<^verbatim>\<open>disk\<close> holds the
    files and folders and, as streams, the results of the coming calls of the C library.
  \<^item> \<^verbatim>\<open>Spd_Logger\<close>, \<^verbatim>\<open>Spd_Registry\<close>, \<^verbatim>\<open>Spd_Props\<close>: the console sink, loggers with their
    backtrace and error handler (\<^verbatim>\<open>logger-inl.h\<close>), and the registry
    (\<^verbatim>\<open>details/registry-inl.h\<close>).  Shared pointers are numbers in a store, \<^verbatim>\<open>log_state\<close>.
  \<^item> \<^verbatim>\<open>Log_Lines\<close>, \<^verbatim>\<open>Log_Files\<close>, \<^verbatim>\<open>Logging\<close>, \<^verbatim>\<open>Log_Robust\<close>: the library as \<^verbatim>\<open>core/logger.hpp\<close>
    uses it: what a line looks like, which file it goes to, that it is on disk when the call
    returns, and that a failing disk never makes a call fail.

  Parts of the library the programs do not run, but are linked with:

  \<^item> \<^verbatim>\<open>Spd_Async\<close>, \<^verbatim>\<open>Spd_Async_Props\<close>: asynchronous loggers (\<^verbatim>\<open>async.h\<close>,
    \<^verbatim>\<open>async_logger-inl.h\<close>, \<^verbatim>\<open>details/thread_pool-inl.h\<close>, \<^verbatim>\<open>details/mpmc_blocking_q.h\<close>).  The pool is
    a step relation over callers, workers and the destructor; no wake-up is lost, the
    destructor ends, and one worker writes the log a synchronous logger writes.
  \<^item> \<^verbatim>\<open>Spd_Buffer\<close>, \<^verbatim>\<open>Spd_Buffer_Props\<close>: \<^verbatim>\<open>details/log_msg_buffer-inl.h\<close>, the messages the queue
    holds, over an explicit memory: their views never dangle.
  \<^item> \<^verbatim>\<open>Spd_Sinks\<close>, \<^verbatim>\<open>Spd_Sinks_Props\<close>, \<^verbatim>\<open>Spd_Sinks_More\<close>: the rotating, hourly, plain, ring buffer,
    stream, distributing and filtering sinks of \<^verbatim>\<open>sinks\<close>.  The locale \<^verbatim>\<open>timed_sink\<close> is shared by
    the daily and the hourly sink.
  \<^item> \<^verbatim>\<open>Spd_Services\<close>: the TCP sink (no socket leaks, its streams are whole messages), the plain
    console, the system log and the journal.
  \<^item> \<^verbatim>\<open>Spd_Worker\<close>: the periodic worker with its thread and the members of the registry that use it.
  \<^item> \<^verbatim>\<open>Spd_Config\<close>, \<^verbatim>\<open>Spd_Hex\<close>: levels from a text (\<^verbatim>\<open>cfg\<close>) and hex dumps (\<^verbatim>\<open>fmt/bin_to_hex.h\<close>).

  The formatting library that is bundled with it (\<^verbatim>\<open>fmt/bundled\<close>: \<^verbatim>\<open>core.h\<close>, \<^verbatim>\<open>format.h\<close>,
  \<^verbatim>\<open>format-inl.h\<close>), for narrow characters:

  \<^item> \<^verbatim>\<open>Fmt_Digits\<close>: counting digits in every way the library has (the tables of \<^verbatim>\<open>clz\<close>, the
    loops) and writing them in base 2, 8, 10 and 16 into a buffer, each equal to the digits of
    the number.
  \<^item> \<^verbatim>\<open>Fmt_Specs\<close>, \<^verbatim>\<open>Fmt_Parse\<close>: the parsers of specifiers and of format strings over the
    operations of a handler.  The locale \<^verbatim>\<open>text_writer\<close> is what a handler owes the parser and
    carries the equality of its two loops; \<^verbatim>\<open>spec_handlers_follow\<close> and
    \<^verbatim>\<open>format_handlers_follow\<close> carry a simulation of one handler by another through the parsers.
  \<^item> \<^verbatim>\<open>Fmt_Write\<close>, \<^verbatim>\<open>Fmt_Write_Props\<close>: the writers of integers, characters, strings and
    pointers with padding, prefixes and grouped digits, against a reference layout.
  \<^item> \<^verbatim>\<open>Fmt_Format\<close>, \<^verbatim>\<open>Fmt_Check\<close>, \<^verbatim>\<open>Fmt_Pieces\<close>: the packed store of arguments, the formatter and
    the check of C++20, which accepts only strings that the formatter then formats; a format
    string is formatted piece by piece.
  \<^item> \<^verbatim>\<open>Log_Calls\<close>, \<^verbatim>\<open>Spd_Formats\<close>: the logger that formats (\<^verbatim>\<open>log_\<close> of \<^verbatim>\<open>logger.h\<close>), what every call
    of the two programs prints, and the names of files and numbers that the logging library
    formats.

  \<^bold>\<open>How the parts interact.\<close>  A packet read by \<^verbatim>\<open>sc_recv\<close> goes to \<^verbatim>\<open>packet_handler\<close>, which asks
  the dispatcher; its wrapper decodes the body, calls the handler of the application and
  encodes the answer, which \<^verbatim>\<open>client_send\<close> puts in a packet.  A message is also passed on with
  \<^verbatim>\<open>send_to\<close> to each accepted client.  In the client a click runs a callback that sends a
  packet and reports to the window, and the receiving thread does the reverse.

  \<^bold>\<open>Bounds and fuel.\<close>  Integers have their C++ width.  \<^verbatim>\<open>ch_loop\<close> and \<^verbatim>\<open>tc_loop\<close> take a number
  of iterations; the first is shown to return when that exceeds the bytes and faults left to
  read, the second is shown not to return whatever the number, which is what the code does.
  \<^verbatim>\<open>parse_short\<close> and \<^verbatim>\<open>parse_long\<close> take one more than the length of the text, as every step
  leaves a shorter one; more fuel changes nothing (\<^verbatim>\<open>parse_short_fuel\<close>, \<^verbatim>\<open>parse_long_short\<close>).
  The Windows branches of \<^verbatim>\<open>_CROSS_PLATFORM_\<close> are modelled (\<^verbatim>\<open>set_keep_alive\<close> has both).

  \<^bold>\<open>Not modelled.\<close>  \<^verbatim>\<open>std::atomic\<close> and the memory model below the granularity of the steps, the
  layout of the window and its icon, the process entry points (\<^verbatim>\<open>server/main.cpp\<close>,
  \<^verbatim>\<open>client/main.cpp\<close>) and the Poco and wxWidgets frameworks, which are not in the repository.
  The handlers of the applications do not carry their log calls; \<^verbatim>\<open>Log_Calls\<close> has them on their
  own.  Of the logging library: custom flags, the sinks of Windows, Android, Qt and MongoDB, the
  global functions of \<^verbatim>\<open>spdlog.h\<close>, which call the registry, and the mutexes of the operations
  that run under one as a whole.  Of the formatting library: floating-point numbers (HOL has no
  type for the formats of C++, and the digit generation would need one), arguments of user-defined
  types, wide characters, and the headers beside it (\<^verbatim>\<open>chrono.h\<close>, which only the file names with
  a pattern of their own use, \<^verbatim>\<open>printf.h\<close>, \<^verbatim>\<open>compile.h\<close>, \<^verbatim>\<open>color.h\<close>, \<^verbatim>\<open>os.h\<close>, \<^verbatim>\<open>ranges.h\<close>,
  \<^verbatim>\<open>ostream.h\<close>, \<^verbatim>\<open>xchar.h\<close>), which the programs do not call.
\<close>

section \<open>Logging in\<close>

text \<open>C1: a login from the click to the window.  The button sends one packet; the server, given
  that packet, enters the client's id into its table exactly when the credentials are right
  and the id is new, and answers with one packet; the client, given that packet, holds the
  session the server entered, or the empty one.  In both cases, also when the login was
  refused, the window ends on the logged-in screen.\<close>

theorem login_end_to_end:
  assumes "server_env S" "client_env_ok C view" "env_json S = ce_json C"
    and "client_inv C view a" "screen_of (view (ca_gui a)) = (l, m)" "app_inv w"
    and "c_str (ce_as_char C data) = login @ CHR '':'' # pass"
    and "CHR '':'' \<notin> set login" "login \<noteq> []" "pass \<noteq> []" "utf8_valid login" "utf8_valid pass"
    and "\<And>b. 0 \<le> ce_send C (cb_socket (ca_tcp a)) b"
    and "ok \<longleftrightarrow> login = pv_login (w_auth w) \<and> pass = pv_pass (w_auth w) \<and>
          registered (w_auth w) (ca_id a) = None"
  shows "\<exists>req a1 w1 resp a2. on_login_frame_callback C data a = Inr a1 \<and>
    ca_calls a1 = ca_calls a @ [Sys_send (cb_socket (ca_tcp a)) req] \<and>
    server_gets S cid c req w = Some w1 \<and>
    w_calls w1 = w_calls w @ [Sys_send (cb_socket c) resp] \<and>
    registered (w_auth w1) =
      (if ok then (registered (w_auth w))(ca_id a \<mapsto> new_client (w_rng w) (w_auth w) (ca_id a) cid)
       else registered (w_auth w)) \<and>
    client_gets C resp a1 = Some a2 \<and>
    ca_session a2 = (if ok then generate_session (w_rng w) else []) \<and>
    screen_of (view (ca_gui a2)) = (l, True)"
proof -
  let ?req = "login_request (ca_id a) login pass"
  obtain buff where buff: "packer_to (ce_json C) ?req = Inr buff" "buff \<noteq> []"
    "packer_from (ce_json C) client_auth_request buff = Inr ?req"
    using client_env_ok.request_packed [OF assms(2) login_request(1) _ login_request(2) [OF assms(11,12)],
        of "ca_id a"] by auto
  define a1 where "a1 = output_handler On_login Ui_success ''Login...'' [] (sent cmd_auth buff a)"
  have click: "on_login_frame_callback C data a = Inr a1"
    using login_callback [OF assms(7-10) buff(1,2)] assms(13) by (simp add: sends_def a1_def)
  have inv: "client_inv C view (sent cmd_auth buff a)" using assms(4) by simp
  note ok = client_env_ok.ok_reports [OF assms(2)]
  have a1: "client_inv C view a1" "screen_of (view (ca_gui a1)) = (l, True)"
    using client_env_ok.report_inv [OF assms(2) inv ok(1)] client_env_ok.report_screen [OF assms(2) inv ok(1)]
      assms(5) by (simp_all add: a1_def)
  have calls: "ca_calls a1 = ca_calls a @ [Sys_send (cb_socket (ca_tcp a)) (create_packet cmd_auth buff)]"
    by (simp add: a1_def output_handler_report [OF client_inv_outputs [OF inv]])
  have rng: "draws_ok (w_rng w)" using assms(6) by (simp add: app_inv_def)
  have okreq: "ok \<longleftrightarrow> get_string ?req ''login'' = pv_login (w_auth w) \<and>
      get_string ?req ''password'' = pv_pass (w_auth w) \<and>
      registered (w_auth w) (get_u64 ?req ''id'') = None"
    using assms(14) by (simp add: login_request_get)
  obtain out where out: "out \<noteq> []"
    "packer_from (ce_json C) server_auth_response out = Inr (login_response (ca_id a) ok w)"
    and srv: "server_gets S cid c (create_packet cmd_auth buff) w =
      Some (answered c cmd_auth out (if ok then logged_in S (ca_id a) cid w else w))"
    using login_result [OF assms(1) packet_command [OF buff(2) commands_mem(2)]
        buff(3) [folded assms(3)] rng okreq, of "env_send S" cid c]
    unfolding server_gets_packet [OF buff(2) commands_mem(2)] assms(3) login_request_get by blast
  obtain a2 where a2: "client_gets C (create_packet cmd_auth out) a1 = Some a2"
    "ca_session a2 = (if ok then generate_session (w_rng w) else [])"
    "screen_of (view (ca_gui a2)) = (l, True)"
    using auth_reply_state [OF assms(2) a1(1) out(2), of "cb_socket (ca_tcp a1)" "[]"] out(1) a1(2)
    by (auto simp: client_gets_packet login_response_get cmd_auth_reply_eq)
  have "registered (w_auth (logged_in S (ca_id a) cid w)) =
      (registered (w_auth w))(ca_id a \<mapsto> new_client (w_rng w) (w_auth w) (ca_id a) cid)" if ok
    using registered_logged_in [OF server_env.order [OF assms(1)] assms(6)] that assms(14) by simp
  then show ?thesis
    using click calls srv a2
    by - (rule exI [of _ "create_packet cmd_auth buff"], rule exI [of _ a1],
      rule exI [of _ "answered c cmd_auth out (if ok then logged_in S (ca_id a) cid w else w)"],
      rule exI [of _ "create_packet cmd_auth out"], rule exI [of _ a2], simp)
qed

theorem login_end_to_end_witness:
  "\<exists>req a1 w1 resp a2. on_login_frame_callback sample_cenv ''login:pass'' sample_capp = Inr a1 \<and>
    server_gets sample_env 5 sample_obj req sample_start = Some w1 \<and>
    registered (w_auth w1) = [9 \<mapsto> new_client (\<lambda>i. 97) (w_auth sample_start) 9 5] \<and>
    client_gets sample_cenv resp a1 = Some a2 \<and>
    ca_session a2 = replicate 32 CHR ''a'' \<and> screen_of (ca_gui a2) = (Offline, True)"
proof -
  have env: "env_json sample_env = ce_json sample_cenv" "ca_id sample_capp = 9"
    "screen_of (ca_gui sample_capp) = (Offline, False)" "w_rng sample_start = (\<lambda>i. 97)"
    "pv_login (w_auth sample_start) = ''login''" "pv_pass (w_auth sample_start) = ''pass''"
    by (simp_all add: sample_env_def sample_cenv_def sample_capp_def plain_load_ui sample_start_def)
  have session: "generate_session (\<lambda>i. 97) = replicate 32 CHR ''a''"
    by (simp add: generate_session_def session_length_def map_replicate_const char_of_def)
  have data: "c_str (ce_as_char sample_cenv ''login:pass'') = ''login'' @ CHR '':'' # ''pass''"
    by (simp add: sample_cenv_def c_str_def)
  have send: "0 \<le> ce_send sample_cenv s b" for s b by (simp add: sample_cenv_def)
  show ?thesis
    using login_end_to_end [OF sample.server_env_axioms csample.client_env_ok_axioms env(1)
        sample_capp_inv env(3) sample_inv(1) data, of True 5 sample_obj] send
    by (simp add: env session sample_registered) blast
qed

section \<open>A message to everybody\<close>

text \<open>C17: a message on its way to a logged-in client: the server's packet for that client is
  dispatched by its thread and appears in its output field, under the login of the client
  itself; nothing is sent back and the screen stays.\<close>

theorem broadcast_reaches_window:
  assumes "server_env S" "client_env_ok C view" "env_json S = ce_json C"
    and "app_inv w" "utf8_valid text" "r \<in> set (get_clients (w_auth w) Auth_accepted)"
    and "map_of (w_clients w) (ac_cookie r) = Some ref" "w_objs w ref = Some obj"
    and "client_inv C view a"
  shows "\<exists>pkt a'. delivery S w text r = [Sys_send (cb_socket obj) pkt] \<and>
    client_gets C pkt a = Some a' \<and>
    v_value (view (ca_gui a')) Output_field = v_value (view (ca_gui a)) Output_field @
      ce_wx_string C (ac_login r) @ '': '' @ ce_wx_string C text @ [CHR 0x0A] \<and>
    ca_calls a' = ca_calls a \<and> screen_of (view (ca_gui a')) = screen_of (view (ca_gui a))"
proof -
  obtain buff where buff: "packer_to (env_json S) (broadcast_request text r) = Inr buff" "buff \<noteq> []"
    "packer_from (ce_json C) server_msg_request buff = Inr (broadcast_request text r)"
    using broadcast_packs [OF assms(1,4,5,6)] assms(3) by auto
  have get: "get_string (broadcast_request text r) ''sender_login'' = ac_login r"
    "get_string (broadcast_request text r) ''body'' = text"
    by (simp_all add: broadcast_request_members get_string_def)
  have "delivery S w text r = [Sys_send (cb_socket obj) (create_packet cmd_msg buff)]"
    using assms(7,8) buff(1) by (simp add: delivery_def)
  then show ?thesis
    using message_shown_unchecked [OF assms(2,9) buff(3), of "cb_socket (ca_tcp a)" "[]"]
      client_gets_packet [OF buff(2) commands_mem(3)]
    by (auto simp: get)
qed

theorem broadcast_reaches_window_witness:
  "\<exists>pkt a'. delivery sample_env sample_world ''hi'' sample_client = [Sys_send 5 pkt] \<and>
    client_gets sample_cenv pkt sample_capp = Some a' \<and>
    v_value (ca_gui a') Output_field = v_value (ca_gui sample_capp) Output_field @ ''login: hi'' @ [CHR 0x0A]"
proof -
  have c: "ac_cookie sample_client = 5" "ac_login sample_client = ''login''"
    by (simp_all add: sample_client_def new_client_def sample_start_def)
  have w: "w_clients sample_world = [(5, 0)]" "w_objs sample_world 0 = Some sample_obj"
    by (simp_all add: sample_world_def sample_start_def)
  have e: "env_json sample_env = ce_json sample_cenv" "ce_wx_string sample_cenv s = s"
    "cb_socket sample_obj = 5" for s
    by (simp_all add: sample_env_def sample_cenv_def sample_obj_def server_client_def)
  show ?thesis
    using broadcast_reaches_window [OF sample.server_env_axioms csample.client_env_ok_axioms e(1)
        sample_inv(2), of "''hi''" sample_client 0 sample_obj sample_capp] sample_capp_inv
    by (auto simp: sample_accepted c w e)
qed

end
